(* ===== verification/Prelude.thy ===== *)
theory Prelude
  imports Main "HOL-Library.Finite_Map" "HOL-Library.List_Lexorder" "HOL-Library.Char_ord"
    "HOL-Library.Monad_Syntax"
begin

text \<open>
  Shared ground of the development: the collections of rewrite rules the component proofs use,
  and the generic facts on lists, options and finite maps that several components share.

  A Go \<^verbatim>\<open>map[string]T\<close> is a finite map \<open>(string, 'a) fmap\<close>; a Go set
  \<^verbatim>\<open>map[string]struct{}\<close> is a finite set; \<^verbatim>\<open>slices.Sorted(maps.Keys(m))\<close> is
  \<open>sorted_keys m\<close> (strings are byte strings, and their order is the lexicographic one).
  \<^verbatim>\<open>maps.Copy(dst, src)\<close> is \<open>dst ++\<^sub>f src\<close>.
\<close>

named_theorems frame_simps "how an operation of the engine changes the parts of its state"
named_theorems count_simps "how an operation changes the counters of a run"

type_synonym 'a gomap = "(string, 'a) fmap"

abbreviation sorted_keys :: "'a gomap \<Rightarrow> string list" where
  "sorted_keys m \<equiv> sorted_list_of_fset (fmdom m)"

text \<open>The entries of a map in the order of its keys\<close>

definition sorted_entries :: "'a gomap \<Rightarrow> (string \<times> 'a) list" where
  "sorted_entries m = List.map_filter (\<lambda>k. map_option (Pair k) (fmlookup m k)) (sorted_keys m)"

abbreviation in_bounds :: "nat \<Rightarrow> 'a list \<Rightarrow> bool" where
  "in_bounds i xs \<equiv> i < length xs"

subsection \<open>Lists\<close>

lemma nth_list_update_cases:
  "xs[i := v] ! j = (if i = j \<and> j < length xs then v else xs ! j)"
  by (cases "i < length xs") (auto simp: list_update_beyond)

lemma distinct_Cons_hd: "distinct (x # xs) \<Longrightarrow> x \<notin> set xs"
  by simp

lemma sum_list_update_nat:
  "i < length xs \<Longrightarrow> sum_list (xs[i := v]) + xs ! i = sum_list xs + (v :: nat)"
proof (induction xs arbitrary: i)
  case (Cons x xs)
  then show ?case by (cases i) (auto simp: algebra_simps)
qed simp

lemma length_filter_update:
  assumes "i < length xs"
  shows "length (filter P (xs[i := v])) + (if P (xs ! i) then 1 else 0) =
         length (filter P xs) + (if P v then 1 else 0)"
  using assms
proof (induction xs arbitrary: i)
  case (Cons x xs)
  then show ?case by (cases i) (auto split: if_splits)
qed simp

lemma map_list_update_same: "f v = f (xs ! i) \<Longrightarrow> map f (xs[i := v]) = map f xs"
  by (cases "i < length xs") (simp_all add: map_update list_update_beyond, metis list_update_id map_update)

lemma set_update_memE:
  assumes "x \<in> set (xs[i := v])"
  obtains "x = v" | "x \<in> set xs"
  using assms set_update_subset_insert by fastforce

subsection \<open>Options\<close>

lemma bind_eq_SomeE:
  assumes "Option.bind m f = Some y"
  obtains x where "m = Some x" and "f x = Some y"
  using assms by (auto simp: Option.bind_eq_Some_conv)

subsection \<open>Finite maps\<close>

lemma distinct_sorted_list_of_fset [simp]: "distinct (sorted_list_of_fset A)"
  by (simp add: sorted_list_of_fset.rep_eq)

lemma fmdrop_fmupd_self [simp]: "fmdrop k (fmupd k v m) = fmdrop k m"
  by (rule fmap_ext) simp

lemma fmlookup_dom_Some: "k |\<in>| fmdom m \<longleftrightarrow> (\<exists>v. fmlookup m k = Some v)"
  by (auto simp: fmlookup_dom_iff)

lemma sorted_entries_lookup: "(k, v) \<in> set (sorted_entries m) \<longleftrightarrow> fmlookup m k = Some v"
  by (auto simp: sorted_entries_def List.map_filter_def fmlookup_dom_iff intro!: image_eqI [of _ _ k])

lemma sorted_entries_distinct: "distinct (map fst (sorted_entries m))"
proof -
  have "map fst (List.map_filter (\<lambda>k. map_option (Pair k) (fmlookup m k)) ks) = filter (\<lambda>k. k |\<in>| fmdom m) ks" for ks
    by (induction ks) (auto simp: fmlookup_dom_Some List.map_filter_def split: option.splits)
  then show ?thesis unfolding sorted_entries_def by simp
qed

lemma fold_fmupd_lookup:
  "distinct (map fst es) \<Longrightarrow> fmlookup (fold (\<lambda>(k, v). fmupd k v) es m) k =
     (case map_of es k of Some v \<Rightarrow> Some v | None \<Rightarrow> fmlookup m k)"
proof (induction es arbitrary: m)
  case (Cons e es)
  obtain a b where e: "e = (a, b)" by (cases e)
  then have "map_of es a = None" using Cons.prems by (simp add: map_of_eq_None_iff)
  then show ?case using Cons.IH [of "fmupd a b m"] Cons.prems e by (auto split: option.split)
qed simp

text \<open>Putting the entries of a map into an empty one gives the map back.\<close>

lemma fold_sorted_entries: "fold (\<lambda>(k, v). fmupd k v) (sorted_entries m) fmempty = m"
proof (rule fmap_ext)
  fix k
  have "map_of (sorted_entries m) k = Some v \<longleftrightarrow> fmlookup m k = Some v" for v
    by (simp only: map_of_eq_Some_iff [OF sorted_entries_distinct] sorted_entries_lookup)
  then have "map_of (sorted_entries m) k = fmlookup m k" by (metis not_None_eq)
  then show "fmlookup (fold (\<lambda>(k, v). fmupd k v) (sorted_entries m) fmempty) k = fmlookup m k"
    by (simp add: fold_fmupd_lookup [OF sorted_entries_distinct] split: option.split)
qed

end
