(* ===== verification/Values.thy ===== *)
theory Values
  imports Prelude
begin

text \<open>
  Workflow data and Go error values.

  \<open>val\<close> is the \<^verbatim>\<open>any\<close> of the engine: the YAML/JSON shapes, a \<^verbatim>\<open>time.Duration\<close> in
  nanoseconds, and \<open>VOther\<close> for every other Go value (a struct, a function). Cloning a value (\<^verbatim>\<open>workflow.Clone\<close>) is the identity here:
  values of the logic share no memory.

  \<open>goerr\<close> is the tree of a Go error: leaves, the two context sentinels, sentinels of the
  engine, \<^verbatim>\<open>fmt.Errorf("...: %w")\<close> wrappers, \<^verbatim>\<open>errors.Join\<close> nodes, the attempt timeout of
  engine/retry.go, and \<open>Foreign\<close> for an error of a step, which may carry HTTP request metadata,
  outputs for a retry condition, and an error it unwraps to. A nil error is \<open>None\<close>.
\<close>

subsection \<open>Values\<close>

datatype val =
    VNil
  | VBool bool
  | VInt int
  | VFloat rat
  | VStr string
  | VList "val list"
  | VMap "(string, val) fmap"
  | VDuration int
  | VOther string

type_synonym vmap = "(string, val) fmap"

definition vmap_of :: "(string \<times> val) list \<Rightarrow> val" where
  "vmap_of kvs = VMap (fmap_of_list kvs)"

text \<open>workflow.ActionDataValue: the value consists of nil, scalars, lists and string maps.\<close>

primrec actionDataValue :: "val \<Rightarrow> bool" where
  "actionDataValue VNil = True"
| "actionDataValue (VBool _) = True"
| "actionDataValue (VInt _) = True"
| "actionDataValue (VFloat _) = True"
| "actionDataValue (VStr _) = True"
| "actionDataValue (VList items) = list_all id (map actionDataValue items)"
| "actionDataValue (VMap m) = fmpred (\<lambda>_ b. b) (fmmap actionDataValue m)"
| "actionDataValue (VDuration _) = False"
| "actionDataValue (VOther _) = False"

subsection \<open>Errors\<close>

record http_meta =
  http_method :: string
  http_status :: int
  http_retry_after :: int

datatype goerr =
    Err string
  | Canceled
  | DeadlineExceeded
  | BackgroundStopped
  | BackgroundEnded
  | ServiceAborted
  | Wrapped string goerr
  | Joined "goerr list"
  | AttemptTimeout int "goerr option"
  | Foreign string "http_meta option" "vmap option" "goerr option"

definition error_children :: "goerr \<Rightarrow> goerr list" where
  "error_children e = (case e of
     Wrapped _ inner \<Rightarrow> [inner]
   | Joined es \<Rightarrow> es
   | AttemptTimeout _ None \<Rightarrow> [DeadlineExceeded]
   | AttemptTimeout _ (Some cause) \<Rightarrow> [DeadlineExceeded, cause]
   | Foreign _ _ _ (Some inner) \<Rightarrow> [inner]
   | _ \<Rightarrow> [])"

lemma size_error_child [termination_simp]: "c \<in> set (error_children e) \<Longrightarrow> size c < size e"
  by (auto simp: error_children_def less_Suc_eq_le size_list_estimation' split: goerr.splits option.splits)

text \<open>errors.Is: the target occurs in the tree.\<close>

fun err_is :: "goerr \<Rightarrow> goerr \<Rightarrow> bool" where
  "err_is e target = (e = target \<or> (\<exists>c \<in> set (error_children e). err_is c target))"

declare err_is.simps [simp del]

text \<open>errors.Join drops nil errors, and joins nothing to nil.\<close>

definition errors_join :: "goerr option list \<Rightarrow> goerr option" where
  "errors_join es = (let present = List.map_filter id es in
     if present = [] then None else Some (Joined present))"

text \<open>
  engine/cancel_on.go, cancellationOnly: a join is walked branch by branch, a wrapper through
  its single child, and a leaf defers to errors.Is.
\<close>

fun cancellationOnly :: "goerr \<Rightarrow> bool" where
  "cancellationOnly (Joined es) = (es \<noteq> [] \<and> (\<forall>c \<in> set es. cancellationOnly c))"
| "cancellationOnly (AttemptTimeout d None) = cancellationOnly DeadlineExceeded"
| "cancellationOnly (AttemptTimeout d (Some c)) = (cancellationOnly DeadlineExceeded \<and> cancellationOnly c)"
| "cancellationOnly (Wrapped _ e) = cancellationOnly e"
| "cancellationOnly (Foreign _ _ _ (Some e)) = cancellationOnly e"
| "cancellationOnly e = err_is e Canceled"

definition cancellation_only :: "goerr option \<Rightarrow> bool" where
  "cancellation_only e = (case e of None \<Rightarrow> False | Some e' \<Rightarrow> cancellationOnly e')"

subsection \<open>Texts of errors\<close>

text \<open>
  The text of an error (\<^verbatim>\<open>err.Error()\<close>) is workflow data: conditions and catch branches see it. A
  wrapper prints its prefix, a colon and its cause; a join prints one line per error.
  \<open>go_quote\<close> is \<^verbatim>\<open>%q\<close>: bytes from 128 on are kept, which is what Go does for printable UTF-8.
  \<open>duration_text\<close> is time.Duration.String on nanoseconds.
\<close>

definition hex_digit :: "nat \<Rightarrow> char" where
  "hex_digit n = (if n < 10 then char_of (48 + n) else char_of (87 + n))"

definition quote_char :: "char \<Rightarrow> string" where
  "quote_char c = (let n = of_char c :: nat in
     if c = CHR 0x22 then [CHR 0x5C, CHR 0x22]
     else if c = CHR 0x5C then [CHR 0x5C, CHR 0x5C]
     else if n = 7 then [CHR 0x5C, CHR ''a'']
     else if n = 8 then [CHR 0x5C, CHR ''b'']
     else if n = 9 then [CHR 0x5C, CHR ''t'']
     else if n = 10 then [CHR 0x5C, CHR ''n'']
     else if n = 11 then [CHR 0x5C, CHR ''v'']
     else if n = 12 then [CHR 0x5C, CHR ''f'']
     else if n = 13 then [CHR 0x5C, CHR ''r'']
     else if n < 32 \<or> n = 127 then [CHR 0x5C, CHR ''x'', hex_digit (n div 16), hex_digit (n mod 16)]
     else [c])"

definition go_quote :: "string \<Rightarrow> string" where
  "go_quote s = [CHR 0x22] @ concat (map quote_char s) @ [CHR 0x22]"

fun nat_text :: "nat \<Rightarrow> string" where
  "nat_text n = (if n < 10 then [char_of (48 + n)] else nat_text (n div 10) @ [char_of (48 + n mod 10)])"

declare nat_text.simps [simp del]

definition int_text :: "int \<Rightarrow> string" where
  "int_text i = (if i < 0 then ''-'' @ nat_text (nat (- i)) else nat_text (nat i))"

fun fixed_digits :: "nat \<Rightarrow> nat \<Rightarrow> string" where
  "fixed_digits 0 n = []"
| "fixed_digits (Suc k) n = fixed_digits k (n div 10) @ [char_of (48 + n mod 10)]"

definition fraction_text :: "nat \<Rightarrow> nat \<Rightarrow> string" where
  "fraction_text n prec =
     (let ds = rev (dropWhile (\<lambda>c. c = CHR ''0'') (rev (fixed_digits prec n)))
      in if ds = [] then [] else ''.'' @ ds)"

definition duration_text :: "int \<Rightarrow> string" where
  "duration_text d = (let u = nat \<bar>d\<bar>; sign = (if d < 0 then ''-'' else []) in
     if u = 0 then ''0s''
     else if u < 1000 then sign @ nat_text u @ ''ns''
     else if u < 1000000 then
       sign @ nat_text (u div 1000) @ fraction_text (u mod 1000) 3 @ [CHR 0xC2, CHR 0xB5] @ ''s''
     else if u < 1000000000 then
       sign @ nat_text (u div 1000000) @ fraction_text (u mod 1000000) 6 @ ''ms''
     else
       (let secs = u div 1000000000; frac = fraction_text (u mod 1000000000) 9;
            mins = secs div 60; hours = mins div 60
        in sign @ (if hours > 0 then nat_text hours @ ''h'' else []) @
           (if mins > 0 then nat_text (mins mod 60) @ ''m'' else []) @
           nat_text (secs mod 60) @ frac @ ''s''))"

fun join_lines :: "string list \<Rightarrow> string" where
  "join_lines [] = []"
| "join_lines [l] = l"
| "join_lines (l # ls) = l @ [CHR 0x0A] @ join_lines ls"

fun err_text :: "goerr \<Rightarrow> string" where
  "err_text (Err s) = s"
| "err_text Canceled = ''context canceled''"
| "err_text DeadlineExceeded = ''context deadline exceeded''"
| "err_text BackgroundStopped = ''background work stopped by workflow lifecycle''"
| "err_text BackgroundEnded = ''background service ended its workflow scope''"
| "err_text ServiceAborted = ''service aborted before it started''"
| "err_text (Wrapped prefix e) = prefix @ '': '' @ err_text e"
| "err_text (Joined es) = join_lines (map err_text es)"
| "err_text (AttemptTimeout d _) = ''timed out after '' @ duration_text d @ '': context deadline exceeded''"
| "err_text (Foreign s _ _ _) = s"

subsection \<open>Execution status\<close>

datatype exec_status =
  StatusRunning | StatusSucceeded | StatusFailed | StatusTimedOut | StatusCanceled | StatusSkipped

definition statusFromError :: "goerr option \<Rightarrow> exec_status" where
  "statusFromError err = (case err of
     None \<Rightarrow> StatusSucceeded
   | Some e \<Rightarrow>
       if err_is e DeadlineExceeded then StatusTimedOut
       else if err_is e Canceled then StatusCanceled
       else StatusFailed)"

fun status_text :: "exec_status \<Rightarrow> string" where
  "status_text StatusRunning = ''running''"
| "status_text StatusSucceeded = ''succeeded''"
| "status_text StatusFailed = ''failed''"
| "status_text StatusTimedOut = ''timed_out''"
| "status_text StatusCanceled = ''canceled''"
| "status_text StatusSkipped = ''skipped''"

end
