(* ===== verification/Steps.thy ===== *)
theory Steps
  imports Values
begin

text \<open>
  The declaration tree of a workflow (workflow/types.go, workflow/control.go, workflow/attempt.go,
  workflow/children.go).

  The Go struct \<^verbatim>\<open>Step\<close> is a tagged union: structure validation admits exactly one of its control
  fields. Here the common fields are the record \<open>step_meta\<close>, the control is a constructor of
  \<open>step_body\<close>, and attached \<^verbatim>\<open>defer\<close> steps are the last component. An absent list of deferred steps
  is the empty list.
\<close>

subsection \<open>Groups\<close>

record step_meta =
  step_id :: string
  needs :: "string list"
  after :: "string list"
  if_cond :: string

text \<open>workflow.ConcurrentGroup\<close>

record concurrent_group =
  conc_max_concurrency :: nat
  conc_timeout :: "int option"
  conc_fail_fast :: bool

text \<open>The shared policy fields of workflow.BatchGroup, workflow.ForeachGroup and workflow.MatrixGroup\<close>

record fan_policy =
  fan_collect :: string
  fan_max_concurrency :: int
  fan_max_iterations :: int
  fan_timeout :: "int option"
  fan_fail_fast :: bool

text \<open>workflow.BatchSize and workflow.MatrixAxis\<close>

record batch_size =
  size_literal :: int
  size_expression :: string

record matrix_axis =
  axis_name :: string
  axis_literal :: "val list"
  axis_expression :: string

text \<open>workflow.LoopGroup with workflow.LoopDelay\<close>

record loop_group =
  loop_until :: string
  loop_delay_literal :: int
  loop_delay_expression :: string
  loop_max_iterations :: int
  loop_timeout :: "int option"

text \<open>A Go \<^verbatim>\<open>float64\<close> option: a finite value, an infinity or not a number.\<close>

datatype go_float = Finite rat | PosInf | NegInf | NaN

text \<open>workflow.AttemptDuration, AttemptCount and AttemptFactor share one shape\<close>

record 'a attempt_option =
  opt_literal :: 'a
  opt_expression :: string
  opt_declared :: bool

definition option_set :: "'a attempt_option \<Rightarrow> bool" where
  "option_set v = (opt_declared v \<or> opt_expression v \<noteq> [])"

text \<open>workflow.StatusRange and workflow.AttemptControl\<close>

record status_range =
  status_from :: int
  status_to :: int

record attempt_control =
  att_duration :: "int attempt_option"
  att_timeout :: "int attempt_option"
  att_max_attempts :: "int attempt_option"
  att_initial_delay :: "int attempt_option"
  att_backoff :: "go_float attempt_option"
  att_max_delay :: "int attempt_option"
  att_jitter :: "go_float attempt_option"
  att_when :: string
  att_methods :: "string list"
  att_statuses :: "status_range list"
  att_until :: string
  att_interval :: "int attempt_option"
  att_max_elapsed :: "int attempt_option"
  att_operation_id :: string
  att_has_duration :: bool
  att_has_methods :: bool
  att_has_statuses :: bool

text \<open>workflow.ActionSource\<close>

record action_source =
  src_url :: string
  src_path :: string
  src_github :: string
  src_plugin :: string
  src_token :: string
  src_command :: string
  src_args :: "string list"

text \<open>workflow.EnvironmentValue, EnvironmentUnset and EnvironmentOperation\<close>

record env_value =
  env_literal :: "string option"
  env_expression :: string

record env_unset =
  unset_patterns :: "string list option"
  unset_expression :: string

record env_operation =
  op_set :: "(string, env_value) fmap option"
  op_unset :: "env_unset option"

text \<open>workflow.ReturnControl, WorktreeGroup, OnceGroup and ObserveGroup, without their steps\<close>

record return_control =
  ret_to :: string
  ret_outputs :: "string gomap option"

record worktree_group =
  wt_revision :: string
  wt_path :: string
  wt_publish_branch :: "string option"

record once_group =
  once_key :: string
  once_scope :: string
  once_on_busy :: string

record observe_group =
  obs_source_type :: string
  obs_debounce :: int
  obs_on_change :: string
  obs_on_error :: string
  obs_has_debounce :: bool

subsection \<open>Steps\<close>

datatype step =
  Step (meta: step_meta) (body: step_body) (deferred: "step list")
and step_body =
    Leaf string vmap
  | Uses action_source vmap
  | ExecutorBlock string vmap "step list" "step list"
  | EnvBlock "env_operation list" "step list"
  | WorkDirBlock string "step list"
  | WorktreeBlock worktree_group "step list"
  | CondBlock "step list"
  | ReturnStep return_control
  | ConcurrentBlock concurrent_group "step list"
  | BatchCtl string batch_size fan_policy "step list"
  | ForeachCtl string fan_policy "step list"
  | MatrixCtl "matrix_axis list" fan_policy "step list"
  | LoopCtl loop_group "step list"
  | OnceCtl once_group "step list"
  | AttemptCtl attempt_control "step list"
  | CancelOnCtl string "step list" "step list"
  | ObserveCtl observe_group "step list"
  | TryCatchCtl "step list" "step list"

abbreviation sid :: "step \<Rightarrow> string" where "sid s \<equiv> step_id (meta s)"
abbreviation scond :: "step \<Rightarrow> string" where "scond s \<equiv> if_cond (meta s)"

text \<open>workflow.ChildRole\<close>

datatype child_role =
  ChildSteps | ChildFinally | ChildDefer | ChildMonitors | ChildTry | ChildCatch

text \<open>
  Step.childSequenceRefs and Step.ChildSequences: the nested sequences a step owns. An executor's
  body precedes its finally sequence, and attached defer steps come last; try/catch, observe and
  cancel_on carry none.
\<close>

definition with_deferred :: "step \<Rightarrow> (child_role \<times> step list) list \<Rightarrow> (child_role \<times> step list) list" where
  "with_deferred s children =
     (if deferred s \<noteq> [] then children @ [(ChildDefer, deferred s)] else children)"

definition childSequences :: "step \<Rightarrow> (child_role \<times> step list) list" where
  "childSequences s = (case body s of
     TryCatchCtl try catch \<Rightarrow> [(ChildTry, try), (ChildCatch, catch)]
   | ExecutorBlock _ _ steps final \<Rightarrow> with_deferred s [(ChildSteps, steps), (ChildFinally, final)]
   | WorktreeBlock _ steps \<Rightarrow> with_deferred s [(ChildSteps, steps)]
   | EnvBlock _ steps \<Rightarrow> with_deferred s [(ChildSteps, steps)]
   | WorkDirBlock _ steps \<Rightarrow> with_deferred s [(ChildSteps, steps)]
   | CondBlock steps \<Rightarrow> with_deferred s [(ChildSteps, steps)]
   | ConcurrentBlock _ steps \<Rightarrow> with_deferred s [(ChildSteps, steps)]
   | BatchCtl _ _ _ steps \<Rightarrow> with_deferred s [(ChildSteps, steps)]
   | ForeachCtl _ _ steps \<Rightarrow> with_deferred s [(ChildSteps, steps)]
   | MatrixCtl _ _ steps \<Rightarrow> with_deferred s [(ChildSteps, steps)]
   | LoopCtl _ steps \<Rightarrow> with_deferred s [(ChildSteps, steps)]
   | AttemptCtl _ steps \<Rightarrow> with_deferred s [(ChildSteps, steps)]
   | OnceCtl _ steps \<Rightarrow> with_deferred s [(ChildSteps, steps)]
   | ObserveCtl _ steps \<Rightarrow> [(ChildSteps, steps)]
   | CancelOnCtl _ monitors steps \<Rightarrow> [(ChildMonitors, monitors), (ChildSteps, steps)]
   | Leaf _ _ \<Rightarrow> with_deferred s []
   | Uses _ _ \<Rightarrow> with_deferred s []
   | ReturnStep _ \<Rightarrow> with_deferred s [])"

lemma size_child_sequence [termination_simp]:
  assumes "(role, child) \<in> set (childSequences s)"
  shows "size_list size child < size s"
  using assms
  by (cases s) (auto simp: childSequences_def with_deferred_def split: step_body.splits if_splits)

lemma size_in_list [termination_simp]: "x \<in> set xs \<Longrightarrow> size x < Suc (size_list size xs)"
  by (induction xs) auto

text \<open>The predicates of workflow/types.go on the control of a step, and the \<^verbatim>\<open>Steps\<close> and
  \<^verbatim>\<open>Finally\<close> fields of block steps.\<close>

definition isExecutorBlock :: "step \<Rightarrow> bool" where
  "isExecutorBlock s = (case body s of ExecutorBlock _ _ _ _ \<Rightarrow> True | _ \<Rightarrow> False)"

definition isEnvironmentBlock :: "step \<Rightarrow> bool" where
  "isEnvironmentBlock s = (case body s of EnvBlock _ _ \<Rightarrow> True | _ \<Rightarrow> False)"

definition isWorkingDirectoryBlock :: "step \<Rightarrow> bool" where
  "isWorkingDirectoryBlock s = (case body s of WorkDirBlock _ _ \<Rightarrow> True | _ \<Rightarrow> False)"

definition isWorktreeBlock :: "step \<Rightarrow> bool" where
  "isWorktreeBlock s = (case body s of WorktreeBlock _ _ \<Rightarrow> True | _ \<Rightarrow> False)"

definition isConditionalBlock :: "step \<Rightarrow> bool" where
  "isConditionalBlock s = (case body s of CondBlock _ \<Rightarrow> True | _ \<Rightarrow> False)"

definition isConcurrent :: "step \<Rightarrow> bool" where
  "isConcurrent s = (case body s of ConcurrentBlock _ _ \<Rightarrow> True | _ \<Rightarrow> False)"

definition isReturn :: "step \<Rightarrow> bool" where
  "isReturn s = (case body s of ReturnStep _ \<Rightarrow> True | _ \<Rightarrow> False)"

definition isAttempt :: "step \<Rightarrow> bool" where
  "isAttempt s = (case body s of AttemptCtl _ _ \<Rightarrow> True | _ \<Rightarrow> False)"

definition block_steps :: "step \<Rightarrow> step list" where
  "block_steps s = (case body s of
     ExecutorBlock _ _ steps _ \<Rightarrow> steps | EnvBlock _ steps \<Rightarrow> steps
   | WorkDirBlock _ steps \<Rightarrow> steps | CondBlock steps \<Rightarrow> steps | _ \<Rightarrow> [])"

definition finally_steps :: "step \<Rightarrow> step list" where
  "finally_steps s = (case body s of ExecutorBlock _ _ _ final \<Rightarrow> final | _ \<Rightarrow> [])"

lemma size_block_steps: "size_list size (block_steps s) < size s" "size_list size (finally_steps s) < size s"
    "size_list size (deferred s) < size s"
  by (cases s; auto simp: block_steps_def finally_steps_def split: step_body.splits)+

lemma size_list_tail: "size_list size (rest :: step list) < size_list size (s # rest)"
  by (cases s) simp

lemma size_list_head: "n < size s \<Longrightarrow> n < size_list size ((s :: step) # rest)"
  by simp

text \<open>engine/stats.go, transparentChildSequences: blocks whose children count in their place.\<close>

definition isTransparent :: "step \<Rightarrow> bool" where
  "isTransparent s = (isExecutorBlock s \<or> isEnvironmentBlock s \<or> isWorkingDirectoryBlock s
     \<or> isConditionalBlock s \<or> isConcurrent s)"

definition transparentChildSequences :: "step \<Rightarrow> (child_role \<times> step list) list option" where
  "transparentChildSequences s = (if isTransparent s then Some (childSequences s) else None)"

text \<open>The steps a sequence of transparent children holds, in order.\<close>

definition child_steps :: "step \<Rightarrow> step list" where
  "child_steps s = concat (map snd (childSequences s))"

lemma size_list_append_steps: "size_list f (xs @ ys) = size_list f xs + size_list f ys"
  by (induction xs) auto

lemma size_child_steps: "size_list size (child_steps s) < size s"
  by (cases s) (auto simp: child_steps_def childSequences_def with_deferred_def size_list_append_steps
      split: step_body.splits)

lemma size_child_step [termination_simp]:
  assumes "c \<in> set child" "(role, child) \<in> set (childSequences s)"
  shows "size c < size s"
  using size_child_sequence [OF assms(2)] size_in_list [OF assms(1)] by simp

text \<open>engine/stats.go, leafStepCount\<close>

function (sequential) leafStepCount :: "step list \<Rightarrow> nat" where
  "leafStepCount [] = 0"
| "leafStepCount (s # rest) =
     (case transparentChildSequences s of
        Some children \<Rightarrow> sum_list (map (\<lambda>c. leafStepCount (snd c)) children)
      | None \<Rightarrow> if isReturn s then 0 else 1) + leafStepCount rest"
  by pat_completeness auto
termination
  by (relation "measure (size_list size)")
    (auto simp: transparentChildSequences_def dest: size_child_sequence split: if_splits)

text \<open>engine/engine.go, executionKind and skippedStepKind\<close>

fun executionKind :: "step \<Rightarrow> string" where
  "executionKind (Step _ (TryCatchCtl _ _) _) = ''try''"
| "executionKind (Step _ (CancelOnCtl _ _ _) _) = ''cancel_on''"
| "executionKind (Step _ (ObserveCtl _ _) _) = ''observe''"
| "executionKind (Step _ (WorktreeBlock _ _) _) = ''worktree''"
| "executionKind (Step _ (OnceCtl _ _) _) = ''once''"
| "executionKind (Step _ (AttemptCtl _ _) _) = ''attempt''"
| "executionKind (Step _ (Uses _ _) _) = ''uses''"
| "executionKind (Step _ (Leaf type _) _) = type"
| "executionKind _ = []"

fun skippedStepKind :: "step \<Rightarrow> string" where
  "skippedStepKind (Step _ (BatchCtl _ _ _ _) _) = ''batch''"
| "skippedStepKind (Step _ (ForeachCtl _ _ _) _) = ''foreach''"
| "skippedStepKind (Step _ (MatrixCtl _ _ _) _) = ''matrix''"
| "skippedStepKind s = executionKind s"

end
