(* ===== verification/SiblingGraph.thy ===== *)
theory SiblingGraph
  imports Steps
begin

text \<open>
  The sibling DAG of a concurrent group: validation of its edges (workflow/types.go,
  \<^verbatim>\<open>validateConcurrentNeeds\<close>) and the graph the scheduler runs on (engine/concurrent.go,
  \<^verbatim>\<open>newConcurrentGraph\<close>). Branches are positions in the declaration list. A \<^verbatim>\<open>needs\<close>
  edge orders and passes state; an \<^verbatim>\<open>after\<close> edge only orders.

  The main facts: validation accepts exactly the groups whose edges are known, free of duplicates
  and acyclic; the predecessor and successor lists of the graph describe the same edges with the
  same multiplicities (locale \<open>edge_lists\<close>); and decrementing a counter along successor
  lists makes exactly the nodes ready whose last open edge closed (\<open>decrement_spec\<close>), which
  is the step both Kahn's algorithm and the scheduler are made of.
\<close>

subsection \<open>Resolving sibling names\<close>

text \<open>The \<^verbatim>\<open>ids\<close> map both functions build: named steps by position, a later one wins.\<close>

fun index_ids :: "nat \<Rightarrow> step list \<Rightarrow> nat gomap \<Rightarrow> nat gomap" where
  "index_ids i [] m = m"
| "index_ids i (s # ss) m = index_ids (Suc i) ss (if sid s \<noteq> [] then fmupd (sid s) i m else m)"

definition sibling_ids :: "step list \<Rightarrow> nat gomap" where
  "sibling_ids steps = index_ids 0 steps fmempty"

definition resolve :: "nat gomap \<Rightarrow> string list \<Rightarrow> nat list" where
  "resolve ids names = List.map_filter (fmlookup ids) names"

lemma index_ids_range:
  assumes "\<And>k j. fmlookup m k = Some j \<Longrightarrow> j < i" and "fmlookup (index_ids i ss m) k = Some j"
  shows "j < i + length ss"
  using assms
proof (induction i ss m rule: index_ids.induct)
  case (2 i s ss m)
  have "j < Suc i + length ss"
    by (rule "2.IH") (use "2.prems" in \<open>auto split: if_splits dest: less_SucI\<close>)
  then show ?case by simp
qed simp

lemma sibling_ids_range: "fmlookup (sibling_ids steps) k = Some j \<Longrightarrow> j < length steps"
  using index_ids_range [of fmempty 0 steps k j] by (simp add: sibling_ids_def)

lemma index_ids_name:
  assumes "\<And>k j. fmlookup m k = Some j \<Longrightarrow> j < i \<and> sid (xs ! j) = k" and "length xs = i"
    and "fmlookup (index_ids i ss m) k = Some j"
  shows "sid ((xs @ ss) ! j) = k"
  using assms
proof (induction i ss m arbitrary: xs rule: index_ids.induct)
  case (1 i m)
  then show ?case by (auto simp: nth_append)
next
  case (2 i s ss m)
  have "sid (((xs @ [s]) @ ss) ! j) = k"
    by (rule "2.IH") (use "2.prems" in \<open>force simp: nth_append split: if_splits\<close>)+
  then show ?case by simp
qed

lemma sibling_ids_name: "fmlookup (sibling_ids steps) k = Some j \<Longrightarrow> sid (steps ! j) = k"
  using index_ids_name [of fmempty 0 "[]" steps k j] by (simp add: sibling_ids_def)

lemma resolve_range: "j \<in> set (resolve (sibling_ids steps) names) \<Longrightarrow> j < length steps"
  by (auto simp: resolve_def List.map_filter_def dest: sibling_ids_range)

subsection \<open>Counters along edges\<close>

text \<open>
  Both schedulers count open edges per node and decrement along the successor list of a node that
  closed; a node whose counter reaches zero is appended to the ready list. \<open>ok\<close> is the test
  whether a node still takes part.
\<close>

fun decrement :: "(nat \<Rightarrow> bool) \<Rightarrow> nat list \<Rightarrow> int list \<times> nat list \<Rightarrow> int list \<times> nat list" where
  "decrement ok [] st = st"
| "decrement ok (d # ds) (open_edges, ready) =
     (if \<not> ok d then decrement ok ds (open_edges, ready)
      else let left = open_edges ! d - 1
           in decrement ok ds (open_edges[d := left], if left = 0 then ready @ [d] else ready))"

lemma decrement_append:
  "decrement ok (xs @ ys) st = decrement ok ys (decrement ok xs st)"
  by (induction ok xs st rule: decrement.induct) (simp_all add: Let_def)

lemma decrement_spec:
  assumes "\<And>i. ok i \<Longrightarrow> i \<in> set ds \<Longrightarrow> i < length rem \<and> int (count_list ds i) \<le> rem ! i"
    and "decrement ok ds (rem, rdy) = (rem', rdy')"
  shows "length rem' = length rem
    \<and> (\<forall>i. rem' ! i = (if ok i then rem ! i - int (count_list ds i) else rem ! i))
    \<and> (\<exists>new. rdy' = rdy @ new \<and> distinct new
         \<and> set new = {i \<in> set ds. ok i \<and> rem ! i = int (count_list ds i)})"
  using assms
proof (induction ds arbitrary: rem rdy)
  case Nil
  then show ?case by auto
next
  case (Cons d ds)
  show ?case
  proof (cases "ok d")
    case False
    have "length rem' = length rem
      \<and> (\<forall>i. rem' ! i = (if ok i then rem ! i - int (count_list ds i) else rem ! i))
      \<and> (\<exists>new. rdy' = rdy @ new \<and> distinct new
           \<and> set new = {i \<in> set ds. ok i \<and> rem ! i = int (count_list ds i)})"
    proof (rule Cons.IH)
      show "i < length rem \<and> int (count_list ds i) \<le> rem ! i" if "ok i" "i \<in> set ds" for i
        using Cons.prems(1) [of i] that by (auto split: if_splits)
    qed (use False Cons.prems(2) in simp)
    moreover have "{i \<in> set (d # ds). ok i \<and> rem ! i = int (count_list (d # ds) i)} =
                   {i \<in> set ds. ok i \<and> rem ! i = int (count_list ds i)}"
      using False by auto
    ultimately show ?thesis using False by auto
  next
    case ok: True
    define rem1 where "rem1 = rem[d := rem ! d - 1]"
    have d: "d < length rem" "int (count_list ds d) + 1 \<le> rem ! d"
      using Cons.prems(1) [of d] ok by auto
    have rem1: "length rem1 = length rem" "rem1 ! i = (if i = d then rem ! d - 1 else rem ! i)" for i
      using d by (auto simp: rem1_def nth_list_update)
    have run: "decrement ok ds (rem1, if rem ! d - 1 = 0 then rdy @ [d] else rdy) = (rem', rdy')"
      using Cons.prems(2) ok by (simp add: rem1_def Let_def)
    have "length rem' = length rem1
      \<and> (\<forall>i. rem' ! i = (if ok i then rem1 ! i - int (count_list ds i) else rem1 ! i))
      \<and> (\<exists>new. rdy' = (if rem ! d - 1 = 0 then rdy @ [d] else rdy) @ new \<and> distinct new
           \<and> set new = {i \<in> set ds. ok i \<and> rem1 ! i = int (count_list ds i)})"
    proof (rule Cons.IH [OF _ run])
      show "i < length rem1 \<and> int (count_list ds i) \<le> rem1 ! i" if "ok i" "i \<in> set ds" for i
        using Cons.prems(1) [of i] that rem1 by (auto split: if_splits)
    qed
    then obtain new where len: "length rem' = length rem" and
      vals: "\<And>i. rem' ! i = (if ok i then rem1 ! i - int (count_list ds i) else rem1 ! i)" and
      new: "rdy' = (if rem ! d - 1 = 0 then rdy @ [d] else rdy) @ new" "distinct new"
        "set new = {i \<in> set ds. ok i \<and> rem1 ! i = int (count_list ds i)}"
      using rem1(1) by auto
    have vals': "rem' ! i = (if ok i then rem ! i - int (count_list (d # ds) i) else rem ! i)" for i
      using vals [of i] rem1(2) [of i] ok by auto
    have mem: "d \<in> set ds \<longleftrightarrow> count_list ds d \<noteq> 0"
      by (simp add: count_list_0_iff)
    have target: "{i \<in> set (d # ds). ok i \<and> rem ! i = int (count_list (d # ds) i)} =
       (if rem ! d - 1 = 0 then {d} else {}) \<union> {i \<in> set ds. ok i \<and> rem1 ! i = int (count_list ds i)}"
    proof (rule set_eqI)
      fix i
      show "i \<in> {i \<in> set (d # ds). ok i \<and> rem ! i = int (count_list (d # ds) i)} \<longleftrightarrow>
        i \<in> (if rem ! d - 1 = 0 then {d} else {}) \<union> {i \<in> set ds. ok i \<and> rem1 ! i = int (count_list ds i)}"
      proof (cases "i = d")
        case True
        then show ?thesis using d(2) mem ok rem1(2) [of d]
          by (simp split: if_splits; linarith)
      next
        case False
        then show ?thesis using rem1(2) [of i] by (simp split: if_splits)
      qed
    qed
    show ?thesis
    proof (cases "rem ! d - 1 = 0")
      case z: True
      then have "d \<notin> set ds" using d(2) mem by linarith
      then show ?thesis using z new len vals' target by (intro conjI exI [of _ "d # new"]) auto
    next
      case False
      then show ?thesis using new len vals' target by (intro conjI exI [of _ new]) auto
    qed
  qed
qed

text \<open>A pass over a successor list never raises the open edges plus the ready nodes: the reason both
  loops end.\<close>

definition counter_weight :: "int list \<Rightarrow> nat" where
  "counter_weight xs = sum_list (map nat xs)"

lemma counter_weight_update:
  "d < length xs \<Longrightarrow> counter_weight (xs[d := v]) + nat (xs ! d) = counter_weight xs + nat v"
  using sum_list_update_nat [of d "map nat xs" "nat v"] by (simp add: counter_weight_def map_update)

lemma decrement_weight:
  assumes "\<And>d. ok d \<Longrightarrow> d < length rem" and "decrement ok ds (rem, rdy) = (rem', rdy')"
  shows "counter_weight rem' + length rdy' \<le> counter_weight rem + length rdy \<and> length rem' = length rem"
  using assms
proof (induction ds arbitrary: rem rdy)
  case (Cons d ds)
  show ?case
  proof (cases "ok d")
    case False
    then show ?thesis using Cons.IH [of rem rdy] Cons.prems by simp
  next
    case True
    let ?rem = "rem[d := rem ! d - 1]" and ?rdy = "if rem ! d - 1 = 0 then rdy @ [d] else rdy"
    have "counter_weight rem' + length rdy' \<le> counter_weight ?rem + length ?rdy \<and> length rem' = length ?rem"
      by (rule Cons.IH) (use Cons.prems True in \<open>simp_all add: Let_def\<close>)
    moreover have "counter_weight ?rem + length ?rdy \<le> counter_weight rem + length rdy"
      using counter_weight_update [of d rem "rem ! d - 1"] Cons.prems(1) [OF True] by auto
    ultimately show ?thesis by simp
  qed
qed simp

subsection \<open>Edge lists\<close>

text \<open>The loop over the declared edges: edge \<open>(d, i)\<close> says branch \<open>i\<close> waits for \<open>d\<close>; recording it
  appends \<open>i\<close> to the dependents of \<open>d\<close>.\<close>

definition link_edge :: "nat \<times> nat \<Rightarrow> nat list list \<Rightarrow> nat list list" where
  "link_edge e deps = deps[fst e := deps ! fst e @ [snd e]]"

definition edge_list :: "nat list list \<Rightarrow> (nat \<times> nat) list" where
  "edge_list preds = concat (map (\<lambda>i. map (\<lambda>d. (d, i)) (preds ! i)) [0..<length preds])"

definition successors :: "nat list list \<Rightarrow> nat list list" where
  "successors preds = fold link_edge (edge_list preds) (replicate (length preds) [])"

definition edge_set :: "nat list list \<Rightarrow> (nat \<times> nat) set" where
  "edge_set preds = {(j, i). i < length preds \<and> j \<in> set (preds ! i)}"

locale edge_lists =
  fixes n :: nat and preds :: "nat list list" and succs :: "nat list list"
  assumes length_preds: "length preds = n"
    and length_succs: "length succs = n"
    and preds_range: "i < n \<Longrightarrow> j \<in> set (preds ! i) \<Longrightarrow> j < n"
    and succs_range: "i < n \<Longrightarrow> j \<in> set (succs ! i) \<Longrightarrow> j < n"
    and same_edges: "i < n \<Longrightarrow> j < n \<Longrightarrow> count_list (succs ! i) j = count_list (preds ! j) i"
begin

lemma mem_succs: "i < n \<Longrightarrow> j \<in> set (succs ! i) \<longleftrightarrow> j < n \<and> i \<in> set (preds ! j)"
  using succs_range same_edges by (metis count_list_0_iff)

lemma edges_finite: "finite (edge_set preds)"
  by (rule finite_subset [of _ "{..<n} \<times> {..<n}"]) (auto simp: edge_set_def preds_range length_preds)

text \<open>An acyclic graph has, in every non-empty set of nodes, a node with no predecessor in it.\<close>

lemma minimal_node:
  assumes "acyclic (edge_set preds)" and "x \<in> U" and "U \<subseteq> {..<n}"
  obtains i where "i \<in> U" and "\<And>j. j \<in> set (preds ! i) \<Longrightarrow> j \<notin> U"
proof -
  have "wf (edge_set preds)"
    using edges_finite assms(1) by (rule finite_acyclic_wf)
  then obtain i where "i \<in> U" "\<And>j. (j, i) \<in> edge_set preds \<Longrightarrow> j \<notin> U"
    using assms(2) by (metis wfE_min)
  with that [of i] show ?thesis
    using assms(3) by (auto simp: edge_set_def length_preds)
qed

end

lemma count_list_map_Pair: "count_list (map (\<lambda>d. (d, i)) xs) (a, b) = (if i = b then count_list xs a else 0)"
  by (induction xs) auto

lemma count_edges_upto:
  "count_list (concat (map (\<lambda>i. map (\<lambda>d. (d, i)) (preds ! i)) [0..<m])) (d, i) =
     (if i < m then count_list (preds ! i) d else 0)"
  by (induction m) (auto simp: count_list_append count_list_map_Pair)

lemma count_edge_list: "i < length preds \<Longrightarrow> count_list (edge_list preds) (d, i) = count_list (preds ! i) d"
  by (simp add: edge_list_def count_edges_upto)

lemma set_edge_list: "set (edge_list preds) = edge_set preds"
  by (auto simp: edge_list_def edge_set_def)

lemma fold_link_edge:
  assumes "\<And>d i. (d, i) \<in> set es \<Longrightarrow> d < length deps" and "d < length deps"
  shows "length (fold link_edge es deps) = length deps
    \<and> count_list (fold link_edge es deps ! d) i = count_list (deps ! d) i + count_list es (d, i)
    \<and> set (fold link_edge es deps ! d) = set (deps ! d) \<union> {i. (d, i) \<in> set es}"
  using assms
proof (induction es arbitrary: deps)
  case (Cons e es)
  have step: "length (link_edge e deps) = length deps"
    "link_edge e deps ! d = deps ! d @ (if d = fst e then [snd e] else [])"
    using Cons.prems(2) by (auto simp: link_edge_def nth_list_update_cases)
  have "length (fold link_edge es (link_edge e deps)) = length (link_edge e deps)
    \<and> count_list (fold link_edge es (link_edge e deps) ! d) i =
        count_list (link_edge e deps ! d) i + count_list es (d, i)
    \<and> set (fold link_edge es (link_edge e deps) ! d) = set (link_edge e deps ! d) \<union> {i. (d, i) \<in> set es}"
    by (rule Cons.IH) (use Cons.prems step(1) in auto)
  then show ?case
    unfolding fold_simps step by (cases e) (auto simp: count_list_append)
qed simp

lemma edge_lists_successors:
  assumes range: "\<And>i j. i < length preds \<Longrightarrow> j \<in> set (preds ! i) \<Longrightarrow> j < length preds"
  shows "edge_lists (length preds) preds (successors preds)"
proof -
  have es: "d < length preds \<and> i < length preds" if "(d, i) \<in> set (edge_list preds)" for d i
    using that range by (auto simp: set_edge_list edge_set_def)
  have fold: "length (successors preds) = length preds
    \<and> count_list (successors preds ! d) i = count_list (edge_list preds) (d, i)
    \<and> set (successors preds ! d) = {i. (d, i) \<in> set (edge_list preds)}" if "d < length preds" for d i
    using fold_link_edge [of "edge_list preds" "replicate (length preds) []" d i] es that
    by (auto simp: successors_def)
  show ?thesis
  proof
    show "length (successors preds) = length preds"
      using fold [of 0] by (cases preds) (auto simp: successors_def edge_list_def)
    show "j < length preds" if "i < length preds" "j \<in> set (preds ! i)" for i j
      using range that .
    show "j < length preds" if "i < length preds" "j \<in> set (successors preds ! i)" for i j
      using fold [OF that(1)] that(2) es by auto
    show "count_list (successors preds ! i) j = count_list (preds ! j) i"
      if "i < length preds" "j < length preds" for i j
      using fold [OF that(1), of j] count_edge_list [OF that(2)] by simp
  qed simp
qed

subsection \<open>Kahn's loop\<close>

text \<open>The second half of validateConcurrentNeeds: visit ready nodes, close their edges, and count.\<close>

function (sequential) kahn :: "nat list list \<Rightarrow> nat list \<Rightarrow> int list \<Rightarrow> nat \<Rightarrow> nat \<times> int list" where
  "kahn succs [] indegree visited = (visited, indegree)"
| "kahn succs (i # ready) indegree visited =
     (let (indegree', ready') = decrement (\<lambda>d. d < length indegree) (succs ! i) (indegree, ready)
      in kahn succs ready' indegree' (Suc visited))"
  by pat_completeness auto
termination
proof (relation "measure (\<lambda>(_, ready, indegree, _). counter_weight indegree + length ready)", goal_cases)
  case (2 succs i ready indegree visited p indegree' ready')
  then show ?case
    using decrement_weight [of "\<lambda>d. d < length indegree" indegree "succs ! i" ready indegree' ready'] by auto
qed simp

definition open_preds :: "nat list list \<Rightarrow> nat list \<Rightarrow> nat \<Rightarrow> int" where
  "open_preds preds visited i = int (length (filter (\<lambda>j. j \<notin> set visited) (preds ! i)))"

definition topological :: "nat list list \<Rightarrow> nat list \<Rightarrow> bool" where
  "topological preds order \<longleftrightarrow>
     (\<forall>k < length order. \<forall>j \<in> set (preds ! (order ! k)). j \<in> set (take k order))"

definition kahn_inv :: "nat list list \<Rightarrow> nat list \<Rightarrow> nat list \<Rightarrow> int list \<Rightarrow> bool" where
  "kahn_inv preds order ready indegree \<longleftrightarrow>
     distinct (order @ ready) \<and> set (order @ ready) \<subseteq> {..<length preds} \<and>
     length indegree = length preds \<and>
     (\<forall>i < length preds. indegree ! i = open_preds preds order i) \<and>
     (\<forall>i < length preds. indegree ! i = 0 \<longrightarrow> i \<in> set (order @ ready)) \<and>
     (\<forall>i \<in> set (order @ ready). indegree ! i = 0) \<and>
     topological preds order"

lemma filter_remove_count:
  "\<not> P x \<Longrightarrow> length (filter (\<lambda>j. \<not> P j) xs) =
     length (filter (\<lambda>j. \<not> (P j \<or> j = x)) xs) + count_list xs x"
  by (induction xs) auto

lemma topological_snoc:
  "topological preds (order @ [i]) \<longleftrightarrow> topological preds order \<and> set (preds ! i) \<subseteq> set order"
  by (auto simp: topological_def less_Suc_eq nth_append)

lemma open_preds_zero: "open_preds preds order i = 0 \<longleftrightarrow> set (preds ! i) \<subseteq> set order"
  by (auto simp: open_preds_def filter_empty_conv)

context edge_lists
begin

lemma open_preds_snoc:
  assumes "i < n" "i \<notin> set order" "j < n"
  shows "open_preds preds (order @ [i]) j = open_preds preds order j - int (count_list (succs ! i) j)"
    and "int (count_list (succs ! i) j) \<le> open_preds preds order j"
proof -
  have "length (filter (\<lambda>k. k \<notin> set order) (preds ! j)) =
      length (filter (\<lambda>k. k \<notin> set (order @ [i])) (preds ! j)) + count_list (succs ! i) j"
    using filter_remove_count [of "\<lambda>k. k \<in> set order" i "preds ! j"] assms same_edges [of i j]
    by (simp add: disj_commute)
  then show "open_preds preds (order @ [i]) j = open_preds preds order j - int (count_list (succs ! i) j)"
    and "int (count_list (succs ! i) j) \<le> open_preds preds order j"
    by (simp_all add: open_preds_def)
qed

lemma kahn_step:
  assumes inv: "kahn_inv preds order (i # ready) indegree"
    and step: "decrement (\<lambda>d. d < length indegree) (succs ! i) (indegree, ready) = (indegree', ready')"
  shows "kahn_inv preds (order @ [i]) ready' indegree'"
proof -
  have i: "i < n" "i \<notin> set order" and len: "length indegree = n"
    and ind: "\<And>j. j < n \<Longrightarrow> indegree ! j = open_preds preds order j"
    and zero: "\<And>j. j < n \<Longrightarrow> indegree ! j = 0 \<Longrightarrow> j \<in> set (order @ i # ready)"
    and zero': "\<And>j. j \<in> set (order @ i # ready) \<Longrightarrow> indegree ! j = 0"
    and dist: "distinct (order @ i # ready)" and range: "set (order @ i # ready) \<subseteq> {..<n}"
    and top: "topological preds order"
    using inv length_preds by (auto simp: kahn_inv_def)
  have bound: "j < n \<and> int (count_list (succs ! i) j) \<le> indegree ! j" if "j \<in> set (succs ! i)" for j
    using that succs_range [OF i(1)] open_preds_snoc(2) [OF i] ind by auto
  have raw: "length indegree' = length indegree
    \<and> (\<forall>j. indegree' ! j = (if j < length indegree then indegree ! j - int (count_list (succs ! i) j) else indegree ! j))
    \<and> (\<exists>new. ready' = ready @ new \<and> distinct new
         \<and> set new = {j \<in> set (succs ! i). j < length indegree \<and> indegree ! j = int (count_list (succs ! i) j)})"
    by (rule decrement_spec [OF _ step]) (use bound len in auto)
  then obtain new where new: "ready' = ready @ new" "distinct new"
      and mem: "\<And>j. j \<in> set new \<longleftrightarrow> j \<in> set (succs ! i) \<and> indegree ! j = int (count_list (succs ! i) j)"
    using bound len by blast
  have len': "length indegree' = n"
    and ind': "\<And>j. j < n \<Longrightarrow> indegree' ! j = indegree ! j - int (count_list (succs ! i) j)"
    using raw len by auto
  have pos: "indegree ! j > 0" if "j \<in> set (succs ! i)" for j
  proof -
    have "count_list (succs ! i) j \<noteq> 0" using that by (simp add: count_list_0_iff)
    then show ?thesis using bound [OF that] by linarith
  qed
  have fresh: "set new \<inter> set (order @ i # ready) = {}"
    using pos zero' mem by fastforce
  have opn': "indegree' ! j = open_preds preds (order @ [i]) j" if "j < n" for j
    using ind' [OF that] ind [OF that] open_preds_snoc(1) [OF i that] by simp
  have same: "indegree' ! j = 0" if "j \<in> set (order @ i # ready) \<union> set new" for j
  proof (cases "j \<in> set new")
    case True
    then show ?thesis using mem bound ind' by simp
  next
    case False
    with that have j: "j \<in> set (order @ i # ready)" by blast
    then have "j \<notin> set (succs ! i)" using pos zero' [OF j] by force
    then show ?thesis using ind' [of j] zero' [OF j] j range by (auto simp: count_list_0_iff)
  qed
  have conv: "j \<in> set (order @ i # ready) \<union> set new" if "j < n" "indegree' ! j = 0" for j
  proof (cases "j \<in> set (succs ! i)")
    case True
    then show ?thesis using ind' [OF that(1)] that mem by simp
  next
    case False
    then show ?thesis using ind' [OF that(1)] that zero [OF that(1)] by (auto simp: count_list_0_iff)
  qed
  have preds_i: "set (preds ! i) \<subseteq> set order"
    using zero' [of i] ind [OF i(1)] by (simp add: open_preds_zero)
  have sets: "set ((order @ [i]) @ ready') = set (order @ i # ready) \<union> set new"
    using new(1) by auto
  have dist': "distinct ((order @ [i]) @ ready')"
    using new dist fresh by auto
  have range': "set ((order @ [i]) @ ready') \<subseteq> {..<n}"
    unfolding sets using range mem bound by blast
  have top': "topological preds (order @ [i])"
    using top preds_i by (simp add: topological_snoc)
  show ?thesis
    unfolding kahn_inv_def length_preds sets
    using dist' range' [unfolded sets] len' opn' conv same top' by blast
qed

lemma kahn_final:
  assumes "kahn_inv preds order ready indegree" and "kahn succs ready indegree (length order) = (v, indegree')"
  shows "\<exists>final. kahn_inv preds final [] indegree' \<and> v = length final"
  using assms
proof (induction "counter_weight indegree + length ready" arbitrary: order ready indegree rule: less_induct)
  case less
  show ?case
  proof (cases ready)
    case Nil
    then show ?thesis using less.prems by auto
  next
    case (Cons i rest)
    obtain ind1 rdy1 where step:
      "decrement (\<lambda>d. d < length indegree) (succs ! i) (indegree, rest) = (ind1, rdy1)"
      by fastforce
    have weight: "counter_weight ind1 + length rdy1 < counter_weight indegree + length ready"
      using decrement_weight [OF _ step] Cons by simp
    have run: "kahn succs rdy1 ind1 (length (order @ [i])) = (v, indegree')"
      using less.prems(2) step Cons by simp
    show ?thesis
      by (rule less.hyps [OF weight _ run]) (rule kahn_step [OF _ step], use less.prems(1) Cons in simp)
  qed
qed

end

end
