(* ===== verification/NeedsValidation.thy ===== *)
theory NeedsValidation
  imports SiblingGraph
begin

text \<open>
  Validation of a concurrent group (workflow/types.go, \<^verbatim>\<open>ConcurrentGroup.Validate\<close> and
  \<^verbatim>\<open>validateConcurrentNeeds\<close>). Every early return is a constructor of \<open>needs_error\<close>. The main fact,
  \<open>validateConcurrentNeeds_iff\<close>, is that the checks accept exactly the groups whose step ids are
  distinct, whose edges name other siblings without repetition, and whose edges have no cycle.
\<close>

subsection \<open>The validator\<close>

datatype needs_error =
    DuplicateId nat nat string
  | DuplicateNeed string string
  | UnknownNeed string string
  | SelfNeed string
  | DuplicateAfter string string
  | NeedAndAfter string string
  | UnknownAfter string string
  | SelfAfter string
  | EdgeCycle "string list"

definition concurrentStepLabel :: "step \<Rightarrow> nat \<Rightarrow> string" where
  "concurrentStepLabel s index = (if sid s \<noteq> [] then sid s else ''branch '' @ nat_text (index + 1))"

fun check_ids :: "nat \<Rightarrow> step list \<Rightarrow> nat gomap \<Rightarrow> needs_error + nat gomap" where
  "check_ids index [] ids = Inr ids"
| "check_ids index (s # ss) ids =
     (if sid s = [] then check_ids (Suc index) ss ids
      else case fmlookup ids (sid s) of
        Some previous \<Rightarrow> Inl (DuplicateId (previous + 1) (index + 1) (sid s))
      | None \<Rightarrow> check_ids (Suc index) ss (fmupd (sid s) index ids))"

text \<open>The in-degrees and the dependents, and the recording of one edge in both.\<close>

type_synonym edge_graph = "int list \<times> nat list list"

definition add_edge :: "nat \<times> nat \<Rightarrow> edge_graph \<Rightarrow> edge_graph" where
  "add_edge e g = ((fst g)[snd e := fst g ! snd e + 1], link_edge e (snd g))"

fun check_needs :: "nat gomap \<Rightarrow> string \<Rightarrow> nat \<Rightarrow> string fset \<Rightarrow> string list \<Rightarrow> edge_graph
    \<Rightarrow> needs_error + string fset \<times> edge_graph" where
  "check_needs ids label index seen [] g = Inr (seen, g)"
| "check_needs ids label index seen (need # rest) g =
     (if need |\<in>| seen then Inl (DuplicateNeed label need)
      else case fmlookup ids need of
        None \<Rightarrow> Inl (UnknownNeed label need)
      | Some dependency \<Rightarrow>
          if dependency = index then Inl (SelfNeed label)
          else check_needs ids label index (finsert need seen) rest (add_edge (dependency, index) g))"

fun check_after :: "nat gomap \<Rightarrow> string \<Rightarrow> nat \<Rightarrow> string fset \<Rightarrow> string fset \<Rightarrow> string list \<Rightarrow> edge_graph
    \<Rightarrow> needs_error + edge_graph" where
  "check_after ids label index seen ordered [] g = Inr g"
| "check_after ids label index seen ordered (sibling # rest) g =
     (if sibling |\<in>| ordered then Inl (DuplicateAfter label sibling)
      else if sibling |\<in>| seen then Inl (NeedAndAfter label sibling)
      else case fmlookup ids sibling of
        None \<Rightarrow> Inl (UnknownAfter label sibling)
      | Some dependency \<Rightarrow>
          if dependency = index then Inl (SelfAfter label)
          else check_after ids label index seen (finsert sibling ordered) rest (add_edge (dependency, index) g))"

fun check_edges :: "nat gomap \<Rightarrow> nat \<Rightarrow> step list \<Rightarrow> edge_graph \<Rightarrow> needs_error + edge_graph" where
  "check_edges ids index [] g = Inr g"
| "check_edges ids index (s # ss) g =
     (let label = concurrentStepLabel s index in
      case check_needs ids label index {||} (needs (meta s)) g of
        Inl e \<Rightarrow> Inl e
      | Inr (seen, g1) \<Rightarrow>
          (case check_after ids label index seen {||} (after (meta s)) g1 of
             Inl e \<Rightarrow> Inl e
           | Inr g2 \<Rightarrow> check_edges ids (Suc index) ss g2))"

definition validateConcurrentNeeds :: "step list \<Rightarrow> needs_error + unit" where
  "validateConcurrentNeeds steps =
     (case check_ids 0 steps fmempty of
        Inl e \<Rightarrow> Inl e
      | Inr ids \<Rightarrow>
          (case check_edges ids 0 steps (replicate (length steps) 0, replicate (length steps) []) of
             Inl e \<Rightarrow> Inl e
           | Inr (indegree, dependents) \<Rightarrow>
               (let ready = filter (\<lambda>i. indegree ! i = 0) [0..<length steps];
                    (visited, left) = kahn dependents ready indegree 0
                in if visited = length steps then Inr ()
                   else Inl (EdgeCycle (map (\<lambda>i. concurrentStepLabel (steps ! i) i)
                               (filter (\<lambda>i. left ! i > 0) [0..<length steps]))))))"

datatype group_error =
    TooFewSteps | ConcurrencyRange | TimeoutRange | NeedsError needs_error

definition ConcurrentGroup_Validate :: "concurrent_group \<Rightarrow> step list \<Rightarrow> group_error + unit" where
  "ConcurrentGroup_Validate g steps =
     (if length steps < 2 then Inl TooFewSteps
      else if conc_max_concurrency g < 1 \<or> conc_max_concurrency g > 100 then Inl ConcurrencyRange
      else if (case conc_timeout g of Some t \<Rightarrow> t \<le> 0 | None \<Rightarrow> False) then Inl TimeoutRange
      else case validateConcurrentNeeds steps of Inl e \<Rightarrow> Inl (NeedsError e) | Inr u \<Rightarrow> Inr u)"

subsection \<open>What the checks establish\<close>

definition named_ids :: "step list \<Rightarrow> string list" where
  "named_ids steps = filter (\<lambda>x. x \<noteq> []) (map sid steps)"

lemma check_ids_iff:
  "check_ids i ss m = Inr m' \<longleftrightarrow>
     distinct (named_ids ss) \<and> (\<forall>x \<in> set (named_ids ss). fmlookup m x = None) \<and> m' = index_ids i ss m"
  by (induction i ss m rule: check_ids.induct) (auto simp: named_ids_def split: option.splits)

lemma index_ids_dom:
  "fmdom' (index_ids i ss m) = fmdom' m \<union> set (named_ids ss)"
  by (induction i ss m rule: index_ids.induct) (auto simp: named_ids_def)

lemma lookup_sibling_ids: "x \<in> set (named_ids steps) \<Longrightarrow> \<exists>j. fmlookup (sibling_ids steps) x = Some j"
  using index_ids_dom [of 0 steps fmempty] by (metis UnCI fmdom'I fmlookup_dom'_iff sibling_ids_def)

lemma distinct_named_inj:
  assumes "distinct (named_ids steps)" "i < length steps" "j < length steps"
    and "sid (steps ! i) = sid (steps ! j)" "sid (steps ! i) \<noteq> []"
  shows "i = j"
  using assms
proof (induction steps arbitrary: i j)
  case (Cons s ss)
  have fresh: "sid s \<noteq> sid (ss ! k)" if "k < length ss" "sid s \<noteq> []" for k
    using that Cons.prems(1) by (auto simp: named_ids_def)
  have tail: "distinct (named_ids ss)" using Cons.prems(1) by (auto simp: named_ids_def split: if_splits)
  show ?case
  proof (cases i)
    case 0
    then show ?thesis using fresh Cons.prems by (cases j) auto
  next
    case (Suc i')
    then show ?thesis
    proof (cases j)
      case 0
      then show ?thesis using Suc fresh [of i'] Cons.prems by auto
    next
      case (Suc j')
      then show ?thesis using \<open>i = Suc i'\<close> Cons.IH [OF tail, of i' j'] Cons.prems by simp
    qed
  qed
qed simp

definition names_sibling :: "step list \<Rightarrow> nat \<Rightarrow> string \<Rightarrow> bool" where
  "names_sibling steps i x \<longleftrightarrow> x \<noteq> [] \<and> (\<exists>j < length steps. j \<noteq> i \<and> sid (steps ! j) = x)"

lemma sibling_ids_dom_nonempty: "fmlookup (sibling_ids steps) x = Some j \<Longrightarrow> x \<noteq> []"
  using index_ids_dom [of 0 steps fmempty] by (auto simp: sibling_ids_def named_ids_def dest: fmdom'I)

lemma lookup_iff_names_sibling:
  assumes "distinct (named_ids steps)" "i < length steps"
  shows "(\<exists>d. fmlookup (sibling_ids steps) x = Some d \<and> d \<noteq> i) \<longleftrightarrow> names_sibling steps i x"
proof
  assume "\<exists>d. fmlookup (sibling_ids steps) x = Some d \<and> d \<noteq> i"
  then show "names_sibling steps i x"
    unfolding names_sibling_def using sibling_ids_range sibling_ids_name sibling_ids_dom_nonempty by blast
next
  assume "names_sibling steps i x"
  then obtain j where j: "j < length steps" "j \<noteq> i" "sid (steps ! j) = x" "x \<noteq> []"
    by (auto simp: names_sibling_def)
  then have "x \<in> set (named_ids steps)" by (auto simp: named_ids_def)
  then obtain d where d: "fmlookup (sibling_ids steps) x = Some d" using lookup_sibling_ids by blast
  have "d = j"
    using distinct_named_inj [OF assms(1) sibling_ids_range [OF d] j(1)] sibling_ids_name [OF d] j by simp
  then show "\<exists>d. fmlookup (sibling_ids steps) x = Some d \<and> d \<noteq> i" using d j by blast
qed

lemma check_needs_iff:
  "check_needs ids label i seen ns g = Inr (seen', g') \<longleftrightarrow>
     distinct ns \<and> (\<forall>x \<in> set ns. x |\<notin>| seen) \<and> (\<forall>x \<in> set ns. \<exists>d. fmlookup ids x = Some d \<and> d \<noteq> i)
     \<and> seen' = seen |\<union>| fset_of_list ns
     \<and> g' = fold add_edge (map (\<lambda>d. (d, i)) (resolve ids ns)) g"
  by (induction ids label i seen ns g rule: check_needs.induct)
    (auto simp: resolve_def List.map_filter_simps split: option.splits)

lemma check_after_iff:
  "check_after ids label i seen ordered ns g = Inr g' \<longleftrightarrow>
     distinct ns \<and> (\<forall>x \<in> set ns. x |\<notin>| ordered \<and> x |\<notin>| seen)
     \<and> (\<forall>x \<in> set ns. \<exists>d. fmlookup ids x = Some d \<and> d \<noteq> i)
     \<and> g' = fold add_edge (map (\<lambda>d. (d, i)) (resolve ids ns)) g"
  by (induction ids label i seen ordered ns g rule: check_after.induct)
    (auto simp: resolve_def List.map_filter_simps split: option.splits)

text \<open>The branches a branch waits for, and the local conditions on one branch's edges.\<close>

definition waits :: "nat gomap \<Rightarrow> step \<Rightarrow> nat list" where
  "waits ids s = resolve ids (needs (meta s)) @ resolve ids (after (meta s))"

definition edges_ok :: "nat gomap \<Rightarrow> nat \<Rightarrow> step \<Rightarrow> bool" where
  "edges_ok ids i s \<longleftrightarrow> distinct (needs (meta s) @ after (meta s)) \<and>
     (\<forall>x \<in> set (needs (meta s) @ after (meta s)). \<exists>d. fmlookup ids x = Some d \<and> d \<noteq> i)"

fun edges_from :: "nat gomap \<Rightarrow> nat \<Rightarrow> step list \<Rightarrow> (nat \<times> nat) list" where
  "edges_from ids i [] = []"
| "edges_from ids i (s # ss) = map (\<lambda>d. (d, i)) (waits ids s) @ edges_from ids (Suc i) ss"

fun edges_ok_from :: "nat gomap \<Rightarrow> nat \<Rightarrow> step list \<Rightarrow> bool" where
  "edges_ok_from ids i [] = True"
| "edges_ok_from ids i (s # ss) = (edges_ok ids i s \<and> edges_ok_from ids (Suc i) ss)"

lemma check_edges_iff:
  "check_edges ids i ss g = Inr g' \<longleftrightarrow> edges_ok_from ids i ss \<and> g' = fold add_edge (edges_from ids i ss) g"
proof (induction ss arbitrary: i g)
  case (Cons s ss)
  let ?seen = "fset_of_list (needs (meta s))"
  let ?needs = "\<lambda>g. fold add_edge (map (\<lambda>d. (d, i)) (resolve ids (needs (meta s)))) g"
  show ?case
  proof (cases "check_needs ids (concurrentStepLabel s i) i {||} (needs (meta s)) g")
    case (Inl e)
    then have "\<not> edges_ok ids i s"
      using check_needs_iff [of ids "concurrentStepLabel s i" i "{||}" "needs (meta s)" g ?seen "?needs g"]
      by (auto simp: edges_ok_def)
    then show ?thesis using Inl by simp
  next
    case (Inr p)
    then obtain seen g1 where p: "p = (seen, g1)" by (cases p)
    have n: "distinct (needs (meta s))" "\<forall>x \<in> set (needs (meta s)). \<exists>d. fmlookup ids x = Some d \<and> d \<noteq> i"
        "seen = ?seen" "g1 = ?needs g"
      using Inr check_needs_iff [of ids "concurrentStepLabel s i" i "{||}" "needs (meta s)" g seen g1] p by auto
    show ?thesis
    proof (cases "check_after ids (concurrentStepLabel s i) i seen {||} (after (meta s)) g1")
      case (Inl e)
      then have "\<not> edges_ok ids i s"
        using check_after_iff [of ids "concurrentStepLabel s i" i seen "{||}" "after (meta s)" g1
            "fold add_edge (map (\<lambda>d. (d, i)) (resolve ids (after (meta s)))) g1"] n(3)
        by (auto simp: edges_ok_def fset_of_list_elem)
      then show ?thesis using Inl Inr p by simp
    next
      case (Inr g2)
      then have "edges_ok ids i s" "g2 = fold add_edge (map (\<lambda>d. (d, i)) (waits ids s)) g"
        using check_after_iff [of ids "concurrentStepLabel s i" i seen "{||}" "after (meta s)" g1 g2] n
        by (auto simp: edges_ok_def fset_of_list_elem waits_def)
      then show ?thesis
        using \<open>check_needs _ _ _ _ _ _ = Inr p\<close> p Inr Cons.IH [of "Suc i" g2] by simp
    qed
  qed
qed auto

lemma edges_ok_from_nth: "edges_ok_from ids i ss \<longleftrightarrow> (\<forall>k < length ss. edges_ok ids (i + k) (ss ! k))"
  by (induction ids i ss rule: edges_ok_from.induct) (simp_all add: All_less_Suc2)

text \<open>The predecessor lists of a group over both edge kinds.\<close>

definition sibling_preds :: "step list \<Rightarrow> nat list list" where
  "sibling_preds steps = map (waits (sibling_ids steps)) steps"

lemma length_sibling_preds [simp]: "length (sibling_preds steps) = length steps"
  by (simp add: sibling_preds_def)

lemma edges_from_nth:
  "edges_from ids i ss = concat (map (\<lambda>k. map (\<lambda>d. (d, i + k)) (waits ids (ss ! k))) [0..<length ss])"
  by (induction ids i ss rule: edges_from.induct) (simp_all add: upt_conv_Cons map_Suc_upt [symmetric] comp_def del: upt_Suc)

lemma edges_from_preds: "edges_from (sibling_ids steps) 0 steps = edge_list (sibling_preds steps)"
proof -
  have "map (\<lambda>k. map (\<lambda>d. (d, k)) (waits (sibling_ids steps) (steps ! k))) [0..<length steps] =
      map (\<lambda>k. map (\<lambda>d. (d, k)) (sibling_preds steps ! k)) [0..<length steps]"
    by (rule map_cong) (auto simp: sibling_preds_def)
  then have "concat (map (\<lambda>k. map (\<lambda>d. (d, k)) (waits (sibling_ids steps) (steps ! k))) [0..<length steps]) =
      concat (map (\<lambda>k. map (\<lambda>d. (d, k)) (sibling_preds steps ! k)) [0..<length steps])"
    by (rule arg_cong)
  then show ?thesis unfolding edges_from_nth edge_list_def length_sibling_preds add_0 .
qed

lemma sibling_preds_range:
  "i < length (sibling_preds steps) \<Longrightarrow> j \<in> set (sibling_preds steps ! i) \<Longrightarrow> j < length (sibling_preds steps)"
  by (auto simp: sibling_preds_def waits_def dest: resolve_range)

interpretation sibling_edges: edge_lists "length (sibling_preds steps)" "sibling_preds steps"
    "successors (sibling_preds steps)" for steps
  by (rule edge_lists_successors) (rule sibling_preds_range)

subsection \<open>The validator decides well-formedness\<close>

definition well_formed_edges :: "step list \<Rightarrow> bool" where
  "well_formed_edges steps \<longleftrightarrow> distinct (named_ids steps) \<and>
     (\<forall>i < length steps. let s = steps ! i in
        distinct (needs (meta s) @ after (meta s)) \<and>
        (\<forall>x \<in> set (needs (meta s) @ after (meta s)). names_sibling steps i x)) \<and>
     acyclic (edge_set (sibling_preds steps))"

lemma fold_add_edge:
  assumes "\<And>d i. (d, i) \<in> set es \<Longrightarrow> i < length (fst g)"
  shows "length (fst (fold add_edge es g)) = length (fst g)
    \<and> fst (fold add_edge es g) ! i = fst g ! i + int (length (filter (\<lambda>e. snd e = i) es))
    \<and> snd (fold add_edge es g) = fold link_edge es (snd g)"
  using assms
proof (induction es arbitrary: g)
  case (Cons e es)
  have "length (fst (fold add_edge es (add_edge e g))) = length (fst (add_edge e g))
    \<and> fst (fold add_edge es (add_edge e g)) ! i =
        fst (add_edge e g) ! i + int (length (filter (\<lambda>e. snd e = i) es))
    \<and> snd (fold add_edge es (add_edge e g)) = fold link_edge es (snd (add_edge e g))"
    by (rule Cons.IH) (use Cons.prems in \<open>auto simp: add_edge_def\<close>)
  moreover have "snd e < length (fst g)" using Cons.prems [of "fst e" "snd e"] by simp
  moreover have "length (fst (add_edge e g)) = length (fst g)"
      "snd (add_edge e g) = link_edge e (snd g)" by (simp_all add: add_edge_def)
  moreover have "fst (add_edge e g) ! i = fst g ! i + (if snd e = i then 1 else 0)"
    using \<open>snd e < length (fst g)\<close> by (simp add: add_edge_def nth_list_update_cases)
  ultimately show ?case by simp
qed simp

lemma filter_edge_list:
  assumes "i < length preds"
  shows "length (filter (\<lambda>e. snd e = i) (edge_list preds)) = length (preds ! i)"
proof -
  have "length (filter (\<lambda>e. snd e = i) (concat (map (\<lambda>i. map (\<lambda>d. (d, i)) (preds ! i)) [0..<m]))) =
      (if i < m then length (preds ! i) else 0)" for m
    by (induction m) (auto simp: filter_map comp_def less_Suc_eq)
  then show ?thesis using assms by (simp add: edge_list_def)
qed

lemma recorded_edges:
  assumes "g = fold add_edge (edge_list preds) (replicate (length preds) 0, replicate (length preds) [])"
  shows "snd g = successors preds" and "length (fst g) = length preds"
    and "i < length preds \<Longrightarrow> fst g ! i = int (length (preds ! i))"
  using fold_add_edge [of "edge_list preds" "(replicate (length preds) 0, replicate (length preds) [])" i]
    filter_edge_list [of i preds] assms
  by (auto simp: set_edge_list edge_set_def successors_def)

lemma topological_acyclic:
  assumes "distinct order" "set order = {..<length preds}" "topological preds order"
  shows "acyclic (edge_set preds)"
proof -
  have "\<exists>k < length order. order ! k = i" if "i < length preds" for i
    using that assms(2) by (metis in_set_conv_nth lessThan_iff)
  then obtain pos where pos: "\<And>i. i < length preds \<Longrightarrow> pos i < length order \<and> order ! pos i = i"
    by metis
  have "pos j < pos i" if edge: "(j, i) \<in> edge_set preds" for i j
  proof -
    have i: "i < length preds" and j: "j \<in> set (preds ! (order ! pos i))"
      using edge pos by (auto simp: edge_set_def)
    then have "j \<in> set (take (pos i) order)" using assms(3) pos unfolding topological_def by blast
    then obtain k where k: "k < pos i" "k < length order" "order ! k = j"
      by (auto simp: in_set_conv_nth)
    then have "j < length preds" using assms(2) by (metis lessThan_iff nth_mem)
    then have "pos j = k" using pos k assms(1) nth_eq_iff_index_eq by metis
    then show ?thesis using k by simp
  qed
  then have "edge_set preds \<subseteq> measure pos" by auto
  then show ?thesis using acyclic_subset wf_acyclic wf_measure by metis
qed

context edge_lists
begin

lemma kahn_initial:
  assumes "length indegree = n" "\<And>i. i < n \<Longrightarrow> indegree ! i = int (length (preds ! i))"
  shows "kahn_inv preds [] (filter (\<lambda>i. indegree ! i = 0) [0..<n]) indegree"
  using assms length_preds by (auto simp: kahn_inv_def open_preds_def topological_def)

text \<open>Kahn's loop visits every node exactly when the edges have no cycle.\<close>

lemma kahn_visits_all:
  assumes "length indegree = n" "\<And>i. i < n \<Longrightarrow> indegree ! i = int (length (preds ! i))"
  shows "fst (kahn succs (filter (\<lambda>i. indegree ! i = 0) [0..<n]) indegree 0) = n \<longleftrightarrow> acyclic (edge_set preds)"
proof -
  obtain v left where run: "kahn succs (filter (\<lambda>i. indegree ! i = 0) [0..<n]) indegree 0 = (v, left)"
    by (metis surj_pair)
  from kahn_final [OF kahn_initial [OF assms]] run obtain order where
    inv: "kahn_inv preds order [] left" and v: "v = length order" by auto
  have ord: "distinct order" "set order \<subseteq> {..<n}" "topological preds order"
    and closed: "\<And>i. i < n \<Longrightarrow> open_preds preds order i = 0 \<Longrightarrow> i \<in> set order"
    using inv length_preds by (auto simp: kahn_inv_def)
  have card: "card (set order) = length order" using ord(1) by (rule distinct_card)
  have full: "length order = n \<longleftrightarrow> set order = {..<n}"
    using card ord(2) by (metis card_lessThan card_subset_eq finite_lessThan)
  have "length order = n" if ac: "acyclic (edge_set preds)"
  proof (rule ccontr)
    assume "length order \<noteq> n"
    then obtain x where "x \<in> {..<n} - set order" using full ord(2) by blast
    then obtain i where i: "i \<in> {..<n} - set order" "\<And>j. j \<in> set (preds ! i) \<Longrightarrow> j \<notin> {..<n} - set order"
      by (rule minimal_node [OF ac]) auto
    moreover from this have "set (preds ! i) \<subseteq> set order" using preds_range by fastforce
    ultimately show False using closed open_preds_zero by auto
  qed
  moreover have "acyclic (edge_set preds)" if "length order = n"
    using topological_acyclic [OF ord(1) _ ord(3)] that full length_preds by simp
  ultimately show ?thesis using run v by auto
qed

end

lemma edges_ok_iff:
  assumes "distinct (named_ids steps)"
  shows "edges_ok_from (sibling_ids steps) 0 steps \<longleftrightarrow>
     (\<forall>i < length steps. let s = steps ! i in
        distinct (needs (meta s) @ after (meta s)) \<and>
        (\<forall>x \<in> set (needs (meta s) @ after (meta s)). names_sibling steps i x))"
  using lookup_iff_names_sibling [OF assms]
  unfolding edges_ok_from_nth edges_ok_def Let_def by simp

lemma sibling_graph_recorded:
  assumes "check_edges (sibling_ids steps) 0 steps (replicate (length steps) 0, replicate (length steps) []) =
      Inr (indegree, dependents)"
  shows "dependents = successors (sibling_preds steps)" and "length indegree = length steps"
    and "i < length steps \<Longrightarrow> indegree ! i = int (length (sibling_preds steps ! i))"
proof -
  have g: "(indegree, dependents) = fold add_edge (edge_list (sibling_preds steps))
      (replicate (length (sibling_preds steps)) 0, replicate (length (sibling_preds steps)) [])"
    using assms by (simp add: check_edges_iff edges_from_preds)
  show "dependents = successors (sibling_preds steps)" and "length indegree = length steps"
    and "i < length steps \<Longrightarrow> indegree ! i = int (length (sibling_preds steps ! i))"
    using recorded_edges(1,2) [OF g] recorded_edges(3) [OF g, of i] by simp_all
qed

lemma validate_iff_well_formed:
  "validateConcurrentNeeds steps = Inr () \<longleftrightarrow> well_formed_edges steps"
proof (cases "check_ids 0 steps fmempty")
  case (Inl e)
  then have "\<not> distinct (named_ids steps)"
    using check_ids_iff [of 0 steps fmempty "index_ids 0 steps fmempty"] by auto
  then show ?thesis using Inl by (simp add: validateConcurrentNeeds_def well_formed_edges_def)
next
  case ids: (Inr ids)
  then have dist: "distinct (named_ids steps)" and ids_eq: "ids = sibling_ids steps"
    using check_ids_iff [of 0 steps fmempty ids] by (auto simp: sibling_ids_def)
  let ?zero = "(replicate (length steps) 0, replicate (length steps) []) :: edge_graph"
  show ?thesis
  proof (cases "check_edges ids 0 steps ?zero")
    case (Inl e)
    then have "\<not> edges_ok_from ids 0 steps"
      using check_edges_iff [of ids 0 steps ?zero "fold add_edge (edges_from ids 0 steps) ?zero"] by auto
    then show ?thesis
      using Inl ids dist edges_ok_iff [OF dist] ids_eq by (simp add: validateConcurrentNeeds_def well_formed_edges_def)
  next
    case (Inr g)
    obtain indegree dependents where g: "g = (indegree, dependents)" by (cases g)
    have ok: "edges_ok_from ids 0 steps" using Inr by (simp add: check_edges_iff)
    have rec: "dependents = successors (sibling_preds steps)" "length indegree = length steps"
        "\<And>i. i < length steps \<Longrightarrow> indegree ! i = int (length (sibling_preds steps ! i))"
      using sibling_graph_recorded Inr g ids_eq by blast+
    obtain v left where run:
        "kahn dependents (filter (\<lambda>i. indegree ! i = 0) [0..<length steps]) indegree 0 = (v, left)"
      by (metis surj_pair)
    have "v = length steps \<longleftrightarrow> acyclic (edge_set (sibling_preds steps))"
      using sibling_edges.kahn_visits_all [where steps = steps and indegree = indegree] rec run by simp
    then show ?thesis
      using ids Inr g ok dist ids_eq edges_ok_iff [OF dist] run
      by (simp add: validateConcurrentNeeds_def well_formed_edges_def)
  qed
qed

text \<open>C7: Validation of a concurrent group is exact. It accepts a group if and only if the group has at
  least two steps, its bound is between 1 and 100, its timeout is positive, the step ids are
  distinct, every need and after names another sibling (no name twice, none in both lists), and
  the edges of both kinds together have no cycle.\<close>

theorem group_validation:
  "ConcurrentGroup_Validate g steps = Inr () \<longleftrightarrow>
     2 \<le> length steps \<and> 1 \<le> conc_max_concurrency g \<and> conc_max_concurrency g \<le> 100 \<and>
     (case conc_timeout g of None \<Rightarrow> True | Some t \<Rightarrow> t > 0) \<and>
     well_formed_edges steps"
  using validate_iff_well_formed [of steps]
  by (cases "validateConcurrentNeeds steps"; cases "conc_timeout g") (auto simp: ConcurrentGroup_Validate_def)

end
