(* ===== verification/ConcurrentGraph.thy ===== *)
theory ConcurrentGraph
  imports NeedsValidation
begin

text \<open>
  The graph a concurrent group runs on (engine/concurrent.go, \<^verbatim>\<open>newConcurrentGraph\<close>): the branches
  each branch needs, the branches it runs after, both directions reversed, and for every branch
  the transitive needs whose state it may read, each after its own needs.
\<close>

record concurrent_graph =
  dependencies :: "nat list list"
  dependents :: "nat list list"
  ancestors :: "nat list list"
  after_of :: "nat list list"
  afterDependents :: "nat list list"

definition need_lists :: "step list \<Rightarrow> nat list list" where
  "need_lists steps = map (\<lambda>s. resolve (sibling_ids steps) (needs (meta s))) steps"

definition after_lists :: "step list \<Rightarrow> nat list list" where
  "after_lists steps = map (\<lambda>s. resolve (sibling_ids steps) (after (meta s))) steps"

subsection \<open>The depth-first visit\<close>

text \<open>
  The closure \<^verbatim>\<open>visit\<close> with its two captured variables: the seen flags and the list under
  construction. Edges stay inside the group, so the bounds test never fails; it makes the
  function total.
\<close>

function (sequential) visit :: "nat list list \<Rightarrow> nat list \<Rightarrow> bool list \<times> nat list \<Rightarrow> bool list \<times> nat list" where
  "visit deps [] st = st"
| "visit deps (d # ds) (seen, acc) =
     (if \<not> d < length seen \<or> seen ! d then visit deps ds (seen, acc)
      else let (seen', acc') = visit deps (deps ! d) (seen[d := True], acc)
           in visit deps ds (seen', acc' @ [d]))"
  by pat_completeness auto

definition unseen :: "bool list \<Rightarrow> nat" where
  "unseen seen = length (filter Not seen)"

lemma unseen_update: "d < length seen \<Longrightarrow> \<not> seen ! d \<Longrightarrow> unseen (seen[d := True]) < unseen seen"
  using length_filter_update [of d seen Not True] by (simp add: unseen_def)

lemma visit_unseen:
  "visit_dom (deps, ds, st) \<Longrightarrow> unseen (fst (visit deps ds st)) \<le> unseen (fst st)"
proof (induction deps ds st rule: visit.pinduct)
  case (1 deps st)
  then show ?case by (simp add: visit.psimps)
next
  case (2 deps d ds seen acc)
  show ?case
  proof (cases "\<not> d < length seen \<or> seen ! d")
    case True
    then show ?thesis using 2 by (simp add: visit.psimps)
  next
    case False
    obtain seen' acc' where r: "visit deps (deps ! d) (seen[d := True], acc) = (seen', acc')"
      by (metis surj_pair)
    have "unseen seen' \<le> unseen (seen[d := True])" using 2(3) [OF False] r by simp
    moreover have "unseen (fst (visit deps ds (seen', acc' @ [d]))) \<le> unseen seen'"
      using 2(4) [OF False r [symmetric] refl] by simp
    ultimately show ?thesis
      using unseen_update [of d seen] False 2(1) r by (simp add: visit.psimps)
  qed
qed

termination visit
proof (relation "measures [\<lambda>(_, _, st). unseen (fst st), \<lambda>(_, ds, _). length ds]", goal_cases)
  case (3 deps d ds seen acc)
  then show ?case using unseen_update [of d seen] by simp
next
  case (4 deps d ds seen acc p seen' acc')
  then have "unseen seen' \<le> unseen (seen[d := True])"
    using visit_unseen [of deps "deps ! d" "(seen[d := True], acc)"] by (metis fst_conv)
  then show ?case using unseen_update [of d seen] 4 by simp
qed simp_all

definition ancestors_of :: "nat list list \<Rightarrow> nat \<Rightarrow> nat list" where
  "ancestors_of deps index = snd (visit deps (deps ! index) (replicate (length deps) False, []))"

definition newConcurrentGraph :: "step list \<Rightarrow> concurrent_graph" where
  "newConcurrentGraph steps =
     (let deps = map sort (need_lists steps)
      in \<lparr> dependencies = deps,
           dependents = successors (need_lists steps),
           ancestors = map (ancestors_of deps) [0..<length steps],
           after_of = after_lists steps,
           afterDependents = successors (after_lists steps) \<rparr>)"

subsection \<open>What the visit computes\<close>

definition reaching :: "nat list list \<Rightarrow> nat list \<Rightarrow> nat set" where
  "reaching deps ds = {x. \<exists>d \<in> set ds. (x, d) \<in> (edge_set deps)\<^sup>*}"

lemma reaching_Nil [simp]: "reaching deps [] = {}"
  by (simp add: reaching_def)

lemma reaching_Cons:
  assumes "d < length deps"
  shows "reaching deps (d # ds) = insert d (reaching deps (deps ! d)) \<union> reaching deps ds"
proof -
  have "(x, d) \<in> (edge_set deps)\<^sup>* \<longleftrightarrow> x = d \<or> (\<exists>e \<in> set (deps ! d). (x, e) \<in> (edge_set deps)\<^sup>*)" for x
    using assms by (subst rtrancl.simps) (auto simp: edge_set_def intro: rtrancl_into_rtrancl)
  then show ?thesis by (auto simp: reaching_def)
qed

text \<open>A node that was marked but not yet appended is still being visited.\<close>

definition active :: "bool list \<times> nat list \<Rightarrow> nat set" where
  "active st = {g. g < length (fst st) \<and> fst st ! g \<and> g \<notin> set (snd st)}"

definition visit_inv :: "nat list list \<Rightarrow> bool list \<times> nat list \<Rightarrow> bool" where
  "visit_inv deps st \<longleftrightarrow> length (fst st) = length deps \<and> (\<forall>x \<in> set (snd st). x < length deps \<and> fst st ! x) \<and>
     distinct (snd st) \<and> topological deps (snd st)"

lemma topological_closed:
  assumes "topological deps acc" "(x, d) \<in> (edge_set deps)\<^sup>*" "d \<in> set acc"
  shows "x \<in> set acc"
  using assms(2,3)
proof (induction rule: converse_rtrancl_induct)
  case (step y z)
  then obtain k where "k < length acc" "acc ! k = z" by (auto simp: in_set_conv_nth)
  then have "y \<in> set (take k acc)"
    using assms(1) step(1) by (auto simp: topological_def edge_set_def)
  then show ?case by (rule in_set_takeD)
qed simp

lemma visit_spec:
  assumes "acyclic (edge_set deps)" and "\<And>i j. i < length deps \<Longrightarrow> j \<in> set (deps ! i) \<Longrightarrow> j < length deps"
    and "set ds \<subseteq> {..<length deps}" and "visit_inv deps st"
    and "\<And>g d. g \<in> active st \<Longrightarrow> d \<in> set ds \<Longrightarrow> (d, g) \<in> (edge_set deps)\<^sup>+"
  shows "visit_inv deps (visit deps ds st) \<and> active (visit deps ds st) = active st
    \<and> set (snd (visit deps ds st)) = set (snd st) \<union> reaching deps ds"
  using assms
proof (induction deps ds st rule: visit.induct)
  case (2 deps d ds seen acc)
  note acyc = "2.prems"(1) and range = "2.prems"(2) and inv = "2.prems"(4) and act = "2.prems"(5)
  have d: "d < length deps" "length seen = length deps" using "2.prems"(3) inv by (auto simp: visit_inv_def)
  show ?case
  proof (cases "seen ! d")
    case True
    have "d \<in> set acc"
    proof (rule ccontr)
      assume "d \<notin> set acc"
      then have "d \<in> active (seen, acc)" using True d by (simp add: active_def)
      then show False using act [of d d] acyc by (simp add: acyclic_def)
    qed
    then have "reaching deps [d] \<subseteq> set acc"
      using topological_closed inv by (force simp: reaching_def visit_inv_def)
    then have "set acc \<union> reaching deps (d # ds) = set acc \<union> reaching deps ds"
      by (auto simp: reaching_def)
    then show ?thesis using True "2.IH"(1) acyc range "2.prems"(3) inv act by simp
  next
    case False
    have d_free: "d \<notin> set acc" using False inv by (auto simp: visit_inv_def)
    let ?st1 = "(seen[d := True], acc)"
    have act1: "active ?st1 = insert d (active (seen, acc))"
      using False d d_free by (auto simp: active_def nth_list_update)
    have edges: "(e, d) \<in> edge_set deps" if "e \<in> set (deps ! d)" for e
      using that d by (simp add: edge_set_def)
    obtain seen' acc' where r: "visit deps (deps ! d) ?st1 = (seen', acc')" by (metis surj_pair)
    have "visit_inv deps (visit deps (deps ! d) ?st1) \<and> active (visit deps (deps ! d) ?st1) = active ?st1
      \<and> set (snd (visit deps (deps ! d) ?st1)) = set (snd ?st1) \<union> reaching deps (deps ! d)"
    proof (rule "2.IH"(2))
      show "\<not> (\<not> d < length seen \<or> seen ! d)" using False d by simp
      show "set (deps ! d) \<subseteq> {..<length deps}" using range [OF d(1)] by auto
      show "visit_inv deps ?st1" using inv d by (auto simp: visit_inv_def nth_list_update)
      show "(e, g) \<in> (edge_set deps)\<^sup>+" if "g \<in> active ?st1" "e \<in> set (deps ! d)" for g e
        using that act [of g d] edges [OF that(2)] act1 by (auto intro: trancl_into_trancl2)
    qed (use acyc range in auto)
    then have inv1: "visit_inv deps (seen', acc')" and act1': "active (seen', acc') = insert d (active (seen, acc))"
      and acc': "set acc' = set acc \<union> reaching deps (deps ! d)"
      using r act1 by simp_all
    have "d \<in> active (seen', acc')" using act1' by simp
    then have d_new: "d \<notin> set acc'" "d < length seen'" "seen' ! d" by (auto simp: active_def)
    have "set (deps ! d) \<subseteq> set acc'" using acc' by (auto simp: reaching_def)
    then have inv2: "visit_inv deps (seen', acc' @ [d])"
      using inv1 d_new d by (auto simp: visit_inv_def topological_snoc)
    have act2: "active (seen', acc' @ [d]) = active (seen, acc)"
      using act1' d_free False by (auto simp: active_def)
    have "visit_inv deps (visit deps ds (seen', acc' @ [d])) \<and>
      active (visit deps ds (seen', acc' @ [d])) = active (seen', acc' @ [d]) \<and>
      set (snd (visit deps ds (seen', acc' @ [d]))) = set (snd (seen', acc' @ [d])) \<union> reaching deps ds"
    proof (rule "2.IH"(3) [OF _ r [symmetric] refl])
      show "\<not> (\<not> d < length seen \<or> seen ! d)" using False d by simp
      show "(e, g) \<in> (edge_set deps)\<^sup>+" if "g \<in> active (seen', acc' @ [d])" "e \<in> set ds" for g e
        using that act act2 by simp
    qed (use acyc range inv2 "2.prems"(3) in auto)
    then show ?thesis using False d r act2 acc' reaching_Cons [OF d(1), of ds] by auto
  qed
qed simp

subsection \<open>The graph of a group\<close>

lemma count_list_insort: "count_list (insort y xs) x = count_list (y # xs) (x :: nat)"
  by (induction xs) auto

lemma count_list_sort [simp]: "count_list (sort xs) x = count_list xs (x :: nat)"
  by (induction xs) (simp_all add: count_list_insort)

lemma edge_lists_sort:
  assumes "edge_lists n preds succs"
  shows "edge_lists n (map sort preds) succs"
proof -
  have n: "length preds = n" and m: "length succs = n"
    using edge_lists.length_preds [OF assms] edge_lists.length_succs [OF assms] .
  show ?thesis
  proof
    show "j < n" if "i < n" "j \<in> set (map sort preds ! i)" for i j
      using edge_lists.preds_range [OF assms that(1), of j] that n by simp
    show "j < n" if "i < n" "j \<in> set (succs ! i)" for i j
      using edge_lists.succs_range [OF assms that] .
    show "count_list (succs ! i) j = count_list (map sort preds ! j) i" if "i < n" "j < n" for i j
      using edge_lists.same_edges [OF assms that] that n by simp
  qed (use n m in simp_all)
qed

lemma edge_set_sort [simp]: "edge_set (map sort preds) = edge_set preds"
  by (auto simp: edge_set_def)

lemma graph_lengths [simp]:
  "length (need_lists steps) = length steps" "length (after_lists steps) = length steps"
  "length (dependencies (newConcurrentGraph steps)) = length steps"
  "length (after_of (newConcurrentGraph steps)) = length steps"
  "length (ancestors (newConcurrentGraph steps)) = length steps"
  by (simp_all add: need_lists_def after_lists_def newConcurrentGraph_def Let_def)

lemma need_lists_range: "i < length (need_lists steps) \<Longrightarrow> j \<in> set (need_lists steps ! i) \<Longrightarrow> j < length (need_lists steps)"
  and after_lists_range: "i < length (after_lists steps) \<Longrightarrow> j \<in> set (after_lists steps ! i) \<Longrightarrow> j < length (after_lists steps)"
  by (auto simp: need_lists_def after_lists_def dest: resolve_range)

lemma graph_needs:
  "edge_lists (length steps) (dependencies (newConcurrentGraph steps)) (dependents (newConcurrentGraph steps))"
  using edge_lists_sort [OF edge_lists_successors [OF need_lists_range]]
  by (simp add: newConcurrentGraph_def Let_def)

lemma graph_after:
  "edge_lists (length steps) (after_of (newConcurrentGraph steps)) (afterDependents (newConcurrentGraph steps))"
  using edge_lists_successors [OF after_lists_range] by (simp add: newConcurrentGraph_def Let_def)

interpretation graph_needs: edge_lists "length steps" "dependencies (newConcurrentGraph steps)"
    "dependents (newConcurrentGraph steps)" for steps
  by (rule graph_needs)

interpretation graph_after: edge_lists "length steps" "after_of (newConcurrentGraph steps)"
    "afterDependents (newConcurrentGraph steps)" for steps
  by (rule graph_after)

lemma edge_set_group:
  "edge_set (sibling_preds steps) =
     edge_set (dependencies (newConcurrentGraph steps)) \<union> edge_set (after_of (newConcurrentGraph steps))"
  by (auto simp: edge_set_def sibling_preds_def waits_def newConcurrentGraph_def need_lists_def
      after_lists_def Let_def)

lemma needs_acyclic: "well_formed_edges steps \<Longrightarrow> acyclic (edge_set (dependencies (newConcurrentGraph steps)))"
  unfolding well_formed_edges_def edge_set_group by (meson acyclic_subset sup_ge1)

lemma ancestors_spec:
  assumes "well_formed_edges steps" and "i < length steps"
  defines "deps \<equiv> dependencies (newConcurrentGraph steps)"
    and "anc \<equiv> ancestors (newConcurrentGraph steps) ! i"
  shows "distinct anc \<and> set anc = {j. (j, i) \<in> (edge_set deps)\<^sup>+} \<and> topological deps anc"
proof -
  have len: "length deps = length steps" by (simp add: deps_def)
  have i: "i < length deps" using assms(2) len by simp
  let ?st0 = "(replicate (length deps) False, [])"
  have anc: "anc = snd (visit deps (deps ! i) ?st0)"
    using assms(2) by (simp add: anc_def deps_def newConcurrentGraph_def Let_def ancestors_of_def)
  have "visit_inv deps (visit deps (deps ! i) ?st0) \<and> active (visit deps (deps ! i) ?st0) = active ?st0
      \<and> set (snd (visit deps (deps ! i) ?st0)) = set (snd ?st0) \<union> reaching deps (deps ! i)"
  proof (rule visit_spec)
    show "acyclic (edge_set deps)" using needs_acyclic [OF assms(1)] by (simp add: deps_def)
    show "j < length deps" if "k < length deps" "j \<in> set (deps ! k)" for k j
      using graph_needs.preds_range that by (simp add: deps_def)
    then show "set (deps ! i) \<subseteq> {..<length deps}" using i by auto
  qed (auto simp: visit_inv_def active_def topological_def)
  moreover have "reaching deps (deps ! i) = {j. (j, i) \<in> (edge_set deps)\<^sup>+}"
    using i by (auto simp: reaching_def edge_set_def rtrancl_into_trancl1 dest!: tranclD2)
  ultimately show ?thesis using anc by (simp add: visit_inv_def)
qed

end
