(* ===== verification/Defers.thy ===== *)
theory Defers
  imports Steps
begin

text \<open>
  The stack of deferred cleanup groups of one scope (engine/defer.go). A scope collects a group for
  every step with attached \<^verbatim>\<open>defer\<close> steps, looking through env, working_directory and conditional
  blocks but not into executor and worktree blocks, which own scopes of their own. A group becomes
  active when its owner commits; the options captured then are of type \<open>'o\<close>.

  \<^verbatim>\<open>byOwner\<close> maps an owner to its group, by the group's position.
\<close>

record 'o deferred_group =
  grp_owner :: string
  grp_steps :: "step list"
  grp_options :: "'o option"

record 'o defer_stack =
  ds_groups :: "'o deferred_group list"
  ds_byOwner :: "nat gomap"

definition empty_stack :: "'o defer_stack" where
  "empty_stack = \<lparr>ds_groups = [], ds_byOwner = fmempty\<rparr>"

definition push_group :: "step \<Rightarrow> 'o defer_stack \<Rightarrow> 'o defer_stack" where
  "push_group s st = st\<lparr>
     ds_groups := ds_groups st @ [\<lparr>grp_owner = sid s, grp_steps = deferred s, grp_options = None\<rparr>],
     ds_byOwner := fmupd (sid s) (length (ds_groups st)) (ds_byOwner st)\<rparr>"

text \<open>deferStack.collect\<close>

function (sequential) defer_collect :: "step list \<Rightarrow> 'o defer_stack \<Rightarrow> 'o defer_stack" where
  "defer_collect [] st = st"
| "defer_collect (s # rest) st = defer_collect rest
     (if isExecutorBlock s \<or> isWorktreeBlock s then st
      else if isEnvironmentBlock s \<or> isWorkingDirectoryBlock s \<or> isConditionalBlock s
      then defer_collect (block_steps s) st
      else if deferred s = [] then st else push_group s st)"
  by pat_completeness auto
termination
  by (relation "measure (\<lambda>(ss, _). size_list size ss)")
    (simp_all only: in_measure split_conv wf_measure size_list_tail size_list_head size_block_steps)

definition newDeferStack :: "step list \<Rightarrow> 'o defer_stack" where
  "newDeferStack steps = defer_collect steps empty_stack"

text \<open>deferStack.register: a nil stack or an unknown owner changes nothing.\<close>

definition defer_register :: "string \<Rightarrow> 'o \<Rightarrow> 'o defer_stack \<Rightarrow> 'o defer_stack" where
  "defer_register owner opts st =
     (case fmlookup (ds_byOwner st) owner of
        None \<Rightarrow> st
      | Some i \<Rightarrow> st\<lparr>ds_groups := (ds_groups st)[i := (ds_groups st ! i)\<lparr>grp_options := Some opts\<rparr>]\<rparr>)"

text \<open>deferStack.stepCount\<close>

definition stack_stepCount :: "'o defer_stack \<Rightarrow> nat" where
  "stack_stepCount st = sum_list (map (\<lambda>g. leafStepCount (grp_steps g)) (ds_groups st))"

text \<open>engine/try_catch.go, deferredDeclarations: the last group first.\<close>

definition deferredDeclarations :: "'o defer_stack \<Rightarrow> step list" where
  "deferredDeclarations st = concat (map grp_steps (rev (ds_groups st)))"

subsection \<open>Well-formed stacks\<close>

text \<open>Every owner entry points at a group of that owner, and every group is some owner's.\<close>

definition stack_wf :: "'o defer_stack \<Rightarrow> bool" where
  "stack_wf st \<longleftrightarrow>
     (\<forall>k i. fmlookup (ds_byOwner st) k = Some i \<longrightarrow>
        i < length (ds_groups st) \<and> grp_owner (ds_groups st ! i) = k) \<and>
     (\<forall>g \<in> set (ds_groups st). grp_owner g |\<in>| fmdom (ds_byOwner st))"

lemma stack_wf_empty [simp]: "stack_wf empty_stack"
  by (simp add: stack_wf_def empty_stack_def)

lemma stack_wf_push [simp]: "stack_wf st \<Longrightarrow> stack_wf (push_group s st)"
  by (auto simp: stack_wf_def push_group_def nth_append less_Suc_eq split: if_splits)

lemma stack_wf_collect: "stack_wf st \<Longrightarrow> stack_wf (defer_collect steps st)"
  by (induction steps st rule: defer_collect.induct) auto

lemma stack_wf_new: "stack_wf (newDeferStack steps)"
  by (simp add: newDeferStack_def stack_wf_collect)

lemma stack_wf_register: "stack_wf st \<Longrightarrow> stack_wf (defer_register owner opts st)"
  by (auto simp: stack_wf_def defer_register_def nth_list_update elim!: set_update_memE
      intro: nth_mem fmdomI split: option.splits)

text \<open>A new stack is inactive, and registering changes neither the groups' steps nor their order.\<close>

lemma collect_inactive:
  "list_all (\<lambda>g. grp_options g = None) (ds_groups st) \<Longrightarrow>
   list_all (\<lambda>g. grp_options g = None) (ds_groups (defer_collect steps st))"
  by (induction steps st rule: defer_collect.induct) (simp_all add: push_group_def)

lemma new_inactive: "list_all (\<lambda>g. grp_options g = None) (ds_groups (newDeferStack steps))"
  unfolding newDeferStack_def by (rule collect_inactive) (simp add: empty_stack_def)

lemma register_steps [simp]:
  "map grp_steps (ds_groups (defer_register owner opts st)) = map grp_steps (ds_groups st)"
  by (simp add: defer_register_def map_list_update_same split: option.splits)

lemma register_stepCount [simp]: "stack_stepCount (defer_register owner opts st) = stack_stepCount st"
proof -
  have "map (leafStepCount \<circ> grp_steps) (ds_groups (defer_register owner opts st)) =
        map (leafStepCount \<circ> grp_steps) (ds_groups st)"
    using register_steps [of owner opts st] by (metis map_map)
  then show ?thesis by (simp add: stack_stepCount_def comp_def)
qed

end
