(* ===== verification/Stats.thy ===== *)
theory Stats
  imports Defers
begin

text \<open>
  Run statistics (engine/progress.go, engine/stats.go, and the recording helpers of
  engine/engine.go). Clock readings are not modelled: a record keeps the status, the error, the
  attempts, the polls and the nested records of a step, not when it ran or for how long.
\<close>

record attempt_stats =
  at_number :: nat
  at_status :: exec_status
  at_error :: "goerr option"

datatype step_stats =
  StepStats (ss_id: string) (ss_type: string) (ss_status: exec_status) (ss_polls: nat)
    (ss_attempts: "attempt_stats list") (ss_error: "goerr option") (ss_iterations: "iteration_stats list")
and iteration_stats =
  IterationStats (is_index: nat) (is_label: string) (is_status: exec_status) (is_error: "goerr option")
    (is_steps: "step_stats list")

record run_stats =
  total :: nat
  succeeded :: nat
  failed :: nat
  skipped :: nat
  canceled :: nat
  timed_out :: nat
  attempts :: nat
  retries :: nat
  polls :: nat
  rsteps :: "step_stats list"

definition empty_stats :: run_stats where
  "empty_stats = \<lparr>total = 0, succeeded = 0, failed = 0, skipped = 0, canceled = 0, timed_out = 0,
     attempts = 0, retries = 0, polls = 0, rsteps = []\<rparr>"

definition new_stats :: "step list \<Rightarrow> run_stats" where
  "new_stats steps = empty_stats\<lparr>total := leafStepCount steps\<rparr>"

text \<open>engine/stats.go, stepTimeoutCount\<close>

definition stepTimeoutCount :: "step_stats \<Rightarrow> nat" where
  "stepTimeoutCount s =
     (let timedOut = length (filter (\<lambda>a. at_status a = StatusTimedOut) (ss_attempts s))
      in if ss_status s = StatusTimedOut \<and> timedOut = 0 then 1 else timedOut)"

text \<open>engine/stats.go, recordStep\<close>

definition recordStep :: "run_stats \<Rightarrow> step_stats \<Rightarrow> run_stats" where
  "recordStep stats s =
     (let st = stats\<lparr>rsteps := rsteps stats @ [s]\<rparr>;
          st = (case ss_status s of
             StatusSucceeded \<Rightarrow> st\<lparr>succeeded := succeeded st + 1\<rparr>
           | StatusSkipped \<Rightarrow> st\<lparr>skipped := skipped st + 1\<rparr>
           | StatusCanceled \<Rightarrow> st\<lparr>canceled := canceled st + 1\<rparr>
           | _ \<Rightarrow> st\<lparr>failed := failed st + 1\<rparr>)
      in st\<lparr>attempts := attempts st + length (ss_attempts s),
            retries := retries st + (length (ss_attempts s) - 1),
            polls := polls st + ss_polls s,
            timed_out := timed_out st + stepTimeoutCount s\<rparr>)"

text \<open>engine/stats.go, rollupNestedMetrics\<close>

definition rollupNestedMetrics :: "run_stats \<Rightarrow> run_stats \<Rightarrow> run_stats" where
  "rollupNestedMetrics stats nested = stats\<lparr>
     attempts := attempts stats + attempts nested,
     retries := retries stats + retries nested,
     polls := polls stats + polls nested,
     timed_out := timed_out stats + timed_out nested\<rparr>"

text \<open>engine/stats.go, mergeRunStats\<close>

definition mergeRunStats :: "run_stats \<Rightarrow> run_stats \<Rightarrow> run_stats" where
  "mergeRunStats target source = target\<lparr>
     rsteps := rsteps target @ rsteps source,
     succeeded := succeeded target + succeeded source,
     failed := failed target + failed source,
     skipped := skipped target + skipped source,
     canceled := canceled target + canceled source,
     timed_out := timed_out target + timed_out source,
     attempts := attempts target + attempts source,
     retries := retries target + retries source,
     polls := polls target + polls source\<rparr>"

text \<open>
  engine/engine.go, recordSkippedSteps: every leaf is recorded as skipped; an executor block also
  records its deferred groups, last group first, before its finally sequence.
\<close>

definition skipped_stats :: "step \<Rightarrow> step_stats" where
  "skipped_stats s = StepStats (sid s) (skippedStepKind s) StatusSkipped 0 [] None []"

definition groups_below :: "nat \<Rightarrow> 'o defer_stack \<Rightarrow> bool" where
  "groups_below m st = list_all (\<lambda>g. size_list size (grp_steps g) < m) (ds_groups st)"

lemma groups_below_push: "groups_below m st \<Longrightarrow> size s < m \<Longrightarrow> groups_below m (push_group s st)"
  by (cases s) (simp add: groups_below_def push_group_def)

lemma groups_below_collect:
  "groups_below m st \<Longrightarrow> size_list size steps \<le> m \<Longrightarrow> groups_below m (defer_collect steps st)"
proof (induction steps st rule: defer_collect.induct)
  case (2 s rest st)
  have m: "size_list size rest \<le> m" "size s < m" using "2.prems" by auto
  note push = groups_below_push [OF "2.prems"(1) m(2)]
  have "size_list size (block_steps s) \<le> m"
    using m(2) size_block_steps(1) [of s] by simp
  then show ?case
    using "2.IH" "2.prems"(1) m push by auto
qed simp

lemma size_stack_group [termination_simp]:
  fixes g :: "'o deferred_group"
  assumes "g \<in> set (ds_groups (newDeferStack steps))"
  shows "size_list size (grp_steps g) \<le> size_list size steps"
proof -
  have "groups_below (Suc (size_list size steps)) (newDeferStack steps :: 'o defer_stack)"
    unfolding newDeferStack_def by (rule groups_below_collect) (simp_all add: groups_below_def empty_stack_def)
  then show ?thesis using assms by (auto simp: groups_below_def list_all_iff)
qed

function (sequential) recordSkippedSteps :: "step list \<Rightarrow> run_stats \<Rightarrow> run_stats" where
  "recordSkippedSteps [] st = st"
| "recordSkippedSteps (s # rest) st = recordSkippedSteps rest
     (if isExecutorBlock s then
        recordSkippedSteps (finally_steps s)
          (fold recordSkippedSteps (map grp_steps (rev (ds_groups (newDeferStack (block_steps s) :: unit defer_stack))))
            (recordSkippedSteps (block_steps s) st))
      else (case transparentChildSequences s of
          Some children \<Rightarrow> fold recordSkippedSteps (map snd children) st
        | None \<Rightarrow> if isReturn s then st else recordStep st (skipped_stats s)))"
  by pat_completeness auto

lemma size_transparent_child:
  assumes "transparentChildSequences s = Some children" and "c \<in> set (map snd children)"
  shows "size_list size c < size_list size (s # rest)"
proof -
  from assms obtain role where "(role, c) \<in> set (childSequences s)"
    by (auto simp: transparentChildSequences_def split: if_splits)
  then show ?thesis using size_child_sequence by fastforce
qed

lemma size_executor_group:
  assumes "x \<in> set (map grp_steps (rev (ds_groups (newDeferStack (block_steps s) :: unit defer_stack))))"
  shows "size_list size x < size_list size (s # rest)"
  using size_block_steps(1) [of s] size_stack_group assms by fastforce

termination recordSkippedSteps
  by (relation "measure (\<lambda>(ss, _). size_list size ss)")
    (simp_all only: in_measure split_conv wf_measure size_list_tail size_list_head size_block_steps,
     (erule (1) size_transparent_child | erule size_executor_group)+)

subsection \<open>The counters agree with the records\<close>

definition count_status :: "(exec_status \<Rightarrow> bool) \<Rightarrow> run_stats \<Rightarrow> nat" where
  "count_status P st = length (filter (P \<circ> ss_status) (rsteps st))"

definition stats_wf :: "run_stats \<Rightarrow> bool" where
  "stats_wf st \<longleftrightarrow>
     succeeded st = count_status (\<lambda>s. s = StatusSucceeded) st \<and>
     skipped st = count_status (\<lambda>s. s = StatusSkipped) st \<and>
     canceled st = count_status (\<lambda>s. s = StatusCanceled) st \<and>
     failed st = count_status (\<lambda>s. s \<notin> {StatusSucceeded, StatusSkipped, StatusCanceled}) st"

lemma stats_wf_empty [simp]: "stats_wf empty_stats" "stats_wf (new_stats ss)"
  by (simp_all add: stats_wf_def count_status_def empty_stats_def new_stats_def)

lemma rsteps_recordStep [simp]: "rsteps (recordStep st s) = rsteps st @ [s]"
  by (simp add: recordStep_def Let_def split: exec_status.splits)

lemma rsteps_rollup [simp]: "rsteps (rollupNestedMetrics st n) = rsteps st"
  by (simp add: rollupNestedMetrics_def)

lemma rsteps_merge [simp]: "rsteps (mergeRunStats t s) = rsteps t @ rsteps s"
  by (simp add: mergeRunStats_def)

lemma rsteps_new [simp]: "rsteps (new_stats ss) = []" "rsteps empty_stats = []"
  by (simp_all add: new_stats_def empty_stats_def)

lemma stats_wf_recordStep [simp]: "stats_wf st \<Longrightarrow> stats_wf (recordStep st s)"
  by (cases "ss_status s") (simp_all add: stats_wf_def count_status_def recordStep_def Let_def)

lemma stats_wf_rollup [simp]: "stats_wf (rollupNestedMetrics st n) = stats_wf st"
  by (simp add: stats_wf_def count_status_def rollupNestedMetrics_def)

lemma stats_wf_timed_out [simp]: "stats_wf (st\<lparr>timed_out := n\<rparr>) = stats_wf st"
  by (simp add: stats_wf_def count_status_def)

lemma stats_wf_merge [simp]: "stats_wf t \<Longrightarrow> stats_wf s \<Longrightarrow> stats_wf (mergeRunStats t s)"
  by (simp add: stats_wf_def count_status_def mergeRunStats_def)

lemma stats_wf_total:
  assumes "stats_wf st"
  shows "succeeded st + failed st + skipped st + canceled st = length (rsteps st)"
proof -
  have "length (filter (\<lambda>s. s = StatusSucceeded) xs) +
        length (filter (\<lambda>s. s \<noteq> StatusSucceeded \<and> s \<noteq> StatusSkipped \<and> s \<noteq> StatusCanceled) xs) +
        length (filter (\<lambda>s. s = StatusSkipped) xs) + length (filter (\<lambda>s. s = StatusCanceled) xs) = length xs" for xs
    by (induction xs) auto
  from this [of "map ss_status (rsteps st)"] show ?thesis
    using assms by (simp add: stats_wf_def count_status_def filter_map comp_def)
qed

text \<open>Skipping a sequence appends skipped records and nothing else.\<close>

definition skip_record :: "step_stats \<Rightarrow> bool" where
  "skip_record s \<longleftrightarrow> ss_status s = StatusSkipped \<and> ss_attempts s = [] \<and> ss_error s = None"

definition skips :: "run_stats \<Rightarrow> run_stats \<Rightarrow> bool" where
  "skips st st' \<longleftrightarrow> (\<exists>ys. list_all skip_record ys \<and> st' = foldl recordStep st ys)"

lemma skips_refl [simp]: "skips st st"
  by (auto simp: skips_def intro: exI [of _ "[]"])

lemma skips_trans: "skips a b \<Longrightarrow> skips b c \<Longrightarrow> skips a c"
  unfolding skips_def by (metis foldl_append list_all_append)

lemma skips_record: "skips st (recordStep st (skipped_stats s))"
  by (auto simp: skips_def skip_record_def skipped_stats_def intro!: exI [of _ "[skipped_stats s]"])

lemma skips_fold: "(\<And>x st. x \<in> set xs \<Longrightarrow> skips st (f x st)) \<Longrightarrow> skips st (fold f xs st)"
  by (induction xs arbitrary: st) (auto intro: skips_trans)

lemma recordSkippedSteps_skips: "skips st (recordSkippedSteps ss st)"
proof (induction ss st rule: recordSkippedSteps.induct)
  case (1 st)
  show ?case by simp
next
  case (2 s rest st)
  have exec: "skips st (recordSkippedSteps (finally_steps s)
      (fold recordSkippedSteps (map grp_steps (rev (ds_groups (newDeferStack (block_steps s) :: unit defer_stack))))
        (recordSkippedSteps (block_steps s) st)))" if "isExecutorBlock s"
    by (rule skips_trans [OF skips_trans [OF "2.IH"(1) [OF that] skips_fold] "2.IH"(3) [OF that]])
      (rule "2.IH"(2) [OF that])
  have other: "skips st (case transparentChildSequences s of
          Some children \<Rightarrow> fold recordSkippedSteps (map snd children) st
        | None \<Rightarrow> if isReturn s then st else recordStep st (skipped_stats s))" if "\<not> isExecutorBlock s"
    using "2.IH"(4) [OF that] by (auto intro!: skips_fold skips_record split: option.splits)
  show ?case
    unfolding recordSkippedSteps.simps
    by (rule skips_trans [OF _ "2.IH"(5)]) (cases "isExecutorBlock s"; simp only: if_True if_False exec other simp_thms)
qed

end
