(* ===== verification/EngineState.thy ===== *)
theory EngineState
  imports Stats
begin

text \<open>
  The mutable state of one workflow (engine/engine.go, \<^verbatim>\<open>State\<close>), the result a step returns
  (step/step.go, \<^verbatim>\<open>Result\<close>), and the operations that commit results and project state:
  engine/engine.go, engine/check.go, engine/control.go, engine/control_outcome.go,
  engine/try_catch.go and engine/concurrent.go (cloneState).

  \<^verbatim>\<open>Bindings\<close> and \<^verbatim>\<open>writtenVars\<close> may be nil in Go, and the code tells nil from empty, so both are
  options.
\<close>

record check_finding =
  chk_id :: string
  chk_status :: string
  chk_message :: string
  chk_fix :: string

record wstate =
  st_checks :: "check_finding list"
  st_inputs :: vmap
  st_vars :: vmap
  st_env :: "string gomap"
  st_loaders :: "string list"
  st_steps :: vmap
  st_outputs :: vmap
  st_dependencies :: "vmap gomap"
  st_providers :: vmap
  st_bindings :: "vmap option"
  st_checkWrites :: "check_finding list"
  st_presetVars :: vmap
  st_writtenVars :: "string fset option"
  st_returning :: bool
  st_didReturn :: bool

record step_result =
  res_checks :: "check_finding list"
  res_outputs :: "vmap option"
  res_variables :: vmap

definition empty_wstate :: wstate where
  "empty_wstate = \<lparr>st_checks = [], st_inputs = fmempty, st_vars = fmempty, st_env = fmempty, st_loaders = [],
     st_steps = fmempty, st_outputs = fmempty, st_dependencies = fmempty, st_providers = fmempty,
     st_bindings = None, st_checkWrites = [], st_presetVars = fmempty, st_writtenVars = None,
     st_returning = False, st_didReturn = False\<rparr>"

definition empty_result :: step_result where
  "empty_result = \<lparr>res_checks = [], res_outputs = None, res_variables = fmempty\<rparr>"

subsection \<open>Checks\<close>

text \<open>engine/check.go, upsertCheck: the finding of the same ID is replaced in place.\<close>

fun upsertCheck :: "check_finding list \<Rightarrow> check_finding \<Rightarrow> check_finding list" where
  "upsertCheck [] f = [f]"
| "upsertCheck (p # ps) f = (if chk_id p = chk_id f then f # ps else p # upsertCheck ps f)"

text \<open>engine/check.go, commitChecks\<close>

definition commitChecks :: "wstate \<Rightarrow> check_finding list \<Rightarrow> wstate" where
  "commitChecks st fs = st\<lparr>
     st_checks := foldl upsertCheck (st_checks st) fs,
     st_checkWrites := foldl upsertCheck (st_checkWrites st) fs\<rparr>"

text \<open>engine/check.go, checkFailure and ownChecks\<close>

definition checkFailure :: "check_finding list \<Rightarrow> goerr option" where
  "checkFailure fs =
     (let bad = length (filter (\<lambda>f. chk_status f = ''fail'') fs)
      in if bad = 0 then None else Some (Err (nat_text bad @ '' unresolved check(s) failed'')))"

definition ownChecks :: "wstate \<Rightarrow> check_finding list" where
  "ownChecks st = filter (\<lambda>f. \<exists>w \<in> set (st_checkWrites st). chk_id w = chk_id f) (st_checks st)"

lemma ids_upsertCheck:
  "map chk_id (upsertCheck ps f) =
     (if chk_id f \<in> chk_id ` set ps then map chk_id ps else map chk_id ps @ [chk_id f])"
  by (induction ps f rule: upsertCheck.induct) auto

lemma distinct_upsertCheck:
  "distinct (map chk_id ps) \<Longrightarrow> distinct (map chk_id (upsertCheck ps f))"
  by (auto simp: ids_upsertCheck image_iff)

lemma distinct_fold_upsertCheck:
  "distinct (map chk_id ps) \<Longrightarrow> distinct (map chk_id (foldl upsertCheck ps fs))"
  by (induction fs arbitrary: ps) (auto simp: distinct_upsertCheck)

lemma upsertCheck_member:
  "distinct (map chk_id ps) \<Longrightarrow>
   g \<in> set (upsertCheck ps f) \<longleftrightarrow> g = f \<or> (g \<in> set ps \<and> chk_id g \<noteq> chk_id f)"
  by (induction ps f rule: upsertCheck.induct) (auto simp: image_iff)

subsection \<open>Cloning and committing\<close>

text \<open>
  engine/concurrent.go, cloneState: a branch starts with nothing written, no pending check writes
  and no return in progress; everything else is copied, and copying a nil map gives an empty one.
\<close>

definition cloneState :: "wstate \<Rightarrow> wstate" where
  "cloneState st = st\<lparr>st_bindings := Some (case st_bindings st of None \<Rightarrow> fmempty | Some b \<Rightarrow> b),
     st_checkWrites := [], st_writtenVars := None, st_returning := False,
     st_didReturn := False\<rparr>"

text \<open>A private body state: a clone that records its variable writes.\<close>

definition privateState :: "wstate \<Rightarrow> wstate" where
  "privateState st = (cloneState st)\<lparr>st_writtenVars := Some {||}\<rparr>"

text \<open>engine/engine.go, commitStepResult\<close>

definition commitStepResult :: "wstate \<Rightarrow> string \<Rightarrow> step_result \<Rightarrow> wstate" where
  "commitStepResult st name r = (let st = commitChecks st (res_checks r) in st\<lparr>
     st_steps := fmupd name (VMap (case res_outputs r of None \<Rightarrow> fmempty | Some o' \<Rightarrow> o')) (st_steps st),
     st_vars := st_vars st ++\<^sub>f res_variables r,
     st_writtenVars := map_option (\<lambda>w. w |\<union>| fmdom (res_variables r)) (st_writtenVars st)\<rparr>)"

text \<open>engine/control.go, selectedStepOutputs: the committed outputs of a declaration list, looking
  through transparent blocks.\<close>

function (sequential) selectedStepOutputs :: "wstate \<Rightarrow> step list \<Rightarrow> vmap \<Rightarrow> vmap" where
  "selectedStepOutputs st [] acc = acc"
| "selectedStepOutputs st (s # rest) acc = selectedStepOutputs st rest
     (case transparentChildSequences s of
        Some children \<Rightarrow> fold (selectedStepOutputs st) (map snd children) acc
      | None \<Rightarrow> (case fmlookup (st_steps st) (sid s) of
                   Some v \<Rightarrow> fmupd (sid s) v acc
                 | None \<Rightarrow> acc))"
  by pat_completeness auto
termination
  by (relation "measure (\<lambda>(_, ss, _). size_list size ss)")
    (simp_all only: in_measure split_conv wf_measure size_list_tail, erule (1) size_transparent_child)

abbreviation selected :: "wstate \<Rightarrow> step list \<Rightarrow> vmap" where
  "selected st ss \<equiv> selectedStepOutputs st ss fmempty"

text \<open>engine/control_outcome.go, controlWrittenVars; engine/try_catch.go, controlVariables.\<close>

definition controlVariables :: "wstate \<Rightarrow> string fset \<Rightarrow> vmap" where
  "controlVariables st names =
     fmap_of_list (map (\<lambda>n. (n, case fmlookup (st_vars st) n of Some v \<Rightarrow> v | None \<Rightarrow> VNil))
       (sorted_list_of_fset names))"

definition controlWrittenVars :: "wstate \<Rightarrow> vmap" where
  "controlWrittenVars st =
     (case st_writtenVars st of None \<Rightarrow> fmempty | Some w \<Rightarrow> controlVariables st w)"

lemma fmlookup_controlVariables:
  "fmlookup (controlVariables st names) n =
     (if n |\<in>| names then Some (case fmlookup (st_vars st) n of Some v \<Rightarrow> v | None \<Rightarrow> VNil) else None)"
  by (auto simp: controlVariables_def fmlookup_of_list map_of_map_keys map_of_eq_None_iff
      intro!: map_of_is_SomeI simp: sorted_list_of_fset.rep_eq comp_def distinct_map)

lemma fmdom_controlVariables [simp]: "fmdom (controlVariables st names) = names"
  by (rule fset_eqI) (simp add: fmlookup_dom_iff fmlookup_controlVariables)

end
