(* ===== verification/Concurrent.thy ===== *)
theory Concurrent
  imports ConcurrentGraph EngineState
begin

text \<open>
  The scheduler of a concurrent group (engine/concurrent.go, \<^verbatim>\<open>runConcurrentGraph\<close> and its helpers).

  The loop of the code owns all scheduling state; branches run in goroutines and report one
  completion each on a channel. The state \<open>sched\<close> holds the local variables of the loop, an
  operation per loop action changes it, and the step relation \<open>sched_step\<close> interleaves them with
  the outside: any running branch may complete next with any outcome, and the group's context may
  end at any time. Admission has priority over taking a completion, as in the code.
\<close>

subsection \<open>Branch outcomes\<close>

record branch_outcome =
  out_state :: "wstate option"
  out_stats :: run_stats
  out_err :: "goerr option"
  out_started :: bool
  out_skipped :: bool

definition no_outcome :: branch_outcome where
  "no_outcome = \<lparr>out_state = None, out_stats = empty_stats, out_err = None, out_started = False,
     out_skipped = False\<rparr>"

text \<open>The zero value stands for a branch that never ran. A panic of the engine becomes an outcome
  with the recovered error.\<close>

definition crashed_outcome :: "goerr \<Rightarrow> branch_outcome" where
  "crashed_outcome failure = no_outcome\<lparr>out_err := Some failure, out_started := True\<rparr>"

definition skipped_outcome :: "step \<Rightarrow> branch_outcome" where
  "skipped_outcome s = no_outcome\<lparr>out_stats := recordSkippedSteps [s] (new_stats [s]), out_skipped := True\<rparr>"

text \<open>executeConcurrentBranch; \<open>run\<close> is executeSequence in the branch's context, and \<open>ended\<close> says
  that context has ended.\<close>

definition executeConcurrentBranch ::
    "(step list \<Rightarrow> wstate \<Rightarrow> run_stats \<Rightarrow> goerr option \<times> wstate \<times> run_stats) \<Rightarrow> bool \<Rightarrow> step \<Rightarrow> wstate \<Rightarrow> branch_outcome"
where
  "executeConcurrentBranch run ended declaration snapshot =
     (if ended then no_outcome
      else let (err, st, stats) = run [declaration] (privateState snapshot) (new_stats [declaration])
           in \<lparr>out_state = Some st, out_stats = stats, out_err = err, out_started = True,
               out_skipped = (rsteps stats \<noteq> [] \<and> list_all (\<lambda>s. ss_status s = StatusSkipped) (rsteps stats))\<rparr>)"

text \<open>concurrentBranchIndexes\<close>

fun concurrentBranchIndexes :: "step list \<Rightarrow> nat \<Rightarrow> nat list" where
  "concurrentBranchIndexes [] firstIndex = []"
| "concurrentBranchIndexes (s # ss) firstIndex =
     firstIndex # concurrentBranchIndexes ss (firstIndex + leafStepCount [s])"

text \<open>concurrentReadState: what a branch may read, the group's snapshot overlaid with the results of
  its transitive needs in graph order.\<close>

definition overlay_branch :: "wstate \<Rightarrow> step \<Rightarrow> branch_outcome \<Rightarrow> wstate" where
  "overlay_branch st s oc = (case out_state oc of
     None \<Rightarrow> st
   | Some bst \<Rightarrow>
       if out_err oc \<noteq> None then st
       else let st = commitChecks st (st_checkWrites bst)
            in st\<lparr>st_steps := st_steps st ++\<^sub>f selected bst [s],
                  st_vars := st_vars st ++\<^sub>f controlWrittenVars bst\<rparr>)"

definition concurrentReadState :: "wstate \<Rightarrow> step list \<Rightarrow> branch_outcome list \<Rightarrow> nat list \<Rightarrow> wstate" where
  "concurrentReadState snapshot steps outcomes anc =
     (foldl (\<lambda>st i. overlay_branch st (steps ! i) (outcomes ! i)) (cloneState snapshot) anc)\<lparr>st_checkWrites := []\<rparr>"

subsection \<open>The scheduling state\<close>

datatype branch_status = Pending | Running | Finished | DepSkipped

record sched =
  b_status :: "branch_status list"
  b_remaining :: "int list"
  b_ready :: "nat list"
  b_running :: nat
  b_terminal :: nat
  b_stop :: bool
  b_cancelled :: bool
  b_outcomes :: "branch_outcome list"
  b_reads :: "wstate option list"

definition sched_init :: "step list \<Rightarrow> concurrent_graph \<Rightarrow> sched" where
  "sched_init steps g =
     (let n = length steps;
          remaining = map (\<lambda>i. int (length (dependencies g ! i) + length (after_of g ! i))) [0..<n]
      in \<lparr>b_status = replicate n Pending, b_remaining = remaining,
          b_ready = filter (\<lambda>i. remaining ! i = 0) [0..<n],
          b_running = 0, b_terminal = 0, b_stop = False, b_cancelled = False,
          b_outcomes = replicate n no_outcome, b_reads = replicate n None\<rparr>)"

text \<open>The closure \<^verbatim>\<open>admit\<close>\<close>

definition admit :: "nat list \<Rightarrow> sched \<Rightarrow> sched" where
  "admit ds st =
     (let (remaining, ready) = decrement (\<lambda>d. d < length (b_status st) \<and> b_status st ! d = Pending) ds
          (b_remaining st, b_ready st)
      in st\<lparr>b_remaining := remaining, b_ready := ready\<rparr>)"

text \<open>The guard and the body of the inner loop, which starts ready branches.\<close>

definition can_launch :: "concurrent_group \<Rightarrow> sched \<Rightarrow> bool" where
  "can_launch grp st \<longleftrightarrow>
     b_running st < conc_max_concurrency grp \<and> b_ready st \<noteq> [] \<and> \<not> b_stop st \<and> \<not> b_cancelled st"

definition launch :: "step list \<Rightarrow> concurrent_graph \<Rightarrow> wstate \<Rightarrow> sched \<Rightarrow> sched" where
  "launch steps g snapshot st =
     (let index = hd (b_ready st); st = st\<lparr>b_ready := tl (b_ready st)\<rparr>
      in if b_status st ! index \<noteq> Pending then st
         else st\<lparr>b_reads := (b_reads st)[index :=
                   Some (concurrentReadState snapshot steps (b_outcomes st) (ancestors g ! index))],
                 b_status := (b_status st)[index := Running],
                 b_running := b_running st + 1\<rparr>)"

text \<open>skipConcurrentDescendants\<close>

function (sequential) skip_loop ::
    "step list \<Rightarrow> nat list list \<Rightarrow> nat list \<Rightarrow> nat list \<Rightarrow> branch_status list \<Rightarrow> branch_outcome list
     \<Rightarrow> branch_status list \<times> branch_outcome list \<times> nat list" where
  "skip_loop steps deps [] gone status outcomes = (status, outcomes, gone)"
| "skip_loop steps deps (index # queue) gone status outcomes =
     (if \<not> (index < length status \<and> status ! index = Pending) then skip_loop steps deps queue gone status outcomes
      else skip_loop steps deps (queue @ deps ! index) (gone @ [index]) (status[index := DepSkipped])
             (outcomes[index := skipped_outcome (steps ! index)]))"
  by pat_completeness auto
termination
proof (relation "measures [\<lambda>(_, _, _, _, status, _). length (filter (\<lambda>s. s = Pending) status),
    \<lambda>(_, _, queue, _). length queue]", goal_cases)
  case (3 steps deps index queue gone status outcomes)
  then show ?case using length_filter_update [of index status "\<lambda>s. s = Pending" DepSkipped] by simp
qed simp_all

definition skipConcurrentDescendants ::
    "step list \<Rightarrow> nat list list \<Rightarrow> nat \<Rightarrow> branch_status list \<Rightarrow> branch_outcome list
     \<Rightarrow> branch_status list \<times> branch_outcome list \<times> nat list" where
  "skipConcurrentDescendants steps deps origin status outcomes =
     skip_loop steps deps (deps ! origin) [] status outcomes"

text \<open>The body of the outer loop once a completion arrived\<close>

definition complete :: "concurrent_group \<Rightarrow> step list \<Rightarrow> concurrent_graph \<Rightarrow> nat \<Rightarrow> branch_outcome \<Rightarrow> sched \<Rightarrow> sched" where
  "complete grp steps g index oc st =
     (let st = st\<lparr>b_running := b_running st - 1, b_terminal := b_terminal st + 1,
                  b_status := (b_status st)[index := Finished], b_outcomes := (b_outcomes st)[index := oc]\<rparr>;
          st = (if out_err oc \<noteq> None then
                  let (status, outcomes, gone) = skipConcurrentDescendants steps (dependents g) index
                        (b_status st) (b_outcomes st);
                      st = st\<lparr>b_status := status, b_outcomes := outcomes,
                              b_terminal := b_terminal st + length gone\<rparr>;
                      st = fold (\<lambda>j. admit (afterDependents g ! j)) gone st
                  in if conc_fail_fast grp then st\<lparr>b_stop := True, b_cancelled := True\<rparr> else st
                else admit (dependents g ! index) st);
          st = admit (afterDependents g ! index) st
      in st\<lparr>b_ready := sort (b_ready st)\<rparr>)"

text \<open>The outer loop: \<open>sched_open\<close> is its condition together with the early \<^verbatim>\<open>break\<close>.\<close>

definition sched_open :: "concurrent_group \<Rightarrow> step list \<Rightarrow> sched \<Rightarrow> bool" where
  "sched_open grp steps st \<longleftrightarrow> b_terminal st < length steps \<and> (can_launch grp st \<or> b_running st \<noteq> 0)"

inductive sched_step :: "concurrent_group \<Rightarrow> step list \<Rightarrow> concurrent_graph \<Rightarrow> wstate \<Rightarrow> sched \<Rightarrow> sched \<Rightarrow> bool"
  for grp steps g snapshot where
  sched_launch: "b_terminal st < length steps \<Longrightarrow> can_launch grp st \<Longrightarrow>
     sched_step grp steps g snapshot st (launch steps g snapshot st)"
| sched_complete: "b_terminal st < length steps \<Longrightarrow> \<not> can_launch grp st \<Longrightarrow> index < length (b_status st) \<Longrightarrow>
     b_status st ! index = Running \<Longrightarrow> sched_step grp steps g snapshot st (complete grp steps g index oc st)"
| sched_context: "sched_step grp steps g snapshot st (st\<lparr>b_cancelled := True\<rparr>)"

inductive sched_reach :: "concurrent_group \<Rightarrow> step list \<Rightarrow> concurrent_graph \<Rightarrow> wstate \<Rightarrow> sched \<Rightarrow> bool"
  for grp steps g snapshot where
  sched_start: "sched_reach grp steps g snapshot (sched_init steps g)"
| sched_next: "sched_reach grp steps g snapshot st \<Longrightarrow> sched_step grp steps g snapshot st st' \<Longrightarrow>
     sched_reach grp steps g snapshot st'"

inductive_cases sched_stepE: "sched_step grp steps g snapshot st st'"

end
