(* ===== verification/SchedulerInvariant.thy ===== *)
theory SchedulerInvariant
  imports Concurrent
begin

text \<open>
  The invariant of the concurrent scheduler and its preservation by every step. The locale
  \<open>sched_graph\<close> combines the two edge kinds of a group, each with its reversed lists; the graph of
  \<^verbatim>\<open>newConcurrentGraph\<close> is its interpretation.
\<close>

subsection \<open>Counting\<close>

lemma filter_close:
  assumes "distinct ks" "\<And>k. k \<in> set ks \<Longrightarrow> \<not> P k" "\<And>j. j \<in> set xs \<Longrightarrow> P' j \<longleftrightarrow> P j \<or> j \<in> set ks"
  shows "length (filter (\<lambda>j. \<not> P j) xs) = length (filter (\<lambda>j. \<not> P' j) xs) + sum_list (map (count_list xs) ks)"
  using assms
proof (induction ks arbitrary: P)
  case Nil
  then have "filter (\<lambda>j. \<not> P' j) xs = filter (\<lambda>j. \<not> P j) xs" by (intro filter_cong) auto
  then show ?case by simp
next
  case (Cons k ks)
  have "length (filter (\<lambda>j. \<not> P j) xs) = length (filter (\<lambda>j. \<not> (P j \<or> j = k)) xs) + count_list xs k"
    using Cons.prems(2) [of k] by (intro filter_remove_count) simp
  also have "length (filter (\<lambda>j. \<not> (P j \<or> j = k)) xs) =
      length (filter (\<lambda>j. \<not> P' j) xs) + sum_list (map (count_list xs) ks)"
    by (rule Cons.IH) (use Cons.prems in auto)
  finally show ?case by simp
qed

lemma count_list_concat_map: "count_list (concat (map f ks)) j = sum_list (map (\<lambda>k. count_list (f k) j) ks)"
  by (induction ks) (simp_all add: count_list_append)

lemma count_list_gt_0: "x \<in> set xs \<Longrightarrow> 0 < count_list xs x"
  by (metis count_list_0_iff gr0I)

subsection \<open>Branches that ended and branches that succeeded\<close>

definition ended :: "sched \<Rightarrow> nat \<Rightarrow> bool" where
  "ended st j \<longleftrightarrow> b_status st ! j = Finished \<or> b_status st ! j = DepSkipped"

definition good :: "sched \<Rightarrow> nat \<Rightarrow> bool" where
  "good st j \<longleftrightarrow> b_status st ! j = Finished \<and> out_err (b_outcomes st ! j) = None"

definition bad :: "sched \<Rightarrow> nat \<Rightarrow> bool" where
  "bad st j \<longleftrightarrow> ended st j \<and> \<not> good st j"

text \<open>The open edges of a branch: needs that have not succeeded, siblings to follow that have not ended.\<close>

definition open_edges :: "concurrent_graph \<Rightarrow> (nat \<Rightarrow> bool) \<Rightarrow> (nat \<Rightarrow> bool) \<Rightarrow> nat \<Rightarrow> int" where
  "open_edges g G E i = int (length (filter (\<lambda>j. \<not> G j) (dependencies g ! i)) +
     length (filter (\<lambda>j. \<not> E j) (after_of g ! i)))"

lemma open_edges_zero:
  "open_edges g G E i = 0 \<longleftrightarrow> (\<forall>j \<in> set (dependencies g ! i). G j) \<and> (\<forall>j \<in> set (after_of g ! i). E j)"
  by (simp only: open_edges_def of_nat_eq_0_iff add_is_0 length_0_conv filter_empty_conv not_not)

definition counts_ok :: "nat \<Rightarrow> concurrent_graph \<Rightarrow> (nat \<Rightarrow> bool) \<Rightarrow> (nat \<Rightarrow> bool) \<Rightarrow> (nat \<Rightarrow> bool) \<Rightarrow> int list \<Rightarrow> nat list \<Rightarrow> bool" where
  "counts_ok n g pend G E remaining ready \<longleftrightarrow> length remaining = n \<and>
     (\<forall>i < n. pend i \<longrightarrow> remaining ! i = open_edges g G E i) \<and>
     distinct ready \<and> (\<forall>i. i \<in> set ready \<longleftrightarrow> i < n \<and> pend i \<and> remaining ! i = 0)"

locale sched_graph =
  needs: edge_lists n "dependencies g" "dependents g" + order: edge_lists n "after_of g" "afterDependents g"
  for n :: nat and g :: concurrent_graph
begin

text \<open>Closing the edges out of newly ended and newly succeeded branches restores the counters.\<close>

lemma open_edges_close:
  assumes "i < n" and "distinct ks" "set ks \<subseteq> {..<n}" "\<And>k. k \<in> set ks \<Longrightarrow> \<not> E k"
    and "\<And>j. j < n \<Longrightarrow> E' j \<longleftrightarrow> E j \<or> j \<in> set ks"
    and "distinct gs" "set gs \<subseteq> {..<n}" "\<And>k. k \<in> set gs \<Longrightarrow> \<not> G k" "\<And>j. j < n \<Longrightarrow> G' j \<longleftrightarrow> G j \<or> j \<in> set gs"
  shows "open_edges g G E i = open_edges g G' E' i +
     int (count_list (concat (map (\<lambda>k. dependents g ! k) gs) @ concat (map (\<lambda>k. afterDependents g ! k) ks)) i)"
proof -
  have "sum_list (map (\<lambda>k. count_list (dependents g ! k) i) gs) = sum_list (map (count_list (dependencies g ! i)) gs)"
    by (rule arg_cong [where f = sum_list], rule map_cong) (use needs.same_edges assms in auto)
  moreover have "sum_list (map (\<lambda>k. count_list (afterDependents g ! k) i) ks) = sum_list (map (count_list (after_of g ! i)) ks)"
    by (rule arg_cong [where f = sum_list], rule map_cong) (use order.same_edges assms in auto)
  moreover have "length (filter (\<lambda>j. \<not> E j) (after_of g ! i)) =
      length (filter (\<lambda>j. \<not> E' j) (after_of g ! i)) + sum_list (map (count_list (after_of g ! i)) ks)"
    by (rule filter_close) (use assms(2,4,5) order.preds_range [OF assms(1)] in blast)+
  moreover have "length (filter (\<lambda>j. \<not> G j) (dependencies g ! i)) =
      length (filter (\<lambda>j. \<not> G' j) (dependencies g ! i)) + sum_list (map (count_list (dependencies g ! i)) gs)"
    by (rule filter_close) (use assms(6,8,9) needs.preds_range [OF assms(1)] in blast)+
  ultimately show ?thesis
    by (simp add: open_edges_def count_list_append count_list_concat_map)
qed

lemma counts_ok_close:
  assumes counts: "counts_ok n g pend G E remaining ready"
    and pend': "\<And>i. pend' i \<Longrightarrow> i < n \<and> pend i" and keep: "\<And>i. i \<in> set ready \<Longrightarrow> pend' i"
    and close: "\<And>i. i < n \<Longrightarrow> pend' i \<Longrightarrow> open_edges g G E i = open_edges g G' E' i + int (count_list ds i)"
    and run: "decrement pend' ds (remaining, ready) = (remaining', ready')"
  shows "counts_ok n g pend' G' E' remaining' ready'"
proof -
  have len: "length remaining = n" and val: "\<And>i. i < n \<Longrightarrow> pend i \<Longrightarrow> remaining ! i = open_edges g G E i"
    and rdy: "distinct ready" "\<And>i. i \<in> set ready \<longleftrightarrow> i < n \<and> pend i \<and> remaining ! i = 0"
    using counts by (auto simp: counts_ok_def)
  have nonneg: "open_edges g G' E' i \<ge> 0" for i by (simp add: open_edges_def)
  have bound: "i < length remaining \<and> int (count_list ds i) \<le> remaining ! i" if "pend' i" for i
    using that pend' [OF that] val [of i] close [of i] nonneg [of i] len by simp
  have raw: "length remaining' = length remaining
    \<and> (\<forall>i. remaining' ! i = (if pend' i then remaining ! i - int (count_list ds i) else remaining ! i))
    \<and> (\<exists>new. ready' = ready @ new \<and> distinct new
         \<and> set new = {i \<in> set ds. pend' i \<and> remaining ! i = int (count_list ds i)})"
    by (rule decrement_spec [OF _ run]) (use bound in blast)
  then obtain new where new: "ready' = ready @ new" "distinct new"
    "\<And>i. i \<in> set new \<longleftrightarrow> i \<in> set ds \<and> pend' i \<and> remaining ! i = int (count_list ds i)" by blast
  have val': "remaining' ! i = open_edges g G' E' i" if "i < n" "pend' i" for i
    using raw that val [of i] pend' [OF that(2)] close [OF that] by simp
  have rem': "remaining' ! i = remaining ! i - int (count_list ds i)" if "pend' i" for i
    using raw that by simp
  have "set new \<inter> set ready = {}"
    using new(3) rdy(2) count_list_gt_0 by fastforce
  moreover have "i \<in> set ready' \<longleftrightarrow> i < n \<and> pend' i \<and> remaining' ! i = 0" for i
  proof (cases "pend' i")
    case True
    show ?thesis
    proof (cases "i \<in> set ds")
      case in_ds: True
      then have "remaining ! i \<noteq> 0" using bound [OF True] count_list_gt_0 [OF in_ds] by linarith
      then show ?thesis using in_ds True new rdy rem' [OF True] bound [OF True] len by auto
    next
      case False
      then have "count_list ds i = 0" by (simp add: count_list_0_iff)
      then show ?thesis using False True new rdy rem' [OF True] pend' by auto
    qed
  next
    case False
    then show ?thesis using keep new by auto
  qed
  ultimately show ?thesis
    unfolding counts_ok_def using raw len val' new rdy(1) by auto
qed

end

subsection \<open>The invariant\<close>

definition count_status_list :: "(branch_status \<Rightarrow> bool) \<Rightarrow> sched \<Rightarrow> nat" where
  "count_status_list P st = length (filter P (b_status st))"

definition lengths_ok :: "nat \<Rightarrow> sched \<Rightarrow> bool" where
  "lengths_ok n st \<longleftrightarrow> length (b_status st) = n \<and> length (b_outcomes st) = n \<and> length (b_reads st) = n"

definition totals_ok :: "concurrent_group \<Rightarrow> sched \<Rightarrow> bool" where
  "totals_ok grp st \<longleftrightarrow> b_running st = count_status_list (\<lambda>s. s = Running) st \<and>
     b_running st \<le> conc_max_concurrency grp \<and>
     b_terminal st = count_status_list (\<lambda>s. s = Finished \<or> s = DepSkipped) st"

text \<open>Started branches had all their edges closed; skipped branches are exactly those with a failed or
  skipped need.\<close>

definition edges_respected :: "nat \<Rightarrow> concurrent_graph \<Rightarrow> sched \<Rightarrow> bool" where
  "edges_respected n g st \<longleftrightarrow> (\<forall>i < n.
     (b_status st ! i \<in> {Running, Finished} \<longrightarrow>
        (\<forall>j \<in> set (dependencies g ! i). good st j) \<and> (\<forall>j \<in> set (after_of g ! i). ended st j)) \<and>
     (b_status st ! i = DepSkipped \<longleftrightarrow> (\<exists>j \<in> set (dependencies g ! i). bad st j)))"

lemma respected_started:
  "edges_respected n g st \<Longrightarrow> i < n \<Longrightarrow> b_status st ! i = Running \<or> b_status st ! i = Finished \<Longrightarrow>
   (\<forall>j \<in> set (dependencies g ! i). good st j) \<and> (\<forall>j \<in> set (after_of g ! i). ended st j)"
  unfolding edges_respected_def by blast

lemma respected_skipped:
  "edges_respected n g st \<Longrightarrow> i < n \<Longrightarrow>
   b_status st ! i = DepSkipped \<longleftrightarrow> (\<exists>j \<in> set (dependencies g ! i). bad st j)"
  unfolding edges_respected_def by blast

definition is_pending :: "nat \<Rightarrow> sched \<Rightarrow> nat \<Rightarrow> bool" where
  "is_pending n st i \<longleftrightarrow> i < n \<and> b_status st ! i = Pending"

definition sched_counts :: "nat \<Rightarrow> concurrent_graph \<Rightarrow> sched \<Rightarrow> bool" where
  "sched_counts n g st \<longleftrightarrow>
     counts_ok n g (is_pending n st) (good st) (ended st) (b_remaining st) (b_ready st)"

definition sched_inv :: "concurrent_group \<Rightarrow> nat \<Rightarrow> concurrent_graph \<Rightarrow> sched \<Rightarrow> bool" where
  "sched_inv grp n g st \<longleftrightarrow> lengths_ok n st \<and> totals_ok grp st \<and> edges_respected n g st \<and>
     sched_counts n g st \<and> (b_stop st \<longrightarrow> b_cancelled st)"

lemma filter_replicate_empty: "\<not> P x \<Longrightarrow> filter P (replicate n x) = []"
  by (induction n) auto

context sched_graph
begin

lemma sched_inv_init: "length steps = n \<Longrightarrow> sched_inv grp n g (sched_init steps g)"
proof -
  assume len: "length steps = n"
  have st: "b_status (sched_init steps g) ! i = Pending" if "i < n" for i
    using that len by (simp add: sched_init_def Let_def)
  have no: "\<not> ended (sched_init steps g) j" "\<not> good (sched_init steps g) j" if "j < n" for j
    using st [OF that] by (auto simp: ended_def good_def)
  have full: "filter (\<lambda>j. \<not> good (sched_init steps g) j) (dependencies g ! i) = dependencies g ! i"
    "filter (\<lambda>j. \<not> ended (sched_init steps g) j) (after_of g ! i) = after_of g ! i" if "i < n" for i
    using no needs.preds_range [OF that] order.preds_range [OF that] by (auto simp: filter_id_conv)
  have "sched_counts n g (sched_init steps g)"
    unfolding sched_counts_def counts_ok_def open_edges_def is_pending_def
    using full len st by (auto simp: sched_init_def Let_def)
  moreover have "edges_respected n g (sched_init steps g)"
    unfolding edges_respected_def using st no needs.preds_range by (auto simp: bad_def)
  moreover have "totals_ok grp (sched_init steps g)"
    unfolding totals_ok_def count_status_list_def sched_init_def Let_def by (simp add: filter_replicate_empty)
  ultimately show ?thesis
    using len by (auto simp: sched_inv_def lengths_ok_def sched_init_def Let_def)
qed

lemma ready_facts:
  assumes "sched_inv grp n g st" "i \<in> set (b_ready st)"
  shows "i < n" "b_status st ! i = Pending" "\<forall>j \<in> set (dependencies g ! i). good st j"
    "\<forall>j \<in> set (after_of g ! i). ended st j"
proof -
  show i: "i < n" "b_status st ! i = Pending"
    using assms by (auto simp: sched_inv_def sched_counts_def counts_ok_def is_pending_def)
  then have "open_edges g (good st) (ended st) i = 0"
    using assms by (auto simp: sched_inv_def sched_counts_def counts_ok_def is_pending_def)
  then show "\<forall>j \<in> set (dependencies g ! i). good st j" "\<forall>j \<in> set (after_of g ! i). ended st j"
    by (simp_all add: open_edges_zero)
qed

lemma sched_inv_launch:
  assumes inv: "sched_inv grp n g st" and can: "can_launch grp st"
  shows "sched_inv grp n g (launch steps g snapshot st)"
proof -
  obtain i rest where ready: "b_ready st = i # rest"
    using can by (cases "b_ready st") (auto simp: can_launch_def)
  note i = ready_facts [OF inv, of i, unfolded ready, simplified]
  let ?st = "launch steps g snapshot st"
  have len: "length (b_status st) = n" using inv by (simp add: sched_inv_def lengths_ok_def)
  have fields: "b_status ?st = (b_status st)[i := Running]" "b_running ?st = b_running st + 1"
    "b_ready ?st = rest" "b_remaining ?st = b_remaining st" "b_outcomes ?st = b_outcomes st"
    "b_terminal ?st = b_terminal st" "b_stop ?st = b_stop st" "b_cancelled ?st = b_cancelled st"
    "length (b_reads ?st) = length (b_reads st)"
    using i(2) ready by (simp_all add: launch_def)
  have status: "b_status ?st ! j = (if j = i then Running else b_status st ! j)" if "j < n" for j
    using i len by (simp add: fields nth_list_update)
  have ended: "ended ?st = ended st" and good: "good ?st = good st"
    using i(2) len by (auto simp: ended_def good_def fields fun_eq_iff nth_list_update_cases)
  have "totals_ok grp ?st"
    using inv can len i length_filter_update [of i "b_status st" "\<lambda>s. s = Running" Running]
      length_filter_update [of i "b_status st" "\<lambda>s. s = Finished \<or> s = DepSkipped" Running]
    by (auto simp: totals_ok_def fields count_status_list_def sched_inv_def can_launch_def)
  moreover have "edges_respected n g ?st"
    using inv i status by (auto simp: sched_inv_def edges_respected_def ended good bad_def)
  moreover have "sched_counts n g ?st"
  proof -
    have "counts_ok n g (is_pending n st) (good st) (ended st) (b_remaining st) (i # rest)"
      using inv ready by (simp add: sched_inv_def sched_counts_def)
    moreover have "is_pending n ?st j \<longleftrightarrow> is_pending n st j \<and> j \<noteq> i" for j
      using status [of j] by (cases "j = i") (auto simp: is_pending_def)
    ultimately show ?thesis
      unfolding sched_counts_def ended good fields counts_ok_def by auto
  qed
  ultimately show ?thesis
    using inv by (simp add: sched_inv_def lengths_ok_def fields)
qed

end

subsection \<open>Skipping the descendants of a failed branch\<close>

text \<open>The loop reaches every pending branch that transitively needs the origin, each once.\<close>

definition skip_shape :: "step list \<Rightarrow> branch_status list \<Rightarrow> branch_outcome list \<Rightarrow>
    branch_status list \<Rightarrow> branch_outcome list \<Rightarrow> nat list \<Rightarrow> bool" where
  "skip_shape steps status0 outcomes0 status outcomes gone \<longleftrightarrow>
     length status = length status0 \<and> length outcomes = length outcomes0 \<and>
     distinct gone \<and> (\<forall>j \<in> set gone. j < length status0 \<and> status0 ! j = Pending) \<and>
     (\<forall>j. status ! j = (if j \<in> set gone then DepSkipped else status0 ! j)) \<and>
     (\<forall>j < length outcomes0. outcomes ! j = (if j \<in> set gone then skipped_outcome (steps ! j) else outcomes0 ! j))"

definition skip_closed :: "nat list list \<Rightarrow> nat \<Rightarrow> branch_status list \<Rightarrow> nat list \<Rightarrow> nat list \<Rightarrow> bool" where
  "skip_closed deps origin status queue gone \<longleftrightarrow>
     (\<forall>j \<in> set gone \<union> set queue. \<exists>k \<in> insert origin (set gone). j \<in> set (deps ! k)) \<and>
     (\<forall>k \<in> insert origin (set gone). \<forall>j \<in> set (deps ! k). j < length status \<longrightarrow> status ! j \<noteq> Pending \<or> j \<in> set queue)"

definition skip_ok :: "step list \<Rightarrow> nat list list \<Rightarrow> nat \<Rightarrow> branch_status list \<Rightarrow> branch_outcome list \<Rightarrow>
    branch_status list \<Rightarrow> branch_outcome list \<Rightarrow> nat list \<Rightarrow> nat list \<Rightarrow> bool" where
  "skip_ok steps deps origin status0 outcomes0 status outcomes queue gone \<longleftrightarrow>
     skip_shape steps status0 outcomes0 status outcomes gone \<and> skip_closed deps origin status queue gone"

lemma skip_closed_pop:
  "skip_closed deps origin status (i # queue) gone \<Longrightarrow> \<not> (i < length status \<and> status ! i = Pending) \<Longrightarrow>
   skip_closed deps origin status queue gone"
  unfolding skip_closed_def by auto

lemma skip_closed_mark:
  assumes "skip_closed deps origin status (i # queue) gone" and "i < length status"
  shows "skip_closed deps origin (status[i := DepSkipped]) (queue @ deps ! i) (gone @ [i])"
proof -
  have status: "status[i := DepSkipped] ! j = (if j = i then DepSkipped else status ! j)" for j
    using assms(2) by (simp add: nth_list_update_cases)
  show ?thesis using assms unfolding skip_closed_def by (auto simp: status)
qed

lemma skip_shape_mark:
  assumes ok: "skip_shape steps status0 outcomes0 status outcomes gone"
    and i: "i < length status" "status ! i = Pending"
  shows "skip_shape steps status0 outcomes0 (status[i := DepSkipped])
     (outcomes[i := skipped_outcome (steps ! i)]) (gone @ [i])"
proof -
  have status: "status[i := DepSkipped] ! j = (if j = i then DepSkipped else status ! j)" for j
    using i by (simp add: nth_list_update_cases)
  have old: "status ! j = (if j \<in> set gone then DepSkipped else status0 ! j)" for j
    using ok by (simp add: skip_shape_def)
  have fresh: "i \<notin> set gone" "status0 ! i = Pending"
    using old [of i] i by (auto split: if_splits)
  show ?thesis
    using ok fresh i unfolding skip_shape_def by (auto simp: status nth_list_update_cases)
qed

lemma skip_ok_pop:
  "skip_ok steps deps origin status0 outcomes0 status outcomes (i # queue) gone \<Longrightarrow>
   \<not> (i < length status \<and> status ! i = Pending) \<Longrightarrow>
   skip_ok steps deps origin status0 outcomes0 status outcomes queue gone"
  using skip_closed_pop unfolding skip_ok_def by blast

lemma skip_ok_mark:
  "skip_ok steps deps origin status0 outcomes0 status outcomes (i # queue) gone \<Longrightarrow>
   i < length status \<Longrightarrow> status ! i = Pending \<Longrightarrow>
   skip_ok steps deps origin status0 outcomes0 (status[i := DepSkipped])
     (outcomes[i := skipped_outcome (steps ! i)]) (queue @ deps ! i) (gone @ [i])"
  using skip_closed_mark skip_shape_mark unfolding skip_ok_def by blast

lemma skip_loop_ok:
  assumes "skip_ok steps deps origin status0 outcomes0 status outcomes queue gone"
    and "skip_loop steps deps queue gone status outcomes = (status', outcomes', gone')"
  shows "skip_ok steps deps origin status0 outcomes0 status' outcomes' [] gone'"
  using assms
proof (induction steps deps queue gone status outcomes rule: skip_loop.induct)
  case (2 steps deps i queue gone status outcomes)
  show ?case
  proof (cases "i < length status \<and> status ! i = Pending")
    case True
    then show ?thesis using 2 skip_ok_mark [OF "2.prems"(1)] by simp
  next
    case False
    then show ?thesis using 2 skip_ok_pop [OF "2.prems"(1)] by auto
  qed
qed simp

lemma skip_descendants_ok:
  assumes "skipConcurrentDescendants steps deps origin status outcomes = (status', outcomes', gone)"
  shows "skip_ok steps deps origin status outcomes status' outcomes' [] gone"
  using assms unfolding skipConcurrentDescendants_def
  by (intro skip_loop_ok [where queue = "deps ! origin" and gone = "[]"])
    (auto simp: skip_ok_def skip_shape_def skip_closed_def)

subsection \<open>Completions\<close>

lemma admit_append: "admit (xs @ ys) st = admit ys (admit xs st)"
  by (simp add: admit_def decrement_append split: prod.splits)

lemma admit_Nil [simp]: "admit [] st = st"
  by (simp add: admit_def)

lemma fold_admit: "fold (\<lambda>j. admit (f j)) js st = admit (concat (map f js)) st"
  by (induction js arbitrary: st) (simp_all add: admit_append)

lemma complete_fields:
  assumes "i < length (b_status st)"
  obtains status outcomes gone remaining ready where
    "skip_ok steps (dependents g) i ((b_status st)[i := Finished]) ((b_outcomes st)[i := oc]) status outcomes
        (if out_err oc = None then dependents g ! i else []) gone"
    and "out_err oc = None \<Longrightarrow> gone = []"
    and "decrement (\<lambda>d. d < length (b_status st) \<and> status ! d = Pending)
        (concat (map (\<lambda>j. afterDependents g ! j) gone) @ (if out_err oc = None then dependents g ! i else []) @
           afterDependents g ! i) (b_remaining st, b_ready st) = (remaining, ready)"
    and "complete grp steps g i oc st = st\<lparr>b_status := status, b_remaining := remaining, b_ready := sort ready,
        b_running := b_running st - 1, b_terminal := b_terminal st + 1 + length gone,
        b_stop := b_stop st \<or> (out_err oc \<noteq> None \<and> conc_fail_fast grp),
        b_cancelled := b_cancelled st \<or> (out_err oc \<noteq> None \<and> conc_fail_fast grp), b_outcomes := outcomes\<rparr>"
proof (cases "out_err oc = None")
  case True
  let ?pend = "\<lambda>d. d < length (b_status st) \<and> (b_status st)[i := Finished] ! d = Pending"
  obtain rem1 rdy1 where run1: "decrement ?pend (dependents g ! i) (b_remaining st, b_ready st) = (rem1, rdy1)"
    by fastforce
  obtain remaining ready where run2: "decrement ?pend (afterDependents g ! i) (rem1, rdy1) = (remaining, ready)"
    by fastforce
  note run = run1 run2
  show ?thesis
  proof (rule that [of "(b_status st)[i := Finished]" "(b_outcomes st)[i := oc]" "[]" remaining ready])
    show "skip_ok steps (dependents g) i ((b_status st)[i := Finished]) ((b_outcomes st)[i := oc])
        ((b_status st)[i := Finished]) ((b_outcomes st)[i := oc])
        (if out_err oc = None then dependents g ! i else []) []"
      using True by (simp add: skip_ok_def skip_shape_def skip_closed_def)
  qed (use True run in \<open>simp_all add: complete_def admit_def decrement_append Let_def\<close>)
next
  case False
  then obtain e where err: "out_err oc = Some e" by auto
  obtain status outcomes gone where skip:
    "skipConcurrentDescendants steps (dependents g) i ((b_status st)[i := Finished]) ((b_outcomes st)[i := oc]) =
       (status, outcomes, gone)"
    by (metis surj_pair)
  note ok = skip_descendants_ok [OF skip]
  have len: "length status = length (b_status st)" using ok by (simp add: skip_ok_def skip_shape_def)
  let ?pend = "\<lambda>d. d < length (b_status st) \<and> status ! d = Pending"
  obtain rem1 rdy1 where run1:
    "decrement ?pend (concat (map (\<lambda>j. afterDependents g ! j) gone)) (b_remaining st, b_ready st) = (rem1, rdy1)"
    by fastforce
  obtain remaining ready where run2: "decrement ?pend (afterDependents g ! i) (rem1, rdy1) = (remaining, ready)"
    by fastforce
  note run = run1 run2
  show ?thesis
  proof (rule that [of status outcomes gone remaining ready])
    show "skip_ok steps (dependents g) i ((b_status st)[i := Finished]) ((b_outcomes st)[i := oc]) status outcomes
        (if out_err oc = None then dependents g ! i else []) gone"
      using ok err by simp
  qed (use err skip run len in \<open>simp_all add: complete_def fold_admit admit_def decrement_append Let_def\<close>)
qed

lemma length_filter_card: "length xs = n \<Longrightarrow> length (filter P xs) = card {j. j < n \<and> P (xs ! j)}"
  by (simp add: length_filter_conv_card)

text \<open>What a completion does to the sets of branches.\<close>

definition completes :: "nat \<Rightarrow> nat \<Rightarrow> branch_outcome \<Rightarrow> nat list \<Rightarrow> sched \<Rightarrow> sched \<Rightarrow> bool" where
  "completes n i oc gone st st' \<longleftrightarrow> i < n \<and> b_status st ! i = Running \<and> distinct gone \<and>
     (out_err oc = None \<longrightarrow> gone = []) \<and>
     (\<forall>j \<in> set gone. j < n \<and> b_status st ! j = Pending) \<and>
     (\<forall>j < n. b_status st' ! j =
        (if j \<in> set gone then DepSkipped else if j = i then Finished else b_status st ! j)) \<and>
     (\<forall>j < n. j \<notin> set gone \<longrightarrow> b_outcomes st' ! j = (if j = i then oc else b_outcomes st ! j)) \<and>
     b_running st' = b_running st - 1 \<and> b_terminal st' = b_terminal st + 1 + length gone"

lemma completes_sets:
  assumes "completes n i oc gone st st'" and "j < n"
  shows "ended st' j \<longleftrightarrow> ended st j \<or> j \<in> set (i # gone)"
    and "good st' j \<longleftrightarrow> good st j \<or> (out_err oc = None \<and> j = i)"
    and "bad st' j \<longleftrightarrow> bad st j \<or> (out_err oc \<noteq> None \<and> j = i) \<or> j \<in> set gone"
    and "is_pending n st' j \<longleftrightarrow> is_pending n st j \<and> j \<notin> set gone"
    and "j \<in> set (i # gone) \<Longrightarrow> \<not> ended st j" and "j \<in> set (i # gone) \<Longrightarrow> \<not> good st j"
proof -
  have status: "b_status st' ! j = (if j \<in> set gone then DepSkipped else if j = i then Finished else b_status st ! j)"
    and outc: "j \<notin> set gone \<Longrightarrow> b_outcomes st' ! j = (if j = i then oc else b_outcomes st ! j)"
    and pend: "j \<in> set gone \<Longrightarrow> b_status st ! j = Pending" and i: "b_status st ! i = Running"
    and none: "out_err oc = None \<Longrightarrow> gone = []"
    using assms by (auto simp: completes_def)
  note defs = ended_def good_def bad_def is_pending_def
  consider (gone) "j \<in> set gone" "j \<noteq> i" | (index) "j = i" "j \<notin> set gone" | (other) "j \<noteq> i" "j \<notin> set gone"
    using pend i by (cases "j = i") auto
  note cs = this
  show "ended st' j \<longleftrightarrow> ended st j \<or> j \<in> set (i # gone)"
    by (cases rule: cs) (use status pend i in \<open>simp_all add: defs\<close>)
  show "good st' j \<longleftrightarrow> good st j \<or> (out_err oc = None \<and> j = i)"
    by (cases rule: cs) (use status pend i outc in \<open>simp_all add: defs\<close>)
  show "bad st' j \<longleftrightarrow> bad st j \<or> (out_err oc \<noteq> None \<and> j = i) \<or> j \<in> set gone"
    by (cases rule: cs) (use status pend i outc in \<open>auto simp add: defs\<close>)
  show "is_pending n st' j \<longleftrightarrow> is_pending n st j \<and> j \<notin> set gone"
    by (cases rule: cs) (use status pend i in \<open>simp_all add: defs\<close>)
  show "j \<in> set (i # gone) \<Longrightarrow> \<not> ended st j" "j \<in> set (i # gone) \<Longrightarrow> \<not> good st j"
    using pend i by (auto simp: defs)
qed

lemma totals_completes:
  assumes c: "completes n i oc gone st st'" and totals: "totals_ok grp st"
    and len: "length (b_status st) = n" "length (b_status st') = n"
  shows "totals_ok grp st'"
proof -
  have status: "b_status st' ! j = (if j \<in> set gone then DepSkipped else if j = i then Finished else b_status st ! j)"
    if "j < n" for j
    using c that by (simp add: completes_def)
  have pend: "b_status st ! j = Pending" "j < n" if "j \<in> set gone" for j
    using c that by (auto simp: completes_def)
  have i: "i < n" "b_status st ! i = Running" "distinct gone" "i \<notin> set gone"
    using c by (auto simp: completes_def)
  have "{j. j < n \<and> b_status st' ! j = Running} = {j. j < n \<and> b_status st ! j = Running} - {i}"
    using status pend by (auto split: if_splits)
  then have "count_status_list (\<lambda>s. s = Running) st' = count_status_list (\<lambda>s. s = Running) st - 1"
    using i by (simp add: count_status_list_def length_filter_card [OF len(1)] length_filter_card [OF len(2)])
  moreover have "{j. j < n \<and> (b_status st' ! j = Finished \<or> b_status st' ! j = DepSkipped)} =
      {j. j < n \<and> (b_status st ! j = Finished \<or> b_status st ! j = DepSkipped)} \<union> set (i # gone)"
    using status pend i by (auto split: if_splits)
  moreover have "card ({j. j < n \<and> (b_status st ! j = Finished \<or> b_status st ! j = DepSkipped)} \<union> set (i # gone)) =
      card {j. j < n \<and> (b_status st ! j = Finished \<or> b_status st ! j = DepSkipped)} + card (set (i # gone))"
    by (rule card_Un_disjoint) (use pend i in auto)
  ultimately show ?thesis
    using totals c i distinct_card [of gone]
    by (auto simp: totals_ok_def completes_def count_status_list_def
        length_filter_card [OF len(1)] length_filter_card [OF len(2)])
qed

lemma complete_completes:
  assumes inv: "sched_inv grp n g st" and i: "i < n" "b_status st ! i = Running"
    and ok: "skip_ok steps (dependents g) i ((b_status st)[i := Finished]) ((b_outcomes st)[i := oc]) status outcomes
        (if out_err oc = None then dependents g ! i else []) gone"
    and none: "out_err oc = None \<Longrightarrow> gone = []"
    and st': "b_status st' = status" "b_outcomes st' = outcomes" "b_running st' = b_running st - 1"
      "b_terminal st' = b_terminal st + 1 + length gone"
  shows "completes n i oc gone st st'" and "lengths_ok n (st'\<lparr>b_reads := b_reads st\<rparr>)"
proof -
  have len: "length (b_status st) = n" "length (b_outcomes st) = n" "length (b_reads st) = n"
    using inv by (auto simp: sched_inv_def lengths_ok_def)
  have shape: "skip_shape steps ((b_status st)[i := Finished]) ((b_outcomes st)[i := oc]) status outcomes gone"
    using ok by (simp add: skip_ok_def)
  have pend: "j < n \<and> b_status st ! j = Pending \<and> j \<noteq> i" if "j \<in> set gone" for j
    using shape that len i by (cases "j = i") (auto simp: skip_shape_def)
  have status: "status ! j = (if j \<in> set gone then DepSkipped else if j = i then Finished else b_status st ! j)"
    if "j < n" for j
    using shape that len by (simp add: skip_shape_def)
  have outc: "outcomes ! j = (if j = i then oc else b_outcomes st ! j)" if "j < n" "j \<notin> set gone" for j
    using shape that len by (simp add: skip_shape_def)
  show "completes n i oc gone st st'"
    unfolding completes_def using shape pend status outc none i st' by (simp add: skip_shape_def)
  show "lengths_ok n (st'\<lparr>b_reads := b_reads st\<rparr>)"
    using shape len st' by (simp add: lengths_ok_def skip_shape_def)
qed

context sched_graph
begin

lemma respected_completes:
  assumes c: "completes n i oc gone st st'" and inv: "edges_respected n g st"
    and closed: "skip_closed (dependents g) i (b_status st') (if out_err oc = None then dependents g ! i else []) gone"
    and len: "length (b_status st') = n"
  shows "edges_respected n g st'"
proof -
  have i: "i < n" and none: "out_err oc = None \<Longrightarrow> gone = []" and gone: "\<And>j. j \<in> set gone \<Longrightarrow> j < n"
    and i_run: "b_status st ! i = Running" and pend: "\<And>j. j \<in> set gone \<Longrightarrow> b_status st ! j = Pending"
    using c by (auto simp: completes_def)
  have status: "b_status st' ! k = (if k \<in> set gone then DepSkipped else if k = i then Finished else b_status st ! k)"
    if "k < n" for k
    using c that by (simp add: completes_def)
  note sets = completes_sets [OF c]
  have started: "(\<forall>j \<in> set (dependencies g ! k). good st' j) \<and> (\<forall>j \<in> set (after_of g ! k). ended st' j)"
    if "k < n" "b_status st' ! k = Running \<or> b_status st' ! k = Finished" for k
  proof -
    have "b_status st ! k = Running \<or> b_status st ! k = Finished"
      using that status [OF that(1)] i_run by (auto split: if_splits)
    then have "(\<forall>j \<in> set (dependencies g ! k). good st j) \<and> (\<forall>j \<in> set (after_of g ! k). ended st j)"
      using respected_started [OF inv that(1)] by blast
    then show ?thesis
      using sets(1,2) needs.preds_range [OF that(1)] order.preds_range [OF that(1)] by blast
  qed
  have down: "\<exists>j \<in> set (dependencies g ! k). bad st' j" if k: "k < n" and "b_status st' ! k = DepSkipped" for k
  proof (cases "k \<in> set gone")
    case True
    then obtain m where m: "m \<in> insert i (set gone)" "k \<in> set (dependents g ! m)"
      using closed True unfolding skip_closed_def by blast
    have "m < n" using m(1) i gone by auto
    moreover have "m \<in> set (dependencies g ! k)" using needs.mem_succs [OF \<open>m < n\<close>] m(2) by simp
    moreover have "bad st' m" using sets(3) [OF \<open>m < n\<close>] m(1) none True by auto
    ultimately show ?thesis by blast
  next
    case False
    then have "b_status st ! k = DepSkipped" using that status [OF that(1)] by (auto split: if_splits)
    then obtain j where "j \<in> set (dependencies g ! k)" "bad st j"
      using respected_skipped [OF inv k] by blast
    then show ?thesis using sets(3) needs.preds_range [OF that(1)] by blast
  qed
  have up: "b_status st' ! k = DepSkipped" if k: "k < n" and j: "j \<in> set (dependencies g ! k)" "bad st' j" for k j
  proof -
    have jn: "j < n" using needs.preds_range k j(1) .
    consider (old) "bad st j" | (new) "out_err oc \<noteq> None" "j \<in> insert i (set gone)"
      using sets(3) [OF jn] j(2) none by (cases "out_err oc = None") auto
    then show ?thesis
    proof cases
      case old
      then have "b_status st ! k = DepSkipped" using respected_skipped [OF inv k] j(1) by blast
      then show ?thesis using status [OF k] i_run pend by auto
    next
      case new
      have "k \<in> set (dependents g ! j)" using needs.mem_succs [OF jn] k j(1) by simp
      then have "b_status st' ! k \<noteq> Pending" using closed new k len by (auto simp: skip_closed_def)
      moreover have "\<not> good st' j" using j(2) by (simp add: bad_def)
      ultimately show ?thesis using started [OF k] j(1) by (cases "b_status st' ! k") auto
    qed
  qed
  show ?thesis unfolding edges_respected_def using started down up by blast
qed

lemma counts_completes:
  assumes c: "completes n i oc gone st st'" and inv: "sched_inv grp n g st"
    and src: "\<And>j. j \<in> set gone \<Longrightarrow> \<exists>k \<in> insert i (set gone). j \<in> set (dependents g ! k)"
    and run: "decrement (is_pending n st') (concat (map (\<lambda>j. afterDependents g ! j) gone) @
           (if out_err oc = None then dependents g ! i else []) @ afterDependents g ! i)
         (b_remaining st, b_ready st) = (b_remaining st', ready)"
    and sorted: "b_ready st' = sort ready"
  shows "sched_counts n g st'"
proof -
  have i: "i < n" and gone: "distinct (i # gone)" "\<And>j. j \<in> set gone \<Longrightarrow> j < n"
    and i_run: "b_status st ! i = Running" and pend: "\<And>j. j \<in> set gone \<Longrightarrow> b_status st ! j = Pending"
    using c by (auto simp: completes_def)
  note sets = completes_sets [OF c]
  have "counts_ok n g (is_pending n st') (good st') (ended st') (b_remaining st') ready"
  proof (rule counts_ok_close [OF _ _ _ _ run])
    show "counts_ok n g (is_pending n st) (good st) (ended st) (b_remaining st) (b_ready st)"
      using inv by (simp add: sched_inv_def sched_counts_def)
    show "j < n \<and> is_pending n st j" if "is_pending n st' j" for j
      using that sets(4) [of j] by (simp add: is_pending_def)
    show "is_pending n st' j" if "j \<in> set (b_ready st)" for j
    proof -
      note r = ready_facts [OF inv that]
      have "j \<notin> set gone"
      proof
        assume "j \<in> set gone"
        then obtain k where k: "k \<in> insert i (set gone)" "j \<in> set (dependents g ! k)" using src by blast
        then have "k < n" using i gone by auto
        then have "k \<in> set (dependencies g ! j)" using needs.mem_succs k(2) by simp
        then have "good st k" using r(3) by blast
        then show False using sets(6) [OF \<open>k < n\<close>] k(1) by simp
      qed
      then show ?thesis using sets(4) [OF r(1)] r by (simp add: is_pending_def)
    qed
    show "open_edges g (good st) (ended st) j = open_edges g (good st') (ended st') j +
        int (count_list (concat (map (\<lambda>j. afterDependents g ! j) gone) @
           (if out_err oc = None then dependents g ! i else []) @ afterDependents g ! i) j)" if "j < n" for j
    proof -
      have "open_edges g (good st) (ended st) j = open_edges g (good st') (ended st') j +
        int (count_list (concat (map (\<lambda>k. dependents g ! k) (if out_err oc = None then [i] else [])) @
           concat (map (\<lambda>k. afterDependents g ! k) (i # gone))) j)"
        by (rule open_edges_close [OF that gone(1)]) (use i gone sets in \<open>auto split: if_splits\<close>)
      then show ?thesis by (simp add: count_list_append)
    qed
  qed
  then show ?thesis by (simp add: sched_counts_def counts_ok_def sorted)
qed

lemma sched_inv_complete:
  assumes inv: "sched_inv grp n g st" and i: "i < n" "b_status st ! i = Running"
  shows "sched_inv grp n g (complete grp steps g i oc st)"
proof -
  have len: "length (b_status st) = n" using inv by (simp add: sched_inv_def lengths_ok_def)
  obtain status outcomes gone remaining ready where
    ok: "skip_ok steps (dependents g) i ((b_status st)[i := Finished]) ((b_outcomes st)[i := oc]) status outcomes
        (if out_err oc = None then dependents g ! i else []) gone"
    and none: "out_err oc = None \<Longrightarrow> gone = []"
    and run: "decrement (\<lambda>d. d < length (b_status st) \<and> status ! d = Pending)
        (concat (map (\<lambda>j. afterDependents g ! j) gone) @ (if out_err oc = None then dependents g ! i else []) @
           afterDependents g ! i) (b_remaining st, b_ready st) = (remaining, ready)"
    and st': "complete grp steps g i oc st = st\<lparr>b_status := status, b_remaining := remaining, b_ready := sort ready,
        b_running := b_running st - 1, b_terminal := b_terminal st + 1 + length gone,
        b_stop := b_stop st \<or> (out_err oc \<noteq> None \<and> conc_fail_fast grp),
        b_cancelled := b_cancelled st \<or> (out_err oc \<noteq> None \<and> conc_fail_fast grp), b_outcomes := outcomes\<rparr>"
    by (rule complete_fields [of i st steps g oc grp]) (use i len in auto)
  let ?st = "complete grp steps g i oc st"
  have c: "completes n i oc gone st ?st" and lens: "lengths_ok n (?st\<lparr>b_reads := b_reads st\<rparr>)"
    using complete_completes [OF inv i ok none, of ?st] by (simp_all add: st')
  have lens': "lengths_ok n ?st" using lens by (simp add: st' lengths_ok_def)
  have pend: "(\<lambda>d. d < length (b_status st) \<and> status ! d = Pending) = is_pending n ?st"
    using len by (simp add: is_pending_def st' fun_eq_iff)
  have len': "length (b_status ?st) = n" using lens' by (simp add: lengths_ok_def)
  have closed: "skip_closed (dependents g) i (b_status ?st) (if out_err oc = None then dependents g ! i else []) gone"
    using ok by (simp add: skip_ok_def st')
  have "sched_counts n g ?st"
  proof (rule counts_completes [OF c inv])
    show "decrement (is_pending n ?st) (concat (map (\<lambda>j. afterDependents g ! j) gone) @
           (if out_err oc = None then dependents g ! i else []) @ afterDependents g ! i)
         (b_remaining st, b_ready st) = (b_remaining ?st, ready)"
      using run unfolding pend by (simp add: st')
    show "b_ready ?st = sort ready" by (simp add: st')
  qed (use closed in \<open>auto simp: skip_closed_def\<close>)
  moreover have "edges_respected n g ?st"
    by (rule respected_completes [OF c _ closed len']) (use inv in \<open>simp add: sched_inv_def\<close>)
  moreover have "totals_ok grp ?st"
    by (rule totals_completes [OF c _ len len']) (use inv in \<open>simp add: sched_inv_def\<close>)
  moreover have "b_stop ?st \<longrightarrow> b_cancelled ?st"
    using inv by (auto simp: st' sched_inv_def)
  ultimately show ?thesis using lens' by (simp add: sched_inv_def)
qed

end

end
