(* ===== verification/SchedulerProperties.thy ===== *)
theory SchedulerProperties
  imports SchedulerInvariant
begin

text \<open>
  What the scheduler of a concurrent group guarantees, for every reachable state of
  \<open>sched_step\<close>: bounded concurrency and admission order, which branches are skipped, which
  state a branch reads, and that the loop ends with every branch accounted for.
\<close>

interpretation group_graph: sched_graph "length steps" "newConcurrentGraph steps" for steps
  by (intro sched_graph.intro graph_needs graph_after)

abbreviation group_reach :: "concurrent_group \<Rightarrow> step list \<Rightarrow> wstate \<Rightarrow> sched \<Rightarrow> bool" where
  "group_reach grp steps snapshot st \<equiv> sched_reach grp steps (newConcurrentGraph steps) snapshot st"

lemma context_frame [frame_simps]:
  "ended (st\<lparr>b_cancelled := c\<rparr>) = ended st" "good (st\<lparr>b_cancelled := c\<rparr>) = good st"
  "bad (st\<lparr>b_cancelled := c\<rparr>) = bad st" "is_pending n (st\<lparr>b_cancelled := c\<rparr>) = is_pending n st"
  "count_status_list P (st\<lparr>b_cancelled := c\<rparr>) = count_status_list P st"
  by (simp_all add: fun_eq_iff ended_def good_def bad_def is_pending_def count_status_list_def)

lemma inv_context: "sched_inv grp n g st \<Longrightarrow> sched_inv grp n g (st\<lparr>b_cancelled := True\<rparr>)"
  unfolding sched_inv_def lengths_ok_def totals_ok_def edges_respected_def sched_counts_def frame_simps by simp

lemma reach_inv:
  "group_reach grp steps snapshot st \<Longrightarrow> sched_inv grp (length steps) (newConcurrentGraph steps) st"
proof (induction rule: sched_reach.induct)
  case sched_start
  show ?case by (rule group_graph.sched_inv_init) simp
next
  case (sched_next st st')
  from sched_next.hyps(2) show ?case
  proof cases
    case sched_launch
    then show ?thesis using group_graph.sched_inv_launch sched_next.IH by blast
  next
    case (sched_complete index oc)
    moreover have "length (b_status st) = length steps"
      using sched_next.IH by (simp add: sched_inv_def lengths_ok_def)
    ultimately show ?thesis using group_graph.sched_inv_complete sched_next.IH by metis
  next
    case sched_context
    then show ?thesis using inv_context sched_next.IH by blast
  qed
qed

lemmas reach_parts = reach_inv [unfolded sched_inv_def]

subsection \<open>Skipped branches\<close>

definition failed_branch :: "sched \<Rightarrow> nat \<Rightarrow> bool" where
  "failed_branch st j \<longleftrightarrow> b_status st ! j = Finished \<and> out_err (b_outcomes st ! j) \<noteq> None"

abbreviation needs_closure :: "step list \<Rightarrow> (nat \<times> nat) set" where
  "needs_closure steps \<equiv> (edge_set (dependencies (newConcurrentGraph steps)))\<^sup>+"

lemma bad_iff: "bad st j \<longleftrightarrow> failed_branch st j \<or> b_status st ! j = DepSkipped"
  by (auto simp: bad_def ended_def good_def failed_branch_def)

lemma skipped_iff_ancestor:
  assumes inv: "edges_respected (length steps) (newConcurrentGraph steps) st"
    and acyc: "acyclic (edge_set (dependencies (newConcurrentGraph steps)))" and i: "i < length steps"
  shows "b_status st ! i = DepSkipped \<longleftrightarrow> (\<exists>j. (j, i) \<in> needs_closure steps \<and> failed_branch st j)"
proof
  let ?E = "edge_set (dependencies (newConcurrentGraph steps))"
  have wf: "wf ?E" using graph_needs.edges_finite acyc by (rule finite_acyclic_wf)
  assume "b_status st ! i = DepSkipped"
  then show "\<exists>j. (j, i) \<in> needs_closure steps \<and> failed_branch st j"
    using i
  proof (induction i rule: wf_induct_rule [OF wf])
    case (1 i)
    then obtain j where j: "j \<in> set (dependencies (newConcurrentGraph steps) ! i)" "bad st j"
      using respected_skipped [OF inv] by blast
    have edge: "(j, i) \<in> ?E" using j(1) "1.prems"(2) by (simp add: edge_set_def)
    have "j < length steps" using graph_needs.preds_range "1.prems"(2) j(1) by blast
    then show ?case
      using j(2) edge "1.IH" [OF edge] by (auto simp: bad_iff intro: trancl_into_trancl)
  qed
next
  assume "\<exists>j. (j, i) \<in> needs_closure steps \<and> failed_branch st j"
  then obtain j where j: "(j, i) \<in> needs_closure steps" "failed_branch st j" by blast
  from j show "b_status st ! i = DepSkipped"
  proof (induction rule: trancl_induct)
    case (base k)
    then show ?case using respected_skipped [OF inv, of k] bad_iff by (auto simp: edge_set_def)
  next
    case (step k l)
    then show ?case using respected_skipped [OF inv, of l] bad_iff by (auto simp: edge_set_def)
  qed
qed

subsection \<open>Progress\<close>

lemma pending_stuck:
  assumes inv: "sched_inv grp (length steps) (newConcurrentGraph steps) st"
    and acyc: "acyclic (edge_set (sibling_preds steps))"
    and none: "b_ready st = []" and idle: "b_running st = 0" and i: "i < length steps"
  shows "b_status st ! i \<noteq> Pending"
proof
  let ?n = "length steps" and ?g = "newConcurrentGraph steps"
  assume "b_status st ! i = Pending"
  then have "i \<in> {k. k < ?n \<and> b_status st ! k = Pending}" using i by simp
  then obtain k where k: "k < ?n" "b_status st ! k = Pending"
    and prev: "\<And>j. j \<in> set (sibling_preds steps ! k) \<Longrightarrow> \<not> (j < ?n \<and> b_status st ! j = Pending)"
    by (rule sibling_edges.minimal_node [OF acyc]) (auto simp: length_sibling_preds)
  have len: "length (b_status st) = ?n" using inv by (simp add: sched_inv_def lengths_ok_def)
  have "filter (\<lambda>s. s = Running) (b_status st) = []"
    using inv idle by (simp add: sched_inv_def totals_ok_def count_status_list_def)
  then have norun: "b_status st ! j \<noteq> Running" if "j < ?n" for j
    using that len by (auto simp: filter_empty_conv in_set_conv_nth)
  have over: "ended st j" if "j \<in> set (dependencies ?g ! k) \<union> set (after_of ?g ! k)" for j
  proof -
    have j: "j < ?n" using that graph_needs.preds_range [OF k(1)] graph_after.preds_range [OF k(1)] by blast
    have "(j, k) \<in> edge_set (sibling_preds steps)"
      unfolding edge_set_group using that k(1) by (auto simp: edge_set_def)
    then have "b_status st ! j \<noteq> Pending" using prev j by (auto simp: edge_set_def)
    then show ?thesis using norun [OF j] by (cases "b_status st ! j") (auto simp: ended_def)
  qed
  have resp: "edges_respected ?n ?g st" using inv by (simp add: sched_inv_def)
  have "good st j" if "j \<in> set (dependencies ?g ! k)" for j
  proof (rule ccontr)
    assume "\<not> good st j"
    then have "bad st j" using over that by (simp add: bad_def)
    then show False using respected_skipped [OF resp k(1)] that k(2) by auto
  qed
  then have "open_edges ?g (good st) (ended st) k = 0" using over by (simp add: open_edges_zero)
  then have "k \<in> set (b_ready st)"
    using inv k by (auto simp: sched_inv_def sched_counts_def counts_ok_def is_pending_def)
  then show False using none by simp
qed

lemma all_ended:
  assumes inv: "sched_inv grp n g st" and "n \<le> b_terminal st" "i < n"
  shows "ended st i"
proof -
  have len: "length (b_status st) = n" using inv by (simp add: sched_inv_def lengths_ok_def)
  have "length (filter (\<lambda>s. s = Finished \<or> s = DepSkipped) (b_status st)) = length (b_status st)"
    using inv assms(2) len length_filter_le [of "\<lambda>s. s = Finished \<or> s = DepSkipped" "b_status st"]
    by (simp add: sched_inv_def totals_ok_def count_status_list_def)
  then have "s = Finished \<or> s = DepSkipped" if "s \<in> set (b_status st)" for s
    using length_filter_less [OF that, of "\<lambda>s. s = Finished \<or> s = DepSkipped"] by linarith
  then show ?thesis using assms(3) len by (auto simp: ended_def)
qed

lemma loop_end:
  assumes inv: "sched_inv grp (length steps) (newConcurrentGraph steps) st"
    and acyc: "acyclic (edge_set (sibling_preds steps))" and "0 < conc_max_concurrency grp"
    and over: "\<not> sched_open grp steps st" and live: "\<not> b_cancelled st" and i: "i < length steps"
  shows "ended st i"
proof (cases "length steps \<le> b_terminal st")
  case True
  then show ?thesis using all_ended [OF inv _ i] by simp
next
  case False
  then have idle: "b_running st = 0" "\<not> can_launch grp st" using over by (auto simp: sched_open_def)
  have "b_stop st \<longrightarrow> b_cancelled st" using inv by (simp add: sched_inv_def)
  then have "b_ready st = []" using idle live assms(3) by (simp add: can_launch_def)
  then have "b_status st ! i \<noteq> Pending" using pending_stuck [OF inv acyc _ idle(1) i] by simp
  moreover have "b_status st ! i \<noteq> Running"
  proof -
    have "filter (\<lambda>s. s = Running) (b_status st) = []"
      using inv idle by (simp add: sched_inv_def totals_ok_def count_status_list_def)
    moreover have "b_status st ! i \<in> set (b_status st)"
      using inv i by (simp add: sched_inv_def lengths_ok_def)
    ultimately show ?thesis by (auto simp: filter_empty_conv)
  qed
  ultimately show ?thesis by (cases "b_status st ! i") (auto simp: ended_def)
qed

subsection \<open>What a branch reads\<close>

lemma complete_sets:
  assumes "sched_inv grp n g st" "i < n" "b_status st ! i = Running"
  obtains gone where "completes n i oc gone st (complete grp steps g i oc st)"
    and "b_reads (complete grp steps g i oc st) = b_reads st"
proof -
  have i: "i < length (b_status st)" using assms by (simp add: sched_inv_def lengths_ok_def)
  obtain status outcomes gone remaining ready where
    ok: "skip_ok steps (dependents g) i ((b_status st)[i := Finished]) ((b_outcomes st)[i := oc]) status outcomes
        (if out_err oc = None then dependents g ! i else []) gone"
    and none: "out_err oc = None \<Longrightarrow> gone = []"
    and run: "decrement (\<lambda>d. d < length (b_status st) \<and> status ! d = Pending)
        (concat (map (\<lambda>j. afterDependents g ! j) gone) @ (if out_err oc = None then dependents g ! i else []) @
           afterDependents g ! i) (b_remaining st, b_ready st) = (remaining, ready)"
    and st': "complete grp steps g i oc st = st\<lparr>b_status := status, b_remaining := remaining, b_ready := sort ready,
        b_running := b_running st - 1, b_terminal := b_terminal st + 1 + length gone,
        b_stop := b_stop st \<or> (out_err oc \<noteq> None \<and> conc_fail_fast grp),
        b_cancelled := b_cancelled st \<or> (out_err oc \<noteq> None \<and> conc_fail_fast grp), b_outcomes := outcomes\<rparr>"
    by (rule complete_fields [of i st steps g oc grp]) (use i in auto)
  have "completes n i oc gone st (complete grp steps g i oc st)"
    by (rule complete_completes(1) [OF assms ok none]) (simp_all add: st')
  then show ?thesis by (rule that) (simp add: st')
qed

definition started :: "sched \<Rightarrow> nat \<Rightarrow> bool" where
  "started st i \<longleftrightarrow> b_status st ! i = Running \<or> b_status st ! i = Finished"

lemma started_ancestor_good:
  assumes inv: "edges_respected (length steps) (newConcurrentGraph steps) st"
    and "(j, i) \<in> needs_closure steps" and "started st i"
  shows "good st j"
  using assms(2,3)
proof (induction rule: converse_trancl_induct)
  case (base j)
  then show ?case using respected_started [OF inv, of i] by (auto simp: edge_set_def started_def)
next
  case (step j k)
  then have "started st k" by (auto simp: good_def started_def)
  moreover have "k < length steps" "j \<in> set (dependencies (newConcurrentGraph steps) ! k)"
    using step.hyps(1) by (auto simp: edge_set_def)
  ultimately show ?case using respected_started [OF inv, of k] by (auto simp: started_def)
qed

lemma concurrentReadState_cong:
  "(\<And>j. j \<in> set anc \<Longrightarrow> ocs ! j = ocs' ! j) \<Longrightarrow>
   concurrentReadState snapshot steps ocs anc = concurrentReadState snapshot steps ocs' anc"
  unfolding concurrentReadState_def by (simp cong: foldl_cong)

definition reads_ok :: "step list \<Rightarrow> wstate \<Rightarrow> sched \<Rightarrow> bool" where
  "reads_ok steps snapshot st \<longleftrightarrow> (\<forall>i < length steps. started st i \<longrightarrow>
     b_reads st ! i = Some (concurrentReadState snapshot steps (b_outcomes st) (ancestors (newConcurrentGraph steps) ! i)))"

lemma reads_launch:
  assumes inv: "sched_inv grp (length steps) (newConcurrentGraph steps) st"
    and can: "can_launch grp st" and reads: "reads_ok steps snapshot st"
  shows "reads_ok steps snapshot (launch steps (newConcurrentGraph steps) snapshot st)"
proof -
  obtain i rest where ready: "b_ready st = i # rest"
    using can by (cases "b_ready st") (auto simp: can_launch_def)
  have i: "i < length steps" "b_status st ! i = Pending"
    using group_graph.ready_facts [OF inv, of i] ready by auto
  have len: "length (b_status st) = length steps" "length (b_reads st) = length steps"
    using inv by (auto simp: sched_inv_def lengths_ok_def)
  show ?thesis
    using reads i ready len by (auto simp: reads_ok_def started_def launch_def nth_list_update)
qed

lemma reads_complete:
  assumes inv: "sched_inv grp (length steps) (newConcurrentGraph steps) st"
    and wf: "well_formed_edges steps" and reads: "reads_ok steps snapshot st"
    and i: "i < length steps" "b_status st ! i = Running"
  shows "reads_ok steps snapshot (complete grp steps (newConcurrentGraph steps) i oc st)"
proof -
  let ?st = "complete grp steps (newConcurrentGraph steps) i oc st" and ?n = "length steps"
  obtain gone where c: "completes ?n i oc gone st ?st" and rd: "b_reads ?st = b_reads st"
    by (rule complete_sets [OF inv i])
  have resp: "edges_respected ?n (newConcurrentGraph steps) st" using inv by (simp add: sched_inv_def)
  show ?thesis
    unfolding reads_ok_def
  proof (intro allI impI)
    fix k assume k: "k < ?n" "started ?st k"
    have old: "started st k"
      using c k i(2) by (auto simp: started_def completes_def split: if_splits)
    have same: "b_outcomes st ! j = b_outcomes ?st ! j"
      if "j \<in> set (ancestors (newConcurrentGraph steps) ! k)" for j
    proof -
      have up: "(j, k) \<in> needs_closure steps" using ancestors_spec [OF wf k(1)] that by simp
      then have "j < ?n" by (auto simp: edge_set_def dest!: tranclD intro: graph_needs.preds_range)
      moreover have "good st j" using started_ancestor_good [OF resp up old] .
      ultimately have "j < ?n" "j \<noteq> i" "j \<notin> set gone" using completes_sets(6) [OF c] by auto
      then show ?thesis using c by (simp add: completes_def)
    qed
    show "b_reads ?st ! k = Some (concurrentReadState snapshot steps (b_outcomes ?st)
        (ancestors (newConcurrentGraph steps) ! k))"
      using reads k old rd concurrentReadState_cong [OF same] by (simp add: reads_ok_def)
  qed
qed

lemma reach_reads:
  assumes "well_formed_edges steps"
  shows "group_reach grp steps snapshot st \<Longrightarrow> reads_ok steps snapshot st"
proof (induction rule: sched_reach.induct)
  case sched_start
  show ?case by (simp add: reads_ok_def started_def sched_init_def Let_def)
next
  case (sched_next st st')
  note inv = reach_inv [OF sched_next.hyps(1)]
  have len: "length (b_status st) = length steps" using inv by (simp add: sched_inv_def lengths_ok_def)
  from sched_next.hyps(2) show ?case
  proof cases
    case sched_launch
    then show ?thesis using reads_launch [OF inv] sched_next.IH by simp
  next
    case (sched_complete index oc)
    then show ?thesis using reads_complete [OF inv assms sched_next.IH] len by simp
  next
    case sched_context
    then show ?thesis using sched_next.IH by (simp add: reads_ok_def started_def)
  qed
qed

subsection \<open>How long the loop runs\<close>

text \<open>A run counted by its launches and completions; the context may end at any point.\<close>

inductive sched_trace :: "concurrent_group \<Rightarrow> step list \<Rightarrow> concurrent_graph \<Rightarrow> wstate \<Rightarrow> nat \<Rightarrow> sched \<Rightarrow> bool"
  for grp steps g snapshot where
  trace_start: "sched_trace grp steps g snapshot 0 (sched_init steps g)"
| trace_work: "sched_trace grp steps g snapshot k st \<Longrightarrow> sched_step grp steps g snapshot st st' \<Longrightarrow>
     st' \<noteq> st\<lparr>b_cancelled := True\<rparr> \<Longrightarrow> sched_trace grp steps g snapshot (Suc k) st'"
| trace_context: "sched_trace grp steps g snapshot k st \<Longrightarrow>
     sched_trace grp steps g snapshot k (st\<lparr>b_cancelled := True\<rparr>)"

definition sched_work :: "sched \<Rightarrow> nat" where
  "sched_work st = 2 * count_status_list (\<lambda>s. s = Pending) st + count_status_list (\<lambda>s. s = Running) st"

lemma trace_reach: "sched_trace grp steps g snapshot k st \<Longrightarrow> sched_reach grp steps g snapshot st"
  by (induction rule: sched_trace.induct) (auto intro: sched_reach.intros sched_step.intros)

lemma work_launch:
  assumes inv: "sched_inv grp (length steps) (newConcurrentGraph steps) st" and can: "can_launch grp st"
  shows "sched_work (launch steps (newConcurrentGraph steps) snapshot st) < sched_work st"
proof -
  obtain i rest where ready: "b_ready st = i # rest"
    using can by (cases "b_ready st") (auto simp: can_launch_def)
  have i: "i < length (b_status st)" "b_status st ! i = Pending"
    using group_graph.ready_facts [OF inv, of i] ready inv by (auto simp: sched_inv_def lengths_ok_def)
  have "b_status (launch steps (newConcurrentGraph steps) snapshot st) = (b_status st)[i := Running]"
    using i ready by (simp add: launch_def)
  then show ?thesis
    using i length_filter_update [OF i(1), of "\<lambda>s. s = Pending" Running]
      length_filter_update [OF i(1), of "\<lambda>s. s = Running" Running]
    by (simp add: sched_work_def count_status_list_def)
qed

lemma work_complete:
  assumes inv: "sched_inv grp n g st" and i: "i < n" "b_status st ! i = Running"
    and len: "length (b_status (complete grp steps g i oc st)) = n"
  shows "sched_work (complete grp steps g i oc st) < sched_work st"
proof -
  let ?st = "complete grp steps g i oc st"
  obtain gone where c: "completes n i oc gone st ?st" by (rule complete_sets [OF inv i])
  have len0: "length (b_status st) = n" using inv by (simp add: sched_inv_def lengths_ok_def)
  have status: "b_status ?st ! j = (if j \<in> set gone then DepSkipped else if j = i then Finished else b_status st ! j)"
    if "j < n" for j
    using c that by (simp add: completes_def)
  have "{j. j < n \<and> b_status ?st ! j = Pending} \<subseteq> {j. j < n \<and> b_status st ! j = Pending}"
    using status by (auto split: if_splits)
  then have "card {j. j < n \<and> b_status ?st ! j = Pending} \<le> card {j. j < n \<and> b_status st ! j = Pending}"
    by (rule card_mono [rotated]) simp
  moreover have "{j. j < n \<and> b_status ?st ! j = Running} \<subset> {j. j < n \<and> b_status st ! j = Running}"
  proof
    show "{j. j < n \<and> b_status ?st ! j = Running} \<subseteq> {j. j < n \<and> b_status st ! j = Running}"
      using status by (auto split: if_splits)
    have "b_status ?st ! i \<noteq> Running" using status [OF i(1)] by simp
    then show "{j. j < n \<and> b_status ?st ! j = Running} \<noteq> {j. j < n \<and> b_status st ! j = Running}"
      using i by blast
  qed
  then have "card {j. j < n \<and> b_status ?st ! j = Running} < card {j. j < n \<and> b_status st ! j = Running}"
    by (rule psubset_card_mono [rotated]) simp
  ultimately show ?thesis
    by (simp add: sched_work_def count_status_list_def length_filter_card [OF len] length_filter_card [OF len0])
qed

lemma trace_bound:
  "sched_trace grp steps (newConcurrentGraph steps) snapshot k st \<Longrightarrow> k + sched_work st \<le> 2 * length steps"
proof (induction rule: sched_trace.induct)
  case trace_start
  show ?case by (simp add: sched_work_def sched_init_def Let_def count_status_list_def filter_replicate_empty)
next
  case (trace_work k st st')
  note reach = trace_reach [OF trace_work.hyps(1)]
  note inv = reach_inv [OF reach] and inv' = reach_inv [OF sched_next [OF reach trace_work.hyps(2)]]
  from trace_work.hyps(2) have "sched_work st' < sched_work st"
  proof cases
    case sched_launch
    then show ?thesis using work_launch [OF inv] by simp
  next
    case (sched_complete index oc)
    moreover have "length (b_status st) = length steps" "length (b_status st') = length steps"
      using inv inv' by (simp_all add: sched_inv_def lengths_ok_def)
    ultimately show ?thesis using work_complete [OF inv, where i = index and oc = oc and steps = steps] by simp
  qed (use trace_work.hyps(3) in simp)
  then show ?case using trace_work.IH by simp
next
  case (trace_context k st)
  then show ?case by (simp add: sched_work_def frame_simps)
qed

subsection \<open>A small group for the examples\<close>

text \<open>Branch \<open>b\<close> needs \<open>a\<close>, and \<open>c\<close> runs after \<open>a\<close>.\<close>

definition demo_leaf :: "string \<Rightarrow> string list \<Rightarrow> string list \<Rightarrow> step" where
  "demo_leaf name ns as =
     Step \<lparr>step_id = name, needs = ns, after = as, if_cond = []\<rparr> (Leaf ''command'' fmempty) []"

definition demo_steps :: "step list" where
  "demo_steps = [demo_leaf ''a'' [] [], demo_leaf ''b'' [''a''] [], demo_leaf ''c'' [] [''a'']]"

definition demo_grp :: concurrent_group where
  "demo_grp = \<lparr>conc_max_concurrency = 1, conc_timeout = None, conc_fail_fast = False\<rparr>"

definition demo_graph :: concurrent_graph where
  "demo_graph = newConcurrentGraph demo_steps"

definition demo_failure :: branch_outcome where
  "demo_failure = no_outcome\<lparr>out_err := Some (Err ''boom''), out_started := True\<rparr>"

definition demo_success :: branch_outcome where
  "demo_success = no_outcome\<lparr>out_state := Some empty_wstate, out_started := True\<rparr>"

text \<open>Branch \<open>a\<close> runs and ends with the given outcome.\<close>

definition demo_launch :: "sched \<Rightarrow> sched" where
  "demo_launch = launch demo_steps demo_graph empty_wstate"

definition demo_first :: "branch_outcome \<Rightarrow> sched" where
  "demo_first oc = complete demo_grp demo_steps demo_graph 0 oc (demo_launch (sched_init demo_steps demo_graph))"

lemma demo_valid: "well_formed_edges demo_steps"
  unfolding validate_iff_well_formed [symmetric] by code_simp

lemma demo_reach0: "group_reach demo_grp demo_steps empty_wstate (demo_launch (sched_init demo_steps demo_graph))"
  unfolding demo_launch_def demo_graph_def
  by (rule sched_next [OF sched_start], rule sched_launch) code_simp+

lemma demo_open:
  "b_terminal (demo_launch (sched_init demo_steps demo_graph)) < length demo_steps"
  "\<not> can_launch demo_grp (demo_launch (sched_init demo_steps demo_graph))"
  "0 < length (b_status (demo_launch (sched_init demo_steps demo_graph)))"
  "b_status (demo_launch (sched_init demo_steps demo_graph)) ! 0 = Running"
  by code_simp+

lemma demo_reach1: "group_reach demo_grp demo_steps empty_wstate (demo_first oc)"
  using sched_next [OF demo_reach0 sched_complete [OF demo_open, of _ _ oc]]
  by (simp add: demo_first_def demo_graph_def)

subsection \<open>Properties\<close>

text \<open>C1: Bounded concurrency. In every reachable state of the scheduler of a concurrent group, the
  number of branches whose status is running never exceeds max_concurrency, and the loop's
  counters \<^verbatim>\<open>running\<close> and \<^verbatim>\<open>terminal\<close> are the numbers of running and of ended branches.\<close>

theorem scheduler_bounded:
  assumes "group_reach grp steps snapshot st"
  shows "length (filter (\<lambda>s. s = Running) (b_status st)) \<le> conc_max_concurrency grp
    \<and> b_running st = length (filter (\<lambda>s. s = Running) (b_status st))
    \<and> b_terminal st = length (filter (\<lambda>s. s = Finished \<or> s = DepSkipped) (b_status st))"
  using reach_parts [OF assms] by (simp add: totals_ok_def count_status_list_def)

theorem scheduler_bounded_witness:
  "length (filter (\<lambda>s. s = Running) (b_status (demo_first demo_failure))) \<le> 1"
  using scheduler_bounded [OF demo_reach1] by (simp add: demo_grp_def)

text \<open>C2: Admission order. A branch that is running or finished was started only after every branch
  it needs finished without an error, and after every branch it runs after had ended in any way.\<close>

theorem scheduler_admission:
  assumes "group_reach grp steps snapshot st" and "i < length steps"
    and "b_status st ! i = Running \<or> b_status st ! i = Finished"
  shows "(\<forall>j \<in> set (dependencies (newConcurrentGraph steps) ! i).
            b_status st ! j = Finished \<and> out_err (b_outcomes st ! j) = None)
    \<and> (\<forall>j \<in> set (after_of (newConcurrentGraph steps) ! i).
            b_status st ! j = Finished \<or> b_status st ! j = DepSkipped)"
  using respected_started [OF _ assms(2,3)] reach_parts [OF assms(1)] by (auto simp: good_def ended_def)

theorem scheduler_admission_witness:
  "b_status (demo_launch (demo_first demo_success)) ! 1 = Running \<and>
   b_status (demo_launch (demo_first demo_success)) ! 0 = Finished \<and>
   out_err (b_outcomes (demo_launch (demo_first demo_success)) ! 0) = None"
proof -
  have "group_reach demo_grp demo_steps empty_wstate (demo_launch (demo_first demo_success))"
    unfolding demo_launch_def demo_graph_def
    by (rule sched_next [OF demo_reach1], rule sched_launch) code_simp+
  moreover have "b_status (demo_launch (demo_first demo_success)) ! 1 = Running" by code_simp
  moreover have "1 < length demo_steps" by (simp add: demo_steps_def)
  moreover have "0 \<in> set (dependencies (newConcurrentGraph demo_steps) ! 1)" by code_simp
  ultimately show ?thesis
    using scheduler_admission [of demo_grp demo_steps empty_wstate "demo_launch (demo_first demo_success)" 1] by blast
qed

text \<open>C3: Skipping. In a group whose edges are well formed, a branch is skipped because of its needs
  exactly when some branch it transitively needs finished with an error: no descendant of a
  failure is left to run, and nothing else is skipped.\<close>

theorem scheduler_skips:
  assumes "well_formed_edges steps" and "group_reach grp steps snapshot st" and "i < length steps"
  shows "b_status st ! i = DepSkipped \<longleftrightarrow>
    (\<exists>j. (j, i) \<in> needs_closure steps \<and> b_status st ! j = Finished \<and> out_err (b_outcomes st ! j) \<noteq> None)"
  using skipped_iff_ancestor [OF _ needs_acyclic [OF assms(1)] assms(3)] reach_parts [OF assms(2)]
  by (simp add: failed_branch_def)

theorem scheduler_skips_witness:
  "b_status (demo_first demo_failure) ! 1 = DepSkipped \<longleftrightarrow>
    (\<exists>j. (j, 1) \<in> needs_closure demo_steps \<and> b_status (demo_first demo_failure) ! j = Finished \<and>
      out_err (b_outcomes (demo_first demo_failure) ! j) \<noteq> None)"
  by (rule scheduler_skips [OF demo_valid demo_reach1]) (simp add: demo_steps_def)

text \<open>C4: What a branch may read. A started branch of a well-formed group was given the group's
  snapshot overlaid with the results of exactly its transitive needs, each listed after its own
  needs; all of them had finished without an error, and their outcomes are still the ones it read.\<close>

theorem scheduler_reads:
  assumes "well_formed_edges steps" and "group_reach grp steps snapshot st" and "i < length steps"
    and "b_status st ! i = Running \<or> b_status st ! i = Finished"
  shows "\<exists>anc. b_reads st ! i = Some (concurrentReadState snapshot steps (b_outcomes st) anc)
    \<and> distinct anc \<and> set anc = {j. (j, i) \<in> needs_closure steps}
    \<and> (\<forall>k < length anc. set (dependencies (newConcurrentGraph steps) ! (anc ! k)) \<subseteq> set (take k anc))
    \<and> (\<forall>j \<in> set anc. b_status st ! j = Finished \<and> out_err (b_outcomes st ! j) = None)"
proof -
  let ?anc = "ancestors (newConcurrentGraph steps) ! i"
  have st: "started st i" using assms(4) by (simp add: started_def)
  have "b_reads st ! i = Some (concurrentReadState snapshot steps (b_outcomes st) ?anc)"
    using reach_reads [OF assms(1,2)] assms(3) st by (simp add: reads_ok_def)
  moreover have "good st j" if "j \<in> set ?anc" for j
    using started_ancestor_good [OF _ _ st] ancestors_spec [OF assms(1,3)] reach_parts [OF assms(2)] that by blast
  ultimately show ?thesis
    using ancestors_spec [OF assms(1,3)] unfolding good_def topological_def subset_iff by metis
qed

lemma demo_pos: "0 < length demo_steps"
  by (simp add: demo_steps_def)

theorem scheduler_reads_witness:
  "\<exists>anc. b_reads (demo_first demo_failure) ! 0 =
      Some (concurrentReadState empty_wstate demo_steps (b_outcomes (demo_first demo_failure)) anc)"
proof -
  have "b_status (demo_first demo_failure) ! 0 = Finished" by code_simp
  then show ?thesis
    using scheduler_reads [OF demo_valid demo_reach1, of 0 demo_failure] demo_pos by blast
qed

text \<open>C5: No deadlock. In a well-formed group with a positive bound, the scheduling loop ends (its
  condition fails, or it breaks because nothing runs) only when every branch has finished or was
  skipped, unless the group's context was cancelled.\<close>

theorem scheduler_no_deadlock:
  assumes "well_formed_edges steps" and "0 < conc_max_concurrency grp"
    and "group_reach grp steps snapshot st" and "\<not> sched_open grp steps st" and "\<not> b_cancelled st"
    and "i < length steps"
  shows "b_status st ! i = Finished \<or> b_status st ! i = DepSkipped"
  using loop_end [OF reach_inv [OF assms(3)] _ assms(2,4,5,6)] assms(1)
  by (simp add: well_formed_edges_def ended_def)

definition demo_last :: sched where
  "demo_last = complete demo_grp demo_steps demo_graph 2 demo_success (demo_launch (demo_first demo_failure))"

lemma demo_last_over:
  "0 < conc_max_concurrency demo_grp" "\<not> sched_open demo_grp demo_steps demo_last" "\<not> b_cancelled demo_last"
  "1 < length demo_steps"
  by code_simp+

lemma demo_reach_last: "group_reach demo_grp demo_steps empty_wstate demo_last"
proof -
  have "group_reach demo_grp demo_steps empty_wstate (demo_launch (demo_first demo_failure))"
    unfolding demo_launch_def demo_graph_def
    by (rule sched_next [OF demo_reach1], rule sched_launch) code_simp+
  then show ?thesis
    unfolding demo_last_def demo_graph_def
    by (rule sched_next, intro sched_complete) code_simp+
qed

theorem scheduler_no_deadlock_witness: "b_status demo_last ! 1 = Finished \<or> b_status demo_last ! 1 = DepSkipped"
  using scheduler_no_deadlock [OF demo_valid, of demo_grp empty_wstate demo_last 1] demo_last_over demo_reach_last
  by simp

text \<open>C6: Termination. Whatever the branches return and whenever the context ends, the scheduling
  loop of a group of n branches makes at most 2n launches and completions.\<close>

theorem scheduler_terminates:
  assumes "sched_trace grp steps (newConcurrentGraph steps) snapshot k st"
  shows "k \<le> 2 * length steps"
  using trace_bound [OF assms] by simp

theorem scheduler_terminates_witness:
  "sched_trace demo_grp demo_steps (newConcurrentGraph demo_steps) empty_wstate 0
      (sched_init demo_steps (newConcurrentGraph demo_steps)) \<and> 0 \<le> 2 * length demo_steps"
  using scheduler_terminates [OF trace_start] trace_start by blast

end
