(* ===== verification/ConcurrentResults.thy ===== *)
theory ConcurrentResults
  imports Concurrent
begin

text \<open>
  The end of a concurrent group (engine/concurrent.go): aggregating the errors of the branches
  (\<^verbatim>\<open>concurrentExecutionError\<close>) and committing their results into the parent state
  (\<^verbatim>\<open>commitConcurrentBranches\<close>). The main facts: a commit fails exactly when two branches wrote the
  same variable, it then leaves the parent state alone, and otherwise every variable has the value
  of the one branch that wrote it.
\<close>

text \<open>concurrentOutcomeCounts and concurrentAllCompleted\<close>

definition concurrentOutcomeCounts :: "branch_outcome list \<Rightarrow> nat \<times> nat" where
  "concurrentOutcomeCounts outcomes =
     (length (filter out_started outcomes),
      length (filter (\<lambda>oc. out_started oc \<and> out_err oc = None \<and> \<not> out_skipped oc) outcomes))"

definition concurrentAllCompleted :: "branch_outcome list \<Rightarrow> bool" where
  "concurrentAllCompleted outcomes = list_all (\<lambda>oc. out_started oc \<and> out_err oc = None) outcomes"

text \<open>concurrentExecutionError; the contexts are read once: the parent's error, and whether the
  group's own context ended by its deadline.\<close>

definition concurrentExecutionError ::
    "goerr option \<Rightarrow> bool \<Rightarrow> concurrent_group \<Rightarrow> branch_outcome list \<Rightarrow> goerr option" where
  "concurrentExecutionError parentErr deadline grp outcomes =
     (case parentErr of Some e \<Rightarrow> Some e
      | None \<Rightarrow>
        (case (if deadline \<and> \<not> concurrentAllCompleted outcomes then conc_timeout grp else None) of
           Some t \<Rightarrow> Some (Wrapped (''timed out after '' @ duration_text t) DeadlineExceeded)
         | None \<Rightarrow>
           if \<not> conc_fail_fast grp then errors_join (map out_err outcomes)
           else let errs = List.map_filter out_err outcomes;
                    primary = filter (\<lambda>e. \<not> err_is e Canceled) errs;
                    canceled = filter (\<lambda>e. err_is e Canceled) errs
                in if primary \<noteq> [] then errors_join (map Some primary) else errors_join (map Some canceled)))"

text \<open>concurrentBranchLabel\<close>

definition concurrentBranchLabel :: "step \<Rightarrow> nat \<Rightarrow> string" where
  "concurrentBranchLabel s index = (if sid s \<noteq> [] then sid s else ''branch '' @ nat_text (index + 1))"

subsection \<open>Committing\<close>

text \<open>The first loop of commitConcurrentBranches: every variable has one writer.\<close>

definition written_by :: "branch_outcome \<Rightarrow> string fset" where
  "written_by oc = (case out_state oc of
     Some bst \<Rightarrow> if out_started oc then (case st_writtenVars bst of Some w \<Rightarrow> w | None \<Rightarrow> {||}) else {||}
   | None \<Rightarrow> {||})"

fun claim_vars :: "string \<Rightarrow> string list \<Rightarrow> string gomap \<Rightarrow> goerr + string gomap" where
  "claim_vars label [] writers = Inr writers"
| "claim_vars label (v # vs) writers = (case fmlookup writers v of
     Some previous \<Rightarrow> Inl (Err (''steps '' @ go_quote previous @ '' and '' @ go_quote label @
                              '' both write variable '' @ go_quote v))
   | None \<Rightarrow> claim_vars label vs (fmupd v label writers))"

fun claim_writers :: "nat \<Rightarrow> step list \<Rightarrow> branch_outcome list \<Rightarrow> string gomap \<Rightarrow> goerr + string gomap" where
  "claim_writers i (s # ss) (oc # ocs) writers =
     (case claim_vars (concurrentBranchLabel s i) (sorted_list_of_fset (written_by oc)) writers of
        Inl e \<Rightarrow> Inl e
      | Inr writers' \<Rightarrow> claim_writers (Suc i) ss ocs writers')"
| "claim_writers i _ _ writers = Inr writers"

text \<open>The second loop\<close>

definition commit_branch :: "wstate \<Rightarrow> step \<times> branch_outcome \<Rightarrow> wstate" where
  "commit_branch st b = (case out_state (snd b) of
     None \<Rightarrow> st
   | Some bst \<Rightarrow>
       if \<not> out_started (snd b) then st
       else let st = commitChecks st (st_checkWrites bst)
            in st\<lparr>st_steps := st_steps st ++\<^sub>f selected bst [fst b],
                  st_vars := st_vars st ++\<^sub>f controlWrittenVars bst,
                  st_writtenVars := map_option (\<lambda>w. w |\<union>| fmdom (controlWrittenVars bst)) (st_writtenVars st)\<rparr>)"

definition commitConcurrentBranches :: "wstate \<Rightarrow> step list \<Rightarrow> branch_outcome list \<Rightarrow> goerr option \<times> wstate" where
  "commitConcurrentBranches st steps outcomes =
     (case claim_writers 0 steps outcomes fmempty of
        Inl e \<Rightarrow> (Some e, st)
      | Inr _ \<Rightarrow> (None, foldl commit_branch st (zip steps outcomes)))"

text \<open>The part of runConcurrent after the branches ended\<close>

definition finishConcurrent ::
    "string \<Rightarrow> concurrent_group \<Rightarrow> step list \<Rightarrow> goerr option \<Rightarrow> bool \<Rightarrow> wstate \<Rightarrow> branch_outcome list \<Rightarrow> goerr option \<times> wstate"
where
  "finishConcurrent name grp steps parentErr deadline st outcomes =
     (let (err, st') = (case concurrentExecutionError parentErr deadline grp outcomes of
            Some e \<Rightarrow> (Some e, st)
          | None \<Rightarrow> commitConcurrentBranches st steps outcomes)
      in (map_option (Wrapped (''workflow '' @ go_quote name @ '' concurrent group'')) err, st'))"

subsection \<open>Conflicts\<close>

lemma claim_vars_iff:
  "claim_vars label vs writers = Inr w \<longleftrightarrow>
     distinct vs \<and> (\<forall>v \<in> set vs. v |\<notin>| fmdom writers) \<and> w = fold (\<lambda>v. fmupd v label) vs writers"
  by (induction label vs writers rule: claim_vars.induct)
    (auto simp: fmlookup_dom_iff split: option.splits)

lemma fmdom_fold_fmupd: "fmdom (fold (\<lambda>v. fmupd v l) vs m) = fmdom m |\<union>| fset_of_list vs"
  by (induction vs arbitrary: m) auto

definition separate :: "string fset list \<Rightarrow> bool" where
  "separate ws \<longleftrightarrow> (\<forall>i < length ws. \<forall>j < i. ws ! i |\<inter>| ws ! j = {||})"

lemma separate_Cons:
  "separate (w # ws) \<longleftrightarrow> (\<forall>x \<in> set ws. w |\<inter>| x = {||}) \<and> separate ws"
proof
  assume s: "separate (w # ws)"
  have "w |\<inter>| ws ! k = {||}" if "k < length ws" for k
  proof -
    have "(w # ws) ! Suc k |\<inter>| (w # ws) ! 0 = {||}"
      using s that unfolding separate_def by (metis Suc_less_eq length_Cons zero_less_Suc)
    then show ?thesis by (simp add: inf_commute)
  qed
  moreover have "ws ! i |\<inter>| ws ! j = {||}" if "i < length ws" "j < i" for i j
  proof -
    have "(w # ws) ! Suc i |\<inter>| (w # ws) ! Suc j = {||}"
      using s that unfolding separate_def by (metis Suc_less_eq length_Cons)
    then show ?thesis by simp
  qed
  ultimately show "(\<forall>x \<in> set ws. w |\<inter>| x = {||}) \<and> separate ws"
    unfolding separate_def by (metis in_set_conv_nth)
next
  assume s: "(\<forall>x \<in> set ws. w |\<inter>| x = {||}) \<and> separate ws"
  show "separate (w # ws)"
    unfolding separate_def
  proof (intro allI impI)
    fix i j assume "i < length (w # ws)" "j < i"
    then show "(w # ws) ! i |\<inter>| (w # ws) ! j = {||}"
      using s by (cases i; cases j) (auto simp: separate_def inf_commute)
  qed
qed

lemma claim_writers_iff:
  assumes "length steps = length ocs"
  shows "(\<exists>w. claim_writers i steps ocs writers = Inr w) \<longleftrightarrow>
     (\<forall>oc \<in> set ocs. written_by oc |\<inter>| fmdom writers = {||}) \<and> separate (map written_by ocs)"
  using assms
proof (induction steps ocs arbitrary: i writers rule: list_induct2)
  case Nil
  then show ?case by (simp add: separate_def)
next
  case (Cons s ss oc ocs)
  let ?vs = "sorted_list_of_fset (written_by oc)"
  let ?w = "fold (\<lambda>v. fmupd v (concurrentBranchLabel s i)) ?vs writers"
  have dom: "fmdom ?w = fmdom writers |\<union>| written_by oc"
    by (simp add: fmdom_fold_fmupd)
  show ?case
  proof (cases "written_by oc |\<inter>| fmdom writers = {||}")
    case True
    then have "claim_vars (concurrentBranchLabel s i) ?vs writers = Inr ?w"
      by (auto simp: claim_vars_iff)
    then show ?thesis
      using True Cons.IH [of "Suc i" ?w] unfolding dom
      by (auto simp: separate_Cons inf_sup_distrib1 inf_commute)
  next
    case False
    then have "\<not> (\<forall>v \<in> set ?vs. v |\<notin>| fmdom writers)" by auto
    then obtain e where "claim_vars (concurrentBranchLabel s i) ?vs writers = Inl e"
      using claim_vars_iff by (metis sum.exhaust)
    then show ?thesis using False by auto
  qed
qed

lemma commit_fails_iff:
  assumes "length steps = length ocs"
  shows "fst (commitConcurrentBranches st steps ocs) \<noteq> None \<longleftrightarrow> \<not> separate (map written_by ocs)"
  using claim_writers_iff [OF assms, of 0 fmempty]
  by (auto simp: commitConcurrentBranches_def split: sum.splits)

subsection \<open>The committed state\<close>

text \<open>The variables a branch contributes to the parent.\<close>

definition branch_vars :: "branch_outcome \<Rightarrow> vmap" where
  "branch_vars oc = (case out_state oc of
     Some bst \<Rightarrow> if out_started oc then controlWrittenVars bst else fmempty
   | None \<Rightarrow> fmempty)"

lemma fmdom_branch_vars [simp]: "fmdom (branch_vars oc) = written_by oc"
  by (simp add: branch_vars_def written_by_def controlWrittenVars_def split: option.splits)

lemma commit_branch_vars: "st_vars (commit_branch st (s, oc)) = st_vars st ++\<^sub>f branch_vars oc"
  by (auto simp: commit_branch_def branch_vars_def commitChecks_def Let_def split: option.splits)

lemma committed_vars:
  assumes "length steps = length ocs"
  shows "st_vars (foldl commit_branch st (zip steps ocs)) = foldl (\<lambda>m oc. m ++\<^sub>f branch_vars oc) (st_vars st) ocs"
  using assms
  by (induction steps ocs arbitrary: st rule: list_induct2) (simp_all add: commit_branch_vars)

lemma fold_add_separate:
  assumes "separate (map written_by ocs)" and "k < length ocs" and "v |\<in>| written_by (ocs ! k)"
  shows "fmlookup (foldl (\<lambda>m oc. m ++\<^sub>f branch_vars oc) m ocs) v = fmlookup (branch_vars (ocs ! k)) v"
  using assms
proof (induction ocs arbitrary: k m)
  case (Cons oc ocs)
  have unwritten: "fmlookup (foldl (\<lambda>m oc. m ++\<^sub>f branch_vars oc) m ocs) v = fmlookup m v"
    if "\<forall>x \<in> set ocs. v |\<notin>| written_by x" for m
    using that by (induction ocs arbitrary: m) auto
  show ?case
  proof (cases k)
    case 0
    then have "\<forall>x \<in> set ocs. v |\<notin>| written_by x"
      using Cons.prems by (auto simp: separate_Cons)
    then show ?thesis using unwritten 0 Cons.prems by simp
  next
    case (Suc k')
    then show ?thesis using Cons by (simp add: separate_Cons)
  qed
qed simp

lemma fold_add_unwritten:
  "\<forall>x \<in> set ocs. v |\<notin>| written_by x \<Longrightarrow>
   fmlookup (foldl (\<lambda>m oc. m ++\<^sub>f branch_vars oc) m ocs) v = fmlookup m v"
  by (induction ocs arbitrary: m) auto

subsection \<open>Properties\<close>

text \<open>C8: Write conflicts. Committing the branches of a group fails if and only if two branches that
  ran wrote the same variable, and a failed commit leaves the parent state unchanged.\<close>

theorem commit_conflicts:
  assumes "length steps = length ocs"
  shows "(fst (commitConcurrentBranches st steps ocs) \<noteq> None \<longleftrightarrow>
      (\<exists>i < length ocs. \<exists>j < i. \<exists>v. v |\<in>| written_by (ocs ! i) \<and> v |\<in>| written_by (ocs ! j)))
    \<and> (fst (commitConcurrentBranches st steps ocs) = None \<or> snd (commitConcurrentBranches st steps ocs) = st)"
proof -
  have "\<not> separate (map written_by ocs) \<longleftrightarrow>
      (\<exists>i < length ocs. \<exists>j < i. \<exists>v. v |\<in>| written_by (ocs ! i) \<and> v |\<in>| written_by (ocs ! j))"
    by (auto simp: separate_def)
  then show ?thesis
    using commit_fails_iff [OF assms, of st] by (simp add: commitConcurrentBranches_def split: sum.splits)
qed

definition demo_writer :: "string \<Rightarrow> branch_outcome" where
  "demo_writer v = no_outcome\<lparr>out_state := Some (empty_wstate\<lparr>st_vars := fmupd v VNil fmempty,
     st_writtenVars := Some {|v|}\<rparr>), out_started := True\<rparr>"

definition demo_step :: step where
  "demo_step = Step \<lparr>step_id = [], needs = [], after = [], if_cond = []\<rparr> (Leaf ''command'' fmempty) []"

theorem commit_conflicts_witness:
  "fst (commitConcurrentBranches empty_wstate [demo_step, demo_step] [demo_writer ''v'', demo_writer ''v'']) \<noteq> None"
proof -
  let ?ocs = "[demo_writer ''v'', demo_writer ''v'']"
  have "''v'' |\<in>| written_by (demo_writer ''v'')" by (simp add: written_by_def demo_writer_def)
  then have "\<exists>i < length ?ocs. \<exists>j < i. \<exists>v. v |\<in>| written_by (?ocs ! i) \<and> v |\<in>| written_by (?ocs ! j)"
    by (intro exI [of _ "Suc 0"] conjI exI [of _ 0] exI [of _ "''v''"]) simp_all
  moreover have "length [demo_step, demo_step] = length ?ocs" by simp
  ultimately show ?thesis using commit_conflicts by blast
qed

text \<open>C9: Committed variables. When the commit succeeds, a variable that a branch wrote has that
  branch's value in the parent state, whatever the position of the branch, and every other variable
  keeps its value.\<close>

theorem commit_variables:
  assumes "length steps = length ocs" and "fst (commitConcurrentBranches st steps ocs) = None"
  shows "(\<forall>k v. k < length ocs \<longrightarrow> v |\<in>| written_by (ocs ! k) \<longrightarrow>
        fmlookup (st_vars (snd (commitConcurrentBranches st steps ocs))) v = fmlookup (branch_vars (ocs ! k)) v)
    \<and> (\<forall>v. (\<forall>oc \<in> set ocs. v |\<notin>| written_by oc) \<longrightarrow>
        fmlookup (st_vars (snd (commitConcurrentBranches st steps ocs))) v = fmlookup (st_vars st) v)"
proof -
  have sep: "separate (map written_by ocs)" using assms commit_fails_iff by blast
  have vars: "st_vars (snd (commitConcurrentBranches st steps ocs)) =
      foldl (\<lambda>m oc. m ++\<^sub>f branch_vars oc) (st_vars st) ocs"
    using assms(2) committed_vars [OF assms(1)] by (simp add: commitConcurrentBranches_def split: sum.splits)
  show ?thesis
    unfolding vars using fold_add_separate [OF sep] fold_add_unwritten by blast
qed

theorem commit_variables_witness:
  "fmlookup (st_vars (snd (commitConcurrentBranches empty_wstate [demo_step, demo_step]
     [demo_writer ''v'', demo_writer ''w'']))) ''w'' = Some VNil"
proof -
  have ok: "fst (commitConcurrentBranches empty_wstate [demo_step, demo_step] [demo_writer ''v'', demo_writer ''w'']) = None"
    by code_simp
  have len: "length [demo_step, demo_step] = length [demo_writer ''v'', demo_writer ''w'']" by simp
  have "''w'' |\<in>| written_by ([demo_writer ''v'', demo_writer ''w''] ! 1)"
    by (simp add: written_by_def demo_writer_def)
  then have "fmlookup (st_vars (snd (commitConcurrentBranches empty_wstate [demo_step, demo_step]
     [demo_writer ''v'', demo_writer ''w'']))) ''w'' =
      fmlookup (branch_vars ([demo_writer ''v'', demo_writer ''w''] ! 1)) ''w''"
    by (intro commit_variables [OF len ok, THEN conjunct1, rule_format]) simp
  then show ?thesis
    by (simp add: demo_writer_def branch_vars_def controlWrittenVars_def fmlookup_controlVariables)
qed

text \<open>C10: Error of a group. With live contexts the group reports an error exactly when a branch
  failed. Without fail_fast every error is joined in declaration order; with fail_fast the errors
  that are not cancellations are reported alone whenever there is one.\<close>

theorem group_error:
  "concurrentExecutionError None False grp ocs =
    (let errs = List.map_filter out_err ocs; primary = filter (\<lambda>e. \<not> err_is e Canceled) errs
     in if errs = [] then None
        else if conc_fail_fast grp \<and> primary \<noteq> [] then Some (Joined primary)
        else Some (Joined errs))"
proof -
  have some: "List.map_filter id (map Some es) = es" for es :: "goerr list"
    by (induction es) (simp_all add: List.map_filter_simps)
  have mf: "List.map_filter id (map out_err ocs) = List.map_filter out_err ocs"
    by (induction ocs) (simp_all add: List.map_filter_simps split: option.splits)
  have all: "filter (\<lambda>e. err_is e Canceled) es = es" if "filter (\<lambda>e. \<not> err_is e Canceled) es = []" for es
    using that by (auto simp: filter_empty_conv filter_id_conv)
  show ?thesis
    unfolding concurrentExecutionError_def errors_join_def
    by (simp add: some mf Let_def all)
qed

end
