(* ===== verification/Expansion.thy ===== *)
theory Expansion
  imports Values
begin

text \<open>
  Expansion of the fan-out controls (control/control.go, \<^verbatim>\<open>BatchContext\<close>, \<^verbatim>\<open>ForeachContext\<close>,
  \<^verbatim>\<open>MatrixContext\<close>) and the helpers of engine/control.go that feed them.

  A context is polled: \<open>poll\<close> reads \<^verbatim>\<open>ctx.Err()\<close> and may advance the world \<open>'w\<close>. Every poll of the
  code is a poll here, in the same order, so an expansion can end at any of them. Cloning a value
  (\<^verbatim>\<open>cloneContext\<close>) returns the value and polls once for each of its nodes.

  The main facts: the chunks of a batch concatenate to the items and all but the last are full; a
  matrix is the Cartesian product of its axes with the rightmost axis changing fastest; and the
  iteration limit admits exactly the expansions of at most that many iterations.
\<close>

type_synonym 'w poller = "'w \<Rightarrow> goerr option \<times> 'w"

record iteration =
  it_index :: nat
  it_bindings :: vmap

definition DefaultMaxIterations :: nat where
  "DefaultMaxIterations = 10000"

definition MaxIterations :: nat where
  "MaxIterations = 1000000"

definition effectiveMaxIterations :: "nat \<Rightarrow> nat" where
  "effectiveMaxIterations v = (if v = 0 then DefaultMaxIterations else v)"

text \<open>The type name \<^verbatim>\<open>%T\<close> prints; of another Go value \<open>VOther\<close> keeps just that.\<close>

fun go_type :: "val \<Rightarrow> string" where
  "go_type VNil = ''<nil>''"
| "go_type (VBool _) = ''bool''"
| "go_type (VInt _) = ''int''"
| "go_type (VFloat _) = ''float64''"
| "go_type (VStr _) = ''string''"
| "go_type (VList _) = ''[]interface {}''"
| "go_type (VMap _) = ''map[string]interface {}''"
| "go_type (VDuration _) = ''time.Duration''"
| "go_type (VOther t) = t"

subsection \<open>Policies\<close>

record policy =
  pol_max_concurrency :: nat
  pol_timeout :: int
  pol_fail_fast :: bool

definition Policy_Validate :: "policy \<Rightarrow> goerr option" where
  "Policy_Validate p =
     (if pol_max_concurrency p < 1 \<or> pol_max_concurrency p > 100
      then Some (Err ''max_concurrency must be between 1 and 100'')
      else if pol_timeout p < 0 then Some (Err ''timeout cannot be negative'')
      else None)"

definition validateMaxIterations :: "nat \<Rightarrow> goerr option" where
  "validateMaxIterations m =
     (if m < 1 \<or> m > MaxIterations
      then Some (Err (''max_iterations must be between 1 and '' @ nat_text MaxIterations)) else None)"

subsection \<open>Cloning under a context\<close>

text \<open>The number of nodes of a value, which is the number of polls a clone makes.\<close>

definition sum_values :: "nat gomap \<Rightarrow> nat" where
  "sum_values m = sum_list (map (\<lambda>k. case fmlookup m k of Some n \<Rightarrow> n | None \<Rightarrow> 0) (sorted_keys m))"

primrec nodes :: "val \<Rightarrow> nat" where
  "nodes VNil = 1"
| "nodes (VBool _) = 1"
| "nodes (VInt _) = 1"
| "nodes (VFloat _) = 1"
| "nodes (VStr _) = 1"
| "nodes (VList items) = Suc (sum_list (map nodes items))"
| "nodes (VMap m) = Suc (sum_values (fmmap nodes m))"
| "nodes (VDuration _) = 1"
| "nodes (VOther _) = 1"

fun poll_times :: "'w poller \<Rightarrow> nat \<Rightarrow> 'w poller" where
  "poll_times poll 0 w = (None, w)"
| "poll_times poll (Suc n) w = (case poll w of
     (Some e, w) \<Rightarrow> (Some e, w)
   | (None, w) \<Rightarrow> poll_times poll n w)"

definition cloneContext :: "'w poller \<Rightarrow> val \<Rightarrow> 'w \<Rightarrow> (goerr + val) \<times> 'w" where
  "cloneContext poll v w = (case poll_times poll (nodes v) w of
     (Some e, w) \<Rightarrow> (Inl e, w)
   | (None, w) \<Rightarrow> (Inr v, w))"

definition cloneMapContext :: "'w poller \<Rightarrow> vmap \<Rightarrow> 'w \<Rightarrow> (goerr + vmap) \<times> 'w" where
  "cloneMapContext poll m w = (case poll_times poll (sum_values (fmmap nodes m)) w of
     (Some e, w) \<Rightarrow> (Inl e, w)
   | (None, w) \<Rightarrow> (Inr m, w))"

fun clone_items :: "'w poller \<Rightarrow> val list \<Rightarrow> 'w \<Rightarrow> (goerr + val list) \<times> 'w" where
  "clone_items poll [] w = (Inr [], w)"
| "clone_items poll (v # vs) w = (case cloneContext poll v w of
     (Inl e, w) \<Rightarrow> (Inl e, w)
   | (Inr v', w) \<Rightarrow> (case clone_items poll vs w of
        (Inl e, w) \<Rightarrow> (Inl e, w)
      | (Inr vs', w) \<Rightarrow> (Inr (v' # vs'), w)))"

definition asSlice :: "val \<Rightarrow> val list option" where
  "asSlice v = (case v of VList items \<Rightarrow> Some items | _ \<Rightarrow> None)"

definition not_a_list :: "val \<Rightarrow> goerr" where
  "not_a_list v = Err (''items returned '' @ go_type v @ '', want list or array'')"

subsection \<open>Batch\<close>

definition batch_iteration :: "nat \<Rightarrow> val list \<Rightarrow> iteration" where
  "batch_iteration i items = \<lparr>it_index = i, it_bindings =
     fmap_of_list [(''batch'', vmap_of [(''index'', VInt (int i)), (''items'', VList items)])]\<rparr>"

function (sequential) batch_loop :: "'w poller \<Rightarrow> nat \<Rightarrow> nat \<Rightarrow> val list \<Rightarrow> 'w \<Rightarrow> (goerr + iteration list) \<times> 'w" where
  "batch_loop poll sz index [] w = (Inr [], w)"
| "batch_loop poll sz index (v # vs) w =
     (case clone_items poll (v # take (sz - 1) vs) w of
        (Inl e, w) \<Rightarrow> (Inl e, w)
      | (Inr chunk, w) \<Rightarrow>
          (case batch_loop poll sz (Suc index) (drop (sz - 1) vs) w of
             (Inl e, w) \<Rightarrow> (Inl e, w)
           | (Inr rest, w) \<Rightarrow> (Inr (batch_iteration index chunk # rest), w)))"
  by pat_completeness auto
termination by (relation "measure (\<lambda>(_, _, _, vs, _). length vs)") auto

definition batch_count :: "nat \<Rightarrow> nat \<Rightarrow> nat" where
  "batch_count len sz = len div sz + (if len mod sz \<noteq> 0 then 1 else 0)"

definition BatchContext :: "'w poller \<Rightarrow> val \<Rightarrow> int \<Rightarrow> nat \<Rightarrow> 'w \<Rightarrow> (goerr + iteration list) \<times> 'w" where
  "BatchContext poll items sz maxIterations w =
     (case validateMaxIterations maxIterations of Some e \<Rightarrow> (Inl e, w)
      | None \<Rightarrow>
        if sz < 1 then (Inl (Err ''batch size must be a positive integer''), w)
        else (case poll w of (Some e, w) \<Rightarrow> (Inl e, w)
          | (None, w) \<Rightarrow>
            (case asSlice items of None \<Rightarrow> (Inl (not_a_list items), w)
             | Some values \<Rightarrow>
               let count = batch_count (length values) (nat sz) in
               if count > maxIterations
               then (Inl (Err (''batch iteration count '' @ nat_text count @ '' exceeds max_iterations '' @
                         nat_text maxIterations)), w)
               else batch_loop poll (nat sz) 0 values w)))"

subsection \<open>Foreach\<close>

definition foreach_iteration :: "nat \<Rightarrow> val \<Rightarrow> iteration" where
  "foreach_iteration i item = \<lparr>it_index = i, it_bindings =
     fmap_of_list [(''foreach'', vmap_of [(''index'', VInt (int i)), (''item'', item)])]\<rparr>"

fun foreach_loop :: "'w poller \<Rightarrow> nat \<Rightarrow> val list \<Rightarrow> 'w \<Rightarrow> (goerr + iteration list) \<times> 'w" where
  "foreach_loop poll i [] w = (Inr [], w)"
| "foreach_loop poll i (v # vs) w = (case cloneContext poll v w of
     (Inl e, w) \<Rightarrow> (Inl e, w)
   | (Inr v', w) \<Rightarrow> (case foreach_loop poll (Suc i) vs w of
        (Inl e, w) \<Rightarrow> (Inl e, w)
      | (Inr rest, w) \<Rightarrow> (Inr (foreach_iteration i v' # rest), w)))"

definition ForeachContext :: "'w poller \<Rightarrow> val \<Rightarrow> nat \<Rightarrow> 'w \<Rightarrow> (goerr + iteration list) \<times> 'w" where
  "ForeachContext poll items maxIterations w =
     (case validateMaxIterations maxIterations of Some e \<Rightarrow> (Inl e, w)
      | None \<Rightarrow> (case poll w of (Some e, w) \<Rightarrow> (Inl e, w)
          | (None, w) \<Rightarrow>
            (case asSlice items of None \<Rightarrow> (Inl (not_a_list items), w)
             | Some values \<Rightarrow>
               if length values > maxIterations
               then (Inl (Err (''foreach iteration count '' @ nat_text (length values) @
                         '' exceeds max_iterations '' @ nat_text maxIterations)), w)
               else foreach_loop poll 0 values w)))"

subsection \<open>Matrix\<close>

type_synonym axis = "string \<times> val list"

fun check_axes :: "axis list \<Rightarrow> string fset \<Rightarrow> goerr option" where
  "check_axes [] seen = None"
| "check_axes ((name, values) # axes) seen =
     (if name = [] then Some (Err ''matrix axis name must not be empty'')
      else if name |\<in>| seen then Some (Err (''duplicate matrix axis '' @ go_quote name))
      else check_axes axes (finsert name seen))"

fun matrix_count :: "nat \<Rightarrow> axis list \<Rightarrow> nat \<Rightarrow> nat option" where
  "matrix_count maxIterations [] count = Some count"
| "matrix_count maxIterations ((name, values) # axes) count =
     (if length values > maxIterations div count then None
      else matrix_count maxIterations axes (count * length values))"

definition matrix_iteration :: "nat \<Rightarrow> vmap \<Rightarrow> iteration" where
  "matrix_iteration i b = \<lparr>it_index = i, it_bindings = fmap_of_list [(''matrix'', VMap b)]\<rparr>"

text \<open>The closure \<^verbatim>\<open>expand\<close> with the binding map it mutates and the iterations collected so far;
  \<open>expand_values\<close> is its loop over one axis.\<close>

type_synonym 'w expansion = "goerr option \<times> vmap \<times> iteration list \<times> 'w"

function (sequential) matrix_expand :: "'w poller \<Rightarrow> axis list \<Rightarrow> vmap \<Rightarrow> iteration list \<Rightarrow> 'w \<Rightarrow> 'w expansion"
  and expand_values :: "'w poller \<Rightarrow> string \<Rightarrow> val list \<Rightarrow> axis list \<Rightarrow> vmap \<Rightarrow> iteration list \<Rightarrow> 'w \<Rightarrow> 'w expansion" where
  "matrix_expand poll axes b its w = (case poll w of
     (Some e, w) \<Rightarrow> (Some e, b, its, w)
   | (None, w) \<Rightarrow>
      (case axes of
         [] \<Rightarrow> (case cloneMapContext poll b w of
                  (Inl e, w) \<Rightarrow> (Some e, b, its, w)
                | (Inr c, w) \<Rightarrow> (None, b, its @ [matrix_iteration (length its) c], w))
       | (name, values) # rest \<Rightarrow> expand_values poll name values rest b its w))"
| "expand_values poll name [] axes b its w = (None, fmdrop name b, its, w)"
| "expand_values poll name (v # vs) axes b its w = (case cloneContext poll v w of
     (Inl e, w) \<Rightarrow> (Some e, b, its, w)
   | (Inr v', w) \<Rightarrow>
      (case matrix_expand poll axes (fmupd name v' b) its w of
         (Some e, b, its, w) \<Rightarrow> (Some e, b, its, w)
       | (None, b, its, w) \<Rightarrow> expand_values poll name vs axes b its w))"
  by pat_completeness auto
termination
  by (relation "measures [\<lambda>x. case x of Inl (_, axes, _) \<Rightarrow> 2 * length axes | Inr (_, _, _, axes, _) \<Rightarrow> Suc (2 * length axes),
       \<lambda>x. case x of Inl _ \<Rightarrow> 0 | Inr (_, _, vs, _) \<Rightarrow> length vs]") auto

definition MatrixContext :: "'w poller \<Rightarrow> axis list \<Rightarrow> nat \<Rightarrow> 'w \<Rightarrow> (goerr + iteration list) \<times> 'w" where
  "MatrixContext poll axes maxIterations w =
     (case validateMaxIterations maxIterations of Some e \<Rightarrow> (Inl e, w)
      | None \<Rightarrow> (case poll w of (Some e, w) \<Rightarrow> (Inl e, w)
          | (None, w) \<Rightarrow>
            if axes = [] then (Inl (Err ''matrix requires at least one axis''), w)
            else (case check_axes axes {||} of Some e \<Rightarrow> (Inl e, w)
              | None \<Rightarrow>
                if \<not> list_all (\<lambda>a. snd a \<noteq> []) axes then (Inr [], w)
                else (case matrix_count maxIterations axes 1 of
                    None \<Rightarrow> (Inl (Err (''matrix combination count exceeds max_iterations '' @
                               nat_text maxIterations)), w)
                  | Some _ \<Rightarrow> (case matrix_expand poll axes fmempty [] w of
                        (Some e, _, _, w) \<Rightarrow> (Inl e, w)
                      | (None, _, its, w) \<Rightarrow> (Inr its, w))))))"

subsection \<open>Clones return the value\<close>

lemma cloneContext_value: "cloneContext poll v w = (Inr v', w') \<Longrightarrow> v' = v"
  by (auto simp: cloneContext_def split: prod.splits option.splits)

lemma clone_items_value: "clone_items poll vs w = (Inr vs', w') \<Longrightarrow> vs' = vs"
  by (induction vs arbitrary: w vs' w')
    (auto split: prod.splits sum.splits dest: cloneContext_value)

text \<open>A context that stays alive: every poll returns no error.\<close>

definition stays_live :: "'w poller \<Rightarrow> bool" where
  "stays_live poll \<longleftrightarrow> (\<forall>w. fst (poll w) = None)"

lemma live_poll: "stays_live poll \<Longrightarrow> \<exists>w'. poll w = (None, w')"
  by (metis prod.collapse stays_live_def)

lemma live_poll_times: "stays_live poll \<Longrightarrow> \<exists>w'. poll_times poll n w = (None, w')"
proof (induction n arbitrary: w)
  case (Suc n)
  obtain w1 where "poll w = (None, w1)" using live_poll [OF Suc.prems] by blast
  then show ?case using Suc by simp
qed simp

lemma live_clone:
  assumes "stays_live poll"
  shows "\<exists>w'. cloneContext poll v w = (Inr v, w')"
proof -
  obtain w' where "poll_times poll (nodes v) w = (None, w')" using live_poll_times [OF assms] by blast
  then show ?thesis by (simp add: cloneContext_def)
qed

lemma live_clone_map:
  assumes "stays_live poll"
  shows "\<exists>w'. cloneMapContext poll m w = (Inr m, w')"
proof -
  obtain w' where "poll_times poll (sum_values (fmmap nodes m)) w = (None, w')"
    using live_poll_times [OF assms] by blast
  then show ?thesis by (simp add: cloneMapContext_def)
qed

lemma live_clone_items: "stays_live poll \<Longrightarrow> \<exists>w'. clone_items poll vs w = (Inr vs, w')"
proof (induction vs arbitrary: w)
  case (Cons v vs)
  obtain w1 where w1: "cloneContext poll v w = (Inr v, w1)" using live_clone [OF Cons.prems] by blast
  obtain w2 where "clone_items poll vs w1 = (Inr vs, w2)" using Cons by blast
  then show ?case using w1 by simp
qed simp

subsection \<open>Batches\<close>

definition chunk :: "nat \<Rightarrow> 'a list \<Rightarrow> nat \<Rightarrow> 'a list" where
  "chunk n vs i = take n (drop (i * n) vs)"

lemma batch_count_step: "0 < n \<Longrightarrow> 0 < len \<Longrightarrow> batch_count len n = Suc (batch_count (len - n) n)"
proof -
  assume n: "0 < n" and len: "0 < len"
  show ?thesis
  proof (cases "len < n")
    case True
    then show ?thesis using len by (simp add: batch_count_def)
  next
    case False
    then show ?thesis using n by (simp add: batch_count_def le_div_geq le_mod_geq)
  qed
qed

lemma chunk_step: "chunk n vs (Suc i) = chunk n (drop n vs) i"
  by (simp add: chunk_def add.commute)

lemma batch_loop_value:
  assumes "0 < n" and "batch_loop poll n index vs w = (Inr its, w')"
  shows "its = map (\<lambda>i. batch_iteration (index + i) (chunk n vs i)) [0..<batch_count (length vs) n]"
  using assms
proof (induction poll n index vs w arbitrary: its w' rule: batch_loop.induct)
  case (1 poll n index w)
  then show ?case by (simp add: batch_count_def)
next
  case (2 poll n index v vs w)
  obtain c w1 where c: "clone_items poll (v # take (n - 1) vs) w = (c, w1)" by fastforce
  obtain c' where c': "c = Inr c'" using "2.prems" c by (cases c) auto
  obtain r w2 where r: "batch_loop poll n (Suc index) (drop (n - 1) vs) w1 = (r, w2)" by fastforce
  obtain rest where rest: "r = Inr rest" using "2.prems" c c' r by (cases r) auto
  have its: "its = batch_iteration index c' # rest" using "2.prems" c c' r rest by simp
  have chunk0: "c' = chunk n (v # vs) 0"
    using clone_items_value [OF c [unfolded c']] "2.prems"(1) by (simp add: chunk_def take_Cons')
  have dropn: "drop (n - 1) vs = drop n (v # vs)" using "2.prems"(1) by (simp add: drop_Cons')
  have tail: "rest = map (\<lambda>i. batch_iteration (Suc index + i) (chunk n (drop n (v # vs)) i))
      [0..<batch_count (length (drop n (v # vs))) n]"
    using "2.IH" [OF c [symmetric] c' "2.prems"(1) r [unfolded rest]] unfolding dropn .
  have count: "batch_count (length (v # vs)) n = Suc (batch_count (length (drop n (v # vs))) n)"
    using batch_count_step [OF "2.prems"(1), of "length (v # vs)"] by simp
  show ?case
    unfolding its tail count chunk0 chunk_step [symmetric]
    by (simp add: upt_conv_Cons map_Suc_upt [symmetric] comp_def del: upt_Suc)
qed

lemma chunks_concat: "0 < n \<Longrightarrow> concat (map (chunk n vs) [0..<batch_count (length vs) n]) = vs"
proof (induction "length vs" arbitrary: vs rule: less_induct)
  case less
  show ?case
  proof (cases "vs = []")
    case False
    have "concat (map (chunk n (drop n vs)) [0..<batch_count (length (drop n vs)) n]) = drop n vs"
      by (rule less.hyps) (use less.prems False in simp_all)
    moreover have "batch_count (length vs) n = Suc (batch_count (length (drop n vs)) n)"
      using batch_count_step [OF less.prems, of "length vs"] False by simp
    ultimately show ?thesis
      by (simp add: upt_conv_Cons map_Suc_upt [symmetric] comp_def chunk_step del: upt_Suc)
        (simp add: chunk_def)
  qed (simp add: batch_count_def)
qed

subsection \<open>Products\<close>

text \<open>The Cartesian product, rightmost axis fastest.\<close>

fun products :: "axis list \<Rightarrow> (string \<times> val) list list" where
  "products [] = [[]]"
| "products ((name, values) # axes) = concat (map (\<lambda>v. map (\<lambda>p. (name, v) # p) (products axes)) values)"

fun numbered :: "nat \<Rightarrow> vmap list \<Rightarrow> iteration list" where
  "numbered k [] = []"
| "numbered k (b # bs) = matrix_iteration k b # numbered (Suc k) bs"

lemma numbered_append: "numbered k (xs @ ys) = numbered k xs @ numbered (k + length xs) ys"
  by (induction xs arbitrary: k) simp_all

lemma length_numbered [simp]: "length (numbered k bs) = length bs"
  by (induction bs arbitrary: k) simp_all

lemma nth_numbered: "i < length bs \<Longrightarrow> numbered k bs ! i = matrix_iteration (k + i) (bs ! i)"
proof (induction bs arbitrary: k i)
  case (Cons b bs)
  then show ?case by (cases i) simp_all
qed simp

lemma products_keys: "p \<in> set (products axes) \<Longrightarrow> map fst p = map fst axes"
  by (induction axes arbitrary: p rule: products.induct) auto

lemma length_products: "length (products axes) = prod_list (map (\<lambda>a. length (snd a)) axes)"
proof (induction axes)
  case (Cons a axes)
  then show ?case by (cases a) (simp add: length_concat comp_def sum_list_triv)
qed simp

definition overlay :: "vmap \<Rightarrow> axis list \<Rightarrow> vmap list" where
  "overlay b axes = map (\<lambda>p. b ++\<^sub>f fmap_of_list p) (products axes)"

definition free_names :: "axis list \<Rightarrow> vmap \<Rightarrow> bool" where
  "free_names axes b \<longleftrightarrow> distinct (map fst axes) \<and> (\<forall>x \<in> set (map fst axes). fmlookup b x = None)"

lemma overlay_Cons:
  assumes "free_names ((name, values) # axes) b"
  shows "overlay b ((name, values) # axes) = concat (map (\<lambda>v. overlay (fmupd name v b) axes) values)"
proof -
  have "b ++\<^sub>f fmap_of_list ((name, v) # p) = fmupd name v b ++\<^sub>f fmap_of_list p" if "p \<in> set (products axes)" for v p
  proof (rule fmap_ext)
    fix x
    have "map fst p = map fst axes" using products_keys [OF that] .
    then have "name \<notin> fst ` set p" using assms unfolding free_names_def by (metis distinct.simps(2) fst_conv list.simps(9) set_map)
    then have "fmlookup (fmap_of_list p) name = None"
      by (simp add: fmlookup_of_list map_of_eq_None_iff)
    then have "name |\<notin>| fmdom (fmap_of_list p)" by (rule fmdom_notI)
    then show "fmlookup (b ++\<^sub>f fmap_of_list ((name, v) # p)) x = fmlookup (fmupd name v b ++\<^sub>f fmap_of_list p) x"
      by (cases "x = name") simp_all
  qed
  then have "map (\<lambda>p. b ++\<^sub>f fmap_of_list ((name, v) # p)) (products axes) = overlay (fmupd name v b) axes" for v
    by (simp add: overlay_def)
  then show ?thesis by (simp only: overlay_def [of b] products.simps map_concat map_map comp_def)
qed

lemma overlay_length [simp]: "length (overlay b axes) = length (products axes)"
  by (simp add: overlay_def)

lemma free_names_Cons:
  "free_names ((name, values) # axes) b \<Longrightarrow> free_names axes (fmupd name v b)"
  by (auto simp: free_names_def)

lemma matrix_expand_value:
  shows "matrix_expand poll axes b its w = (None, b', its', w') \<Longrightarrow> free_names axes b \<Longrightarrow>
      b' = b \<and> its' = its @ numbered (length its) (overlay b axes)"
    and "expand_values poll name vs axes b its w = (None, b', its', w') \<Longrightarrow>
      (\<And>v. free_names axes (fmupd name v b)) \<Longrightarrow>
      b' = fmdrop name b \<and>
      its' = its @ numbered (length its) (concat (map (\<lambda>v. overlay (fmupd name v b) axes) vs))"
proof (induction poll axes b its w and poll name vs axes b its w arbitrary: b' its' w' and b' its' w'
    rule: matrix_expand_expand_values.induct)
  case (1 poll axes b its w)
  obtain w1 where w1: "poll w = (None, w1)"
    using "1.prems"(1) by (auto split: prod.splits option.splits)
  show ?case
  proof (cases axes)
    case Nil
    then show ?thesis
      using "1.prems" w1
      by (auto simp: overlay_def cloneMapContext_def split: prod.splits sum.splits option.splits)
  next
    case (Cons a rest)
    obtain name vals where a: "a = (name, vals)" by (cases a)
    have "expand_values poll name vals rest b its w1 = (None, b', its', w')"
      using "1.prems"(1) w1 Cons a by simp
    then have "b' = fmdrop name b \<and> its' = its @ numbered (length its) (concat (map (\<lambda>v. overlay (fmupd name v b) rest) vals))"
      using "1.IH" [OF w1 [symmetric] refl Cons a [symmetric]] free_names_Cons "1.prems"(2) Cons a by blast
    moreover have "fmdrop name b = b"
      using "1.prems"(2) Cons a by (intro fmap_ext) (auto simp: free_names_def)
    ultimately show ?thesis using overlay_Cons [of name vals rest b] "1.prems"(2) Cons a by simp
  qed
next
  case (2 poll name axes b its w)
  then show ?case by simp
next
  case (3 poll name v vs axes b its w)
  obtain c w1 where c: "cloneContext poll v w = (c, w1)" by fastforce
  then have "c = Inr v"
    using "3.prems"(1) cloneContext_value [of poll v w _ w1] by (cases c) auto
  then have w1: "cloneContext poll v w = (Inr v, w1)" using c by simp
  obtain e b1 its1 w2 where run: "matrix_expand poll axes (fmupd name v b) its w1 = (e, b1, its1, w2)"
    by (metis prod_cases4)
  have e: "e = None" using "3.prems"(1) w1 run by (cases e) simp_all
  have one: "b1 = fmupd name v b" "its1 = its @ numbered (length its) (overlay (fmupd name v b) axes)"
    using "3.IH"(1) [OF w1 [symmetric] refl run [unfolded e] "3.prems"(2)] by simp_all
  have rest: "expand_values poll name vs axes b1 its1 w2 = (None, b', its', w')"
    using "3.prems"(1) w1 run e by simp
  have free: "free_names axes (fmupd name u b1)" for u using "3.prems"(2) by (simp add: one)
  have "b' = fmdrop name b1 \<and> its' = its1 @ numbered (length its1) (concat (map (\<lambda>u. overlay (fmupd name u b1) axes) vs))"
    by (rule "3.IH"(2) [OF w1 [symmetric] refl run [unfolded e, symmetric] refl refl refl rest free])
  then show ?case by (simp add: one numbered_append)
qed

lemma check_axes_iff:
  "check_axes axes seen = None \<longleftrightarrow>
     distinct (map fst axes) \<and> (\<forall>x \<in> set (map fst axes). x \<noteq> [] \<and> x |\<notin>| seen)"
  by (induction axes seen rule: check_axes.induct) auto

lemma matrix_count_iff:
  assumes "0 < count" and "list_all (\<lambda>a. snd a \<noteq> []) axes" and "count \<le> m"
  shows "matrix_count m axes count = (if count * prod_list (map (\<lambda>a. length (snd a)) axes) \<le> m
     then Some (count * prod_list (map (\<lambda>a. length (snd a)) axes)) else None)"
  using assms
proof (induction m axes count rule: matrix_count.induct)
  case (1 m count)
  then show ?case by simp
next
  case (2 m name vals axes count)
  let ?p = "prod_list (map (\<lambda>a. length (snd a)) axes)"
  have pos: "0 < ?p" using "2.prems"(2) by (induction axes) auto
  have le: "length vals \<le> m div count \<longleftrightarrow> count * length vals \<le> m"
    using "2.prems"(1) by (simp add: less_eq_div_iff_mult_less_eq mult.commute)
  show ?case
  proof (cases "length vals > m div count")
    case True
    then have "\<not> count * length vals \<le> m" using le by simp
    moreover have "count * length vals * 1 \<le> count * length vals * ?p"
      by (rule mult_le_mono2) (use pos in simp)
    ultimately have "\<not> count * length vals * ?p \<le> m" by linarith
    then show ?thesis using True by (simp add: mult.assoc)
  next
    case False
    then show ?thesis using 2 le by (simp add: mult.assoc)
  qed
qed

subsection \<open>Properties\<close>

text \<open>C12: Batch expansion. When a batch expands, the items were a list, iteration i is the i-th chunk
  of the requested size in order, the chunks concatenate to the items, and there are as many as the
  rounded-up quotient, at most max_iterations.\<close>

theorem batch_expansion:
  assumes "BatchContext poll items n m w = (Inr its, w')"
  shows "\<exists>vs. items = VList vs \<and>
    its = map (\<lambda>i. batch_iteration i (take (nat n) (drop (i * nat n) vs))) [0..<batch_count (length vs) (nat n)] \<and>
    concat (map (\<lambda>i. take (nat n) (drop (i * nat n) vs)) [0..<batch_count (length vs) (nat n)]) = vs \<and>
    length its \<le> m"
proof -
  have n: "1 \<le> n"
    using assms by (auto simp: BatchContext_def split: option.splits if_splits)
  obtain e w1 where "poll w = (e, w1)" by fastforce
  then obtain vs where vs: "asSlice items = Some vs" "batch_count (length vs) (nat n) \<le> m"
      "batch_loop poll (nat n) 0 vs w1 = (Inr its, w')"
    using assms by (auto simp: BatchContext_def Let_def split: option.splits if_splits)
  have "items = VList vs" using vs(1) by (cases items) (simp_all add: asSlice_def)
  moreover have "its = map (\<lambda>i. batch_iteration (0 + i) (chunk (nat n) vs i)) [0..<batch_count (length vs) (nat n)]"
    by (rule batch_loop_value [OF _ vs(3)]) (use n in simp)
  moreover have "concat (map (chunk (nat n) vs) [0..<batch_count (length vs) (nat n)]) = vs"
    by (rule chunks_concat) (use n in simp)
  ultimately show ?thesis using vs(2) by (simp add: chunk_def [abs_def])
qed

theorem batch_expansion_witness:
  "concat (map (\<lambda>i. take 2 (drop (i * 2) [VInt 1, VInt 2, VInt 3])) [0..<2]) = [VInt 1, VInt 2, VInt 3]"
proof -
  have run: "BatchContext (\<lambda>w :: nat. (None, w)) (VList [VInt 1, VInt 2, VInt 3]) 2 10 0 =
      (Inr [batch_iteration 0 [VInt 1, VInt 2], batch_iteration 1 [VInt 3]], 0)"
    by (simp add: BatchContext_def validateMaxIterations_def MaxIterations_def asSlice_def batch_count_def
        cloneContext_def)
  from batch_expansion [OF run] obtain vs where vs: "VList [VInt 1, VInt 2, VInt 3] = VList vs"
    "concat (map (\<lambda>i. take (nat 2) (drop (i * nat 2) vs)) [0..<batch_count (length vs) (nat 2)]) = vs" by blast
  have "vs = [VInt 1, VInt 2, VInt 3]" using vs(1) by simp
  moreover have "nat 2 = 2" "batch_count (length [VInt 1, VInt 2, VInt 3]) 2 = 2" by code_simp+
  ultimately show ?thesis using vs(2) by (simp only:)
qed

text \<open>C11: Matrix expansion. When a matrix expands, its axes have distinct non-empty names, its
  iterations are the Cartesian product of the axes in order with the rightmost axis changing
  fastest, numbered from 0, and their number is the product of the axis lengths and at most
  max_iterations.\<close>

theorem matrix_expansion:
  assumes "MatrixContext poll axes m w = (Inr its, w')"
  shows "distinct (map fst axes) \<and> [] \<notin> set (map fst axes) \<and> axes \<noteq> [] \<and>
    its = numbered 0 (map fmap_of_list (products axes)) \<and>
    length its = prod_list (map (\<lambda>a. length (snd a)) axes) \<and> length its \<le> m"
proof -
  obtain e w1 where p: "poll w = (e, w1)" by fastforce
  have checks: "validateMaxIterations m = None" "e = None" "axes \<noteq> []" "check_axes axes {||} = None"
    using assms p by (auto simp: MatrixContext_def split: option.splits if_splits)
  then have names: "distinct (map fst axes)" "[] \<notin> set (map fst axes)" by (auto simp: check_axes_iff)
  have m: "1 \<le> m" using checks(1) by (auto simp: validateMaxIterations_def split: if_splits)
  show ?thesis
  proof (cases "list_all (\<lambda>a. snd a \<noteq> []) axes")
    case False
    then have "prod_list (map (\<lambda>a. length (snd a)) axes) = 0" by (induction axes) auto
    moreover from this have "products axes = []" using length_products [of axes] by simp
    ultimately show ?thesis using assms p checks False names by (simp add: MatrixContext_def)
  next
    case True
    obtain c where c: "matrix_count m axes 1 = Some c"
      using assms p checks True by (auto simp: MatrixContext_def split: option.splits)
    have bound: "prod_list (map (\<lambda>a. length (snd a)) axes) \<le> m"
      using c matrix_count_iff [of 1 axes m] True m by (auto split: if_splits)
    obtain b where run: "matrix_expand poll axes fmempty [] w1 = (None, b, its, w')"
      using assms p checks True c by (auto simp: MatrixContext_def split: option.splits prod.splits)
    have "free_names axes fmempty" using names by (simp add: free_names_def)
    then have "its = numbered 0 (overlay fmempty axes)" using matrix_expand_value(1) [OF run] by simp
    moreover have "overlay fmempty axes = map fmap_of_list (products axes)" by (simp add: overlay_def)
    ultimately show ?thesis using names checks bound by (simp add: length_products)
  qed
qed

lemma live_times: "poll_times (\<lambda>w. (None, w)) n w = (None, w)"
  by (induction n) simp_all

definition demo_axes :: "axis list" where
  "demo_axes = [(''os'', [VStr ''a'', VStr ''b'']), (''v'', [VInt 1, VInt 2])]"

theorem matrix_expansion_witness:
  "map_sum (\<lambda>_. ()) length (fst (MatrixContext (\<lambda>w :: nat. (None, w)) demo_axes 10 0)) = Inr 4"
proof -
  obtain r w' where r: "MatrixContext (\<lambda>w :: nat. (None, w)) demo_axes 10 0 = (r, w')" by fastforce
  have "isl (fst (MatrixContext (\<lambda>w :: nat. (None, w)) demo_axes 10 0)) = False"
    by (simp add: MatrixContext_def validateMaxIterations_def MaxIterations_def demo_axes_def
        cloneContext_def cloneMapContext_def live_times flip: numeral_2_eq_2 split: prod.splits sum.splits option.splits)
  then obtain its where its: "r = Inr its" using r by (cases r) simp_all
  have "length its = prod_list (map (\<lambda>a. length (snd a)) demo_axes)"
    using matrix_expansion [OF r [unfolded its]] by blast
  moreover have "prod_list (map (\<lambda>a. length (snd a)) demo_axes) = 4" by code_simp
  ultimately show ?thesis using r its by simp
qed

end
