(* ===== verification/Outcomes.thy ===== *)
theory Outcomes
  imports EngineState
begin

text \<open>
  What the controls publish about the work they ran: error records for \<^verbatim>\<open>finally\<close> and
  \<^verbatim>\<open>catch\<close>, the error value of an attempt condition, and the per-step records of private
  control state (engine/engine.go, engine/try_catch.go, engine/control_outcome.go, engine/retry.go).
\<close>

subsection \<open>Error records\<close>

record error_record =
  er_status :: exec_status
  er_message :: string
  er_step :: string
  er_type :: string

text \<open>engine/engine.go, finallyErrorRecord and finallyErrorRecords: a control's own error is
  replaced by the errors of its iterations when there are any.\<close>

definition finallyErrorRecord :: "exec_status \<Rightarrow> string \<Rightarrow> string \<Rightarrow> goerr \<Rightarrow> error_record" where
  "finallyErrorRecord status i t e =
     \<lparr>er_status = status, er_message = err_text e, er_step = i, er_type = t\<rparr>"

fun finallyErrorRecords :: "step_stats list \<Rightarrow> error_record list"
  and iterationErrorRecords :: "iteration_stats list \<Rightarrow> error_record list" where
  "finallyErrorRecords [] = []"
| "finallyErrorRecords (StepStats i t status _ _ err its # rest) =
     (let nested = iterationErrorRecords its in
      if nested \<noteq> [] then nested
      else case err of
          None \<Rightarrow> []
        | Some e \<Rightarrow> if status = StatusSucceeded \<or> status = StatusSkipped then []
                    else [finallyErrorRecord status i t e]) @ finallyErrorRecords rest"
| "iterationErrorRecords [] = []"
| "iterationErrorRecords (IterationStats _ _ _ _ ss # rest) =
     finallyErrorRecords ss @ iterationErrorRecords rest"

lemma finallyErrorRecords_append [simp]:
  "finallyErrorRecords (xs @ ys) = finallyErrorRecords xs @ finallyErrorRecords ys"
proof (induction xs)
  case (Cons x xs)
  then show ?case by (cases x) (simp add: Let_def)
qed simp

definition finally_val :: "error_record \<Rightarrow> val" where
  "finally_val r = vmap_of [(''status'', VStr (status_text (er_status r))), (''message'', VStr (er_message r)),
     (''step_id'', VStr (er_step r)), (''step_type'', VStr (er_type r))]"

definition catch_val :: "error_record \<Rightarrow> val" where
  "catch_val r = vmap_of [(''status'', VStr (status_text (er_status r))), (''message'', VStr (er_message r)),
     (''step'', VStr (er_step r)), (''type'', VStr (er_type r))]"

text \<open>engine/try_catch.go, structuredErrorValue and recoveryErrorValue: the origin is the first record
  that names a step.\<close>

definition structuredErrorValue ::
  "exec_status \<Rightarrow> goerr \<Rightarrow> string \<Rightarrow> string \<Rightarrow> val list \<Rightarrow> (string \<times> val) list" where
  "structuredErrorValue status e i t records =
     [(''status'', VStr (status_text status)), (''message'', VStr (err_text e)), (''step'', VStr i),
      (''type'', VStr t), (''errors'', VList records)]"

definition error_origin :: "error_record list \<Rightarrow> string \<times> string" where
  "error_origin rs = foldl (\<lambda>(i, t) r. if i = [] then (er_step r, er_type r) else (i, t)) ([], []) rs"

definition recoveryErrorValue :: "exec_status \<Rightarrow> goerr \<Rightarrow> step_stats list \<Rightarrow> val" where
  "recoveryErrorValue status e stats =
     (let records = finallyErrorRecords stats;
          (i, t) = error_origin records;
          converted = (if records = []
            then [catch_val \<lparr>er_status = status, er_message = err_text e, er_step = [], er_type = []\<rparr>]
            else map catch_val records)
      in vmap_of (structuredErrorValue status e i t converted))"

text \<open>engine/try_catch.go, retryErrorValue: the outputs of a failed pass flatten to the top, except
  under reserved names.\<close>

definition retryErrorReservedFields :: "string list" where
  "retryErrorReservedFields = [''status'', ''message'', ''step'', ''type'', ''errors'', ''outputs'']"

definition retryErrorValue :: "exec_status \<Rightarrow> string \<Rightarrow> string \<Rightarrow> goerr \<Rightarrow> vmap \<Rightarrow> vmap" where
  "retryErrorValue status i t e outputs =
     fmap_of_list (structuredErrorValue status e i t
       [vmap_of [(''status'', VStr (status_text status)), (''message'', VStr (err_text e)),
                 (''step'', VStr i), (''type'', VStr t)]])
     ++\<^sub>f fmap_of_list [(''outputs'', VMap outputs)]
     ++\<^sub>f fmfilter (\<lambda>name. name \<notin> set retryErrorReservedFields) outputs"

text \<open>engine/retry.go, retryConditionOutputs: reported outputs win over the failure's own
  description.\<close>

definition own_outputs :: "goerr \<Rightarrow> vmap option" where
  "own_outputs e = (case e of Foreign _ _ o' _ \<Rightarrow> o' | _ \<Rightarrow> None)"

fun err_outputs :: "goerr \<Rightarrow> vmap option" where
  "err_outputs e = (case own_outputs e of
     Some o' \<Rightarrow> Some o'
   | None \<Rightarrow> fold (\<lambda>c acc. case acc of Some x \<Rightarrow> Some x | None \<Rightarrow> err_outputs c) (error_children e) None)"

declare err_outputs.simps [simp del]

definition retryConditionOutputs :: "goerr \<Rightarrow> vmap \<Rightarrow> vmap" where
  "retryConditionOutputs e outputs =
     (case err_outputs e of
        None \<Rightarrow> outputs
      | Some fallback \<Rightarrow> if fallback = fmempty then outputs else fallback ++\<^sub>f outputs)"

subsection \<open>Records of private steps\<close>

text \<open>engine/control_outcome.go, indexStepStats: the last record of an ID wins.\<close>

definition indexStepStats :: "run_stats \<Rightarrow> (string, step_stats) fmap" where
  "indexStepStats st = fmap_of_list (rev (map (\<lambda>s. (ss_id s, s)) (rsteps st)))"

definition controlRecordedError :: "goerr option \<Rightarrow> bool \<Rightarrow> val" where
  "controlRecordedError err suppress =
     (if suppress \<and> cancellation_only err then VNil
      else case err of None \<Rightarrow> VNil | Some e \<Rightarrow> VStr (err_text e))"

definition step_record :: "wstate option \<Rightarrow> (string, step_stats) fmap \<Rightarrow> bool \<Rightarrow> string \<Rightarrow> val" where
  "step_record st byID suppress i =
     (let (status, err) = (case fmlookup byID i of
            Some item \<Rightarrow> (ss_status item, ss_error item) | None \<Rightarrow> (StatusSkipped, None));
          outputs = (case st of
              Some s \<Rightarrow> if status = StatusSucceeded
                        then (case fmlookup (st_steps s) i of Some v \<Rightarrow> v | None \<Rightarrow> VNil) else VNil
            | None \<Rightarrow> VNil)
      in vmap_of [(''status'', VStr (status_text status)),
                  (''error'', controlRecordedError err suppress), (''outputs'', outputs)])"

text \<open>engine/control_outcome.go, collectControlStepRecords and controlStepRecords\<close>

function (sequential) collectControlStepRecords ::
  "wstate option \<Rightarrow> (string, step_stats) fmap \<Rightarrow> bool \<Rightarrow> step list \<Rightarrow> vmap \<Rightarrow> vmap" where
  "collectControlStepRecords st byID suppress [] records = records"
| "collectControlStepRecords st byID suppress (s # rest) records =
     collectControlStepRecords st byID suppress rest
      (case transparentChildSequences s of
         Some children \<Rightarrow> fold (collectControlStepRecords st byID suppress) (map snd children) records
       | None \<Rightarrow>
           if sid s = [] \<or> isReturn s then records
           else fmupd (sid s) (step_record st byID suppress (sid s)) records)"
  by pat_completeness auto
termination
  by (relation "measure (\<lambda>(_, _, _, ss, _). size_list size ss)")
    (simp_all only: in_measure split_conv wf_measure size_list_tail, erule (1) size_transparent_child)

definition controlStepRecords :: "step list \<Rightarrow> wstate option \<Rightarrow> run_stats \<Rightarrow> bool \<Rightarrow> vmap" where
  "controlStepRecords declarations st stats suppress =
     collectControlStepRecords st (indexStepStats stats) suppress declarations fmempty"

text \<open>engine/control_outcome.go, allStepsSkipped\<close>

definition allStepsSkipped :: "run_stats \<Rightarrow> bool" where
  "allStepsSkipped st = list_all (\<lambda>s. ss_status s = StatusSkipped) (rsteps st)"

subsection \<open>Lifecycle bindings\<close>

text \<open>engine/engine.go, bindingRoot\<close>

definition bindingRoot :: "vmap option \<Rightarrow> string \<Rightarrow> vmap" where
  "bindingRoot bs name =
     (case bs of None \<Rightarrow> fmempty
      | Some b \<Rightarrow> (case fmlookup b name of Some (VMap m) \<Rightarrow> m | _ \<Rightarrow> fmempty))"

text \<open>
  engine/try_catch.go, bindRecoveryError, and engine/engine.go, executeCleanupScope: a control binds a
  root for the time its cleanup or recovery runs and then restores what was there, down to the nil
  map. The Go closure that restores captures the previous binding and whether the map was nil.
\<close>

definition bind_root :: "string \<Rightarrow> val \<Rightarrow> wstate \<Rightarrow> wstate" where
  "bind_root name v st = st\<lparr>st_bindings :=
     Some (fmupd name v (case st_bindings st of None \<Rightarrow> fmempty | Some b \<Rightarrow> b))\<rparr>"

definition restore_root :: "string \<Rightarrow> vmap option \<Rightarrow> wstate \<Rightarrow> wstate" where
  "restore_root name before st =
     (let previous = (case before of None \<Rightarrow> None | Some b \<Rightarrow> fmlookup b name);
          now = (case st_bindings st of None \<Rightarrow> fmempty | Some b \<Rightarrow> b);
          restored = (case previous of Some v \<Rightarrow> fmupd name v now | None \<Rightarrow> fmdrop name now)
      in st\<lparr>st_bindings := (if before = None \<and> restored = fmempty then None else Some restored)\<rparr>)"

lemma fmdrop_fresh: "fmlookup m k = None \<Longrightarrow> fmdrop k m = m"
  by (rule fmap_ext) simp

lemma fmupd_same: "fmlookup m k = Some u \<Longrightarrow> fmupd k u m = m"
  by (rule fmap_ext) auto

lemma restore_bind_root:
  assumes "st_bindings st' = st_bindings (bind_root name v st)"
  shows "st_bindings (restore_root name (st_bindings st) st') = st_bindings st"
proof (cases "st_bindings st")
  case None
  then show ?thesis using assms by (simp add: restore_root_def bind_root_def fmdrop_fresh)
next
  case (Some b)
  then show ?thesis using assms
    by (cases "fmlookup b name") (simp_all add: restore_root_def bind_root_def fmdrop_fresh fmupd_same)
qed

end
