(* ===== verification/Declarations.thy ===== *)
theory Declarations
  imports NeedsValidation Expansion
begin

text \<open>
  The declaration as it is decoded (workflow/types.go, \<^verbatim>\<open>Step\<close>): a Go struct whose fields may all
  be set at once, before structure validation has established that just one control is. \<open>decl\<close> has
  every field validation reads; a pointer or a slice that may be nil is an option.

  The theory holds the predicates on the struct, its child sequences (workflow/children.go) and the
  \<^verbatim>\<open>Validate\<close> method of every group (workflow/control.go, attempt.go, cancel_on.go, once.go,
  observe.go, return.go, output.go, environment.go). An error is the text of \<^verbatim>\<open>Error()\<close> with the
  location a walker has attached to it. Where Go ranges over a map the entries are visited in key
  order, one of the orders Go may take.
\<close>

subsection \<open>Errors of validation\<close>

text \<open>diagnostic.Location, and locatedValidationError of workflow/validation.go\<close>

record location =
  loc_source :: string
  loc_line :: int
  loc_column :: int

type_synonym verr = "location option \<times> string"

definition first_error :: "verr option list \<Rightarrow> verr option" where
  "first_error es = fold (\<lambda>e acc. case acc of Some _ \<Rightarrow> acc | None \<Rightarrow> e) es None"

definition fail_if :: "bool \<Rightarrow> string \<Rightarrow> verr option" where
  "fail_if b t = (if b then Some (None, t) else None)"

text \<open>\<^verbatim>\<open>fmt.Errorf("prefix: %w", err)\<close> keeps the location in the chain.\<close>

definition within_error :: "string \<Rightarrow> verr option \<Rightarrow> verr option" where
  "within_error prefix e = map_option (\<lambda>(l, t). (l, prefix @ '': '' @ t)) e"

lemma first_error_Cons:
  "first_error (e # es) = (case e of Some x \<Rightarrow> Some x | None \<Rightarrow> first_error es)"
proof -
  have keep: "fold (\<lambda>e acc. case acc of Some _ \<Rightarrow> acc | None \<Rightarrow> e) es (Some x) = Some x" for x :: verr and es
    by (induction es) simp_all
  show ?thesis by (cases e) (simp_all add: first_error_def keep)
qed

lemma first_error_None [simp]: "first_error es = None \<longleftrightarrow> (\<forall>e \<in> set es. e = None)"
proof (induction es)
  case Nil
  then show ?case by (simp add: first_error_def)
next
  case (Cons e es)
  then show ?case by (cases e) (simp_all add: first_error_Cons)
qed

lemma fail_if_None [simp]: "fail_if b t = None \<longleftrightarrow> \<not> b"
  by (simp add: fail_if_def)

lemma within_error_None [simp]: "within_error p e = None \<longleftrightarrow> e = None"
  by (simp add: within_error_def)

subsection \<open>Strings\<close>

text \<open>
  strings.TrimSpace on UTF-8: the encodings of the code points unicode.IsSpace accepts are removed
  from both ends.
\<close>

definition go_spaces :: "string list" where
  "go_spaces = map (\<lambda>n. [char_of n]) [9, 10, 11, 12, 13, 32 :: nat] @
     [[CHR 0xC2, CHR 0x85], [CHR 0xC2, CHR 0xA0], [CHR 0xE1, CHR 0x9A, CHR 0x80]] @
     map (\<lambda>n. [CHR 0xE2, CHR 0x80, char_of (0x80 + n)]) [0 ..< 11 :: nat] @
     [[CHR 0xE2, CHR 0x80, CHR 0xA8], [CHR 0xE2, CHR 0x80, CHR 0xA9], [CHR 0xE2, CHR 0x80, CHR 0xAF],
      [CHR 0xE2, CHR 0x81, CHR 0x9F], [CHR 0xE3, CHR 0x80, CHR 0x80]]"

fun strip_prefix :: "string \<Rightarrow> string \<Rightarrow> string option" where
  "strip_prefix [] s = Some s"
| "strip_prefix (p # ps) (c # cs) = (if p = c then strip_prefix ps cs else None)"
| "strip_prefix (p # ps) [] = None"

lemma strip_prefix_length: "strip_prefix p s = Some r \<Longrightarrow> length s = length p + length r"
  by (induction p s rule: strip_prefix.induct) (auto split: if_splits)

definition strip_any :: "string list \<Rightarrow> string \<Rightarrow> string option" where
  "strip_any ps s = (case List.map_filter (\<lambda>p. if p = [] then None else strip_prefix p s) ps of
     [] \<Rightarrow> None | r # _ \<Rightarrow> Some r)"

lemma strip_any_length [termination_simp]: "strip_any ps s = Some r \<Longrightarrow> length r < length s"
proof -
  assume "strip_any ps s = Some r"
  then obtain rs where "List.map_filter (\<lambda>p. if p = [] then None else strip_prefix p s) ps = r # rs"
    by (auto simp: strip_any_def split: list.splits)
  then have "r \<in> set (List.map_filter (\<lambda>p. if p = [] then None else strip_prefix p s) ps)" by simp
  then obtain p where "p \<noteq> []" "strip_prefix p s = Some r"
    by (auto simp: List.map_filter_def split: if_splits)
  then show "length r < length s" using strip_prefix_length [of p s r] by (cases p) auto
qed

fun trim_left :: "string list \<Rightarrow> string \<Rightarrow> string" where
  "trim_left ps s = (case strip_any ps s of None \<Rightarrow> s | Some r \<Rightarrow> trim_left ps r)"

declare trim_left.simps [simp del]

definition trimSpace :: "string \<Rightarrow> string" where
  "trimSpace s = rev (trim_left (map rev go_spaces) (rev (trim_left go_spaces s)))"

definition blank :: "string \<Rightarrow> bool" where
  "blank s \<longleftrightarrow> trimSpace s = []"

lemma blank_Nil [simp]: "blank []"
  by (simp add: blank_def trimSpace_def trim_left.simps strip_any_def List.map_filter_def go_spaces_def)

text \<open>The patterns \<^verbatim>\<open>identifierPattern\<close>, \<^verbatim>\<open>environmentPattern\<close> and \<^verbatim>\<open>httpMethodPattern\<close>.\<close>

definition is_upper :: "char \<Rightarrow> bool" where
  "is_upper c \<longleftrightarrow> 65 \<le> (of_char c :: nat) \<and> (of_char c :: nat) \<le> 90"

definition is_lower :: "char \<Rightarrow> bool" where
  "is_lower c \<longleftrightarrow> 97 \<le> (of_char c :: nat) \<and> (of_char c :: nat) \<le> 122"

definition is_digit :: "char \<Rightarrow> bool" where
  "is_digit c \<longleftrightarrow> 48 \<le> (of_char c :: nat) \<and> (of_char c :: nat) \<le> 57"

definition ident_start :: "char \<Rightarrow> bool" where
  "ident_start c \<longleftrightarrow> is_upper c \<or> is_lower c \<or> c = CHR ''_''"

definition identifierPattern :: "string \<Rightarrow> bool" where
  "identifierPattern s \<longleftrightarrow> s \<noteq> [] \<and> ident_start (hd s) \<and> list_all (\<lambda>c. ident_start c \<or> is_digit c) (tl s)"

definition httpMethodPattern :: "string \<Rightarrow> bool" where
  "httpMethodPattern s \<longleftrightarrow> s \<noteq> [] \<and>
     list_all (\<lambda>c. is_upper c \<or> is_digit c \<or> c \<in> set (''!#$%&*+-.^_`|~'' @ [CHR 0x27])) s"

lemma identifier_nonempty [simp]: "identifierPattern [] = False"
  by (simp add: identifierPattern_def)

text \<open>
  strings.ToUpper on ASCII, and on the two other code points whose upper case is ASCII (U+0131 and
  U+017F). Every other code point keeps a byte from 128 on, which is all a method check sees of it.
\<close>

fun to_upper :: "string \<Rightarrow> string" where
  "to_upper [] = []"
| "to_upper (c # d # cs) =
     (if c = CHR 0xC4 \<and> d = CHR 0xB1 then CHR ''I'' # to_upper cs
      else if c = CHR 0xC5 \<and> d = CHR 0xBF then CHR ''S'' # to_upper cs
      else (if is_lower c then char_of ((of_char c :: nat) - 32) else c) # to_upper (d # cs))"
| "to_upper [c] = [if is_lower c then char_of ((of_char c :: nat) - 32) else c]"

subsection \<open>The declaration struct\<close>

text \<open>workflow/action_source.go, ActionSource.Empty\<close>

definition ActionSource_Empty :: "action_source \<Rightarrow> bool" where
  "ActionSource_Empty u \<longleftrightarrow>
     src_url u = [] \<and> src_path u = [] \<and> src_github u = [] \<and> src_plugin u = [] \<and> src_command u = []"

text \<open>The fields of \<^verbatim>\<open>Step\<close> that hold no steps.\<close>

record decl_fields =
  f_quiet :: "bool option"
  f_id :: string
  f_needs :: "string list"
  f_after :: "string list"
  f_type :: string
  f_uses :: action_source
  f_require :: "string option"
  f_env :: "env_operation list option"
  f_working_directory :: string
  f_executor :: "(string \<times> vmap) option"
  f_return :: "return_control option"
  f_sha256 :: string
  f_if :: string
  f_with :: "vmap option"
  f_location :: location
  f_has_working_dir :: bool
  f_has_env :: bool
  f_has_needs :: bool
  f_has_after :: bool

text \<open>The whole struct: a group is the record of its limits with its steps; \<open>d_try\<close> and
  \<open>d_catch\<close> are the pointers to the two blocks, \<open>d_cancel_on\<close> has the monitors first.\<close>

datatype decl = Decl
  (d_fields: decl_fields)
  (d_worktree: "(worktree_group \<times> decl list) option")
  (d_steps: "decl list option")
  (d_finally: "decl list option")
  (d_defer: "decl list option")
  (d_concurrent: "(concurrent_group \<times> decl list) option")
  (d_batch: "(string \<times> batch_size \<times> fan_policy \<times> decl list) option")
  (d_foreach: "(string \<times> fan_policy \<times> decl list) option")
  (d_matrix: "(matrix_axis list \<times> fan_policy \<times> decl list) option")
  (d_loop: "(loop_group \<times> decl list) option")
  (d_once: "(once_group \<times> decl list) option")
  (d_attempt: "(attempt_control \<times> decl list) option")
  (d_cancel_on: "(string \<times> decl list \<times> decl list) option")
  (d_observe: "(observe_group \<times> decl list) option")
  (d_try: "decl list option")
  (d_catch: "decl list option")

abbreviation d_id :: "decl \<Rightarrow> string" where "d_id d \<equiv> f_id (d_fields d)"
abbreviation d_type :: "decl \<Rightarrow> string" where "d_type d \<equiv> f_type (d_fields d)"
abbreviation d_uses :: "decl \<Rightarrow> action_source" where "d_uses d \<equiv> f_uses (d_fields d)"
abbreviation d_require :: "decl \<Rightarrow> string option" where "d_require d \<equiv> f_require (d_fields d)"
abbreviation d_env :: "decl \<Rightarrow> env_operation list option" where "d_env d \<equiv> f_env (d_fields d)"
abbreviation d_executor :: "decl \<Rightarrow> (string \<times> vmap) option" where "d_executor d \<equiv> f_executor (d_fields d)"
abbreviation d_return :: "decl \<Rightarrow> return_control option" where "d_return d \<equiv> f_return (d_fields d)"
abbreviation d_sha256 :: "decl \<Rightarrow> string" where "d_sha256 d \<equiv> f_sha256 (d_fields d)"
abbreviation d_if :: "decl \<Rightarrow> string" where "d_if d \<equiv> f_if (d_fields d)"
abbreviation d_with :: "decl \<Rightarrow> vmap option" where "d_with d \<equiv> f_with (d_fields d)"
abbreviation d_location :: "decl \<Rightarrow> location" where "d_location d \<equiv> f_location (d_fields d)"

text \<open>An absent list ranges as the empty one.\<close>

definition steps_in :: "decl list option \<Rightarrow> decl list" where
  "steps_in x = (case x of None \<Rightarrow> [] | Some steps \<Rightarrow> steps)"

text \<open>The zero values of the struct and of its parts.\<close>

definition no_source :: action_source where
  "no_source = \<lparr>src_url = [], src_path = [], src_github = [], src_plugin = [], src_token = [],
     src_command = [], src_args = []\<rparr>"

definition zero_fields :: decl_fields where
  "zero_fields = \<lparr>f_quiet = None, f_id = [], f_needs = [], f_after = [], f_type = [], f_uses = no_source,
     f_require = None, f_env = None, f_working_directory = [], f_executor = None, f_return = None,
     f_sha256 = [], f_if = [], f_with = None, f_location = \<lparr>loc_source = [], loc_line = 0, loc_column = 0\<rparr>,
     f_has_working_dir = False, f_has_env = False, f_has_needs = False, f_has_after = False\<rparr>"

definition plain_decl :: "decl_fields \<Rightarrow> decl" where
  "plain_decl f = Decl f None None None None None None None None None None None None None None None"

subsection \<open>Predicates on the struct\<close>

definition IsTryCatch :: "decl \<Rightarrow> bool" where
  "IsTryCatch d \<longleftrightarrow> d_try d \<noteq> None \<or> d_catch d \<noteq> None"

definition IsEnvironmentBlock :: "decl \<Rightarrow> bool" where
  "IsEnvironmentBlock d \<longleftrightarrow> f_has_env (d_fields d) \<or> d_env d \<noteq> None"

definition IsWorkingDirectoryBlock :: "decl \<Rightarrow> bool" where
  "IsWorkingDirectoryBlock d \<longleftrightarrow> f_has_working_dir (d_fields d) \<or> f_working_directory (d_fields d) \<noteq> []"

definition IsExecutorBlock :: "decl \<Rightarrow> bool" where
  "IsExecutorBlock d \<longleftrightarrow> d_executor d \<noteq> None"

definition IsConditionalBlock :: "decl \<Rightarrow> bool" where
  "IsConditionalBlock d \<longleftrightarrow> d_steps d \<noteq> None \<and> d_loop d = None \<and> d_cancel_on d = None \<and> \<not> IsTryCatch d
     \<and> \<not> IsEnvironmentBlock d \<and> \<not> IsWorkingDirectoryBlock d \<and> \<not> IsExecutorBlock d \<and> d_return d = None"

subsection \<open>Child sequences\<close>

definition with_defer :: "decl \<Rightarrow> (child_role \<times> decl list) list \<Rightarrow> (child_role \<times> decl list) list" where
  "with_defer d children = (case d_defer d of Some steps \<Rightarrow> children @ [(ChildDefer, steps)] | None \<Rightarrow> children)"

fun first_some :: "'a option list \<Rightarrow> 'a option" where
  "first_some [] = None"
| "first_some (x # xs) = (case x of Some v \<Rightarrow> Some v | None \<Rightarrow> first_some xs)"

text \<open>The single bodies in the order of the switch.\<close>

definition single_body :: "decl \<Rightarrow> decl list option" where
  "single_body d = first_some
     [map_option snd (d_worktree d),
      if IsEnvironmentBlock d \<or> IsWorkingDirectoryBlock d \<or> IsConditionalBlock d then Some (steps_in (d_steps d)) else None,
      map_option snd (d_concurrent d),
      map_option (\<lambda>(_, _, _, steps). steps) (d_batch d),
      map_option (\<lambda>(_, _, steps). steps) (d_foreach d),
      map_option (\<lambda>(_, _, steps). steps) (d_matrix d),
      map_option snd (d_loop d),
      map_option snd (d_attempt d),
      map_option snd (d_once d)]"

definition childSequenceRefs :: "decl \<Rightarrow> (child_role \<times> decl list) list" where
  "childSequenceRefs d =
     (if IsTryCatch d then
        (case d_try d of Some steps \<Rightarrow> [(ChildTry, steps)] | None \<Rightarrow> []) @
        (case d_catch d of Some steps \<Rightarrow> [(ChildCatch, steps)] | None \<Rightarrow> [])
      else if IsExecutorBlock d then
        with_defer d [(ChildSteps, steps_in (d_steps d)), (ChildFinally, steps_in (d_finally d))]
      else case single_body d of Some steps \<Rightarrow> with_defer d [(ChildSteps, steps)]
      | None \<Rightarrow> (case d_observe d of Some (_, steps) \<Rightarrow> [(ChildSteps, steps)]
        | None \<Rightarrow> (case d_cancel_on d of
            Some (_, monitors, steps) \<Rightarrow> [(ChildMonitors, monitors), (ChildSteps, steps)]
          | None \<Rightarrow> with_defer d [])))"

abbreviation weight :: "decl list \<Rightarrow> nat" where "weight \<equiv> size_list size"

definition seqs_weight :: "(child_role \<times> decl list) list \<Rightarrow> nat" where
  "seqs_weight seqs = sum_list (map (\<lambda>s. Suc (weight (snd s))) seqs)"

lemma seqs_weight_simps [simp]:
  "seqs_weight [] = 0" "seqs_weight (s # seqs) = Suc (weight (snd s)) + seqs_weight seqs"
  "seqs_weight (xs @ ys) = seqs_weight xs + seqs_weight ys"
  by (simp_all add: seqs_weight_def)

lemma with_defer_weight:
  "seqs_weight (with_defer d children) \<le> seqs_weight children + size_option (size_list size) (d_defer d)"
  by (simp add: with_defer_def split: option.splits)

lemma single_body_weight:
  "single_body d = Some steps \<Longrightarrow> Suc (weight steps) + size_option (size_list size) (d_defer d) < size d"
  by (cases d) (auto simp: single_body_def steps_in_def IsConditionalBlock_def split: option.splits if_splits)

lemma child_weight: "seqs_weight (childSequenceRefs d) < size d"
proof -
  let ?def = "size_option (size_list size) (d_defer d)"
  have dfr: "seqs_weight (with_defer d children) \<le> seqs_weight children + ?def" for children
    by (rule with_defer_weight)
  consider (rescue) "IsTryCatch d" | (executor) "\<not> IsTryCatch d" "IsExecutorBlock d"
    | (single) steps where "\<not> IsTryCatch d" "\<not> IsExecutorBlock d" "single_body d = Some steps"
    | (other) "\<not> IsTryCatch d" "\<not> IsExecutorBlock d" "single_body d = None" by fastforce
  then show ?thesis
  proof cases
    case rescue
    then show ?thesis by (cases d) (auto simp: childSequenceRefs_def split: option.splits)
  next
    case executor
    then have "childSequenceRefs d =
        with_defer d [(ChildSteps, steps_in (d_steps d)), (ChildFinally, steps_in (d_finally d))]"
      by (simp add: childSequenceRefs_def)
    moreover have "Suc (weight (steps_in (d_steps d))) + Suc (weight (steps_in (d_finally d))) + ?def < size d"
      by (cases d) (simp add: steps_in_def split: option.splits)
    ultimately show ?thesis
      using dfr [of "[(ChildSteps, steps_in (d_steps d)), (ChildFinally, steps_in (d_finally d))]"] by simp
  next
    case single
    then have "childSequenceRefs d = with_defer d [(ChildSteps, steps)]" by (simp add: childSequenceRefs_def)
    then show ?thesis using single_body_weight [OF single(3)] dfr [of "[(ChildSteps, steps)]"] by simp
  next
    case other
    have "?def < size d" by (cases d) simp
    then have "seqs_weight (with_defer d []) < size d" using dfr [of "[]"] by simp
    then show ?thesis using other
      by (cases d) (auto simp: childSequenceRefs_def split: option.splits)
  qed
qed

lemma seqs_weight_mem: "(role, child) \<in> set seqs \<Longrightarrow> weight child < seqs_weight seqs"
  by (induction seqs) auto

lemma child_sequence_weight [termination_simp]:
  "(role, child) \<in> set (childSequenceRefs d) \<Longrightarrow> weight child < size d"
  using seqs_weight_mem child_weight less_trans by blast

lemma weight_mem: "d \<in> set steps \<Longrightarrow> size d < Suc (weight steps)"
  by (induction steps) auto

subsection \<open>Validation of the groups\<close>

text \<open>workflow/types.go, WorktreeGroup.Validate\<close>

definition WorktreeGroup_Validate :: "worktree_group \<Rightarrow> decl list \<Rightarrow> verr option" where
  "WorktreeGroup_Validate g steps = first_error
     [fail_if (blank (wt_revision g)) ''worktree revision must be a non-empty expression string'',
      fail_if (blank (wt_path g)) ''worktree path must be auto or a non-empty path'',
      fail_if (steps = []) ''worktree block must contain at least one step'',
      fail_if (case wt_publish_branch g of Some b \<Rightarrow> blank b | None \<Rightarrow> False)
        ''worktree publish branch must be a non-empty expression string'']"

text \<open>workflow/control.go, validateFanoutPolicy and the Validate methods that use it\<close>

definition validateFanoutPolicy :: "string \<Rightarrow> nat \<Rightarrow> int \<Rightarrow> int \<Rightarrow> int option \<Rightarrow> verr option" where
  "validateFanoutPolicy kind childCount maxConcurrency maxIterations timeout = first_error
     [fail_if (childCount = 0) (kind @ '' group must contain at least one step''),
      fail_if (maxConcurrency < 1 \<or> maxConcurrency > 100) (kind @ '' max_concurrency must be between 1 and 100''),
      (let m = (if maxIterations = 0 then int DefaultMaxIterations else maxIterations) in
       fail_if (m < 1 \<or> m > int MaxIterations)
         (kind @ '' max_iterations must be between 1 and '' @ nat_text MaxIterations)),
      fail_if (case timeout of Some t \<Rightarrow> t \<le> 0 | None \<Rightarrow> False) (kind @ '' timeout must be greater than zero'')]"

definition fan_validate :: "string \<Rightarrow> fan_policy \<Rightarrow> decl list \<Rightarrow> verr option" where
  "fan_validate kind g steps =
     validateFanoutPolicy kind (length steps) (fan_max_concurrency g) (fan_max_iterations g) (fan_timeout g)"

definition ForeachGroup_Validate :: "string \<Rightarrow> fan_policy \<Rightarrow> decl list \<Rightarrow> verr option" where
  "ForeachGroup_Validate items g steps = first_error
     [fail_if (blank items) ''foreach items must be a non-empty expression'', fan_validate ''foreach'' g steps]"

definition BatchGroup_Validate :: "string \<Rightarrow> batch_size \<Rightarrow> fan_policy \<Rightarrow> decl list \<Rightarrow> verr option" where
  "BatchGroup_Validate items sz g steps = first_error
     [fail_if (blank items) ''batch items must be a non-empty expression'',
      fail_if (size_literal sz < 0) ''batch size must be a positive integer or expression string'',
      fail_if (size_literal sz > 0 \<and> \<not> blank (size_expression sz))
        ''batch size must set exactly one of literal or expression'',
      fail_if (size_literal sz = 0 \<and> blank (size_expression sz)) ''batch size is required'',
      fan_validate ''batch'' g steps]"

definition MatrixGroup_Validate :: "matrix_axis list \<Rightarrow> fan_policy \<Rightarrow> decl list \<Rightarrow> verr option" where
  "MatrixGroup_Validate axes g steps = first_error
     [fail_if (axes = []) ''matrix requires at least one axis'', fan_validate ''matrix'' g steps]"

definition LoopGroup_Validate :: "loop_group \<Rightarrow> decl list \<Rightarrow> verr option" where
  "LoopGroup_Validate g steps = first_error
     [fail_if (blank (loop_until g)) ''loop until must be a non-empty expression'',
      fail_if (steps = []) ''loop must contain at least one step'',
      fail_if (loop_max_iterations g < 1 \<or> loop_max_iterations g > int MaxIterations)
        (''loop max_iterations must be between 1 and '' @ nat_text MaxIterations),
      fail_if (case loop_timeout g of Some t \<Rightarrow> t \<le> 0 | None \<Rightarrow> False) ''loop timeout must be greater than zero'']"

text \<open>workflow/once.go\<close>

definition OnceGroup_Validate :: "once_group \<Rightarrow> decl list \<Rightarrow> verr option" where
  "OnceGroup_Validate g steps = first_error
     [fail_if (blank (once_key g)) ''once key is required'',
      fail_if (once_scope g \<notin> {''local'', ''global''})
        (''once scope must be '' @ go_quote ''local'' @ '' or '' @ go_quote ''global''),
      fail_if (once_on_busy g \<notin> {''error'', ''wait''})
        (''once on_busy must be '' @ go_quote ''error'' @ '' or '' @ go_quote ''wait''),
      fail_if (steps = []) ''once must contain at least one step'']"

text \<open>workflow/observe.go\<close>

definition EffectiveDebounce :: "observe_group \<Rightarrow> int" where
  "EffectiveDebounce g = (if \<not> obs_has_debounce g \<and> obs_debounce g = 0 then 300000000 else obs_debounce g)"

definition EffectiveOnChange :: "observe_group \<Rightarrow> string" where
  "EffectiveOnChange g = (if obs_on_change g = [] then ''restart'' else obs_on_change g)"

definition EffectiveOnError :: "observe_group \<Rightarrow> string" where
  "EffectiveOnError g = (if obs_on_error g = [] then ''fail'' else obs_on_error g)"

definition ObserveGroup_Validate :: "observe_group \<Rightarrow> decl list \<Rightarrow> verr option" where
  "ObserveGroup_Validate g steps = first_error
     [fail_if (obs_source_type g = [] \<or> \<not> identifierPattern (obs_source_type g))
        ''observe source requires a valid type'',
      fail_if (steps = []) ''observe must contain at least one step'',
      fail_if (EffectiveDebounce g < 0) ''observe debounce must not be negative'',
      fail_if (EffectiveOnChange g \<notin> {''restart'', ''queue'', ''skip''})
        ''observe on_change must be restart, queue, or skip'',
      fail_if (EffectiveOnError g \<notin> {''fail'', ''continue''}) ''observe on_error must be fail or continue'']"

text \<open>workflow/cancel_on.go\<close>

definition maxCancelOnMonitors :: nat where
  "maxCancelOnMonitors = 100"

fun check_monitors :: "nat \<Rightarrow> string fset \<Rightarrow> decl list \<Rightarrow> verr option" where
  "check_monitors index seen [] = None"
| "check_monitors index seen (m # ms) = first_error
     [fail_if (\<not> identifierPattern (d_id m)) (''cancel_on monitor '' @ nat_text (index + 1) @ '' requires a valid id''),
      fail_if (d_id m |\<in>| seen) (''duplicate cancel_on monitor id '' @ go_quote (d_id m)),
      check_monitors (Suc index) (finsert (d_id m) seen) ms]"

definition CancelOnGroup_Validate :: "string \<Rightarrow> decl list \<Rightarrow> decl list \<Rightarrow> verr option" where
  "CancelOnGroup_Validate collect monitors steps = first_error
     [fail_if (monitors = []) ''cancel_on must contain at least one monitor'',
      fail_if (length monitors > maxCancelOnMonitors)
        (''cancel_on supports at most '' @ nat_text maxCancelOnMonitors @ '' monitors''),
      fail_if (steps = []) ''cancel_on must contain at least one body step'',
      fail_if (collect \<noteq> [] \<and> blank collect) ''cancel_on collect must be a non-empty expression'',
      check_monitors 0 {||} monitors]"

definition cancelOnMonitorDeclaration :: "decl \<Rightarrow> decl" where
  "cancelOnMonitorDeclaration d =
     (if IsExecutorBlock d \<or> IsEnvironmentBlock d \<or> IsWorkingDirectoryBlock d \<or> IsConditionalBlock d
         \<or> d_concurrent d \<noteq> None
      then (case d of Decl f w s fi de c b fo m l on at ca ob t ct \<Rightarrow>
              Decl (f\<lparr>f_id := []\<rparr>) w s fi de c b fo m l on at ca ob t ct)
      else d)"

lemma cancelOnMonitorDeclaration_size [simp]: "size (cancelOnMonitorDeclaration d) = size d"
  by (cases d) (simp add: cancelOnMonitorDeclaration_def)

text \<open>workflow/try_catch.go\<close>

definition validateTryCatchDeclaration :: "decl \<Rightarrow> verr option" where
  "validateTryCatchDeclaration d = first_error
     [fail_if (d_try d = None \<or> d_catch d = None) ''try and catch must be declared together'',
      fail_if (d_try d = Some []) ''try must contain at least one step'',
      fail_if (d_catch d = Some []) ''catch must contain at least one step'']"

text \<open>workflow/return.go\<close>

definition ReturnControl_Validate :: "return_control \<Rightarrow> verr option" where
  "ReturnControl_Validate r = first_error
     [fail_if (ret_to r \<notin> {[], ''picker''})
        (''unsupported return destination '' @ go_quote (ret_to r) @ '' (want picker)''),
      fail_if (ret_outputs r = None) ''return outputs are required'',
      (case ret_outputs r of None \<Rightarrow> None | Some outs \<Rightarrow> first_error (map (\<lambda>name. first_error
         [fail_if (\<not> identifierPattern name) (''invalid return output name '' @ go_quote name),
          fail_if (case fmlookup outs name of Some e \<Rightarrow> blank e | None \<Rightarrow> True)
            (''return output '' @ go_quote name @ '' must be a non-empty expression'')])
         (sorted_keys outs)))]"

text \<open>workflow/output.go, WorkflowOutput.Validate and the contract of early returns\<close>

record workflow_output =
  out_type :: string
  out_value :: string

definition SupportedOutputType :: "string \<Rightarrow> bool" where
  "SupportedOutputType kind \<longleftrightarrow> kind \<in> {''string'', ''boolean'', ''number'', ''array'', ''object''}"

definition WorkflowOutput_Validate :: "string \<Rightarrow> workflow_output \<Rightarrow> verr option" where
  "WorkflowOutput_Validate name out = first_error
     [fail_if (\<not> identifierPattern name) (''invalid output name '' @ go_quote name),
      fail_if (\<not> SupportedOutputType (out_type out))
        (''output '' @ go_quote name @ '' has unsupported type '' @ go_quote (out_type out)),
      fail_if (blank (out_value out)) (''output '' @ go_quote name @ '' value is required'')]"

subsection \<open>Environment declarations\<close>

text \<open>
  path.Match reports a malformed pattern independently of the name: it splits the pattern at the
  stars outside brackets (\<open>scan_chunk\<close>) and checks every chunk. On UTF-8 the bytes of one code point
  pass the checks of a class together or not at all, so the check is on bytes.
\<close>

definition next_inrange :: "char \<Rightarrow> bool \<Rightarrow> bool" where
  "next_inrange c inrange = (if c = CHR ''['' then True else if c = CHR '']'' then False else inrange)"

fun scan_chunk :: "bool \<Rightarrow> string \<Rightarrow> string \<times> string" where
  "scan_chunk inrange [] = ([], [])"
| "scan_chunk inrange [c] = (if c = CHR ''*'' \<and> \<not> inrange then ([], [c]) else ([c], []))"
| "scan_chunk inrange (c # d # cs) =
     (if c = CHR 0x5C then apfst (\<lambda>a. c # d # a) (scan_chunk inrange cs)
      else if c = CHR ''*'' \<and> \<not> inrange then ([], c # d # cs)
      else apfst ((#) c) (scan_chunk (next_inrange c inrange) (d # cs)))"

lemma scan_chunk_append: "fst (scan_chunk b s) @ snd (scan_chunk b s) = s"
proof (induction b s rule: scan_chunk.induct)
  case (3 b c d cs)
  then show ?case by (cases "c = CHR 0x5C"; cases "c = CHR ''*'' \<and> \<not> b") simp_all
qed simp_all

fun get_esc :: "string \<Rightarrow> string option" where
  "get_esc [] = None"
| "get_esc (c # cs) =
     (if c = CHR ''-'' \<or> c = CHR '']'' then None
      else let rest = (if c = CHR 0x5C then tl cs else cs) in
        if (c = CHR 0x5C \<and> cs = []) \<or> rest = [] then None else Some rest)"

lemma get_esc_length: "get_esc s = Some r \<Longrightarrow> length r < length s"
  by (cases s) (auto simp: Let_def split: if_splits)

text \<open>One range of a character class, and the rest of the class up to its bracket.\<close>

definition class_range :: "string \<Rightarrow> string option" where
  "class_range s = (case get_esc s of None \<Rightarrow> None
     | Some r \<Rightarrow> if hd r = CHR ''-'' then get_esc (tl r) else Some r)"

lemma class_range_length [termination_simp]: "class_range s = Some r \<Longrightarrow> length r < length s"
  by (auto simp: class_range_def split: option.splits if_splits dest!: get_esc_length)

fun class_rest :: "nat \<Rightarrow> string \<Rightarrow> string option" where
  "class_rest nrange s =
     (if s \<noteq> [] \<and> hd s = CHR '']'' \<and> nrange > 0 then Some (tl s)
      else case class_range s of None \<Rightarrow> None | Some r \<Rightarrow> class_rest (Suc nrange) r)"

declare class_rest.simps [simp del]

lemma class_rest_length: "class_rest n s = Some r \<Longrightarrow> length r \<le> length s"
proof (induction n s rule: class_rest.induct)
  case (1 n s)
  show ?case
  proof (cases "s \<noteq> [] \<and> hd s = CHR '']'' \<and> n > 0")
    case True
    then have "r = tl s" using "1.prems" by (simp add: class_rest.simps [of n s])
    then show ?thesis by simp
  next
    case False
    then obtain u where u: "class_range s = Some u" "class_rest (Suc n) u = Some r"
      using "1.prems" by (subst (asm) class_rest.simps) (auto split: option.splits if_splits)
    then show ?thesis using "1.IH" [OF False u(1) u(2)] class_range_length [OF u(1)] by simp
  qed
qed

function (sequential) chunk_ok :: "string \<Rightarrow> bool" where
  "chunk_ok [] = True"
| "chunk_ok (c # cs) =
     (if c = CHR ''['' then
        (case class_rest 0 (if cs \<noteq> [] \<and> hd cs = CHR ''^'' then tl cs else cs) of
           None \<Rightarrow> False | Some r \<Rightarrow> chunk_ok r)
      else if c = CHR 0x5C then cs \<noteq> [] \<and> chunk_ok (tl cs)
      else chunk_ok cs)"
  by pat_completeness auto
termination
proof (relation "measure length")
  fix c :: char and cs r
  assume "class_rest 0 (if cs \<noteq> [] \<and> hd cs = CHR ''^'' then tl cs else cs) = Some r"
  then have "length r \<le> length (if cs \<noteq> [] \<and> hd cs = CHR ''^'' then tl cs else cs)" by (rule class_rest_length)
  then have "length r \<le> length cs" by (simp split: if_splits)
  then show "(r, c # cs) \<in> measure length" by simp
qed auto

function (sequential) pattern_ok :: "string \<Rightarrow> bool" where
  "pattern_ok [] = True"
| "pattern_ok (c # cs) =
     (let body = dropWhile (\<lambda>c. c = CHR ''*'') (c # cs); parts = scan_chunk False body
      in if fst parts = [] then True
         else if \<not> chunk_ok (fst parts) then False
         else pattern_ok (snd parts))"
  by pat_completeness auto
termination
proof (relation "measure length")
  fix c cs body and parts :: "string \<times> string"
  assume body: "body = dropWhile (\<lambda>c. c = CHR ''*'') (c # cs)" and parts: "parts = scan_chunk False body"
    and more: "fst parts \<noteq> []"
  have "length (fst parts) + length (snd parts) = length body"
    using arg_cong [OF scan_chunk_append [of False body], of length] by (simp add: parts)
  moreover have "length body \<le> length (c # cs)" unfolding body by (rule length_dropWhile_le)
  moreover have "0 < length (fst parts)" using more by simp
  ultimately show "(snd parts, c # cs) \<in> measure length" by (simp only: in_measure)
qed simp

definition ValidateEnvironmentPattern :: "string \<Rightarrow> verr option" where
  "ValidateEnvironmentPattern pattern = first_error
     [fail_if (pattern = []) ''unset pattern must not be empty'',
      fail_if (\<not> pattern_ok pattern) ''unset pattern is malformed: syntax error in pattern'']"

fun contains_open :: "string \<Rightarrow> bool" where
  "contains_open (c # d # cs) = (c = CHR ''{'' \<and> d = CHR ''{'' \<or> contains_open (d # cs))"
| "contains_open _ = False"

definition indexed :: "'a list \<Rightarrow> (nat \<times> 'a) list" where
  "indexed xs = zip [0..<length xs] xs"

definition validate_set :: "(string, env_value) fmap \<Rightarrow> verr option" where
  "validate_set m = first_error
     (fail_if (m = fmempty) ''env set must contain at least one variable'' #
      map (\<lambda>name. first_error
        [fail_if (\<not> identifierPattern name) (''invalid environment name '' @ go_quote name),
         fail_if (case fmlookup m name of None \<Rightarrow> False | Some v \<Rightarrow>
             env_expression v \<noteq> [] \<and> (blank (env_expression v) \<or> env_literal v \<noteq> None))
           (''env '' @ go_quote name @ '' must contain a literal or a non-empty expression'')]) (sorted_keys m))"

definition validate_unset :: "nat \<Rightarrow> env_unset \<Rightarrow> verr option" where
  "validate_unset i u =
     (if unset_expression u \<noteq> []
      then fail_if (blank (unset_expression u) \<or> unset_patterns u \<noteq> None)
             ''unset must contain patterns or a non-empty expression''
      else let patterns = (case unset_patterns u of None \<Rightarrow> [] | Some ps \<Rightarrow> ps) in
        first_error (fail_if (patterns = []) ''unset must contain at least one pattern'' #
          map (\<lambda>(index, pattern). if contains_open pattern then None else
             within_error (''env operation '' @ nat_text (i + 1) @ '' unset item '' @ nat_text (index + 1))
               (ValidateEnvironmentPattern pattern)) (indexed patterns)))"

definition ScopedEnvironment_Validate :: "env_operation list \<Rightarrow> verr option" where
  "ScopedEnvironment_Validate ops = first_error
     (fail_if (ops = []) ''env block must contain at least one variable or operation'' #
      map (\<lambda>(i, operation). first_error
        [fail_if ((op_set operation = None) = (op_unset operation = None))
           (''env operation '' @ nat_text (i + 1) @ '' must contain exactly one of set or unset''),
         (case op_set operation of Some m \<Rightarrow> validate_set m
          | None \<Rightarrow> (case op_unset operation of Some u \<Rightarrow> validate_unset i u | None \<Rightarrow> None))])
        (indexed ops))"

subsection \<open>Blocks\<close>

definition ordinary_fields :: "decl \<Rightarrow> bool" where
  "ordinary_fields d \<longleftrightarrow> d_type d \<noteq> [] \<or> \<not> ActionSource_Empty (d_uses d) \<or> d_require d \<noteq> None"

text \<open>workflow/types.go, validateBlock; \<open>ordinary_fields\<close> is the common prefix of its conditions.\<close>

definition validateBlock :: "decl \<Rightarrow> verr option" where
  "validateBlock d =
     (if d_worktree d \<noteq> None then first_error
        [(case d_worktree d of Some (g, steps) \<Rightarrow> WorktreeGroup_Validate g steps | None \<Rightarrow> None),
         fail_if (ordinary_fields d \<or> IsEnvironmentBlock d \<or> IsWorkingDirectoryBlock d \<or> d_steps d \<noteq> None
           \<or> d_executor d \<noteq> None \<or> d_finally d \<noteq> None \<or> d_defer d \<noteq> None \<or> IsConditionalBlock d
           \<or> d_concurrent d \<noteq> None \<or> d_batch d \<noteq> None \<or> d_foreach d \<noteq> None \<or> d_matrix d \<noteq> None
           \<or> d_loop d \<noteq> None \<or> d_once d \<noteq> None \<or> d_observe d \<noteq> None \<or> d_return d \<noteq> None
           \<or> d_sha256 d \<noteq> [] \<or> d_if d \<noteq> [] \<or> d_attempt d \<noteq> None \<or> d_with d \<noteq> None)
           ''worktree block cannot be combined with other step fields'']
      else if IsEnvironmentBlock d then first_error
        [ScopedEnvironment_Validate (case d_env d of Some ops \<Rightarrow> ops | None \<Rightarrow> []),
         fail_if (d_id d \<noteq> [] \<or> ordinary_fields d \<or> d_worktree d \<noteq> None \<or> d_executor d \<noteq> None
           \<or> d_finally d \<noteq> None \<or> d_defer d \<noteq> None \<or> IsWorkingDirectoryBlock d
           \<or> d_concurrent d \<noteq> None \<or> d_batch d \<noteq> None \<or> d_foreach d \<noteq> None \<or> d_matrix d \<noteq> None
           \<or> d_loop d \<noteq> None \<or> d_once d \<noteq> None \<or> d_observe d \<noteq> None \<or> d_return d \<noteq> None
           \<or> d_sha256 d \<noteq> [] \<or> d_if d \<noteq> [] \<or> d_attempt d \<noteq> None \<or> d_with d \<noteq> None)
           ''env block cannot be combined with other step fields'',
         fail_if (steps_in (d_steps d) = []) ''env block must contain at least one step'']
      else if IsWorkingDirectoryBlock d then first_error
        [fail_if (blank (f_working_directory (d_fields d))) ''working_directory must be a non-empty path'',
         fail_if (steps_in (d_steps d) = []) ''working_directory block must contain at least one step'',
         fail_if (d_id d \<noteq> [] \<or> ordinary_fields d \<or> d_env d \<noteq> None \<or> d_worktree d \<noteq> None
           \<or> d_executor d \<noteq> None \<or> d_finally d \<noteq> None \<or> d_defer d \<noteq> None
           \<or> d_concurrent d \<noteq> None \<or> d_batch d \<noteq> None \<or> d_foreach d \<noteq> None \<or> d_matrix d \<noteq> None
           \<or> d_loop d \<noteq> None \<or> d_once d \<noteq> None \<or> d_observe d \<noteq> None \<or> d_return d \<noteq> None
           \<or> d_sha256 d \<noteq> [] \<or> d_if d \<noteq> [] \<or> d_attempt d \<noteq> None \<or> d_with d \<noteq> None)
           ''working_directory block cannot be combined with other step fields'']
      else if IsConditionalBlock d then first_error
        [fail_if (d_if d = [] \<and> f_quiet (d_fields d) = None) ''conditional block must set if'',
         fail_if (steps_in (d_steps d) = []) ''conditional block must contain at least one step'',
         fail_if (d_id d \<noteq> [] \<or> ordinary_fields d \<or> d_env d \<noteq> None \<or> d_worktree d \<noteq> None
           \<or> d_executor d \<noteq> None \<or> d_finally d \<noteq> None \<or> d_defer d \<noteq> None \<or> IsWorkingDirectoryBlock d
           \<or> d_concurrent d \<noteq> None \<or> d_batch d \<noteq> None \<or> d_foreach d \<noteq> None \<or> d_matrix d \<noteq> None
           \<or> d_loop d \<noteq> None \<or> d_once d \<noteq> None \<or> d_observe d \<noteq> None \<or> d_return d \<noteq> None
           \<or> d_sha256 d \<noteq> [] \<or> d_attempt d \<noteq> None \<or> d_with d \<noteq> None)
           ''conditional block cannot be combined with other step fields'']
      else None)"

end
