(* ===== verification/AttemptOptions.thy ===== *)
theory AttemptOptions
  imports Declarations
begin

text \<open>
  The options of an attempt control (workflow/attempt.go): the checks made on the declaration, the
  resolution of expressions into concrete values when execution reaches the control, and the
  numeric rules both share. \<open>parse_duration\<close> is time.ParseDuration; it computes a fraction exactly
  where Go uses a float64, which agree for fractions of at most nine digits.

  The main facts: a resolved attempt is within the documented bounds, and a declaration of literals
  that validates resolves to those literals without evaluating anything.
\<close>

subsection \<open>Durations\<close>

definition max_uint63 :: nat where
  "max_uint63 = 2 ^ 63"

definition digit_value :: "char \<Rightarrow> nat" where
  "digit_value c = of_char c - 48"

text \<open>leadingInt: the value of the leading digits, or an overflow.\<close>

fun leading_int :: "nat \<Rightarrow> string \<Rightarrow> (nat \<times> string) option" where
  "leading_int x [] = Some (x, [])"
| "leading_int x (c # cs) =
     (if \<not> is_digit c then Some (x, c # cs)
      else if x > max_uint63 div 10 \<or> x * 10 + digit_value c > max_uint63 then None
      else leading_int (x * 10 + digit_value c) cs)"

text \<open>leadingFraction: digits past an overflow are dropped and do not scale.\<close>

fun leading_fraction :: "nat \<Rightarrow> nat \<Rightarrow> bool \<Rightarrow> string \<Rightarrow> nat \<times> nat \<times> string" where
  "leading_fraction x scale overflow [] = (x, scale, [])"
| "leading_fraction x scale overflow (c # cs) =
     (if \<not> is_digit c then (x, scale, c # cs)
      else if overflow \<or> x > (max_uint63 - 1) div 10 \<or> x * 10 + digit_value c > max_uint63
      then leading_fraction x scale True cs
      else leading_fraction (x * 10 + digit_value c) (scale * 10) False cs)"

definition duration_unit :: "string \<Rightarrow> nat option" where
  "duration_unit u = map_of
     [(''ns'', 1), (''us'', 1000), ([CHR 0xC2, CHR 0xB5] @ ''s'', 1000), ([CHR 0xCE, CHR 0xBC] @ ''s'', 1000),
      (''ms'', 1000000), (''s'', 1000000000), (''m'', 60000000000), (''h'', 3600000000000)] u"

definition is_number_char :: "char \<Rightarrow> bool" where
  "is_number_char c \<longleftrightarrow> c = CHR ''.'' \<or> is_digit c"

text \<open>One component with its unit: the nanoseconds and the rest of the text.\<close>

definition duration_part :: "string \<Rightarrow> (nat \<times> string) option" where
  "duration_part s =
     (if \<not> is_number_char (hd s) then None
      else case leading_int 0 s of None \<Rightarrow> None
      | Some (v, s1) \<Rightarrow>
          let pre = length s1 \<noteq> length s;
              dot = s1 \<noteq> [] \<and> hd s1 = CHR ''.'';
              frac = (if dot then leading_fraction 0 1 False (tl s1) else (0, 1, s1));
              f = fst frac; scale = fst (snd frac); s2 = snd (snd frac);
              post = dot \<and> length s2 \<noteq> length (tl s1);
              u = takeWhile (\<lambda>c. \<not> is_number_char c) s2; rest = dropWhile (\<lambda>c. \<not> is_number_char c) s2
          in if \<not> pre \<and> \<not> post then None
             else if u = [] then None
             else case duration_unit u of None \<Rightarrow> None
             | Some unit \<Rightarrow>
                 if v > max_uint63 div unit then None
                 else let w = v * unit + f * unit div scale in
                   if f > 0 \<and> w > max_uint63 then None else Some (w, rest))"

text \<open>The loop over the components, with the length of the text as fuel: each component consumes
  at least its unit.\<close>

fun duration_parts :: "nat \<Rightarrow> nat \<Rightarrow> string \<Rightarrow> nat option" where
  "duration_parts fuel d [] = Some d"
| "duration_parts 0 d (c # cs) = None"
| "duration_parts (Suc fuel) d (c # cs) =
     (case duration_part (c # cs) of None \<Rightarrow> None
      | Some (v, rest) \<Rightarrow> if d + v > max_uint63 then None else duration_parts fuel (d + v) rest)"

definition parse_duration :: "string \<Rightarrow> int option" where
  "parse_duration orig =
     (let signed = orig \<noteq> [] \<and> (hd orig = CHR ''-'' \<or> hd orig = CHR ''+'');
          neg = orig \<noteq> [] \<and> hd orig = CHR ''-'';
          s = (if signed then tl orig else orig)
      in if s = ''0'' then Some 0
         else if s = [] then None
         else case duration_parts (length s) 0 s of None \<Rightarrow> None
         | Some d \<Rightarrow> if neg then Some (- int d) else if d > max_uint63 - 1 then None else Some (int d))"

subsection \<open>The declaration\<close>

definition IsDelay :: "attempt_control \<Rightarrow> bool" where
  "IsDelay c \<longleftrightarrow> att_has_duration c \<or> option_set (att_duration c)"

definition validateDelay :: "attempt_control \<Rightarrow> decl list \<Rightarrow> verr option" where
  "validateDelay c steps = first_error
     [fail_if (steps \<noteq> [] \<or> option_set (att_timeout c) \<or> option_set (att_max_attempts c)
        \<or> option_set (att_initial_delay c) \<or> option_set (att_backoff c) \<or> option_set (att_max_delay c)
        \<or> option_set (att_jitter c) \<or> att_until c \<noteq> [] \<or> option_set (att_interval c) \<or> att_when c \<noteq> []
        \<or> att_has_methods c \<or> att_has_statuses c \<or> att_methods c \<noteq> [] \<or> att_statuses c \<noteq> []
        \<or> option_set (att_max_elapsed c) \<or> att_operation_id c \<noteq> [])
        ''attempt duration cannot be combined with other attempt fields'',
      fail_if (opt_expression (att_duration c) = [] \<and> opt_literal (att_duration c) \<le> 0)
        ''attempt duration must be greater than zero'']"

text \<open>The loop over the methods: it returns what it stores back into the slice.\<close>

fun check_methods :: "string fset \<Rightarrow> string list \<Rightarrow> verr + string list" where
  "check_methods seen [] = Inr []"
| "check_methods seen (m # ms) =
     (let method = to_upper (trimSpace m) in
      if method = [] \<or> \<not> httpMethodPattern method
      then Inl (None, ''attempt method '' @ go_quote m @ '' is not a valid HTTP method'')
      else if method |\<in>| seen then Inl (None, ''attempt method '' @ go_quote method @ '' is duplicated'')
      else map_sum id ((#) method) (check_methods (finsert method seen) ms))"

definition range_text :: "status_range \<Rightarrow> string" where
  "range_text r = int_text (status_from r) @ ''-'' @ int_text (status_to r)"

definition ranges_overlap :: "status_range \<Rightarrow> status_range \<Rightarrow> bool" where
  "ranges_overlap a b \<longleftrightarrow> status_from a \<le> status_to b \<and> status_from b \<le> status_to a"

fun check_statuses :: "status_range list \<Rightarrow> status_range list \<Rightarrow> verr option" where
  "check_statuses previous [] = None"
| "check_statuses previous (r # rs) = first_error
     [fail_if (status_from r < 100 \<or> status_from r > 599 \<or> status_to r < 100 \<or> status_to r > 599
        \<or> status_from r > status_to r)
        (''attempt status range '' @ range_text r @ '' must be ascending and between 100 and 599''),
      first_error (map (\<lambda>p. fail_if (ranges_overlap r p)
        (''attempt status ranges '' @ range_text p @ '' and '' @ range_text r @ '' overlap'')) previous),
      check_statuses (previous @ [r]) rs]"

definition validateHTTPFilters :: "attempt_control \<Rightarrow> verr + string list" where
  "validateHTTPFilters c =
     (case first_error
        [fail_if (att_when c \<noteq> [] \<and> (att_has_methods c \<or> att_has_statuses c \<or> att_methods c \<noteq> []
           \<or> att_statuses c \<noteq> [])) ''attempt when cannot be combined with methods or statuses'',
         fail_if (att_has_methods c \<and> att_methods c = []) ''attempt methods must contain at least one HTTP method'',
         fail_if (att_has_statuses c \<and> att_statuses c = [])
           ''attempt statuses must contain at least one HTTP status or range'']
      of Some e \<Rightarrow> Inl e
      | None \<Rightarrow> (case check_methods {||} (att_methods c) of Inl e \<Rightarrow> Inl e
          | Inr methods \<Rightarrow> (case check_statuses [] (att_statuses c) of Some e \<Rightarrow> Inl e
              | None \<Rightarrow> Inr methods)))"

subsection \<open>Resolved options\<close>

record resolved_attempt =
  ra_duration :: int
  ra_timeout :: int
  ra_max_attempts :: int
  ra_initial_delay :: int
  ra_backoff :: go_float
  ra_max_delay :: int
  ra_jitter :: go_float
  ra_interval :: int
  ra_max_elapsed :: int
  ra_has_timeout :: bool

definition literalValues :: "attempt_control \<Rightarrow> resolved_attempt" where
  "literalValues c = \<lparr>ra_duration = opt_literal (att_duration c), ra_timeout = opt_literal (att_timeout c),
     ra_max_attempts = opt_literal (att_max_attempts c), ra_initial_delay = opt_literal (att_initial_delay c),
     ra_backoff = opt_literal (att_backoff c), ra_max_delay = opt_literal (att_max_delay c),
     ra_jitter = opt_literal (att_jitter c), ra_interval = opt_literal (att_interval c),
     ra_max_elapsed = opt_literal (att_max_elapsed c), ra_has_timeout = option_set (att_timeout c)\<rparr>"

text \<open>IsNaN or IsInf, and the comparisons of a float64 with a constant.\<close>

definition not_finite :: "go_float \<Rightarrow> bool" where
  "not_finite x \<longleftrightarrow> (case x of Finite _ \<Rightarrow> False | _ \<Rightarrow> True)"

definition float_below :: "go_float \<Rightarrow> rat \<Rightarrow> bool" where
  "float_below x r \<longleftrightarrow> (case x of Finite q \<Rightarrow> q < r | NegInf \<Rightarrow> True | _ \<Rightarrow> False)"

definition float_above :: "go_float \<Rightarrow> rat \<Rightarrow> bool" where
  "float_above x r \<longleftrightarrow> (case x of Finite q \<Rightarrow> q > r | PosInf \<Rightarrow> True | _ \<Rightarrow> False)"

definition ResolvedAttempt_validate :: "resolved_attempt \<Rightarrow> attempt_control \<Rightarrow> bool \<Rightarrow> verr option" where
  "ResolvedAttempt_validate r c resolved =
     (let known = (\<lambda>e :: string. resolved \<or> e = []) in
      if IsDelay c then fail_if (known (opt_expression (att_duration c)) \<and> ra_duration r \<le> 0)
        ''attempt duration must be greater than zero''
      else first_error
        [fail_if (known (opt_expression (att_timeout c)) \<and> ra_has_timeout r \<and> ra_timeout r \<le> 0)
           ''attempt timeout must be greater than zero'',
         fail_if (option_set (att_interval c) \<and> known (opt_expression (att_interval c)) \<and> ra_interval r \<le> 0)
           ''attempt interval must be greater than zero'',
         fail_if (known (opt_expression (att_max_attempts c)) \<and> (ra_max_attempts r < 1 \<or> ra_max_attempts r > 100))
           ''attempt max_attempts must be between 1 and 100'',
         fail_if (known (opt_expression (att_initial_delay c)) \<and> ra_initial_delay r < 0)
           ''attempt initial_delay cannot be negative'',
         fail_if (known (opt_expression (att_backoff c)) \<and> (not_finite (ra_backoff r) \<or> float_below (ra_backoff r) 1))
           ''attempt backoff_multiplier must be at least 1'',
         fail_if (known (opt_expression (att_max_delay c)) \<and> known (opt_expression (att_initial_delay c))
             \<and> ra_max_delay r < ra_initial_delay r)
           ''attempt max_delay cannot be less than initial_delay'',
         fail_if (known (opt_expression (att_jitter c)) \<and>
             (not_finite (ra_jitter r) \<or> float_below (ra_jitter r) 0 \<or> float_above (ra_jitter r) 1))
           ''attempt jitter must be between 0 and 1'',
         fail_if (att_until c \<noteq> [] \<and> known (opt_expression (att_max_elapsed c)) \<and> ra_max_elapsed r \<le> 0)
           ''attempt max_elapsed_time must be greater than zero when until is set'',
         fail_if (known (opt_expression (att_max_elapsed c)) \<and> ra_max_elapsed r < 0)
           ''attempt max_elapsed_time cannot be negative''])"

definition AttemptControl_Validate :: "attempt_control \<Rightarrow> decl list \<Rightarrow> verr option" where
  "AttemptControl_Validate c steps =
     (if IsDelay c then validateDelay c steps
      else first_error
        [fail_if (option_set (att_duration c)) ''attempt duration must be a duration such as 500ms or 2m'',
         fail_if (steps = []) ''attempt must contain at least one step'',
         fail_if (option_set (att_interval c) \<and> att_until c = []) ''attempt interval requires until'',
         fail_if (att_until c \<noteq> [] \<and> \<not> option_set (att_max_elapsed c)) ''attempt until requires max_elapsed_time'',
         fail_if (att_until c \<noteq> [] \<and> blank (att_until c)) ''attempt until must not be empty'',
         (case validateHTTPFilters c of Inl e \<Rightarrow> Some e | Inr _ \<Rightarrow> None),
         fail_if (att_operation_id c \<noteq> [] \<and> blank (att_operation_id c)) ''attempt operation_id cannot be blank'',
         fail_if (att_when c \<noteq> [] \<and> blank (att_when c)) ''attempt when must not be empty'',
         ResolvedAttempt_validate (literalValues c) c False])"

subsection \<open>Resolution\<close>

text \<open>Evaluating an expression is a parameter, and so is the text \<^verbatim>\<open>%v\<close> prints of a float.\<close>

type_synonym evaluator = "string \<Rightarrow> goerr + val"

definition want :: "string \<Rightarrow> string \<Rightarrow> string \<Rightarrow> goerr" where
  "want name got kind = Err (''attempt '' @ name @ '' expression returned '' @ got @ '', want '' @ kind)"

definition resolveDurationExpression :: "string \<Rightarrow> string \<Rightarrow> evaluator \<Rightarrow> goerr + int" where
  "resolveDurationExpression name expr evaluate =
     (case evaluate expr of
        Inl e \<Rightarrow> Inl (Wrapped (''evaluating attempt '' @ name) e)
      | Inr (VStr s) \<Rightarrow> (case parse_duration s of
            None \<Rightarrow> Inl (want name (go_quote s) ''a duration string'')
          | Some d \<Rightarrow> Inr d)
      | Inr (VDuration d) \<Rightarrow> Inr d
      | Inr v \<Rightarrow> Inl (want name (go_type v) ''a duration string''))"

definition resolveIntExpression :: "(rat \<Rightarrow> string) \<Rightarrow> string \<Rightarrow> string \<Rightarrow> evaluator \<Rightarrow> goerr + int" where
  "resolveIntExpression show_float name expr evaluate =
     (case evaluate expr of
        Inl e \<Rightarrow> Inl (Wrapped (''evaluating attempt '' @ name) e)
      | Inr (VInt i) \<Rightarrow> Inr i
      | Inr (VFloat q) \<Rightarrow> (if q \<noteq> of_int \<lfloor>q\<rfloor> then Inl (want name (show_float q) ''a whole number'') else Inr \<lfloor>q\<rfloor>)
      | Inr v \<Rightarrow> Inl (want name (go_type v) ''an integer''))"

definition resolveFloatExpression :: "string \<Rightarrow> string \<Rightarrow> evaluator \<Rightarrow> goerr + go_float" where
  "resolveFloatExpression name expr evaluate =
     (case evaluate expr of
        Inl e \<Rightarrow> Inl (Wrapped (''evaluating attempt '' @ name) e)
      | Inr (VFloat q) \<Rightarrow> Inr (Finite q)
      | Inr (VInt i) \<Rightarrow> Inr (Finite (of_int i))
      | Inr v \<Rightarrow> Inl (want name (go_type v) ''a number''))"

text \<open>One entry of the three loops of \<^verbatim>\<open>Resolve\<close>: an option without an expression keeps its literal.\<close>

definition resolve_entry :: "(string \<Rightarrow> goerr + 'a) \<Rightarrow> 'a attempt_option \<Rightarrow> ('a \<Rightarrow> resolved_attempt \<Rightarrow> resolved_attempt)
    \<Rightarrow> goerr + resolved_attempt \<Rightarrow> goerr + resolved_attempt" where
  "resolve_entry compute opt store acc = (case acc of
     Inl e \<Rightarrow> Inl e
   | Inr r \<Rightarrow> if opt_expression opt = [] then Inr r
       else map_sum id (\<lambda>v. store v r) (compute (opt_expression opt)))"

definition Resolve :: "(rat \<Rightarrow> string) \<Rightarrow> evaluator \<Rightarrow> attempt_control \<Rightarrow> goerr + resolved_attempt" where
  "Resolve show_float evaluate c =
     (let dur = (\<lambda>name opt store. resolve_entry (\<lambda>x. resolveDurationExpression name x evaluate) opt store);
          fac = (\<lambda>name opt store. resolve_entry (\<lambda>x. resolveFloatExpression name x evaluate) opt store);
          r0 = Inr (literalValues c);
          r1 = dur ''duration'' (att_duration c) (\<lambda>v r. r\<lparr>ra_duration := v\<rparr>) r0;
          r2 = dur ''timeout'' (att_timeout c) (\<lambda>v r. r\<lparr>ra_timeout := v, ra_has_timeout := True\<rparr>) r1;
          r3 = dur ''initial_delay'' (att_initial_delay c) (\<lambda>v r. r\<lparr>ra_initial_delay := v\<rparr>) r2;
          r4 = dur ''max_delay'' (att_max_delay c) (\<lambda>v r. r\<lparr>ra_max_delay := v\<rparr>) r3;
          r5 = dur ''interval'' (att_interval c) (\<lambda>v r. r\<lparr>ra_interval := v\<rparr>) r4;
          r6 = dur ''max_elapsed_time'' (att_max_elapsed c) (\<lambda>v r. r\<lparr>ra_max_elapsed := v\<rparr>) r5;
          r7 = resolve_entry (\<lambda>x. resolveIntExpression show_float ''max_attempts'' x evaluate) (att_max_attempts c)
                 (\<lambda>v r. r\<lparr>ra_max_attempts := v\<rparr>) r6;
          r8 = fac ''backoff_multiplier'' (att_backoff c) (\<lambda>v r. r\<lparr>ra_backoff := v\<rparr>) r7;
          r9 = fac ''jitter'' (att_jitter c) (\<lambda>v r. r\<lparr>ra_jitter := v\<rparr>) r8
      in case r9 of Inl e \<Rightarrow> Inl e
         | Inr r \<Rightarrow> (case ResolvedAttempt_validate r c True of
              Some (_, t) \<Rightarrow> Inl (Err t) | None \<Rightarrow> Inr r))"

subsection \<open>Properties\<close>

definition literal_options :: "attempt_control \<Rightarrow> bool" where
  "literal_options c \<longleftrightarrow> opt_expression (att_duration c) = [] \<and> opt_expression (att_timeout c) = []
     \<and> opt_expression (att_initial_delay c) = [] \<and> opt_expression (att_max_delay c) = []
     \<and> opt_expression (att_interval c) = [] \<and> opt_expression (att_max_elapsed c) = []
     \<and> opt_expression (att_max_attempts c) = [] \<and> opt_expression (att_backoff c) = []
     \<and> opt_expression (att_jitter c) = []"

lemma resolve_validated:
  "Resolve show_float evaluate c = Inr r \<Longrightarrow> ResolvedAttempt_validate r c True = None"
  by (auto simp: Resolve_def Let_def split: sum.splits option.splits prod.splits)

text \<open>C18: Bounds of a resolved attempt. Whatever its expressions return, an attempt that resolves
  makes between 1 and 100 attempts, waits a non-negative delay that the maximal delay bounds, backs
  off by a finite factor of at least 1, and jitters by a finite fraction of at most 1; a timeout, an
  interval and, with a readiness condition, the elapsed-time limit are positive. A fixed delay is
  positive.\<close>

theorem resolved_attempt_bounds:
  assumes "Resolve show_float evaluate c = Inr r"
  shows "if IsDelay c then 0 < ra_duration r
    else 1 \<le> ra_max_attempts r \<and> ra_max_attempts r \<le> 100
      \<and> 0 \<le> ra_initial_delay r \<and> ra_initial_delay r \<le> ra_max_delay r
      \<and> (\<exists>m \<ge> 1. ra_backoff r = Finite m) \<and> (\<exists>j \<ge> 0. j \<le> 1 \<and> ra_jitter r = Finite j)
      \<and> (ra_has_timeout r \<longrightarrow> 0 < ra_timeout r) \<and> (option_set (att_interval c) \<longrightarrow> 0 < ra_interval r)
      \<and> (if att_until c = [] then 0 \<le> ra_max_elapsed r else 0 < ra_max_elapsed r)"
  using resolve_validated [OF assms]
  by (auto simp: ResolvedAttempt_validate_def Let_def not_finite_def float_below_def float_above_def not_less not_le
      split: if_splits go_float.splits)

definition demo_option :: "'a \<Rightarrow> 'a attempt_option" where
  "demo_option v = \<lparr>opt_literal = v, opt_expression = [], opt_declared = False\<rparr>"

definition demo_attempt :: "string \<Rightarrow> attempt_control" where
  "demo_attempt attempts = \<lparr>att_duration = demo_option 0, att_timeout = demo_option 0,
     att_max_attempts = \<lparr>opt_literal = 3, opt_expression = attempts, opt_declared = True\<rparr>,
     att_initial_delay = demo_option 1000, att_backoff = demo_option (Finite 2),
     att_max_delay = demo_option 30000, att_jitter = demo_option (Finite 0), att_when = [],
     att_methods = [], att_statuses = [], att_until = [], att_interval = demo_option 0,
     att_max_elapsed = demo_option 0, att_operation_id = [], att_has_duration = False,
     att_has_methods = False, att_has_statuses = False\<rparr>"

lemmas demo_attempt_simps = demo_attempt_def demo_option_def Resolve_def resolve_entry_def literalValues_def
  ResolvedAttempt_validate_def IsDelay_def option_set_def fail_if_def first_error_Cons Let_def
  not_finite_def float_below_def float_above_def resolveIntExpression_def

theorem resolved_attempt_bounds_witness:
  "\<exists>r. Resolve (\<lambda>_. []) (\<lambda>_. Inr (VInt 5)) (demo_attempt ''vars.n'') = Inr r \<and>
     ra_max_attempts r = 5 \<and> ra_initial_delay r \<le> ra_max_delay r"
proof -
  obtain r where r: "Resolve (\<lambda>_. []) (\<lambda>_. Inr (VInt 5)) (demo_attempt ''vars.n'') = Inr r" "ra_max_attempts r = 5"
    by (simp add: demo_attempt_simps first_error_def)
  moreover have "\<not> IsDelay (demo_attempt ''vars.n'')" by (simp add: demo_attempt_simps)
  ultimately show ?thesis using resolved_attempt_bounds [OF r(1)] by simp
qed

text \<open>Literal attempts need no evaluation. A declaration whose options are all literals and that
  passes structure validation resolves, for any evaluator, to exactly its literals.\<close>

theorem literal_attempt_resolves:
  assumes "AttemptControl_Validate c steps = None" and "literal_options c"
  shows "Resolve show_float evaluate c = Inr (literalValues c)"
proof -
  have "ResolvedAttempt_validate (literalValues c) c True = None"
    using assms
    by (auto simp: AttemptControl_Validate_def validateDelay_def ResolvedAttempt_validate_def literal_options_def
        literalValues_def Let_def split: if_splits)
  then show ?thesis using assms(2) by (simp add: Resolve_def resolve_entry_def literal_options_def Let_def)
qed

theorem literal_attempt_resolves_witness:
  "Resolve (\<lambda>_. []) (\<lambda>_. Inl Canceled) (demo_attempt []) = Inr (literalValues (demo_attempt []))"
proof (rule literal_attempt_resolves)
  show "literal_options (demo_attempt [])" by (simp add: literal_options_def demo_attempt_simps)
  show "AttemptControl_Validate (demo_attempt []) [plain_decl zero_fields] = None"
    by (simp add: AttemptControl_Validate_def demo_attempt_simps validateHTTPFilters_def first_error_def)
qed

end
