(* ===== verification/StructureValidation.thy ===== *)
theory StructureValidation
  imports AttemptOptions
begin

text \<open>
  Structure validation of a workflow (workflow/structure_validation.go, with the entries of
  workflow/attempt.go, cancel_on.go, try_catch.go, return.go and output.go).

  The recursive walks that only look for something (\<^verbatim>\<open>containsObserve\<close>, \<^verbatim>\<open>onceContainsReturn\<close>, ...) are
  instances of one function, \<open>walk\<close>. \<^verbatim>\<open>validateSteps\<close> and its entries call each other in Go; here an
  entry takes the recursive call as its argument \<open>v\<close>, and \<open>validate_from\<close> ties the knot. Compiling
  an expression (control.ValidateExpression, a third-party parser) is the parameter \<open>compiles\<close>.
\<close>

subsection \<open>Walks\<close>

text \<open>
  \<open>chk\<close> checks one step at its position; \<open>down\<close> says in which context a child sequence is walked,
  or that it is skipped.
\<close>

function (sequential) walk :: "('c \<Rightarrow> nat \<Rightarrow> decl \<Rightarrow> verr option) \<Rightarrow> ('c \<Rightarrow> decl \<Rightarrow> child_role \<Rightarrow> 'c option)
    \<Rightarrow> 'c \<Rightarrow> nat \<Rightarrow> decl list \<Rightarrow> verr option" where
  "walk chk down ctx i [] = None"
| "walk chk down ctx i (d # ds) = first_error
     [chk ctx i d,
      first_error (map (\<lambda>(role, child). case down ctx d role of
          None \<Rightarrow> None | Some ctx' \<Rightarrow> walk chk down ctx' 0 child) (childSequenceRefs d)),
      walk chk down ctx (Suc i) ds]"
  by pat_completeness auto
termination
proof (relation "measure (\<lambda>(_, _, _, _, steps). weight steps)", goal_cases)
  case (2 chk down ctx i d ds x xa y ctx')
  then have "weight y < size d" by (metis child_sequence_weight)
  then show ?case by simp
next
  case (3 chk down ctx i d ds)
  then show ?case by (cases d) simp
qed simp

definition is_cleanup :: "child_role \<Rightarrow> bool" where
  "is_cleanup role \<longleftrightarrow> role = ChildDefer \<or> role = ChildFinally"

definition all_children :: "unit \<Rightarrow> decl \<Rightarrow> child_role \<Rightarrow> unit option" where
  "all_children _ d role = Some ()"

definition outside_cleanup :: "unit \<Rightarrow> decl \<Rightarrow> child_role \<Rightarrow> unit option" where
  "outside_cleanup _ d role = (if is_cleanup role then None else Some ())"

definition containsObserve :: "decl list \<Rightarrow> bool" where
  "containsObserve steps \<longleftrightarrow>
     walk (\<lambda>_ _ d. fail_if (d_observe d \<noteq> None) ''observe'') all_children () 0 steps \<noteq> None"

definition needs_check :: "bool \<Rightarrow> nat \<Rightarrow> decl \<Rightarrow> verr option" where
  "needs_check concurrentChildren index d =
     (let needs = f_has_needs (d_fields d) \<or> f_needs (d_fields d) \<noteq> [];
          afters = f_has_after (d_fields d) \<or> f_after (d_fields d) \<noteq> [];
          label = (if d_id d = [] then ''step '' @ nat_text (index + 1) else ''step '' @ go_quote (d_id d));
          field = (if \<not> needs then ''after'' else ''needs'')
      in fail_if ((needs \<or> afters) \<and> \<not> concurrentChildren)
           (label @ '': '' @ field @ '' is only supported on direct children of concurrent''))"

definition needs_down :: "bool \<Rightarrow> decl \<Rightarrow> child_role \<Rightarrow> bool option" where
  "needs_down _ d role = Some (d_concurrent d \<noteq> None \<and> role = ChildSteps)"

definition validateNeedsPlacement :: "decl list \<Rightarrow> bool \<Rightarrow> verr option" where
  "validateNeedsPlacement steps concurrentChildren = walk needs_check needs_down concurrentChildren 0 steps"

definition services_check :: "bool \<Rightarrow> nat \<Rightarrow> decl \<Rightarrow> verr option" where
  "services_check cleanup _ d = fail_if (cleanup \<and> d_type d = ''process'')
     (''step '' @ go_quote (d_id d) @
      '': process steps are not supported inside finally or defer, which join services rather than start them'')"

definition services_down :: "bool \<Rightarrow> decl \<Rightarrow> child_role \<Rightarrow> bool option" where
  "services_down cleanup d role = Some (cleanup \<or> is_cleanup role)"

definition validateCleanupServices :: "decl list \<Rightarrow> bool \<Rightarrow> verr option" where
  "validateCleanupServices steps cleanup = walk services_check services_down cleanup 0 steps"

definition onceContainsDefer :: "decl list \<Rightarrow> verr option" where
  "onceContainsDefer = walk (\<lambda>_ _ d. fail_if (d_defer d \<noteq> None) ''defer is not supported inside once'')
     all_children () 0"

definition onceContainsReturn :: "decl list \<Rightarrow> verr option" where
  "onceContainsReturn = walk (\<lambda>_ _ d. fail_if (d_return d \<noteq> None) ''return is not supported inside once'')
     outside_cleanup () 0"

definition attemptContainsDefer :: "decl list \<Rightarrow> verr option" where
  "attemptContainsDefer = walk (\<lambda>_ _ d. fail_if (d_defer d \<noteq> None) ''defer is not supported inside attempt'')
     all_children () 0"

definition attemptContainsReturn :: "decl list \<Rightarrow> verr option" where
  "attemptContainsReturn = walk (\<lambda>_ _ d. fail_if (d_return d \<noteq> None) ''return is not supported inside attempt'')
     outside_cleanup () 0"

definition tryCatchContainsForbidden :: "decl list \<Rightarrow> verr option" where
  "tryCatchContainsForbidden = walk (\<lambda>_ _ d. first_error
     [fail_if (IsTryCatch d) ''nested try/catch controls are not supported'',
      fail_if (d_return d \<noteq> None) ''return is not supported inside try/catch'']) outside_cleanup () 0"

definition cancelOnContainsForbidden :: "decl list \<Rightarrow> verr option" where
  "cancelOnContainsForbidden = walk (\<lambda>_ _ d. first_error
     [fail_if (d_cancel_on d \<noteq> None) ''nested cancel_on controls are not supported'',
      fail_if (IsTryCatch d) ''try/catch is not supported inside cancel_on'',
      fail_if (d_return d \<noteq> None) ''return is not supported inside cancel_on'',
      fail_if (d_require d \<noteq> None) ''require is not supported inside cancel_on'',
      fail_if (d_defer d \<noteq> None) ''defer is not supported inside cancel_on'',
      fail_if (d_observe d \<noteq> None) ''observe is not supported inside cancel_on'']) all_children () 0"

definition contract_block :: "decl \<Rightarrow> bool" where
  "contract_block d \<longleftrightarrow> IsExecutorBlock d \<or> IsEnvironmentBlock d \<or> IsWorkingDirectoryBlock d
     \<or> d_worktree d \<noteq> None \<or> IsConditionalBlock d \<or> d_cancel_on d \<noteq> None \<or> IsTryCatch d"

definition contract_check :: "workflow_output gomap \<Rightarrow> unit \<Rightarrow> nat \<Rightarrow> decl \<Rightarrow> verr option" where
  "contract_check outputs _ _ d =
     (if contract_block d then None
      else case d_return d of None \<Rightarrow> None
      | Some r \<Rightarrow> (let given = (case ret_outputs r of None \<Rightarrow> fmempty | Some m \<Rightarrow> m) in first_error
          (map (\<lambda>name. fail_if (name |\<notin>| fmdom given)
              (''return outputs do not match workflow outputs: missing '' @ go_quote name)) (sorted_keys outputs) @
           map (\<lambda>name. fail_if (name |\<notin>| fmdom outputs)
              (''return outputs do not match workflow outputs: unexpected '' @ go_quote name)) (sorted_keys given))))"

definition contract_down :: "unit \<Rightarrow> decl \<Rightarrow> child_role \<Rightarrow> unit option" where
  "contract_down _ d role = (if contract_block d \<and> \<not> is_cleanup role then Some () else None)"

definition validateWorkflowReturnContracts :: "decl list \<Rightarrow> workflow_output gomap \<Rightarrow> verr option" where
  "validateWorkflowReturnContracts steps outputs = walk (contract_check outputs) contract_down () 0 steps"

definition ValidateOutputContract :: "workflow_output gomap \<Rightarrow> decl list \<Rightarrow> verr option" where
  "ValidateOutputContract outputs steps = first_error
     [first_error (map (\<lambda>name. case fmlookup outputs name of None \<Rightarrow> None
        | Some out \<Rightarrow> WorkflowOutput_Validate name out) (sorted_keys outputs)),
      (if outputs = fmempty then None else validateWorkflowReturnContracts steps outputs)]"

subsection \<open>Identifiers of a scope\<close>

definition sbind :: "'e + 'a \<Rightarrow> ('a \<Rightarrow> 'e + 'b) \<Rightarrow> 'e + 'b" where
  "sbind m f = (case m of Inl e \<Rightarrow> Inl e | Inr x \<Rightarrow> f x)"

lemma sbind_cong [fundef_cong]:
  "m = m' \<Longrightarrow> (\<And>x. m' = Inr x \<Longrightarrow> f x = f' x) \<Longrightarrow> sbind m f = sbind m' f'"
  by (auto simp: sbind_def split: sum.splits)

lemma sbind_Inr: "sbind m f = Inr y \<longleftrightarrow> (\<exists>x. m = Inr x \<and> f x = Inr y)"
  by (auto simp: sbind_def split: sum.splits)

text \<open>\<^verbatim>\<open>fmt.Errorf("prefix: %w", err)\<close> on the error of a collection\<close>

definition labelled :: "string \<Rightarrow> verr + 'a \<Rightarrow> verr + 'a" where
  "labelled prefix = map_sum (\<lambda>(l, t). (l, prefix @ '': '' @ t)) id"

lemma labelled_Inr [simp]: "labelled p m = Inr y \<longleftrightarrow> m = Inr y"
  by (cases m) (simp_all add: labelled_def)

text \<open>The check every named declaration makes: a valid id that the scope does not have yet.\<close>

definition claim_id :: "nat \<Rightarrow> decl \<Rightarrow> string fset \<Rightarrow> verr + string fset" where
  "claim_id i d seen =
     (if \<not> identifierPattern (d_id d)
      then Inl (None, ''step '' @ nat_text (i + 1) @ '' has invalid id '' @ go_quote (d_id d))
      else if d_id d |\<in>| seen then Inl (None, ''duplicate step id '' @ go_quote (d_id d))
      else Inr (finsert (d_id d) seen))"

definition claim_monitor :: "decl \<Rightarrow> nat \<Rightarrow> decl \<Rightarrow> string fset \<Rightarrow> verr + string fset" where
  "claim_monitor d i m seen =
     (if \<not> identifierPattern (d_id m)
      then Inl (None, ''step '' @ go_quote (d_id d) @ '' cancel_on monitor '' @ nat_text (i + 1) @
             '' has invalid id '' @ go_quote (d_id m))
      else if d_id m |\<in>| seen then Inl (None, ''duplicate step id '' @ go_quote (d_id m))
      else Inr (finsert (d_id m) seen))"

definition is_container :: "decl \<Rightarrow> bool" where
  "is_container d \<longleftrightarrow> IsExecutorBlock d \<or> IsEnvironmentBlock d \<or> IsWorkingDirectoryBlock d
     \<or> d_worktree d \<noteq> None \<or> IsConditionalBlock d \<or> d_concurrent d \<noteq> None"

definition container_label :: "nat \<Rightarrow> decl \<Rightarrow> child_role \<Rightarrow> string" where
  "container_label i d role = ''step '' @ nat_text (i + 1) @
     (if IsExecutorBlock d then '' executor'' @ (if role = ChildFinally then '' finally'' else []) else []) @
     (if role = ChildDefer then '' defer'' else [])"

definition rescue_label :: "decl \<Rightarrow> child_role \<Rightarrow> string" where
  "rescue_label d role = ''step '' @ go_quote (d_id d) @ (if role = ChildTry then '' try'' else '' catch'')"

text \<open>Declarations whose body is a scope of its own: just their id belongs to this one.\<close>

definition is_scope_owner :: "decl \<Rightarrow> bool" where
  "is_scope_owner d \<longleftrightarrow> d_observe d \<noteq> None \<or> d_loop d \<noteq> None \<or> d_once d \<noteq> None \<or> d_attempt d \<noteq> None"

lemma cancel_on_weight: "d_cancel_on d = Some (c, monitors, steps) \<Longrightarrow> Suc (weight monitors) + weight steps < size d"
  by (cases d) auto

lemma defer_weight: "weight (steps_in (d_defer d)) < size d"
  by (cases d) (auto simp: steps_in_def split: option.splits)

lemma child_weight_less: "seqs_weight (childSequenceRefs d) < Suc (size d + n)"
    "seqs_weight (childSequenceRefs (cancelOnMonitorDeclaration d)) < Suc (size d + n)"
    "weight (steps_in (d_defer d)) < Suc (size d + n)"
  using child_weight [of d] child_weight [of "cancelOnMonitorDeclaration d"] defer_weight [of d] by simp_all

function (sequential) collect :: "nat \<Rightarrow> decl list \<Rightarrow> string fset \<Rightarrow> verr + string fset"
  and collect_seqs :: "(child_role \<Rightarrow> string) \<Rightarrow> (child_role \<times> decl list) list \<Rightarrow> string fset \<Rightarrow> verr + string fset"
  and collect_monitors :: "decl \<Rightarrow> nat \<Rightarrow> decl list \<Rightarrow> string fset \<Rightarrow> verr + string fset" where
  "collect i [] seen = Inr seen"
| "collect i (d # ds) seen = sbind
     (if IsTryCatch d then
        sbind (claim_id i d seen) (\<lambda>seen. collect_seqs (rescue_label d) (childSequenceRefs d) seen)
      else if d_cancel_on d \<noteq> None then
        (case d_cancel_on d of None \<Rightarrow> Inr seen | Some (_, monitors, steps) \<Rightarrow>
           sbind (claim_id i d seen) (\<lambda>seen.
           sbind (collect_monitors d 0 monitors seen) (\<lambda>seen.
           labelled (''step '' @ go_quote (d_id d) @ '' cancel_on body'') (collect 0 steps seen))))
      else if is_scope_owner d then claim_id i d seen
      else if is_container d then
        sbind (if d_worktree d \<noteq> None then claim_id i d seen else Inr seen) (\<lambda>seen.
          collect_seqs (container_label i d) (childSequenceRefs d) seen)
      else if d_return d \<noteq> None \<or> d_require d \<noteq> None then Inr seen
      else sbind (claim_id i d seen) (\<lambda>seen.
        labelled (''step '' @ go_quote (d_id d) @ '' defer'') (collect 0 (steps_in (d_defer d)) seen)))
     (\<lambda>seen. collect (Suc i) ds seen)"
| "collect_seqs label [] seen = Inr seen"
| "collect_seqs label ((role, child) # seqs) seen = sbind
     (labelled (label role) (collect 0 child seen)) (\<lambda>seen. collect_seqs label seqs seen)"
| "collect_monitors d i [] seen = Inr seen"
| "collect_monitors d i (m # ms) seen = sbind (claim_monitor d i m seen) (\<lambda>seen.
     sbind (let declaration = cancelOnMonitorDeclaration m in
         if d_id declaration = []
         then collect_seqs (\<lambda>_. ''step '' @ go_quote (d_id d) @ '' cancel_on monitor '' @ go_quote (d_id m))
                (childSequenceRefs declaration) seen
         else Inr seen)
       (\<lambda>seen. collect_monitors d (Suc i) ms seen))"
  by pat_completeness auto
termination
  by (relation "measure (\<lambda>x. case x of Inl (_, steps, _) \<Rightarrow> weight steps
    | Inr (Inl (_, seqs, _)) \<Rightarrow> seqs_weight seqs | Inr (Inr (_, _, ms, _)) \<Rightarrow> weight ms)")
    (auto simp: child_weight_less dest!: cancel_on_weight)

definition collectScopeIDs :: "decl list \<Rightarrow> string fset \<Rightarrow> verr + string fset" where
  "collectScopeIDs steps seen = collect 0 steps seen"

subsection \<open>The entries of validateSteps\<close>

datatype step_scope =
  ScopeTop | ScopeControl | ScopeConcurrent | ScopeFinally | ScopeDefer
  | ScopeExecutor | ScopeExecutorControl | ScopeExecutorFinally | ScopeExecutorDefer

definition executorStepScope :: "step_scope \<Rightarrow> bool" where
  "executorStepScope scope \<longleftrightarrow>
     scope \<in> {ScopeExecutor, ScopeExecutorControl, ScopeExecutorFinally, ScopeExecutorDefer}"

definition cleanup_scope :: "step_scope \<Rightarrow> bool" where
  "cleanup_scope scope \<longleftrightarrow> scope \<in> {ScopeFinally, ScopeDefer, ScopeExecutorFinally, ScopeExecutorDefer}"

text \<open>The recursive call: the scope, the ids seen and the steps.\<close>

type_synonym validator = "step_scope \<Rightarrow> string fset \<Rightarrow> decl list \<Rightarrow> verr option"

definition validateStepScope :: "validator \<Rightarrow> decl list \<Rightarrow> step_scope \<Rightarrow> string fset \<Rightarrow> verr option" where
  "validateStepScope v steps scope inherited =
     (case collectScopeIDs steps inherited of Inl e \<Rightarrow> Some e | Inr seen \<Rightarrow> v scope seen steps)"

text \<open>Groups of fields the conditions share.\<close>

definition has_fan_out :: "decl \<Rightarrow> bool" where
  "has_fan_out d \<longleftrightarrow> d_batch d \<noteq> None \<or> d_foreach d \<noteq> None \<or> d_matrix d \<noteq> None"

definition validateTryCatchEntry :: "validator \<Rightarrow> step_scope \<Rightarrow> string fset \<Rightarrow> decl \<Rightarrow> verr option" where
  "validateTryCatchEntry v scope seen d = first_error
     [fail_if (ordinary_fields d \<or> d_worktree d \<noteq> None \<or> d_executor d \<noteq> None \<or> d_finally d \<noteq> None
        \<or> d_defer d \<noteq> None \<or> IsEnvironmentBlock d \<or> IsWorkingDirectoryBlock d \<or> d_concurrent d \<noteq> None
        \<or> has_fan_out d \<or> d_loop d \<noteq> None \<or> d_once d \<noteq> None \<or> d_cancel_on d \<noteq> None \<or> d_observe d \<noteq> None
        \<or> d_return d \<noteq> None \<or> d_sha256 d \<noteq> [] \<or> d_attempt d \<noteq> None \<or> d_with d \<noteq> None \<or> d_steps d \<noteq> None)
        ''try/catch cannot be combined with other step fields'',
      fail_if (d_id d = [] \<or> \<not> identifierPattern (d_id d)) ''try/catch requires a valid id'',
      fail_if (cleanup_scope scope) ''try/catch is not supported inside cleanup'',
      validateTryCatchDeclaration d,
      within_error ''try'' (tryCatchContainsForbidden (steps_in (d_try d))),
      within_error ''catch'' (tryCatchContainsForbidden (steps_in (d_catch d))),
      within_error ''try'' (v scope seen (steps_in (d_try d))),
      within_error ''catch'' (v scope seen (steps_in (d_catch d)))]"

definition validate_monitors :: "validator \<Rightarrow> step_scope \<Rightarrow> string fset \<Rightarrow> decl list \<Rightarrow> verr option" where
  "validate_monitors v scope seen monitors =
     first_error (map (\<lambda>m. within_error (''monitor '' @ go_quote (d_id m))
       (v scope seen [cancelOnMonitorDeclaration m])) monitors)"

definition validateCancelOnEntry :: "validator \<Rightarrow> step_scope \<Rightarrow> string fset \<Rightarrow> decl \<Rightarrow> verr option" where
  "validateCancelOnEntry v scope seen d =
     (case d_cancel_on d of None \<Rightarrow> None | Some (collect_expr, monitors, steps) \<Rightarrow> first_error
     [fail_if (ordinary_fields d \<or> d_worktree d \<noteq> None \<or> d_executor d \<noteq> None \<or> d_finally d \<noteq> None
        \<or> d_defer d \<noteq> None \<or> IsEnvironmentBlock d \<or> IsWorkingDirectoryBlock d \<or> d_concurrent d \<noteq> None
        \<or> has_fan_out d \<or> d_loop d \<noteq> None \<or> d_once d \<noteq> None \<or> d_observe d \<noteq> None
        \<or> d_return d \<noteq> None \<or> d_sha256 d \<noteq> [] \<or> d_attempt d \<noteq> None \<or> d_with d \<noteq> None \<or> d_steps d \<noteq> None)
        ''cancel_on cannot be combined with other step fields'',
      fail_if (d_id d = [] \<or> \<not> identifierPattern (d_id d)) ''cancel_on requires a valid id'',
      fail_if (executorStepScope scope) ''cancel_on controls are not supported inside executor blocks'',
      CancelOnGroup_Validate collect_expr monitors steps,
      within_error ''monitors'' (cancelOnContainsForbidden monitors),
      within_error ''body'' (cancelOnContainsForbidden steps),
      validate_monitors v scope seen monitors,
      within_error ''body'' (v scope seen steps)])"

definition validateObserveEntry :: "validator \<Rightarrow> bool \<Rightarrow> step_scope \<Rightarrow> string fset \<Rightarrow> decl \<Rightarrow> verr option" where
  "validateObserveEntry v allowActions scope seen d =
     (case d_observe d of None \<Rightarrow> None | Some (g, steps) \<Rightarrow> first_error
     [fail_if (d_id d = [] \<or> \<not> identifierPattern (d_id d)) ''observe requires a valid id'',
      fail_if (ordinary_fields d \<or> d_worktree d \<noteq> None \<or> d_executor d \<noteq> None \<or> d_finally d \<noteq> None
        \<or> d_defer d \<noteq> None \<or> IsEnvironmentBlock d \<or> IsWorkingDirectoryBlock d \<or> d_concurrent d \<noteq> None
        \<or> has_fan_out d \<or> d_loop d \<noteq> None \<or> d_once d \<noteq> None \<or> d_cancel_on d \<noteq> None \<or> IsTryCatch d
        \<or> d_return d \<noteq> None \<or> d_sha256 d \<noteq> [] \<or> d_if d \<noteq> [] \<or> d_attempt d \<noteq> None \<or> d_with d \<noteq> None
        \<or> d_steps d \<noteq> None)
        ''observe cannot be combined with other step fields'',
      fail_if (scope \<noteq> ScopeTop) ''observe is only supported in the main sequential workflow scope'',
      fail_if (\<not> allowActions) ''observe is not supported inside composite actions'',
      ObserveGroup_Validate g steps,
      validateStepScope v steps ScopeControl seen])"

definition validateOnceEntry :: "validator \<Rightarrow> step_scope \<Rightarrow> string fset \<Rightarrow> decl \<Rightarrow> verr option" where
  "validateOnceEntry v scope seen d =
     (case d_once d of None \<Rightarrow> None | Some (g, steps) \<Rightarrow> first_error
     [fail_if (d_id d = [] \<or> \<not> identifierPattern (d_id d)) ''once requires a valid id'',
      fail_if (ordinary_fields d \<or> d_worktree d \<noteq> None \<or> d_executor d \<noteq> None \<or> d_finally d \<noteq> None
        \<or> d_defer d \<noteq> None \<or> IsEnvironmentBlock d \<or> IsWorkingDirectoryBlock d \<or> d_concurrent d \<noteq> None
        \<or> has_fan_out d \<or> d_loop d \<noteq> None \<or> d_cancel_on d \<noteq> None \<or> d_observe d \<noteq> None
        \<or> d_return d \<noteq> None \<or> d_sha256 d \<noteq> [] \<or> d_attempt d \<noteq> None \<or> d_with d \<noteq> None \<or> d_steps d \<noteq> None)
        ''once cannot be combined with ordinary step fields'',
      fail_if (cleanup_scope scope) ''once is not supported inside cleanup'',
      OnceGroup_Validate g steps,
      onceContainsDefer steps,
      onceContainsReturn steps,
      validateStepScope v steps scope seen])"

definition validateAttemptEntry :: "validator \<Rightarrow> step_scope \<Rightarrow> string fset \<Rightarrow> decl \<Rightarrow> verr option" where
  "validateAttemptEntry v scope seen d =
     (case d_attempt d of None \<Rightarrow> None | Some (control, steps) \<Rightarrow> first_error
     [fail_if (d_id d = [] \<or> \<not> identifierPattern (d_id d)) ''attempt requires a valid id'',
      fail_if (ordinary_fields d \<or> d_worktree d \<noteq> None \<or> d_executor d \<noteq> None \<or> d_finally d \<noteq> None
        \<or> IsEnvironmentBlock d \<or> IsWorkingDirectoryBlock d \<or> d_concurrent d \<noteq> None
        \<or> has_fan_out d \<or> d_loop d \<noteq> None \<or> d_once d \<noteq> None \<or> d_cancel_on d \<noteq> None \<or> d_observe d \<noteq> None
        \<or> d_return d \<noteq> None \<or> d_sha256 d \<noteq> [] \<or> d_with d \<noteq> None \<or> d_steps d \<noteq> None)
        ''attempt cannot be combined with ordinary step fields'',
      AttemptControl_Validate control steps,
      (if IsDelay control then None
       else first_error
         [attemptContainsDefer steps,
          attemptContainsReturn steps,
          validateStepScope v steps scope seen])])"

definition validateEnvironmentBlock :: "validator \<Rightarrow> step_scope \<Rightarrow> string fset \<Rightarrow> decl \<Rightarrow> verr option" where
  "validateEnvironmentBlock v scope seen d = first_error [validateBlock d, v scope seen (steps_in (d_steps d))]"

definition validateWorkingDirectoryBlock :: "validator \<Rightarrow> step_scope \<Rightarrow> string fset \<Rightarrow> decl \<Rightarrow> verr option" where
  "validateWorkingDirectoryBlock v scope seen d = first_error [validateBlock d, v scope seen (steps_in (d_steps d))]"

definition validateWorktreeEntry :: "validator \<Rightarrow> step_scope \<Rightarrow> string fset \<Rightarrow> decl \<Rightarrow> verr option" where
  "validateWorktreeEntry v scope seen d =
     (case d_worktree d of None \<Rightarrow> None | Some (g, steps) \<Rightarrow> first_error
     [validateBlock d,
      fail_if (d_id d = [] \<or> \<not> identifierPattern (d_id d)) ''worktree block requires a valid id'',
      fail_if (ordinary_fields d \<or> f_working_directory (d_fields d) \<noteq> [] \<or> d_steps d \<noteq> None
        \<or> d_executor d \<noteq> None \<or> d_finally d \<noteq> None \<or> d_defer d \<noteq> None \<or> IsConditionalBlock d
        \<or> d_concurrent d \<noteq> None \<or> has_fan_out d \<or> d_observe d \<noteq> None \<or> d_return d \<noteq> None
        \<or> d_sha256 d \<noteq> [] \<or> d_if d \<noteq> [] \<or> d_attempt d \<noteq> None \<or> d_with d \<noteq> None)
        ''worktree block cannot be combined with other step fields'',
      fail_if (containsObserve steps) ''observe is not supported inside worktree blocks'',
      v scope seen steps])"

definition validateConditionalBlock :: "validator \<Rightarrow> step_scope \<Rightarrow> string fset \<Rightarrow> decl \<Rightarrow> verr option" where
  "validateConditionalBlock v scope seen d = first_error
     [validateBlock d,
      fail_if (scope = ScopeConcurrent) ''conditional blocks are not supported inside concurrent groups'',
      v scope seen (steps_in (d_steps d))]"

text \<open>The texts of the errors of ConcurrentGroup.Validate, and the method on declarations: it reads the
  id and the edges of a child.\<close>

fun needs_error_text :: "needs_error \<Rightarrow> string" where
  "needs_error_text (DuplicateId i j x) = ''concurrent children '' @ nat_text i @ '' and '' @ nat_text j @
     '' have duplicate id '' @ go_quote x"
| "needs_error_text (DuplicateNeed l x) = ''concurrent child '' @ go_quote l @ '' lists duplicate need '' @ go_quote x"
| "needs_error_text (UnknownNeed l x) = ''concurrent child '' @ go_quote l @ '' needs unknown sibling '' @ go_quote x"
| "needs_error_text (SelfNeed l) = ''concurrent child '' @ go_quote l @ '' cannot need itself''"
| "needs_error_text (DuplicateAfter l x) = ''concurrent child '' @ go_quote l @ '' lists duplicate after '' @ go_quote x"
| "needs_error_text (NeedAndAfter l x) = ''concurrent child '' @ go_quote l @ '' lists '' @ go_quote x @
     '' in both needs and after''"
| "needs_error_text (UnknownAfter l x) = ''concurrent child '' @ go_quote l @ '' runs after unknown sibling '' @ go_quote x"
| "needs_error_text (SelfAfter l) = ''concurrent child '' @ go_quote l @ '' cannot run after itself''"
| "needs_error_text (EdgeCycle ls) = ''concurrent needs and after edges contain a cycle involving '' @
     go_quote (concat (map (\<lambda>(i, l). (if i = 0 then [] else '', '') @ l) (indexed ls)))"

fun group_error_text :: "group_error \<Rightarrow> string" where
  "group_error_text TooFewSteps = ''concurrent group must contain at least two steps''"
| "group_error_text ConcurrencyRange = ''concurrent max_concurrency must be between 1 and 100''"
| "group_error_text TimeoutRange = ''concurrent timeout must be greater than zero''"
| "group_error_text (NeedsError e) = needs_error_text e"

definition meta_of :: "decl \<Rightarrow> step_meta" where
  "meta_of d = \<lparr>step_id = d_id d, needs = f_needs (d_fields d), after = f_after (d_fields d), if_cond = d_if d\<rparr>"

definition sibling_view :: "decl \<Rightarrow> step" where
  "sibling_view d = Step (meta_of d) (Leaf [] fmempty) []"

definition group_validate :: "concurrent_group \<Rightarrow> decl list \<Rightarrow> verr option" where
  "group_validate g steps = (case ConcurrentGroup_Validate g (map sibling_view steps) of
     Inl e \<Rightarrow> Some (None, group_error_text e) | Inr _ \<Rightarrow> None)"

definition validateConcurrentEntry :: "validator \<Rightarrow> step_scope \<Rightarrow> string fset \<Rightarrow> decl \<Rightarrow> verr option" where
  "validateConcurrentEntry v scope seen d =
     (case d_concurrent d of None \<Rightarrow> None | Some (g, steps) \<Rightarrow> first_error
     [fail_if (d_id d \<noteq> [] \<or> d_type d \<noteq> [] \<or> \<not> ActionSource_Empty (d_uses d) \<or> d_worktree d \<noteq> None
        \<or> d_executor d \<noteq> None \<or> d_finally d \<noteq> None \<or> d_defer d \<noteq> None \<or> IsConditionalBlock d
        \<or> IsEnvironmentBlock d \<or> IsWorkingDirectoryBlock d \<or> has_fan_out d \<or> d_observe d \<noteq> None
        \<or> d_return d \<noteq> None \<or> d_sha256 d \<noteq> [] \<or> d_if d \<noteq> [] \<or> d_attempt d \<noteq> None \<or> d_with d \<noteq> None)
        ''concurrent cannot be combined with other step fields'',
      fail_if (scope = ScopeConcurrent) ''nested concurrent groups are not supported'',
      fail_if (executorStepScope scope) ''concurrent groups are not supported inside executor blocks'',
      group_validate g steps,
      v ScopeConcurrent seen steps])"

text \<open>The control and its kind, body, limits and own check, in the order of the code's choice.\<close>

definition fan_out :: "decl \<Rightarrow> (string \<times> decl list \<times> int \<times> verr option) option" where
  "fan_out d = first_some
     [map_option (\<lambda>(items, sz, g, steps). (''batch'', steps, fan_max_concurrency g, BatchGroup_Validate items sz g steps)) (d_batch d),
      map_option (\<lambda>(axes, g, steps). (''matrix'', steps, fan_max_concurrency g, MatrixGroup_Validate axes g steps)) (d_matrix d),
      map_option (\<lambda>(items, g, steps). (''foreach'', steps, fan_max_concurrency g, ForeachGroup_Validate items g steps)) (d_foreach d)]"

definition count_fan_outs :: "decl \<Rightarrow> nat" where
  "count_fan_outs d = length (filter id [d_batch d \<noteq> None, d_foreach d \<noteq> None, d_matrix d \<noteq> None])"

definition validateControlEntry :: "validator \<Rightarrow> step_scope \<Rightarrow> string fset \<Rightarrow> decl \<Rightarrow> verr option" where
  "validateControlEntry v scope seen d =
     (if count_fan_outs d \<noteq> 1 then Some (None, ''must set exactly one of batch, foreach or matrix'')
      else case fan_out d of None \<Rightarrow> None | Some (kind, steps, maxConcurrency, validationErr) \<Rightarrow> first_error
      [fail_if (ordinary_fields d \<or> d_worktree d \<noteq> None \<or> d_executor d \<noteq> None \<or> d_finally d \<noteq> None
         \<or> d_defer d \<noteq> None \<or> IsEnvironmentBlock d \<or> IsWorkingDirectoryBlock d \<or> d_concurrent d \<noteq> None
         \<or> d_observe d \<noteq> None \<or> d_return d \<noteq> None \<or> d_sha256 d \<noteq> [] \<or> d_attempt d \<noteq> None \<or> d_with d \<noteq> None)
         (kind @ '' cannot be combined with ordinary step fields''),
       fail_if (scope \<noteq> ScopeTop \<and> scope \<noteq> ScopeExecutor) (''nested '' @ kind @ '' controls are not supported''),
       validationErr,
       fail_if (scope = ScopeExecutor \<and> maxConcurrency \<noteq> 1) (kind @ '' inside executor must use max_concurrency 1''),
       validateStepScope v steps (if scope = ScopeExecutor then ScopeExecutorControl else ScopeControl) seen])"

definition validateLoopEntry :: "validator \<Rightarrow> (string \<Rightarrow> verr option) \<Rightarrow> step_scope \<Rightarrow> string fset \<Rightarrow> decl \<Rightarrow> verr option" where
  "validateLoopEntry v compiles scope seen d =
     (case d_loop d of None \<Rightarrow> None | Some (g, steps) \<Rightarrow> first_error
     [fail_if (d_id d = [] \<or> \<not> identifierPattern (d_id d)) ''loop requires a valid id'',
      fail_if (ordinary_fields d \<or> d_worktree d \<noteq> None \<or> d_executor d \<noteq> None \<or> d_finally d \<noteq> None
        \<or> d_defer d \<noteq> None \<or> IsEnvironmentBlock d \<or> IsWorkingDirectoryBlock d \<or> IsConditionalBlock d
        \<or> d_concurrent d \<noteq> None \<or> has_fan_out d \<or> d_observe d \<noteq> None \<or> d_return d \<noteq> None
        \<or> d_sha256 d \<noteq> [] \<or> d_attempt d \<noteq> None \<or> d_with d \<noteq> None \<or> d_if d \<noteq> [])
        ''loop cannot be combined with ordinary step fields'',
      fail_if (scope \<noteq> ScopeTop \<and> scope \<noteq> ScopeExecutor) ''nested loops are not supported'',
      LoopGroup_Validate g steps,
      within_error ''loop until'' (compiles (loop_until g)),
      validateStepScope v steps (if scope = ScopeExecutor then ScopeExecutorControl else ScopeControl) seen])"

definition validateExecutorBlock :: "validator \<Rightarrow> bool \<Rightarrow> step_scope \<Rightarrow> string fset \<Rightarrow> decl \<Rightarrow> verr option" where
  "validateExecutorBlock v allowActions scope seen d = first_error
     [fail_if (scope \<noteq> ScopeTop) ''executor blocks are only supported in sequential workflow scopes'',
      fail_if (\<not> allowActions) ''executor blocks are not supported in composite actions'',
      fail_if (case d_executor d of None \<Rightarrow> True | Some (t, _) \<Rightarrow> blank t) ''executor type is required'',
      fail_if (steps_in (d_steps d) = []) ''executor block must contain at least one step'',
      fail_if (d_id d \<noteq> [] \<or> ordinary_fields d \<or> d_worktree d \<noteq> None \<or> d_defer d \<noteq> None
        \<or> IsEnvironmentBlock d \<or> IsWorkingDirectoryBlock d \<or> d_concurrent d \<noteq> None \<or> has_fan_out d
        \<or> d_observe d \<noteq> None \<or> d_return d \<noteq> None \<or> d_sha256 d \<noteq> [] \<or> d_if d \<noteq> [] \<or> d_attempt d \<noteq> None
        \<or> d_with d \<noteq> None)
        ''executor block cannot be combined with other step fields'',
      within_error ''executor steps'' (v ScopeExecutor seen (steps_in (d_steps d))),
      within_error ''executor finally'' (v ScopeExecutorFinally seen (steps_in (d_finally d)))]"

definition return_scope_error :: "step_scope \<Rightarrow> string option" where
  "return_scope_error scope = (case scope of
     ScopeTop \<Rightarrow> None
   | ScopeExecutor \<Rightarrow> None
   | ScopeControl \<Rightarrow> Some ''return is not supported inside foreach or matrix controls or inside batch controls''
   | ScopeConcurrent \<Rightarrow> Some ''return is not supported inside concurrent groups''
   | ScopeFinally \<Rightarrow> Some ''return is not supported inside finally''
   | ScopeExecutorFinally \<Rightarrow> Some ''return is not supported inside finally''
   | ScopeDefer \<Rightarrow> Some ''return is not supported inside defer''
   | ScopeExecutorDefer \<Rightarrow> Some ''return is not supported inside defer''
   | ScopeExecutorControl \<Rightarrow> Some ''return is not supported inside foreach or matrix controls or inside batch controls'')"

definition validateReturnEntry :: "step_scope \<Rightarrow> decl \<Rightarrow> verr option" where
  "validateReturnEntry scope d = first_error
     [fail_if (d_id d \<noteq> [] \<or> ordinary_fields d \<or> d_worktree d \<noteq> None \<or> d_executor d \<noteq> None
        \<or> d_finally d \<noteq> None \<or> d_defer d \<noteq> None \<or> IsEnvironmentBlock d \<or> IsWorkingDirectoryBlock d
        \<or> d_steps d \<noteq> None \<or> d_concurrent d \<noteq> None \<or> has_fan_out d \<or> d_once d \<noteq> None
        \<or> d_sha256 d \<noteq> [] \<or> d_attempt d \<noteq> None \<or> d_with d \<noteq> None)
        ''return cannot be combined with other step fields'',
      map_option (Pair None) (return_scope_error scope),
      (case d_return d of None \<Rightarrow> None | Some r \<Rightarrow> ReturnControl_Validate r)]"

text \<open>The rest of the loop body of \<^verbatim>\<open>validateSteps\<close>: a concrete step.\<close>

definition defer_scope :: "step_scope \<Rightarrow> string \<Rightarrow> string + step_scope" where
  "defer_scope scope q = (case scope of
     ScopeTop \<Rightarrow> Inr ScopeDefer
   | ScopeExecutor \<Rightarrow> Inr ScopeExecutorDefer
   | ScopeConcurrent \<Rightarrow> Inl (''step '' @ q @ '': defer is only supported in sequential scopes'')
   | ScopeControl \<Rightarrow> Inl (''step '' @ q @ '': defer is only supported in sequential scopes'')
   | ScopeExecutorControl \<Rightarrow> Inl (''step '' @ q @ '': defer is only supported in sequential scopes'')
   | _ \<Rightarrow> Inl (''step '' @ q @ '': defer is not supported inside cleanup''))"

definition validate_leaf :: "validator \<Rightarrow> bool \<Rightarrow> step_scope \<Rightarrow> string fset \<Rightarrow> decl \<Rightarrow> verr option" where
  "validate_leaf v allowActions scope seen d =
     (let q = go_quote (d_id d) in first_error
     [fail_if (d_finally d \<noteq> None) (''step '' @ q @ '': finally is only supported by executor blocks''),
      (case d_defer d of None \<Rightarrow> None
       | Some steps \<Rightarrow> first_error
          [fail_if (steps = []) (''step '' @ q @ '': defer must contain at least one step''),
           (case defer_scope scope q of Inl t \<Rightarrow> Some (None, t)
            | Inr deferScope \<Rightarrow> within_error (''step '' @ q @ '' defer'') (v deferScope seen steps))]),
      fail_if (executorStepScope scope \<and> \<not> ActionSource_Empty (d_uses d))
        (''step '' @ q @ '': actions are not supported inside executor blocks''),
      fail_if ((d_type d = []) = ActionSource_Empty (d_uses d))
        (''step '' @ q @ '' must set exactly one of type or uses''),
      fail_if (\<not> ActionSource_Empty (d_uses d) \<and> \<not> allowActions)
        (''step '' @ q @ '': nested composite actions are not supported''),
      fail_if (ActionSource_Empty (d_uses d) \<and> d_sha256 d \<noteq> []) (''step '' @ q @ '': sha256 requires uses'')])"

definition validate_step :: "validator \<Rightarrow> (string \<Rightarrow> verr option) \<Rightarrow> bool \<Rightarrow> step_scope \<Rightarrow> string fset \<Rightarrow> nat \<Rightarrow> decl
    \<Rightarrow> verr option" where
  "validate_step v compiles allowActions scope seen i d =
     (let named = within_error (''step '' @ go_quote (d_id d)); numbered = within_error (''step '' @ nat_text (i + 1))
      in if IsTryCatch d then named (validateTryCatchEntry v scope seen d)
      else if d_cancel_on d \<noteq> None then named (validateCancelOnEntry v scope seen d)
      else if d_observe d \<noteq> None then named (validateObserveEntry v allowActions scope seen d)
      else if d_once d \<noteq> None then named (validateOnceEntry v scope seen d)
      else if d_attempt d \<noteq> None then named (validateAttemptEntry v scope seen d)
      else if IsExecutorBlock d then numbered (validateExecutorBlock v allowActions scope seen d)
      else if IsEnvironmentBlock d then numbered (validateEnvironmentBlock v scope seen d)
      else if IsWorkingDirectoryBlock d then numbered (validateWorkingDirectoryBlock v scope seen d)
      else if d_worktree d \<noteq> None then numbered (validateWorktreeEntry v scope seen d)
      else if IsConditionalBlock d then numbered (validateConditionalBlock v scope seen d)
      else if d_require d \<noteq> None
      then numbered (Some (None, ''require is only supported in workflow step files''))
      else if d_return d \<noteq> None then numbered (validateReturnEntry scope d)
      else if d_concurrent d \<noteq> None then numbered (validateConcurrentEntry v scope seen d)
      else if d_loop d \<noteq> None then named (validateLoopEntry v compiles scope seen d)
      else if has_fan_out d then named (validateControlEntry v scope seen d)
      else validate_leaf v allowActions scope seen d)"

subsection \<open>The knot\<close>

text \<open>An entry calls the validator on smaller declarations only.\<close>

lemma part_weight:
  "weight (steps_in (d_try d)) < size d" "weight (steps_in (d_catch d)) < size d"
  "weight (steps_in (d_steps d)) < size d" "weight (steps_in (d_finally d)) < size d"
  by (cases d; auto simp: steps_in_def split: option.splits)+

lemma body_weight:
  "d_worktree d = Some (w, steps) \<Longrightarrow> weight steps < size d"
  "d_concurrent d = Some (c, steps) \<Longrightarrow> weight steps < size d"
  "d_loop d = Some (l, steps) \<Longrightarrow> weight steps < size d"
  "d_once d = Some (ong, steps) \<Longrightarrow> weight steps < size d"
  "d_attempt d = Some (a, steps) \<Longrightarrow> weight steps < size d"
  "d_observe d = Some (ob, steps) \<Longrightarrow> weight steps < size d"
  "d_cancel_on d = Some (x, monitors, steps) \<Longrightarrow> weight steps < size d"
  "d_defer d = Some steps \<Longrightarrow> weight steps < size d"
  "fan_out d = Some (kind, steps, limit, e) \<Longrightarrow> weight steps < size d"
  by (cases d; force simp: fan_out_def split: option.splits)+

lemma monitor_weight:
  assumes "d_cancel_on d = Some (x, monitors, steps)" and "m \<in> set monitors"
  shows "weight [cancelOnMonitorDeclaration m] < size d"
  using cancel_on_weight [OF assms(1)] weight_mem [OF assms(2)] by simp

lemma validateStepScope_cong:
  assumes "\<And>sc sn st. weight st < n \<Longrightarrow> v sc sn st = v' sc sn st" and "weight steps < n"
  shows "validateStepScope v steps scope seen = validateStepScope v' steps scope seen"
  using assms by (simp add: validateStepScope_def split: sum.splits)

lemma validate_monitors_cong:
  assumes "\<And>sc sn st. weight st < n \<Longrightarrow> v sc sn st = v' sc sn st" and "Suc (weight monitors) < n"
  shows "validate_monitors v scope seen monitors = validate_monitors v' scope seen monitors"
proof -
  have "v scope seen [cancelOnMonitorDeclaration m] = v' scope seen [cancelOnMonitorDeclaration m]"
    if "m \<in> set monitors" for m
    by (rule assms(1)) (use weight_mem [OF that] assms(2) in simp)
  then show ?thesis by (simp only: validate_monitors_def cong: map_cong)
qed

lemma entries_cong:
  assumes v: "\<And>sc sn st. weight st < size d \<Longrightarrow> v sc sn st = v' sc sn st"
  shows "validateTryCatchEntry v scope seen d = validateTryCatchEntry v' scope seen d"
    and "validateCancelOnEntry v scope seen d = validateCancelOnEntry v' scope seen d"
    and "validateObserveEntry v a scope seen d = validateObserveEntry v' a scope seen d"
    and "validateOnceEntry v scope seen d = validateOnceEntry v' scope seen d"
    and "validateAttemptEntry v scope seen d = validateAttemptEntry v' scope seen d"
    and "validateEnvironmentBlock v scope seen d = validateEnvironmentBlock v' scope seen d"
    and "validateWorkingDirectoryBlock v scope seen d = validateWorkingDirectoryBlock v' scope seen d"
    and "validateWorktreeEntry v scope seen d = validateWorktreeEntry v' scope seen d"
    and "validateConditionalBlock v scope seen d = validateConditionalBlock v' scope seen d"
    and "validateConcurrentEntry v scope seen d = validateConcurrentEntry v' scope seen d"
    and "validateControlEntry v scope seen d = validateControlEntry v' scope seen d"
    and "validateLoopEntry v compiles scope seen d = validateLoopEntry v' compiles scope seen d"
    and "validateExecutorBlock v a scope seen d = validateExecutorBlock v' a scope seen d"
    and "validate_leaf v a scope seen d = validate_leaf v' a scope seen d"
proof -
  note scope = validateStepScope_cong [OF v] and monitors = validate_monitors_cong [OF v]
  note weights = part_weight body_weight cancel_on_weight [THEN add_lessD1]
  show "validateTryCatchEntry v scope seen d = validateTryCatchEntry v' scope seen d"
    by (simp only: validateTryCatchEntry_def v part_weight)
  show "validateCancelOnEntry v scope seen d = validateCancelOnEntry v' scope seen d"
    by (cases "d_cancel_on d") (auto simp only: validateCancelOnEntry_def option.case prod.case v monitors weights)
  show "validateObserveEntry v a scope seen d = validateObserveEntry v' a scope seen d"
    by (cases "d_observe d") (auto simp only: validateObserveEntry_def option.case prod.case scope weights)
  show "validateOnceEntry v scope seen d = validateOnceEntry v' scope seen d"
    by (cases "d_once d") (auto simp only: validateOnceEntry_def option.case prod.case scope weights)
  show "validateAttemptEntry v scope seen d = validateAttemptEntry v' scope seen d"
    by (cases "d_attempt d") (auto simp only: validateAttemptEntry_def option.case prod.case scope weights)
  show "validateEnvironmentBlock v scope seen d = validateEnvironmentBlock v' scope seen d"
    by (simp only: validateEnvironmentBlock_def v part_weight)
  show "validateWorkingDirectoryBlock v scope seen d = validateWorkingDirectoryBlock v' scope seen d"
    by (simp only: validateWorkingDirectoryBlock_def v part_weight)
  show "validateWorktreeEntry v scope seen d = validateWorktreeEntry v' scope seen d"
    by (cases "d_worktree d") (auto simp only: validateWorktreeEntry_def option.case prod.case v weights)
  show "validateConditionalBlock v scope seen d = validateConditionalBlock v' scope seen d"
    by (simp only: validateConditionalBlock_def v part_weight)
  show "validateConcurrentEntry v scope seen d = validateConcurrentEntry v' scope seen d"
    by (cases "d_concurrent d") (auto simp only: validateConcurrentEntry_def option.case prod.case v weights)
  show "validateControlEntry v scope seen d = validateControlEntry v' scope seen d"
    by (cases "fan_out d") (auto simp only: validateControlEntry_def option.case prod.case scope weights)
  show "validateLoopEntry v compiles scope seen d = validateLoopEntry v' compiles scope seen d"
    by (cases "d_loop d") (auto simp only: validateLoopEntry_def option.case prod.case scope weights)
  show "validateExecutorBlock v a scope seen d = validateExecutorBlock v' a scope seen d"
    by (simp only: validateExecutorBlock_def v part_weight)
  show "validate_leaf v a scope seen d = validate_leaf v' a scope seen d"
    by (cases "d_defer d") (auto simp only: validate_leaf_def option.case v weights)
qed

lemma validate_step_cong [fundef_cong]:
  assumes "d = d'" "compiles = compiles'" "allow = allow'" "scope = scope'" "seen = seen'" "i = i'"
    and "\<And>sc sn st. weight st < size d' \<Longrightarrow> v sc sn st = v' sc sn st"
  shows "validate_step v compiles allow scope seen i d = validate_step v' compiles' allow' scope' seen' i' d'"
proof -
  note cong = entries_cong [where d = d' and v = v and v' = v', OF assms(7)]
  show ?thesis by (simp only: validate_step_def assms(1-6) cong)
qed

text \<open>A walker that fails records the location of the step it is at, unless a nested one has.\<close>

definition at_location :: "location \<Rightarrow> verr option \<Rightarrow> verr option" where
  "at_location loc e = map_option (\<lambda>(l, t). (case l of None \<Rightarrow> Some loc | Some _ \<Rightarrow> l, t)) e"

lemma at_location_None [simp]: "at_location loc e = None \<longleftrightarrow> e = None"
  by (simp add: at_location_def)

function (sequential) validate_from :: "(string \<Rightarrow> verr option) \<Rightarrow> bool \<Rightarrow> step_scope \<Rightarrow> string fset \<Rightarrow> nat \<Rightarrow> decl list
    \<Rightarrow> verr option" where
  "validate_from compiles allow scope seen i [] = None"
| "validate_from compiles allow scope seen i (d # ds) = first_error
     [at_location (d_location d)
        (validate_step (\<lambda>sc sn st. validate_from compiles allow sc sn 0 st) compiles allow scope seen i d),
      validate_from compiles allow scope seen (Suc i) ds]"
  by pat_completeness auto
termination
proof (relation "measure (\<lambda>(_, _, _, _, _, steps). weight steps)", goal_cases)
  case (2 compiles allow scope seen i d ds sc sn st)
  then show ?case by simp
next
  case (3 compiles allow scope seen i d ds)
  then show ?case by (cases d) simp
qed simp

definition validateSteps :: "(string \<Rightarrow> verr option) \<Rightarrow> bool \<Rightarrow> step_scope \<Rightarrow> string fset \<Rightarrow> decl list \<Rightarrow> verr option" where
  "validateSteps compiles allow scope seen steps = validate_from compiles allow scope seen 0 steps"

end
