(* ===== verification/StructureProperties.thy ===== *)
theory StructureProperties
  imports StructureValidation
begin

text \<open>
  What structure validation establishes for the declarations inside a validated scope.

  \<open>nested steps path d\<close> says that \<open>d\<close> occurs below \<open>steps\<close>, with the owners and roles of the child
  sequences on the way. A path is checked when it does not enter a cancel_on monitor, whose
  declarations are validated one by one, nor the deferred steps of an attempt, which are not
  validated at all (see \<open>attempt_defer_unchecked\<close>). \<open>scope_ok\<close> is inherited along checked paths
  (\<open>scope_ok_child\<close>); every property of this theory is an instance of that.
\<close>

subsection \<open>Walks\<close>

inductive nested :: "decl list \<Rightarrow> (decl \<times> child_role) list \<Rightarrow> decl \<Rightarrow> bool" where
  here: "d \<in> set steps \<Longrightarrow> nested steps [] d"
| below: "p \<in> set steps \<Longrightarrow> (role, child) \<in> set (childSequenceRefs p) \<Longrightarrow> nested child path d
    \<Longrightarrow> nested steps ((p, role) # path) d"

inductive_cases nested_NilE: "nested steps [] d"
inductive_cases nested_ConsE: "nested steps ((p, role) # path) d"

text \<open>The context a walk reaches along a path.\<close>

fun walk_context :: "('c \<Rightarrow> decl \<Rightarrow> child_role \<Rightarrow> 'c option) \<Rightarrow> 'c \<Rightarrow> (decl \<times> child_role) list \<Rightarrow> 'c option" where
  "walk_context down ctx [] = Some ctx"
| "walk_context down ctx ((p, role) # path) =
     (case down ctx p role of None \<Rightarrow> None | Some ctx' \<Rightarrow> walk_context down ctx' path)"

lemma walk_step:
  assumes "walk chk down ctx i steps = None" and "d \<in> set steps"
  shows "(\<exists>j. chk ctx j d = None) \<and> (\<forall>role child. (role, child) \<in> set (childSequenceRefs d) \<longrightarrow>
    (case down ctx d role of None \<Rightarrow> True | Some ctx' \<Rightarrow> walk chk down ctx' 0 child = None))"
  using assms
proof (induction steps arbitrary: i)
  case (Cons e es)
  show ?case
  proof (cases "d = e")
    case True
    have "chk ctx i e = None" and "\<forall>role child. (role, child) \<in> set (childSequenceRefs e) \<longrightarrow>
        (case down ctx e role of None \<Rightarrow> None | Some ctx' \<Rightarrow> walk chk down ctx' 0 child) = None"
      using Cons.prems(1) by auto
    then show ?thesis using True by (fastforce split: option.splits)
  next
    case False
    have "walk chk down ctx (Suc i) es = None" using Cons.prems(1) by simp
    then show ?thesis using Cons.IH [of "Suc i"] Cons.prems(2) False by simp
  qed
qed simp

lemma walk_nested:
  assumes "nested steps path d" and "walk chk down ctx i steps = None" and "walk_context down ctx path = Some ctx'"
  shows "\<exists>j. chk ctx' j d = None"
  using assms
proof (induction arbitrary: ctx i rule: nested.induct)
  case (here d steps)
  then show ?case using walk_step [of chk down ctx i steps d] by simp
next
  case (below p steps role child path d)
  obtain ctx1 where ctx1: "down ctx p role = Some ctx1" "walk_context down ctx1 path = Some ctx'"
    using below.prems(2) by (auto split: option.splits)
  have "walk chk down ctx1 0 child = None"
    using walk_step [OF below.prems(1) below.hyps(1)] below.hyps(2) ctx1(1) by fastforce
  then show ?case using below.IH ctx1(2) by blast
qed

lemma walk_context_all [simp]: "walk_context all_children ctx path = Some ()"
  by (induction path arbitrary: ctx) (auto simp: all_children_def)

lemma walk_context_outside [simp]:
  "walk_context outside_cleanup ctx path = Some () \<longleftrightarrow> (\<forall>(p, role) \<in> set path. \<not> is_cleanup role)"
  by (induction path arbitrary: ctx) (auto simp: outside_cleanup_def split: option.splits)

lemma walk_context_services [simp]:
  "walk_context services_down cleanup path = Some (cleanup \<or> (\<exists>(p, role) \<in> set path. is_cleanup role))"
  by (induction path arbitrary: cleanup) (auto simp: services_down_def)

subsection \<open>Scopes\<close>

text \<open>A sequence that was collected and validated as part of some scope.\<close>

definition collected :: "decl list \<Rightarrow> bool" where
  "collected steps \<longleftrightarrow> (\<exists>i seen seen'. collect i steps seen = Inr seen')"

definition scope_ok :: "(string \<Rightarrow> verr option) \<Rightarrow> bool \<Rightarrow> step_scope \<Rightarrow> decl list \<Rightarrow> bool" where
  "scope_ok compiles allow scope steps \<longleftrightarrow> collected steps \<and> (\<exists>i seen. validate_from compiles allow scope seen i steps = None)"

abbreviation recursive_call :: "(string \<Rightarrow> verr option) \<Rightarrow> bool \<Rightarrow> validator" where
  "recursive_call compiles allow \<equiv> (\<lambda>sc sn st. validate_from compiles allow sc sn 0 st)"

lemma sbind_Inr_right: "sbind m Inr = m"
  by (cases m) (simp_all add: sbind_def)

lemma collect_Cons: "collect i (d # ds) seen = sbind (collect i [d] seen) (\<lambda>seen. collect (Suc i) ds seen)"
proof -
  have nil: "collect j [] = Inr" for j by (rule ext) simp
  show ?thesis by (simp only: collect.simps nil sbind_Inr_right)
qed

lemma collected_ConsD: "collected (d # ds) \<Longrightarrow> collected [d] \<and> collected ds"
  unfolding collected_def by (subst (asm) collect_Cons) (auto simp only: sbind_Inr)

lemma collected_mem: "collected steps \<Longrightarrow> d \<in> set steps \<Longrightarrow> collected [d]"
  by (induction steps) (auto dest: collected_ConsD)

lemma validate_from_mem:
  assumes "validate_from compiles allow scope seen i steps = None" and "d \<in> set steps"
  shows "\<exists>j. validate_step (recursive_call compiles allow) compiles allow scope seen j d = None"
  using assms by (induction steps arbitrary: i) auto

lemma scope_ok_mem:
  assumes "scope_ok compiles allow scope steps" and "d \<in> set steps"
  shows "collected [d] \<and> (\<exists>seen j. validate_step (recursive_call compiles allow) compiles allow scope seen j d = None)"
  using assms validate_from_mem collected_mem unfolding scope_ok_def by blast

lemma validateStepScope_ok:
  "validateStepScope (recursive_call compiles allow) steps scope seen = None \<Longrightarrow> scope_ok compiles allow scope steps"
  unfolding validateStepScope_def scope_ok_def collected_def collectScopeIDs_def by (auto split: sum.splits)

lemma collect_seqs_mem:
  "collect_seqs label seqs seen = Inr seen' \<Longrightarrow> (role, child) \<in> set seqs \<Longrightarrow> collected child"
proof (induction seqs arbitrary: seen)
  case (Cons s seqs)
  obtain r c where s: "s = (r, c)" by (cases s)
  obtain x where "collect 0 c seen = Inr x" "collect_seqs label seqs x = Inr seen'"
    using Cons.prems(1) s by (auto simp: sbind_Inr)
  then show ?case using Cons.IH Cons.prems(2) s unfolding collected_def by auto
qed simp

subsection \<open>One control per declaration\<close>

text \<open>The fields that select what a declaration is. A \<^verbatim>\<open>steps\<close> list selects a conditional block
  when no other control owns it.\<close>

definition control_flags :: "decl \<Rightarrow> bool list" where
  "control_flags d =
     [IsTryCatch d, d_cancel_on d \<noteq> None, d_observe d \<noteq> None, d_once d \<noteq> None, d_attempt d \<noteq> None,
      IsExecutorBlock d, IsEnvironmentBlock d, IsWorkingDirectoryBlock d, d_worktree d \<noteq> None,
      IsConditionalBlock d, d_require d \<noteq> None, d_return d \<noteq> None, d_concurrent d \<noteq> None, d_loop d \<noteq> None,
      d_batch d \<noteq> None, d_foreach d \<noteq> None, d_matrix d \<noteq> None,
      d_type d \<noteq> [], \<not> ActionSource_Empty (d_uses d)]"

definition one_control :: "decl \<Rightarrow> bool" where
  "one_control d \<longleftrightarrow> length (filter id (control_flags d)) = 1"

lemmas control_simps = one_control_def control_flags_def ordinary_fields_def has_fan_out_def
lemmas block_simps = IsConditionalBlock_def IsExecutorBlock_def

text \<open>The id rules of a collected declaration decide the two combinations the entries leave open.\<close>

lemma collected_owner:
  assumes "collected [d]" and "\<not> IsTryCatch d" and "d_cancel_on d = None" and "is_scope_owner d"
  shows "identifierPattern (d_id d)"
  using assms unfolding collected_def
  by (auto simp: sbind_Inr claim_id_def split: if_splits)

lemma owner_id_nonempty:
  assumes "collected [d]" "\<not> IsTryCatch d" "d_cancel_on d = None" "d_id d = []"
  shows "d_observe d = None \<and> d_loop d = None \<and> d_once d = None \<and> d_attempt d = None"
  using collected_owner [OF assms(1-3)] assms(4) unfolding is_scope_owner_def
  by (metis identifier_nonempty)

lemma validated_block_control:
  assumes step: "validate_step v compiles allow scope seen i d = None" and ids: "collected [d]"
    and plain: "\<not> IsTryCatch d" "d_cancel_on d = None" "d_observe d = None" "d_once d = None" "d_attempt d = None"
    and block: "IsExecutorBlock d \<or> IsEnvironmentBlock d \<or> IsWorkingDirectoryBlock d \<or> d_worktree d \<noteq> None
      \<or> IsConditionalBlock d"
  shows "one_control d \<and> d_require d = None"
proof -
  note step = step [unfolded validate_step_def Let_def]
  note owner = owner_id_nonempty [OF ids plain(1,2)]
  consider (executor) "IsExecutorBlock d"
    | (env) "\<not> IsExecutorBlock d" "IsEnvironmentBlock d"
    | (workdir) "\<not> IsExecutorBlock d" "\<not> IsEnvironmentBlock d" "IsWorkingDirectoryBlock d"
    | (worktree) "\<not> IsExecutorBlock d" "\<not> IsEnvironmentBlock d" "\<not> IsWorkingDirectoryBlock d" "d_worktree d \<noteq> None"
    | (cond) "\<not> IsExecutorBlock d" "\<not> IsEnvironmentBlock d" "\<not> IsWorkingDirectoryBlock d" "d_worktree d = None"
        "IsConditionalBlock d"
    using block by blast
  then show ?thesis
  proof cases
    case executor
    have "validateExecutorBlock v allow scope seen d = None" using step plain executor by simp
    then show ?thesis using plain executor owner
      by (simp add: validateExecutorBlock_def control_simps block_simps del: not_None_eq)
  next
    case env
    have "validateEnvironmentBlock v scope seen d = None" using step plain env by simp
    then have "validateBlock d = None" by (simp add: validateEnvironmentBlock_def)
    then show ?thesis using plain env
      by (cases "d_worktree d") (simp_all add: validateBlock_def control_simps block_simps del: not_None_eq)
  next
    case workdir
    have "validateWorkingDirectoryBlock v scope seen d = None" using step plain workdir by simp
    then have "validateBlock d = None" by (simp add: validateWorkingDirectoryBlock_def)
    then show ?thesis using plain workdir
      by (cases "d_worktree d") (simp_all add: validateBlock_def control_simps block_simps del: not_None_eq)
  next
    case worktree
    obtain g steps where g: "d_worktree d = Some (g, steps)" using worktree(4) by (cases "d_worktree d") auto
    have "validateWorktreeEntry v scope seen d = None" using step plain worktree by simp
    then have "validateBlock d = None" by (simp add: validateWorktreeEntry_def g)
    then show ?thesis using plain worktree(1-3) g
      by (simp add: validateBlock_def control_simps block_simps del: not_None_eq)
  next
    case cond
    have "validateConditionalBlock v scope seen d = None" using step plain cond by simp
    then have "validateBlock d = None" by (simp add: validateConditionalBlock_def)
    then show ?thesis using plain cond
      by (simp add: validateBlock_def control_simps block_simps del: not_None_eq)
  qed
qed

lemma validated_entry_control:
  assumes step: "validate_step v compiles allow scope seen i d = None" and ids: "collected [d]"
    and plain: "\<not> IsTryCatch d" "d_cancel_on d = None" "d_observe d = None" "d_once d = None" "d_attempt d = None"
    and no_block: "\<not> IsExecutorBlock d" "\<not> IsEnvironmentBlock d" "\<not> IsWorkingDirectoryBlock d" "d_worktree d = None"
      "\<not> IsConditionalBlock d"
  shows "one_control d \<and> d_require d = None"
proof -
  note step = step [unfolded validate_step_def Let_def]
  note owner = owner_id_nonempty [OF ids plain(1,2)]
  have req: "d_require d = None" using step plain no_block by (cases "d_require d") simp_all
  consider (return) "d_return d \<noteq> None"
    | (concurrent) "d_return d = None" "d_concurrent d \<noteq> None"
    | (loop) "d_return d = None" "d_concurrent d = None" "d_loop d \<noteq> None"
    | (fan) "d_return d = None" "d_concurrent d = None" "d_loop d = None" "has_fan_out d"
    | (leaf) "d_return d = None" "d_concurrent d = None" "d_loop d = None" "\<not> has_fan_out d" by blast
  then show ?thesis
  proof cases
    case return
    have "validateReturnEntry scope d = None" using step plain no_block req return by simp
    then show ?thesis using plain no_block req return owner
      by (simp add: validateReturnEntry_def control_simps block_simps del: not_None_eq)
  next
    case concurrent
    obtain g steps where g: "d_concurrent d = Some (g, steps)" using concurrent(2) by (cases "d_concurrent d") auto
    have "validateConcurrentEntry v scope seen d = None" using step plain no_block req concurrent by simp
    then show ?thesis using plain no_block req concurrent(1) g owner
      by (simp add: validateConcurrentEntry_def control_simps block_simps del: not_None_eq)
  next
    case loop
    obtain g steps where g: "d_loop d = Some (g, steps)" using loop(3) by (cases "d_loop d") auto
    have "validateLoopEntry v compiles scope seen d = None" using step plain no_block req loop by simp
    then show ?thesis using plain no_block req loop(1,2) g
      by (simp add: validateLoopEntry_def control_simps block_simps del: not_None_eq)
  next
    case fan
    have entry: "validateControlEntry v scope seen d = None" using step plain no_block req fan by simp
    then have one: "count_fan_outs d = 1" by (simp add: validateControlEntry_def split: if_splits)
    obtain kind steps limit e where "fan_out d = Some (kind, steps, limit, e)"
      using fan(4) by (cases "fan_out d") (auto simp: fan_out_def has_fan_out_def split: option.splits)
    then show ?thesis using entry plain no_block req fan(1-3) one
      by (simp add: validateControlEntry_def count_fan_outs_def control_simps block_simps split: if_splits del: not_None_eq)
  next
    case leaf
    have "validate_leaf v allow scope seen d = None" using step plain no_block req leaf by simp
    then show ?thesis using plain no_block req leaf
      by (simp add: validate_leaf_def Let_def control_simps block_simps del: not_None_eq)
  qed
qed

lemma validated_one_control:
  assumes "validate_step v compiles allow scope seen i d = None" and "collected [d]"
  shows "one_control d \<and> d_require d = None"
proof -
  note step = assms(1) [unfolded validate_step_def Let_def]
  consider (rescue) "IsTryCatch d"
    | (cancel) "\<not> IsTryCatch d" "d_cancel_on d \<noteq> None"
    | (observe) "\<not> IsTryCatch d" "d_cancel_on d = None" "d_observe d \<noteq> None"
    | (once) "\<not> IsTryCatch d" "d_cancel_on d = None" "d_observe d = None" "d_once d \<noteq> None"
    | (attempt) "\<not> IsTryCatch d" "d_cancel_on d = None" "d_observe d = None" "d_once d = None" "d_attempt d \<noteq> None"
    | (rest) "\<not> IsTryCatch d" "d_cancel_on d = None" "d_observe d = None" "d_once d = None" "d_attempt d = None"
    by blast
  then show ?thesis
  proof cases
    case rescue
    have "validateTryCatchEntry v scope seen d = None" using step rescue by simp
    then show ?thesis using rescue
      by (simp add: validateTryCatchEntry_def control_simps block_simps del: not_None_eq)
  next
    case cancel
    obtain c monitors steps where c: "d_cancel_on d = Some (c, monitors, steps)" using cancel(2) by (cases "d_cancel_on d") auto
    have "validateCancelOnEntry v scope seen d = None" using step cancel by simp
    then show ?thesis using cancel(1) c
      by (simp add: validateCancelOnEntry_def control_simps block_simps del: not_None_eq)
  next
    case observe
    obtain g steps where g: "d_observe d = Some (g, steps)" using observe(3) by (cases "d_observe d") auto
    have "validateObserveEntry v allow scope seen d = None" using step observe by simp
    then show ?thesis using observe(1,2) g
      by (simp add: validateObserveEntry_def control_simps block_simps del: not_None_eq)
  next
    case once
    obtain g steps where g: "d_once d = Some (g, steps)" using once(4) by (cases "d_once d") auto
    have "validateOnceEntry v scope seen d = None" using step once by simp
    then show ?thesis using once(1,2,3) g
      by (simp add: validateOnceEntry_def control_simps block_simps del: not_None_eq)
  next
    case attempt
    obtain g steps where g: "d_attempt d = Some (g, steps)" using attempt(5) by (cases "d_attempt d") auto
    have "validateAttemptEntry v scope seen d = None" using step attempt by simp
    then show ?thesis using attempt(1-4) g
      by (simp add: validateAttemptEntry_def control_simps block_simps del: not_None_eq)
  next
    case rest
    then show ?thesis
      using validated_block_control [OF assms rest] validated_entry_control [OF assms rest] by blast
  qed
qed

text \<open>The count as a sum: one flag that is known leaves a sum of zeros.\<close>

lemma length_filter_id: "length (filter id bs) = (\<Sum>b\<leftarrow>bs. of_bool b)"
  by (induction bs) simp_all

lemma one_control_sum: "one_control d \<longleftrightarrow> (\<Sum>b\<leftarrow>control_flags d. of_bool b) = (1 :: nat)"
  by (simp only: one_control_def length_filter_id)

lemmas control_sum = one_control_sum control_flags_def has_fan_out_def is_scope_owner_def is_container_def

lemma one_control_rescue: "one_control d \<Longrightarrow> IsTryCatch d \<Longrightarrow>
    d_cancel_on d = None \<and> \<not> is_scope_owner d \<and> \<not> is_container d \<and> d_return d = None \<and> \<not> has_fan_out d"
  by (simp add: control_sum del: not_None_eq)

lemma one_control_cancel: "one_control d \<Longrightarrow> d_cancel_on d \<noteq> None \<Longrightarrow>
    \<not> IsTryCatch d \<and> \<not> is_scope_owner d \<and> \<not> is_container d \<and> d_return d = None \<and> \<not> has_fan_out d"
  by (simp add: control_sum del: not_None_eq)

lemma one_control_owner: "one_control d \<Longrightarrow> is_scope_owner d \<Longrightarrow>
    \<not> IsTryCatch d \<and> d_cancel_on d = None \<and> \<not> is_container d \<and> d_return d = None \<and> \<not> has_fan_out d"
  unfolding is_scope_owner_def by (elim disjE; simp add: control_sum del: not_None_eq)

lemma one_control_container: "one_control d \<Longrightarrow> is_container d \<Longrightarrow>
    \<not> IsTryCatch d \<and> d_cancel_on d = None \<and> \<not> is_scope_owner d \<and> d_return d = None \<and> \<not> has_fan_out d"
  unfolding is_container_def by (elim disjE; simp add: control_sum del: not_None_eq)

subsection \<open>Inheritance along child sequences\<close>

definition child_scope :: "step_scope \<Rightarrow> decl \<Rightarrow> child_role \<Rightarrow> step_scope" where
  "child_scope scope d role =
     (if role = ChildDefer then (if scope = ScopeExecutor then ScopeExecutorDefer else ScopeDefer)
      else if role = ChildFinally then ScopeExecutorFinally
      else if IsExecutorBlock d then ScopeExecutor
      else if d_concurrent d \<noteq> None then ScopeConcurrent
      else if d_observe d \<noteq> None then ScopeControl
      else if d_loop d \<noteq> None \<or> has_fan_out d
      then (if scope = ScopeExecutor then ScopeExecutorControl else ScopeControl)
      else scope)"

definition checked_edge :: "decl \<Rightarrow> child_role \<Rightarrow> bool" where
  "checked_edge d role \<longleftrightarrow> role \<noteq> ChildMonitors \<and> (role = ChildDefer \<longrightarrow> d_attempt d = None)"

definition children_ok :: "(string \<Rightarrow> verr option) \<Rightarrow> bool \<Rightarrow> step_scope \<Rightarrow> decl \<Rightarrow> bool" where
  "children_ok compiles allow scope d \<longleftrightarrow> (\<forall>(role, child) \<in> set (childSequenceRefs d). checked_edge d role \<longrightarrow>
     scope_ok compiles allow (child_scope scope d role) child)"

lemma refs_single:
  "\<not> IsTryCatch d \<Longrightarrow> \<not> IsExecutorBlock d \<Longrightarrow> single_body d = Some steps \<Longrightarrow> d_defer d = None \<Longrightarrow>
    childSequenceRefs d = [(ChildSteps, steps)]"
  by (simp add: childSequenceRefs_def with_defer_def)

lemma children_ok_single:
  assumes "\<not> IsTryCatch d" "\<not> IsExecutorBlock d" "single_body d = Some steps" "d_defer d = None"
    and "scope_ok compiles allow (child_scope scope d ChildSteps) steps"
  shows "children_ok compiles allow scope d"
  using assms(5) by (simp add: children_ok_def refs_single [OF assms(1-4)])

lemma collected_children:
  assumes "collected [d]" and "is_container d \<or> IsTryCatch d" and "\<not> is_scope_owner d" "d_cancel_on d = None"
    and "(role, child) \<in> set (childSequenceRefs d)"
  shows "collected child"
proof -
  obtain label seen seen' where "collect_seqs label (childSequenceRefs d) seen = Inr seen'"
    using assms(1-4) unfolding collected_def by (auto simp: sbind_Inr split: if_splits)
  then show ?thesis using collect_seqs_mem assms(5) by blast
qed

lemma recursive_ok:
  "collected steps \<Longrightarrow> recursive_call compiles allow scope seen steps = None \<Longrightarrow> scope_ok compiles allow scope steps"
  unfolding scope_ok_def by blast

lemma children_ok_rescue:
  assumes "validate_step (recursive_call compiles allow) compiles allow scope seen i d = None"
    and "collected [d]" "one_control d" "IsTryCatch d"
  shows "children_ok compiles allow scope d"
proof -
  have entry: "validateTryCatchEntry (recursive_call compiles allow) scope seen d = None"
    using assms(1,4) by (simp add: validate_step_def)
  then obtain ts cs where tc: "d_try d = Some ts" "d_catch d = Some cs"
    by (cases "d_try d"; cases "d_catch d") (simp_all add: validateTryCatchEntry_def validateTryCatchDeclaration_def)
  have refs: "childSequenceRefs d = [(ChildTry, ts), (ChildCatch, cs)]"
    using assms(4) tc by (simp add: childSequenceRefs_def)
  have "collected ts" "collected cs"
    using collected_children [OF assms(2)] one_control_rescue [OF assms(3,4)] assms(4) refs by auto
  moreover have "child_scope scope d ChildTry = scope" "child_scope scope d ChildCatch = scope"
    using one_control_rescue [OF assms(3,4)]
    by (simp_all add: child_scope_def is_scope_owner_def is_container_def del: not_None_eq)
  ultimately show ?thesis using entry tc
    by (auto simp: children_ok_def refs validateTryCatchEntry_def steps_in_def intro: recursive_ok)
qed

lemma children_ok_cancel:
  assumes "validate_step (recursive_call compiles allow) compiles allow scope seen i d = None"
    and "collected [d]" "one_control d" "d_cancel_on d \<noteq> None"
  shows "children_ok compiles allow scope d"
proof -
  note only = one_control_cancel [OF assms(3,4)]
  obtain c monitors steps where c: "d_cancel_on d = Some (c, monitors, steps)" using assms(4) by (cases "d_cancel_on d") auto
  have "recursive_call compiles allow scope seen steps = None"
    using assms(1) only c by (simp add: validate_step_def validateCancelOnEntry_def)
  moreover have "collected steps"
    using assms(2) only c unfolding collected_def by (auto simp: sbind_Inr)
  moreover have "childSequenceRefs d = [(ChildMonitors, monitors), (ChildSteps, steps)]"
    using only c
    by (simp add: childSequenceRefs_def single_body_def is_scope_owner_def is_container_def has_fan_out_def del: not_None_eq)
  moreover have "child_scope scope d ChildSteps = scope"
    using only by (simp add: child_scope_def is_scope_owner_def is_container_def del: not_None_eq)
  ultimately show ?thesis by (auto simp: children_ok_def checked_edge_def intro: recursive_ok)
qed

text \<open>What a declaration is not, once one of its flags is known.\<close>

definition is_block :: "decl \<Rightarrow> bool" where
  "is_block d \<longleftrightarrow> IsExecutorBlock d \<or> IsEnvironmentBlock d \<or> IsWorkingDirectoryBlock d \<or> d_worktree d \<noteq> None
     \<or> IsConditionalBlock d"

lemmas flag_simps = control_sum is_block_def

lemma children_ok_observe:
  assumes step: "validate_step (recursive_call compiles allow) compiles allow scope seen i d = None"
    and one: "one_control d" and g: "d_observe d = Some (g, steps)"
  shows "children_ok compiles allow scope d"
proof -
  have only: "\<not> IsTryCatch d" "d_cancel_on d = None" "\<not> is_block d" "d_concurrent d = None" "\<not> has_fan_out d"
      "d_loop d = None" "d_once d = None" "d_attempt d = None"
    using one g by (simp_all add: flag_simps del: not_None_eq)
  have "validateObserveEntry (recursive_call compiles allow) allow scope seen d = None"
    using step only g by (simp add: validate_step_def)
  then have "validateStepScope (recursive_call compiles allow) steps ScopeControl seen = None"
    by (cases allow) (simp_all add: validateObserveEntry_def g)
  then have "scope_ok compiles allow ScopeControl steps" by (rule validateStepScope_ok)
  moreover have "childSequenceRefs d = [(ChildSteps, steps)]"
    using only g by (simp add: childSequenceRefs_def single_body_def is_block_def has_fan_out_def del: not_None_eq)
  moreover have "child_scope scope d ChildSteps = ScopeControl"
    using only g by (simp add: child_scope_def is_block_def del: not_None_eq)
  ultimately show ?thesis by (simp add: children_ok_def)
qed

lemma children_ok_once:
  assumes step: "validate_step (recursive_call compiles allow) compiles allow scope seen i d = None"
    and one: "one_control d" and g: "d_once d = Some (g, steps)"
  shows "children_ok compiles allow scope d"
proof (rule children_ok_single [where steps = steps])
  have only: "\<not> IsTryCatch d" "d_cancel_on d = None" "\<not> is_block d" "d_concurrent d = None" "\<not> has_fan_out d"
      "d_loop d = None" "d_observe d = None" "d_attempt d = None"
    using one g by (simp_all add: flag_simps del: not_None_eq)
  have entry: "validateOnceEntry (recursive_call compiles allow) scope seen d = None"
    using step only g by (simp add: validate_step_def)
  have "validateStepScope (recursive_call compiles allow) steps scope seen = None"
    using entry by (simp add: validateOnceEntry_def g)
  then have "scope_ok compiles allow scope steps" by (rule validateStepScope_ok)
  then show "scope_ok compiles allow (child_scope scope d ChildSteps) steps"
    using only by (simp add: child_scope_def is_block_def del: not_None_eq)
  show "d_defer d = None" using entry by (simp add: validateOnceEntry_def g)
  show "\<not> IsTryCatch d" "\<not> IsExecutorBlock d" "single_body d = Some steps"
    using only g by (simp_all add: single_body_def is_block_def has_fan_out_def del: not_None_eq)
qed

lemma children_ok_loop:
  assumes step: "validate_step (recursive_call compiles allow) compiles allow scope seen i d = None"
    and one: "one_control d" and g: "d_loop d = Some (g, steps)"
  shows "children_ok compiles allow scope d"
proof (rule children_ok_single [where steps = steps])
  have only: "\<not> IsTryCatch d" "d_cancel_on d = None" "\<not> is_block d" "d_concurrent d = None" "\<not> has_fan_out d"
      "d_once d = None" "d_observe d = None" "d_attempt d = None" "d_require d = None" "d_return d = None"
    using one g by (simp_all add: flag_simps del: not_None_eq)
  have entry: "validateLoopEntry (recursive_call compiles allow) compiles scope seen d = None"
    using step only g by (simp add: validate_step_def is_block_def del: not_None_eq)
  have "validateStepScope (recursive_call compiles allow) steps
      (if scope = ScopeExecutor then ScopeExecutorControl else ScopeControl) seen = None"
    using entry by (simp add: validateLoopEntry_def g)
  from validateStepScope_ok [OF this] show "scope_ok compiles allow (child_scope scope d ChildSteps) steps"
    using only g by (simp add: child_scope_def is_block_def del: not_None_eq)
  show "d_defer d = None" using entry by (simp add: validateLoopEntry_def g)
  show "\<not> IsTryCatch d" "\<not> IsExecutorBlock d" "single_body d = Some steps"
    using only g by (simp_all add: single_body_def is_block_def has_fan_out_def del: not_None_eq)
qed

lemma children_ok_attempt:
  assumes step: "validate_step (recursive_call compiles allow) compiles allow scope seen i d = None"
    and one: "one_control d" and g: "d_attempt d = Some (c, steps)"
  shows "children_ok compiles allow scope d"
proof -
  have only: "\<not> IsTryCatch d" "d_cancel_on d = None" "\<not> is_block d" "d_concurrent d = None" "\<not> has_fan_out d"
      "d_loop d = None" "d_observe d = None" "d_once d = None"
    using one g by (simp_all add: flag_simps del: not_None_eq)
  have entry: "validateAttemptEntry (recursive_call compiles allow) scope seen d = None"
    using step only g by (simp add: validate_step_def)
  have "scope_ok compiles allow scope steps"
  proof (cases "IsDelay c")
    case True
    then have "steps = []" using entry g
      by (simp add: validateAttemptEntry_def AttemptControl_Validate_def validateDelay_def)
    then show ?thesis by (simp add: scope_ok_def collected_def)
  next
    case False
    then have "validateStepScope (recursive_call compiles allow) steps scope seen = None"
      using entry g by (simp add: validateAttemptEntry_def)
    then show ?thesis by (rule validateStepScope_ok)
  qed
  moreover have "childSequenceRefs d = with_defer d [(ChildSteps, steps)]"
    using only g by (simp add: childSequenceRefs_def single_body_def is_block_def has_fan_out_def del: not_None_eq)
  moreover have "child_scope scope d ChildSteps = scope"
    using only by (simp add: child_scope_def is_block_def del: not_None_eq)
  ultimately show ?thesis
    using g by (auto simp: children_ok_def with_defer_def checked_edge_def split: option.splits)
qed

lemma children_ok_fan:
  assumes step: "validate_step (recursive_call compiles allow) compiles allow scope seen i d = None"
    and one: "one_control d" and fan: "has_fan_out d"
  shows "children_ok compiles allow scope d"
proof -
  have only: "\<not> IsTryCatch d" "d_cancel_on d = None" "\<not> is_block d" "d_concurrent d = None" "d_loop d = None"
      "d_once d = None" "d_observe d = None" "d_attempt d = None" "d_require d = None" "d_return d = None"
    using one fan unfolding has_fan_out_def by (elim disjE; simp add: flag_simps del: not_None_eq)+
  have entry: "validateControlEntry (recursive_call compiles allow) scope seen d = None"
    using step only fan by (simp add: validate_step_def is_block_def del: not_None_eq)
  then have count: "count_fan_outs d = 1" by (simp add: validateControlEntry_def split: if_splits)
  obtain kind steps limit e where k: "fan_out d = Some (kind, steps, limit, e)"
    using fan by (cases "fan_out d") (auto simp: fan_out_def has_fan_out_def split: option.splits)
  have "validateStepScope (recursive_call compiles allow) steps
      (if scope = ScopeExecutor then ScopeExecutorControl else ScopeControl) seen = None" "d_defer d = None"
    using entry k count by (simp_all add: validateControlEntry_def)
  moreover from validateStepScope_ok [OF this(1)]
  have "scope_ok compiles allow (child_scope scope d ChildSteps) steps"
    using only fan by (simp add: child_scope_def is_block_def del: not_None_eq)
  moreover have "single_body d = Some steps"
    using only k count by (simp add: single_body_def is_block_def fan_out_def count_fan_outs_def split: option.splits if_splits)
  ultimately show ?thesis
    using only children_ok_single unfolding is_block_def by blast
qed

lemma transparent_body:
  assumes step: "validate_step v compiles allow scope seen i d = None" and one: "one_control d"
    and "\<not> IsExecutorBlock d"
    and kind: "IsEnvironmentBlock d \<or> IsWorkingDirectoryBlock d \<or> d_worktree d \<noteq> None \<or> IsConditionalBlock d
        \<or> d_concurrent d \<noteq> None"
  shows "\<exists>steps. single_body d = Some steps \<and> d_defer d = None \<and> v (child_scope scope d ChildSteps) seen steps = None"
  using kind
proof (elim disjE)
  assume d: "IsEnvironmentBlock d"
  then have "validateEnvironmentBlock v scope seen d = None"
    using step one by (simp add: validate_step_def flag_simps del: not_None_eq)
  then show ?thesis using d one
    by (simp add: validateEnvironmentBlock_def validateBlock_def single_body_def child_scope_def flag_simps del: not_None_eq)
next
  assume d: "IsWorkingDirectoryBlock d"
  then have "validateWorkingDirectoryBlock v scope seen d = None"
    using step one by (simp add: validate_step_def flag_simps del: not_None_eq)
  then show ?thesis using d one
    by (simp add: validateWorkingDirectoryBlock_def validateBlock_def single_body_def child_scope_def flag_simps del: not_None_eq)
next
  assume "d_worktree d \<noteq> None"
  then obtain g steps where d: "d_worktree d = Some (g, steps)" by (cases "d_worktree d") auto
  then have "validateWorktreeEntry v scope seen d = None"
    using step one by (simp add: validate_step_def flag_simps del: not_None_eq)
  then show ?thesis using d one
    by (simp add: validateWorktreeEntry_def single_body_def child_scope_def flag_simps del: not_None_eq)
next
  assume d: "IsConditionalBlock d"
  then have "validateConditionalBlock v scope seen d = None"
    using step one by (simp add: validate_step_def flag_simps del: not_None_eq)
  then show ?thesis using d one
    by (simp add: validateConditionalBlock_def validateBlock_def single_body_def child_scope_def flag_simps del: not_None_eq)
next
  assume "d_concurrent d \<noteq> None"
  then obtain g steps where d: "d_concurrent d = Some (g, steps)" by (cases "d_concurrent d") auto
  then have "validateConcurrentEntry v scope seen d = None"
    using step one by (simp add: validate_step_def flag_simps del: not_None_eq)
  then show ?thesis using d one
    by (simp add: validateConcurrentEntry_def single_body_def child_scope_def flag_simps del: not_None_eq)
qed

lemma children_ok_container:
  assumes step: "validate_step (recursive_call compiles allow) compiles allow scope seen i d = None"
    and ids: "collected [d]" and one: "one_control d" and con: "is_container d"
  shows "children_ok compiles allow scope d"
proof -
  have only: "\<not> IsTryCatch d" "d_cancel_on d = None" "\<not> has_fan_out d" "d_loop d = None" "d_once d = None"
      "d_observe d = None" "d_attempt d = None" "d_return d = None" "d_require d = None"
    using one con unfolding is_container_def by (elim disjE; simp add: flag_simps del: not_None_eq)+
  note plain = only(1,2,4-9)
  have child: "collected child" if "(role, child) \<in> set (childSequenceRefs d)" for role child
    using collected_children [OF ids] con only that by (simp add: is_scope_owner_def)
  show ?thesis
  proof (cases "IsExecutorBlock d")
    case True
    then have entry: "validateExecutorBlock (recursive_call compiles allow) allow scope seen d = None"
      using step only by (simp add: validate_step_def)
    then have refs: "childSequenceRefs d = [(ChildSteps, steps_in (d_steps d)), (ChildFinally, steps_in (d_finally d))]"
      using True only by (simp add: childSequenceRefs_def with_defer_def validateExecutorBlock_def)
    have "recursive_call compiles allow ScopeExecutor seen (steps_in (d_steps d)) = None"
        "recursive_call compiles allow ScopeExecutorFinally seen (steps_in (d_finally d)) = None"
      using entry by (cases allow; simp add: validateExecutorBlock_def)+
    moreover have "collected (steps_in (d_steps d))" "collected (steps_in (d_finally d))"
      by (rule child [of ChildSteps], simp add: refs) (rule child [of ChildFinally], simp add: refs)
    ultimately show ?thesis
      using True by (simp add: children_ok_def refs child_scope_def recursive_ok)
  next
    case False
    have one_of: "IsEnvironmentBlock d \<or> IsWorkingDirectoryBlock d \<or> d_worktree d \<noteq> None \<or> IsConditionalBlock d
        \<or> d_concurrent d \<noteq> None" using con False by (auto simp: is_container_def)
    have "\<exists>steps seen. single_body d = Some steps \<and> d_defer d = None
        \<and> recursive_call compiles allow (child_scope scope d ChildSteps) seen steps = None"
      using transparent_body [OF step one False one_of] by blast
    then obtain steps seen where s: "single_body d = Some steps" "d_defer d = None"
        "recursive_call compiles allow (child_scope scope d ChildSteps) seen steps = None" by blast
    have "collected steps" using child refs_single [OF only(1) False s(1,2)] by simp
    then show ?thesis using children_ok_single [OF only(1) False s(1,2)] recursive_ok [OF _ s(3)] by blast
  qed
qed

lemma children_ok_leaf:
  assumes step: "validate_step (recursive_call compiles allow) compiles allow scope seen i d = None"
    and ids: "collected [d]" and one: "one_control d" and req: "d_require d = None"
    and only: "\<not> IsTryCatch d" "d_cancel_on d = None" "\<not> is_scope_owner d" "\<not> is_container d" "\<not> has_fan_out d"
  shows "children_ok compiles allow scope d"
proof -
  have refs: "childSequenceRefs d = with_defer d []"
    using only
    by (simp add: childSequenceRefs_def single_body_def is_scope_owner_def is_container_def has_fan_out_def del: not_None_eq)
  show ?thesis
  proof (cases "d_defer d")
    case None
    then show ?thesis by (simp add: children_ok_def refs with_defer_def)
  next
    case (Some steps)
    have "d_return d = None"
    proof (rule ccontr)
      assume r: "d_return d \<noteq> None"
      then have "validateReturnEntry scope d = None"
        using step only req
        by (simp add: validate_step_def is_scope_owner_def is_container_def has_fan_out_def del: not_None_eq)
      then show False using Some by (simp add: validateReturnEntry_def)
    qed
    then have leaf: "validate_leaf (recursive_call compiles allow) allow scope seen d = None"
      using step only req
      by (simp add: validate_step_def is_scope_owner_def is_container_def has_fan_out_def del: not_None_eq)
    then have "recursive_call compiles allow (child_scope scope d ChildDefer) seen steps = None"
      using Some by (cases scope) (simp_all add: validate_leaf_def Let_def defer_scope_def child_scope_def)
    moreover have "collected steps"
      using ids only Some \<open>d_return d = None\<close> req unfolding collected_def
      by (auto simp: sbind_Inr steps_in_def)
    ultimately show ?thesis
      using Some by (auto simp: children_ok_def refs with_defer_def intro: recursive_ok)
  qed
qed

text \<open>The declarations of a validated scope are what they seem, and so are their child sequences.\<close>

lemma scope_ok_member:
  assumes "scope_ok compiles allow scope steps" and "d \<in> set steps"
  shows "one_control d \<and> d_require d = None \<and> children_ok compiles allow scope d"
proof -
  obtain seen j where step: "validate_step (recursive_call compiles allow) compiles allow scope seen j d = None"
    and ids: "collected [d]" using scope_ok_mem [OF assms] by blast
  have one: "one_control d" and req: "d_require d = None" using validated_one_control [OF step ids] by auto
  consider (rescue) "IsTryCatch d" | (cancel) "d_cancel_on d \<noteq> None" | (owner) "is_scope_owner d"
    | (container) "is_container d" | (fan) "has_fan_out d"
    | (leaf) "\<not> IsTryCatch d" "d_cancel_on d = None" "\<not> is_scope_owner d" "\<not> is_container d" "\<not> has_fan_out d" by blast
  then have "children_ok compiles allow scope d"
  proof cases
    case owner
    then show ?thesis
      using children_ok_observe [OF step one] children_ok_once [OF step one] children_ok_loop [OF step one]
        children_ok_attempt [OF step one]
      unfolding is_scope_owner_def by (metis not_None_eq surj_pair)
  qed (use children_ok_rescue [OF step ids one] children_ok_cancel [OF step ids one] children_ok_container [OF step ids one]
      children_ok_fan [OF step one] children_ok_leaf [OF step ids one req] in blast)+
  then show ?thesis using one req by blast
qed

text \<open>The scope a path leads to.\<close>

fun path_scope :: "step_scope \<Rightarrow> (decl \<times> child_role) list \<Rightarrow> step_scope" where
  "path_scope scope [] = scope"
| "path_scope scope ((p, role) # path) = path_scope (child_scope scope p role) path"

definition checked_path :: "(decl \<times> child_role) list \<Rightarrow> bool" where
  "checked_path path \<longleftrightarrow> (\<forall>(p, role) \<in> set path. checked_edge p role)"

lemma nested_scope:
  assumes "nested steps path d" and "scope_ok compiles allow scope steps" and "checked_path path"
  shows "\<exists>siblings. d \<in> set siblings \<and> scope_ok compiles allow (path_scope scope path) siblings"
  using assms
proof (induction arbitrary: scope rule: nested.induct)
  case (here d steps)
  then show ?case by auto
next
  case (below p steps role child path d)
  have "scope_ok compiles allow (child_scope scope p role) child"
    using scope_ok_member [OF below.prems(1) below.hyps(1)] below.hyps(2) below.prems(2)
    by (auto simp: children_ok_def checked_path_def)
  then show ?case using below.IH below.prems(2) by (simp add: checked_path_def)
qed

lemma nested_checked:
  assumes "nested steps path d" and "scope_ok compiles allow scope steps" and "checked_path path"
  shows "one_control d \<and> d_require d = None \<and> collected [d] \<and> children_ok compiles allow (path_scope scope path) d
    \<and> (\<exists>seen j. validate_step (recursive_call compiles allow) compiles allow (path_scope scope path) seen j d = None)"
  using nested_scope [OF assms] scope_ok_member scope_ok_mem by blast

end
