(* ===== verification/Suggest.thy ===== *)
theory Suggest
  imports Declarations
begin

text \<open>
  Name suggestions (validation/constructors.go, \<^verbatim>\<open>Suggest\<close> and \<^verbatim>\<open>levenshtein\<close>). A rune is a byte and
  lower case is that of ASCII here: names of steps, targets and workflows are ASCII.

  The main facts: the two-row table computes the least number of insertions, deletions and
  substitutions, and a suggestion is a candidate at the least distance, no further than a third of
  the length of the value (or one).
\<close>

subsection \<open>The code\<close>

definition cell :: "char \<Rightarrow> string \<Rightarrow> nat list \<Rightarrow> nat list \<Rightarrow> nat \<Rightarrow> nat list" where
  "cell a b previous current column = current[column + 1 :=
     min (min (current ! column + 1) (previous ! (column + 1) + 1))
       (previous ! column + (if a \<noteq> b ! column then 1 else 0))]"

definition next_row :: "string \<Rightarrow> nat list \<Rightarrow> nat \<times> char \<Rightarrow> nat list" where
  "next_row b previous = (\<lambda>(row, a). foldl (cell a b previous)
     ((replicate (length b + 1) 0)[0 := row + 1]) [0..<length b])"

definition levenshtein :: "string \<Rightarrow> string \<Rightarrow> nat" where
  "levenshtein a b = foldl (next_row b) [0..<length b + 1] (zip [0..<length a] a) ! length b"

definition to_lower :: "string \<Rightarrow> string" where
  "to_lower s = map (\<lambda>c. if is_upper c then char_of ((of_char c :: nat) + 32) else c) s"

text \<open>The loop over the ordered candidates; no candidate yet is at an infinite distance.\<close>

fun closest :: "string \<Rightarrow> string \<Rightarrow> nat option \<Rightarrow> string list \<Rightarrow> string \<times> nat option" where
  "closest value best bestDistance [] = (best, bestDistance)"
| "closest value best bestDistance (c # cs) =
     (let distance = levenshtein value (to_lower c) in
      if (case bestDistance of None \<Rightarrow> True | Some d \<Rightarrow> distance < d)
      then closest value c (Some distance) cs
      else closest value best bestDistance cs)"

definition Suggest :: "string \<Rightarrow> string list \<Rightarrow> string" where
  "Suggest value candidates =
     (let value = to_lower (trimSpace value) in
      if value = [] then []
      else case closest value [] None (sort candidates) of
        (best, None) \<Rightarrow> []
      | (best, Some d) \<Rightarrow> if d > max 1 (length value div 3) then [] else best)"

subsection \<open>The edit distance\<close>

inductive edits :: "nat \<Rightarrow> 'a list \<Rightarrow> 'a list \<Rightarrow> bool" where
  nil: "edits 0 [] []"
| keep: "edits n xs ys \<Longrightarrow> edits n (x # xs) (x # ys)"
| substitute: "edits n xs ys \<Longrightarrow> edits (Suc n) (x # xs) (y # ys)"
| add_char: "edits n xs ys \<Longrightarrow> edits (Suc n) xs (y # ys)"
| drop_char: "edits n xs ys \<Longrightarrow> edits (Suc n) (x # xs) ys"

inductive_cases edits_Nil1E: "edits n [] ys"
inductive_cases edits_Nil2E: "edits n xs []"
inductive_cases edits_ConsE: "edits n (x # xs) (y # ys)"

fun edit :: "'a list \<Rightarrow> 'a list \<Rightarrow> nat" where
  "edit [] ys = length ys"
| "edit (x # xs) [] = Suc (length xs)"
| "edit (x # xs) (y # ys) =
     min (min (edit xs (y # ys) + 1) (edit (x # xs) ys + 1)) (edit xs ys + (if x \<noteq> y then 1 else 0))"

lemma edit_Nil2: "edit xs [] = length xs"
  by (cases xs) simp_all

lemma edits_edit: "edits (edit xs ys) xs ys"
proof (induction xs ys rule: edit.induct)
  case (1 ys)
  show ?case by (induction ys) (auto intro: edits.intros)
next
  case (2 x xs)
  have "edits (length xs) xs []" by (induction xs) (auto intro: edits.intros)
  then show ?case by (auto intro: edits.intros)
next
  case (3 x xs y ys)
  then show ?case by (auto simp: min_def intro: edits.intros)
qed

lemma edits_lengths: "edits n xs ys \<Longrightarrow> length xs \<le> length ys + n \<and> length ys \<le> length xs + n"
  by (induction rule: edits.induct) auto

lemma edit_least: "edits n xs ys \<Longrightarrow> edit xs ys \<le> n"
proof (induction rule: edits.induct)
  case (add_char n xs ys y)
  then show ?case by (cases xs) auto
next
  case (drop_char n xs ys x)
  then show ?case by (cases ys) (auto simp: edit_Nil2)
qed auto

lemma edits_append: "edits n xs ys \<Longrightarrow> edits m us vs \<Longrightarrow> edits (n + m) (xs @ us) (ys @ vs)"
  by (induction rule: edits.induct) (auto intro: edits.intros)

lemma edits_rev: "edits n xs ys \<Longrightarrow> edits n (rev xs) (rev ys)"
proof (induction rule: edits.induct)
  case (keep n xs ys x)
  then show ?case using edits_append [OF keep.IH, of 0 "[x]" "[x]"] by (auto intro: edits.intros)
next
  case (substitute n xs ys x y)
  have "edits (Suc 0) [x] [y]" by (intro edits.substitute edits.nil)
  then show ?case using edits_append [OF substitute.IH, of "Suc 0" "[x]" "[y]"] by simp
next
  case (add_char n xs ys y)
  then show ?case using edits_append [OF add_char.IH, of 1 "[]" "[y]"] by (auto intro: edits.intros)
next
  case (drop_char n xs ys x)
  then show ?case using edits_append [OF drop_char.IH, of 1 "[x]" "[]"] by (auto intro: edits.intros)
qed (simp add: edits.nil)

lemma edit_rev: "edit (rev xs) (rev ys) = edit xs ys"
  using edit_least edits_edit edits_rev by (metis antisym rev_rev_ident)

lemma edit_snoc:
  "edit (xs @ [x]) (ys @ [y]) =
     min (min (edit xs (ys @ [y]) + 1) (edit (xs @ [x]) ys + 1)) (edit xs ys + (if x \<noteq> y then 1 else 0))"
  using edit_rev [of "xs @ [x]" "ys @ [y]"] edit_rev [of xs "ys @ [y]"] edit_rev [of "xs @ [x]" ys] edit_rev [of xs ys]
  by simp

subsection \<open>The table\<close>

definition row_of :: "string \<Rightarrow> string \<Rightarrow> nat list" where
  "row_of xs b = map (\<lambda>j. edit xs (take j b)) [0..<length b + 1]"

lemma row_of_nth [simp]: "j \<le> length b \<Longrightarrow> row_of xs b ! j = edit xs (take j b)"
  by (simp add: row_of_def del: upt_Suc)

lemma row_of_length [simp]: "length (row_of xs b) = length b + 1"
  by (simp add: row_of_def)

lemma cells_filled:
  assumes "k \<le> length b" and start: "start = (replicate (length b + 1) 0)[0 := length xs + 1]"
  shows "length (foldl (cell x b (row_of xs b)) start [0..<k]) = length b + 1 \<and>
    (\<forall>j \<le> k. foldl (cell x b (row_of xs b)) start [0..<k] ! j = edit (xs @ [x]) (take j b))"
  using assms(1)
proof (induction k)
  case 0
  then show ?case by (simp add: start edit_Nil2)
next
  case (Suc k)
  let ?cur = "foldl (cell x b (row_of xs b)) start [0..<k]"
  have len: "length ?cur = length b + 1" and cur: "\<And>j. j \<le> k \<Longrightarrow> ?cur ! j = edit (xs @ [x]) (take j b)"
    using Suc by auto
  have step: "foldl (cell x b (row_of xs b)) start [0..<Suc k] = cell x b (row_of xs b) ?cur k" by simp
  have "take (Suc k) b = take k b @ [b ! k]" using Suc.prems by (simp add: take_Suc_conv_app_nth)
  then have "cell x b (row_of xs b) ?cur k ! Suc k = edit (xs @ [x]) (take (Suc k) b)"
    using Suc.prems len cur [of k] by (simp add: cell_def edit_snoc)
  moreover have "cell x b (row_of xs b) ?cur k ! j = edit (xs @ [x]) (take j b)" if "j \<le> k" for j
    using that cur [of j] by (simp add: cell_def)
  ultimately show ?case using len unfolding step by (auto simp: cell_def le_Suc_eq)
qed

lemma next_row_edit: "next_row b (row_of xs b) (length xs, x) = row_of (xs @ [x]) b"
proof (rule nth_equalityI)
  have filled: "length (next_row b (row_of xs b) (length xs, x)) = length b + 1"
      "\<forall>j \<le> length b. next_row b (row_of xs b) (length xs, x) ! j = edit (xs @ [x]) (take j b)"
    using cells_filled [where k = "length b" and b = b and xs = xs and x = x, OF order_refl refl] by (simp_all add: next_row_def)
  then show "length (next_row b (row_of xs b) (length xs, x)) = length (row_of (xs @ [x]) b)" by simp
  fix j assume "j < length (next_row b (row_of xs b) (length xs, x))"
  then show "next_row b (row_of xs b) (length xs, x) ! j = row_of (xs @ [x]) b ! j" using filled by simp
qed

lemma table_rows: "foldl (next_row b) (row_of xs b) (zip [length xs..<length xs + length ys] ys) = row_of (xs @ ys) b"
proof (induction ys arbitrary: xs)
  case (Cons y ys)
  have "zip [length xs..<length xs + length (y # ys)] (y # ys) =
      (length xs, y) # zip [length (xs @ [y])..<length (xs @ [y]) + length ys] ys"
    by (simp add: upt_conv_Cons del: upt_Suc)
  then show ?case using Cons.IH [of "xs @ [y]"] by (simp add: next_row_edit)
qed simp

lemma levenshtein_edit: "levenshtein a b = edit a b"
proof -
  have "[0..<length b + 1] = row_of [] b"
    unfolding row_of_def by (rule nth_equalityI) (simp_all add: min_def del: upt_Suc)
  then show ?thesis using table_rows [of b "[]" a] by (simp add: levenshtein_def del: upt_Suc)
qed

subsection \<open>Properties\<close>

lemma closest_least:
  assumes "closest v best bd cs = (r, Some d)"
    and "case bd of None \<Rightarrow> True | Some x \<Rightarrow> levenshtein v (to_lower best) = x"
  shows "levenshtein v (to_lower r) = d \<and> (r \<in> set cs \<or> r = best \<and> bd = Some d)
    \<and> (\<forall>c \<in> set cs. d \<le> levenshtein v (to_lower c)) \<and> (case bd of None \<Rightarrow> True | Some x \<Rightarrow> d \<le> x)"
  using assms
proof (induction v best bd cs rule: closest.induct)
  case (2 v best bd c cs)
  show ?case
  proof (cases "case bd of None \<Rightarrow> True | Some x \<Rightarrow> levenshtein v (to_lower c) < x")
    case True
    then show ?thesis using 2 by (fastforce simp: Let_def split: option.splits)
  next
    case False
    then show ?thesis using 2 by (fastforce simp: Let_def not_less split: option.splits)
  qed
qed auto


text \<open>Suggestions. A name that is suggested is one of the candidates, no candidate is closer, and it
  is within a third of the length of the value, or one edit.\<close>

theorem suggest_closest:
  assumes "Suggest value candidates = r" and "r \<noteq> []"
  shows "r \<in> set candidates \<and>
    levenshtein (to_lower (trimSpace value)) (to_lower r) \<le> max 1 (length (trimSpace value) div 3) \<and>
    list_all (\<lambda>c. levenshtein (to_lower (trimSpace value)) (to_lower r)
      \<le> levenshtein (to_lower (trimSpace value)) (to_lower c)) candidates"
proof -
  let ?v = "to_lower (trimSpace value)"
  have len: "length ?v = length (trimSpace value)" by (simp add: to_lower_def)
  obtain b d where b: "closest ?v [] None (sort candidates) = (b, Some d)"
    using assms by (auto simp: Suggest_def Let_def split: if_splits prod.splits option.splits)
  then have r: "r = b" "d \<le> max 1 (length ?v div 3)"
    using assms by (auto simp: Suggest_def Let_def split: if_splits)
  then show ?thesis using closest_least [OF b] len by (simp add: list_all_iff)
qed

theorem suggest_closest_witness:
  "Suggest ''tst'' [''test'', ''build''] = ''test'' \<and> ''test'' \<in> set [''test'', ''build'']"
proof -
  have run: "Suggest ''tst'' [''test'', ''build''] = ''test''" by code_simp
  show ?thesis using suggest_closest [OF run] run by simp
qed

end
