(* ===== verification/PathMatch.thy ===== *)
theory PathMatch
  imports Declarations
begin

text \<open>
  The parts of Go's packages path and path/filepath that the scoped blocks use: path.Match on byte
  strings, with the syntax of \<open>pattern_ok\<close>, and the lexical filepath.Clean, Join and IsAbs of Unix.
\<close>

subsection \<open>path.Match\<close>

text \<open>The character an escape or a plain byte of a class stands for\<close>

definition esc_char :: "string \<Rightarrow> char" where
  "esc_char s = (if hd s = CHR 0x5C then hd (tl s) else hd s)"

definition in_range :: "char \<Rightarrow> string \<Rightarrow> string \<Rightarrow> bool" where
  "in_range c s r = (let lo = esc_char s; hi = (if hd r = CHR ''-'' then esc_char (tl r) else lo)
     in (of_char lo :: nat) \<le> of_char c \<and> (of_char c :: nat) \<le> of_char hi)"

function (sequential) match_class :: "char \<Rightarrow> nat \<Rightarrow> bool \<Rightarrow> string \<Rightarrow> (bool \<times> string) option" where
  "match_class c nrange found s =
     (if s \<noteq> [] \<and> hd s = CHR '']'' \<and> nrange > 0 then Some (found, tl s)
      else case get_esc s of
          None \<Rightarrow> None
        | Some r \<Rightarrow> (case (if hd r = CHR ''-'' then get_esc (tl r) else Some r) of
              None \<Rightarrow> None
            | Some u \<Rightarrow> match_class c (Suc nrange) (found \<or> in_range c s r) u))"
  by pat_completeness auto

lemma class_step_length:
  assumes "get_esc s = Some r" and "(if hd r = CHR ''-'' then get_esc (tl r) else Some r) = Some u"
  shows "length u < length s"
proof -
  have "length r < length s" using assms(1) by (rule get_esc_length)
  moreover have "length u \<le> length r"
    using assms(2) get_esc_length [of "tl r" u] by (auto split: if_splits)
  ultimately show ?thesis by simp
qed

termination match_class
  by (relation "measure (\<lambda>(_, _, _, s). length s)") (auto intro: class_step_length)

declare match_class.simps [simp del]

lemma match_class_length: "match_class c n found s = Some (b, r) \<Longrightarrow> length r \<le> length s"
proof (induction c n found s rule: match_class.induct)
  case (1 c n found s)
  show ?case
  proof (cases "s \<noteq> [] \<and> hd s = CHR '']'' \<and> n > 0")
    case True
    then have "r = tl s" using "1.prems" by (simp add: match_class.simps [of c n found s])
    then show ?thesis by simp
  next
    case False
    then obtain t u where t: "get_esc s = Some t"
      and u: "(if hd t = CHR ''-'' then get_esc (tl t) else Some t) = Some u"
      and more: "match_class c (Suc n) (found \<or> in_range c s t) u = Some (b, r)"
      using "1.prems" by (subst (asm) match_class.simps) (auto split: option.splits if_splits)
    show ?thesis using "1.IH" [OF False t u more] class_step_length [OF t u] by simp
  qed
qed

text \<open>matchChunk: the rest of the name once the chunk matched\<close>

function (sequential) match_chunk :: "string \<Rightarrow> string \<Rightarrow> string option" where
  "match_chunk [] name = Some name"
| "match_chunk (p # ps) [] = None"
| "match_chunk (p # ps) (c # cs) =
     (if p = CHR ''['' then
        (let negated = (ps \<noteq> [] \<and> hd ps = CHR ''^'')
         in case match_class c 0 False (if negated then tl ps else ps) of
              None \<Rightarrow> None
            | Some (found, rest) \<Rightarrow> if found = negated then None else match_chunk rest cs)
      else if p = CHR ''?'' then (if c = CHR ''/'' then None else match_chunk ps cs)
      else if p = CHR 0x5C then (if ps \<noteq> [] \<and> hd ps = c then match_chunk (tl ps) cs else None)
      else if p = c then match_chunk ps cs else None)"
  by pat_completeness auto
termination
  by (relation "measure (\<lambda>(_, name). length name)") auto

text \<open>The search of a star: the first suffix of the name, before a slash, on which the chunk matches\<close>

fun star_tail :: "string \<Rightarrow> string \<Rightarrow> string \<Rightarrow> string option" where
  "star_tail piece rest [] = None"
| "star_tail piece rest (c # cs) =
     (if c = CHR ''/'' then None
      else case match_chunk piece cs of
          Some t \<Rightarrow> if rest = [] \<and> t \<noteq> [] then star_tail piece rest cs else Some t
        | None \<Rightarrow> star_tail piece rest cs)"

function (sequential) path_match :: "string \<Rightarrow> string \<Rightarrow> bool" where
  "path_match [] name = (name = [])"
| "path_match (p # ps) name =
     (let star = (p = CHR ''*'');
          parts = scan_chunk False (dropWhile (\<lambda>c. c = CHR ''*'') (p # ps))
      in if fst parts = [] then CHR ''/'' \<notin> set name
         else case match_chunk (fst parts) name of
             Some t \<Rightarrow>
               if t = [] \<or> snd parts \<noteq> [] then path_match (snd parts) t
               else if star then (case star_tail (fst parts) (snd parts) name of
                   None \<Rightarrow> False | Some t \<Rightarrow> path_match (snd parts) t)
               else False
           | None \<Rightarrow>
               if star then (case star_tail (fst parts) (snd parts) name of
                   None \<Rightarrow> False | Some t \<Rightarrow> path_match (snd parts) t)
               else False)"
  by pat_completeness auto

lemma scan_rest_length:
  assumes parts: "parts = scan_chunk False (dropWhile (\<lambda>c. c = CHR ''*'') (p # ps))" and more: "fst parts \<noteq> []"
  shows "length (snd parts) < length (p # ps)"
proof -
  let ?tail = "dropWhile (\<lambda>c. c = CHR ''*'') (p # ps)"
  have "length (fst parts) + length (snd parts) = length ?tail"
    using arg_cong [OF scan_chunk_append [of False ?tail], of length] by (simp add: parts)
  moreover have "length ?tail \<le> length (p # ps)" by (rule length_dropWhile_le)
  moreover have "0 < length (fst parts)" using more by simp
  ultimately show ?thesis by linarith
qed

termination path_match
  by (relation "measure (\<lambda>(pattern, _). length pattern)", rule wf_measure)
    (unfold in_measure split_conv, (erule (1) scan_rest_length)+)

text \<open>strings.ContainsAny on the special characters of a pattern\<close>

definition has_special :: "string \<Rightarrow> bool" where
  "has_special s = list_ex (\<lambda>c. c \<in> set ([CHR ''*'', CHR ''?'', CHR ''['', CHR 0x5C])) s"

subsection \<open>path/filepath\<close>

text \<open>strings.Split at one character\<close>

fun split_at :: "char \<Rightarrow> string \<Rightarrow> string list" where
  "split_at x [] = [[]]"
| "split_at x (c # cs) = (if c = x then [] # split_at x cs
     else case split_at x cs of p # ps \<Rightarrow> (c # p) # ps | [] \<Rightarrow> [[c]])"

abbreviation split_slash :: "string \<Rightarrow> string list" where
  "split_slash \<equiv> split_at (CHR ''/'')"

fun join_slash :: "string list \<Rightarrow> string" where
  "join_slash [] = []"
| "join_slash [p] = p"
| "join_slash (p # ps) = p @ ''/'' @ join_slash ps"

definition is_abs :: "string \<Rightarrow> bool" where
  "is_abs s = (s \<noteq> [] \<and> hd s = CHR ''/'')"

text \<open>One element of a path, on the elements kept so far, the last one first\<close>

definition clean_element :: "bool \<Rightarrow> string \<Rightarrow> string list \<Rightarrow> string list" where
  "clean_element rooted e kept =
     (if e = [] \<or> e = ''.'' then kept
      else if e = ''..'' then
        (if kept \<noteq> [] \<and> hd kept \<noteq> ''..'' then tl kept
         else if rooted then kept else e # kept)
      else e # kept)"

definition clean_path :: "string \<Rightarrow> string" where
  "clean_path s =
     (let rooted = is_abs s; kept = rev (fold (clean_element rooted) (split_slash s) [])
      in if rooted then ''/'' @ join_slash kept
         else if kept = [] then ''.'' else join_slash kept)"

definition join_path :: "string \<Rightarrow> string \<Rightarrow> string" where
  "join_path base s =
     (if base = [] \<and> s = [] then [] else if base = [] then clean_path s
      else if s = [] then clean_path base else clean_path (base @ ''/'' @ s))"

end
