(* ===== verification/WorkflowDefinition.thy ===== *)
theory WorkflowDefinition
  imports StructureProperties Suggest PathMatch
begin

text \<open>
  The workflow document (workflow/types.go, \<^verbatim>\<open>Definition\<close> and \<^verbatim>\<open>validateDefinitionHeader\<close>), its
  targets (workflow/target.go), its schedule (schedule/schedule.go), its secrets (secret/config.go)
  and the top of structure validation (\<^verbatim>\<open>validateDefinitionStructure\<close>), with the properties of a
  workflow that passes it.

  What the code asks of libraries is the record \<open>library\<close>: whether an expression compiles, whether a
  timezone loads, and what the cron parser makes of a field list (an error text, or whether the
  schedule has a future occurrence).
\<close>

record library =
  lib_compiles :: "string \<Rightarrow> verr option"
  lib_location :: "string \<Rightarrow> string option"
  lib_cron :: "string \<Rightarrow> string + bool"

subsection \<open>Secrets\<close>

text \<open>secret/config.go, AuthConfig with its optional fallback\<close>

record fallback_config =
  fb_command :: string
  fb_script :: string
  fb_shell :: string
  fb_session_env :: string

record auth_config =
  auth_provider :: string
  auth_fallback :: "fallback_config option"

definition auth_label :: "nat \<Rightarrow> string" where
  "auth_label i = ''secrets.ensure_auth['' @ nat_text i @ '']''"

fun secrets_from :: "nat \<Rightarrow> string fset \<Rightarrow> auth_config list \<Rightarrow> verr option" where
  "secrets_from i seen [] = None"
| "secrets_from i seen (a # auths) =
     (let provider = trimSpace (auth_provider a) in first_error
      [fail_if (provider \<noteq> auth_provider a) (auth_label i @ ''.provider must not contain surrounding whitespace''),
       fail_if (provider \<noteq> ''op'' \<and> provider \<noteq> ''bw'') (auth_label i @ ''.provider must be op or bw''),
       fail_if (provider |\<in>| seen) (''secrets.ensure_auth contains duplicate provider '' @ go_quote provider),
       (case auth_fallback a of None \<Rightarrow> None | Some f \<Rightarrow>
          let hasCommand = \<not> blank (fb_command f); hasScript = \<not> blank (fb_script f) in first_error
          [fail_if (hasCommand = hasScript)
             (auth_label i @ ''.login.fallback requires exactly one of command or script''),
           fail_if (fb_shell f \<noteq> [] \<and> \<not> hasScript) (auth_label i @ ''.login.fallback.shell requires script''),
           fail_if (fb_session_env f \<noteq> [] \<and> \<not> identifierPattern (fb_session_env f))
             (auth_label i @ ''.login.fallback.session_env is not a valid environment name'')]),
       secrets_from (i + 1) (finsert provider seen) auths])"

definition Secrets_Validate :: "auth_config list \<Rightarrow> verr option" where
  "Secrets_Validate auths = secrets_from 0 {||} auths"

subsection \<open>Schedules\<close>

text \<open>strings.HasPrefix, and the number of fields of strings.Fields\<close>

definition has_prefix :: "string \<Rightarrow> string \<Rightarrow> bool" where
  "has_prefix p s \<longleftrightarrow> strip_prefix p s \<noteq> None"

function (sequential) count_fields :: "bool \<Rightarrow> string \<Rightarrow> nat" where
  "count_fields inside [] = 0"
| "count_fields inside (c # cs) = (case strip_any go_spaces (c # cs) of
     Some r \<Rightarrow> count_fields False r
   | None \<Rightarrow> (if inside then 0 else 1) + count_fields True cs)"
  by pat_completeness auto
termination
  by (relation "measure (\<lambda>(_, s). length s)") (auto dest: strip_any_length)

definition Schedule_Parse :: "library \<Rightarrow> string \<Rightarrow> string \<Rightarrow> verr option" where
  "Schedule_Parse lib expression timezone =
     (let expression = trimSpace expression; count = count_fields False expression in first_error
      [fail_if (expression = []) ''cron must not be empty'',
       fail_if (has_prefix ''@'' expression) ''cron descriptors are not supported'',
       fail_if (has_prefix ''TZ='' expression \<or> has_prefix ''CRON_TZ='' expression)
         ''cron must use the workflow timezone field instead of an embedded timezone'',
       fail_if (count \<noteq> 5 \<and> count \<noteq> 6) ''cron must contain five fields or six fields including seconds'',
       (if timezone = [] then None else case lib_location lib timezone of None \<Rightarrow> None
        | Some e \<Rightarrow> Some (None, ''invalid timezone '' @ go_quote timezone @ '': '' @ e)),
       (let parseExpression = (if timezone = [] then expression else ''CRON_TZ='' @ timezone @ '' '' @ expression) in
        case lib_cron lib parseExpression of
          Inl e \<Rightarrow> Some (None, ''invalid cron '' @ go_quote expression @ '': '' @ e)
        | Inr future \<Rightarrow> fail_if (\<not> future)
            (''invalid cron '' @ go_quote expression @ '': schedule has no future occurrence''))])"

subsection \<open>Names\<close>

definition ValidPluginNamespace :: "string \<Rightarrow> bool" where
  "ValidPluginNamespace s \<longleftrightarrow> s \<noteq> [] \<and> is_lower (hd s) \<and> list_all (\<lambda>c. is_lower c \<or> is_digit c \<or> c = CHR ''-'') (tl s)"

definition ValidWorkflowSelector :: "string \<Rightarrow> bool" where
  "ValidWorkflowSelector name \<longleftrightarrow>
     \<not> (name = [] \<or> list_ex (\<lambda>c. c = CHR 0x5C \<or> c = CHR 0x00) name \<or> hd name = CHR ''/'' \<or> clean_path name \<noteq> name)
     \<and> list_all (\<lambda>c. c \<noteq> [] \<and> c \<noteq> ''.'' \<and> c \<noteq> ''..'') (split_slash name)"

definition ValidWorkflowName :: "string \<Rightarrow> bool" where
  "ValidWorkflowName name \<longleftrightarrow> ValidWorkflowSelector name \<and> \<not> list_ex (\<lambda>c. c = CHR ''/'' \<or> c = CHR 0x5C) name"

subsection \<open>Definitions and targets\<close>

text \<open>The browser form is opaque: an optional value. Maps that may be nil are options where the code
  tells nil from empty.\<close>

record target_definition =
  t_description :: string
  t_depends_on :: "string gomap option"
  t_outputs :: "workflow_output gomap option"
  t_form :: "val option"
  t_cron :: string
  t_timezone :: string
  t_vars :: vmap
  t_env :: "string gomap"
  t_steps :: "decl list"
  t_finally :: "decl list"

record workflow_definition =
  w_version :: int
  w_package_version :: string
  w_name :: string
  w_description :: string
  w_depends_on :: "string gomap"
  w_plugins :: "string fset"
  w_outputs :: "workflow_output gomap"
  w_form :: "val option"
  w_cron :: string
  w_timezone :: string
  w_vars :: vmap
  w_env :: "string gomap"
  w_steps :: "decl list"
  w_finally :: "decl list"
  w_targets :: "(string, target_definition) fmap option"
  w_install :: "decl list"
  w_uninstall :: "decl list"
  w_secrets :: "auth_config list"

definition HasTargets :: "workflow_definition \<Rightarrow> bool" where
  "HasTargets w \<longleftrightarrow> (case w_targets w of None \<Rightarrow> False | Some m \<Rightarrow> m \<noteq> fmempty)"

definition TargetNames :: "workflow_definition \<Rightarrow> string list" where
  "TargetNames w = (case w_targets w of None \<Rightarrow> [] | Some m \<Rightarrow> sorted_keys m)"

definition firstNonEmpty :: "string \<Rightarrow> string \<Rightarrow> string" where
  "firstNonEmpty v fallback = (if v \<noteq> [] then v else fallback)"

fun join_comma :: "string list \<Rightarrow> string" where
  "join_comma [] = []"
| "join_comma [c] = c"
| "join_comma (c # cs) = c @ '', '' @ join_comma cs"

definition formatTargetNames :: "string list \<Rightarrow> string" where
  "formatTargetNames names = (if names = [] then ''none'' else join_comma names)"

definition apply_target :: "workflow_definition \<Rightarrow> target_definition \<Rightarrow> workflow_definition" where
  "apply_target w t = w\<lparr>w_targets := None,
     w_description := firstNonEmpty (t_description t) (w_description w),
     w_cron := firstNonEmpty (t_cron t) (w_cron w),
     w_timezone := firstNonEmpty (t_timezone t) (w_timezone w),
     w_form := (case t_form t of None \<Rightarrow> w_form w | Some f \<Rightarrow> Some f),
     w_depends_on := (case t_depends_on t of None \<Rightarrow> w_depends_on w | Some m \<Rightarrow> m),
     w_outputs := (case t_outputs t of None \<Rightarrow> w_outputs w | Some m \<Rightarrow> m),
     w_vars := w_vars w ++\<^sub>f t_vars t,
     w_env := w_env w ++\<^sub>f t_env t,
     w_steps := t_steps t,
     w_finally := t_finally t\<rparr>"

definition SelectTarget :: "workflow_definition \<Rightarrow> string \<Rightarrow> verr + workflow_definition" where
  "SelectTarget w name =
     (let quoted = ''workflow '' @ go_quote (w_name w) in
      if \<not> HasTargets w then
        (if name \<noteq> [] then Inl (None, quoted @ '' does not declare targets'') else Inr w)
      else if name = [] then
        Inl (None, quoted @ '' requires a target ('' @ formatTargetNames (TargetNames w) @ '')'')
      else case fmlookup ((case w_targets w of None \<Rightarrow> fmempty | Some m \<Rightarrow> m)) name of
        None \<Rightarrow> (let names = TargetNames w; suggestion = Suggest name names;
             hint = (if suggestion = [] then [] else ''; did you mean '' @ go_quote suggestion @ ''?'') in
           Inl (None, quoted @ '' has no target '' @ go_quote name @ '' (available: '' @ formatTargetNames names @
             '')'' @ hint))
      | Some t \<Rightarrow> Inr (apply_target w t))"

subsection \<open>Structure validation of a document\<close>

definition validateDefinitionHeader :: "library \<Rightarrow> workflow_definition \<Rightarrow> verr option" where
  "validateDefinitionHeader lib w = first_error
     [Secrets_Validate (w_secrets w),
      fail_if (w_version w \<noteq> 1) (''unsupported version '' @ int_text (w_version w) @ '' (want 1)''),
      first_error (map (\<lambda>n. fail_if (\<not> ValidPluginNamespace n) (''invalid plugin namespace '' @ go_quote n))
        (sorted_list_of_fset (w_plugins w))),
      fail_if (trimSpace (w_package_version w) \<noteq> w_package_version w)
        ''package_version must not have leading or trailing whitespace'',
      fail_if (w_name w = []) ''name is required'',
      fail_if (w_steps w = [] \<and> \<not> HasTargets w) ''at least one step is required'',
      fail_if (HasTargets w \<and> (w_steps w \<noteq> [] \<or> w_finally w \<noteq> [])) ''steps and finally cannot be combined with targets'',
      fail_if (w_targets w = Some fmempty) ''targets must contain at least one target'',
      (if HasTargets w then None
       else if w_cron w = [] then
         (if w_timezone w = [] then None else case lib_location lib (w_timezone w) of None \<Rightarrow> None
          | Some e \<Rightarrow> Some (None, ''invalid timezone '' @ go_quote (w_timezone w) @ '': '' @ e))
       else Schedule_Parse lib (w_cron w) (w_timezone w))]"

definition validateLifecycleSteps :: "library \<Rightarrow> decl list \<Rightarrow> bool \<Rightarrow> string \<Rightarrow> verr option" where
  "validateLifecycleSteps lib steps allowActions name =
     (if steps = [] then None else first_error
      [fail_if (containsObserve steps) (name @ '': observe is not supported in lifecycle hooks''),
       within_error name (validateNeedsPlacement steps False),
       (case collectScopeIDs steps {||} of
          Inl e \<Rightarrow> within_error name (Some e)
        | Inr seen \<Rightarrow> within_error name (validateSteps (lib_compiles lib) allowActions ScopeTop seen steps))])"

text \<open>The two collections share one set of ids, which both validations then see.\<close>

definition validate_scopes :: "library \<Rightarrow> bool \<Rightarrow> workflow_definition \<Rightarrow> verr option" where
  "validate_scopes lib allowActions w =
     (case collectScopeIDs (w_steps w) {||} of Inl e \<Rightarrow> Some e
      | Inr seen1 \<Rightarrow> (case collectScopeIDs (w_finally w) seen1 of Inl e \<Rightarrow> within_error ''finally'' (Some e)
          | Inr seen \<Rightarrow> first_error
              [validateSteps (lib_compiles lib) allowActions ScopeTop seen (w_steps w),
               within_error ''finally'' (validateSteps (lib_compiles lib) allowActions ScopeFinally seen (w_finally w))]))"

definition validate_body :: "library \<Rightarrow> bool \<Rightarrow> workflow_definition \<Rightarrow> verr option" where
  "validate_body lib allowActions w = first_error
     [ValidateOutputContract (w_outputs w) (w_steps w),
      validateNeedsPlacement (w_steps w) False,
      within_error ''finally'' (validateNeedsPlacement (w_finally w) False),
      validate_scopes lib allowActions w,
      validateCleanupServices (w_steps w) False,
      within_error ''finally'' (validateCleanupServices (w_finally w) True),
      validateLifecycleSteps lib (w_install w) allowActions ''install'',
      validateLifecycleSteps lib (w_uninstall w) allowActions ''uninstall'',
      first_error (map (\<lambda>n. fail_if (\<not> identifierPattern n) (''invalid environment name '' @ go_quote n))
        (sorted_keys (w_env w))),
      first_error (map (\<lambda>alias. first_error
        [fail_if (\<not> identifierPattern alias) (''invalid dependency alias '' @ go_quote alias),
         (case fmlookup (w_depends_on w) alias of None \<Rightarrow> None
          | Some n \<Rightarrow> fail_if (\<not> ValidWorkflowName n)
              (''dependency '' @ go_quote alias @ '' has invalid workflow name '' @ go_quote n))])
        (sorted_keys (w_depends_on w)))]"

text \<open>The recursion of the code is one level deep: a selected target has no targets of its own.\<close>

definition validateDefinitionStructure :: "library \<Rightarrow> bool \<Rightarrow> workflow_definition \<Rightarrow> verr option" where
  "validateDefinitionStructure lib allowActions w = first_error
     [validateDefinitionHeader lib w,
      (if HasTargets w then first_error (map (\<lambda>name. first_error
         [fail_if (\<not> identifierPattern name) (''invalid target name '' @ go_quote name),
          (case SelectTarget w name of Inl e \<Rightarrow> Some e
           | Inr chosen \<Rightarrow> within_error (''target '' @ go_quote name)
               (first_error [validateDefinitionHeader lib chosen, validate_body lib allowActions chosen]))])
         (TargetNames w))
       else validate_body lib allowActions w)]"

text \<open>The sequences a document executes, each with the scope it is validated in: the body and the
  finally of every selection, and the lifecycle hooks.\<close>

definition selections :: "workflow_definition \<Rightarrow> workflow_definition list" where
  "selections w = (if HasTargets w
     then concat (map (\<lambda>n. case SelectTarget w n of Inl _ \<Rightarrow> [] | Inr s \<Rightarrow> [s]) (TargetNames w)) else [w])"

definition root_sequences :: "workflow_definition \<Rightarrow> (step_scope \<times> decl list) list" where
  "root_sequences w = concat (map (\<lambda>s. [(ScopeTop, w_steps s), (ScopeFinally, w_finally s),
     (ScopeTop, w_install s), (ScopeTop, w_uninstall s)]) (selections w))"

lemma validated_body:
  assumes "validateDefinitionStructure lib allow w = None" and "s \<in> set (selections w)"
  shows "validate_body lib allow s = None"
proof (cases "HasTargets w")
  case True
  obtain n where n: "n \<in> set (TargetNames w)" "SelectTarget w n = Inr s"
    using assms(2) True by (auto simp: selections_def split: sum.splits)
  show ?thesis using assms(1) True n by (fastforce simp: validateDefinitionStructure_def)
next
  case False
  then show ?thesis using assms by (simp add: validateDefinitionStructure_def selections_def)
qed

lemma lifecycle_ok:
  "validateLifecycleSteps lib steps allow name = None \<Longrightarrow> scope_ok (lib_compiles lib) allow ScopeTop steps"
  by (auto simp: validateLifecycleSteps_def scope_ok_def collected_def collectScopeIDs_def validateSteps_def
      split: if_splits sum.splits)

lemma root_sequence_ok:
  assumes "validateDefinitionStructure lib allow w = None" and "(scope, steps) \<in> set (root_sequences w)"
  shows "scope_ok (lib_compiles lib) allow scope steps"
proof -
  obtain s where s: "s \<in> set (selections w)"
    and root: "(scope, steps) \<in> {(ScopeTop, w_steps s), (ScopeFinally, w_finally s),
      (ScopeTop, w_install s), (ScopeTop, w_uninstall s)}"
    using assms(2) by (auto simp: root_sequences_def)
  have body: "validate_body lib allow s = None" by (rule validated_body [OF assms(1) s])
  then have "validateLifecycleSteps lib (w_install s) allow ''install'' = None"
      "validateLifecycleSteps lib (w_uninstall s) allow ''uninstall'' = None" by (simp_all add: validate_body_def)
  moreover have "scope_ok (lib_compiles lib) allow ScopeTop (w_steps s)
      \<and> scope_ok (lib_compiles lib) allow ScopeFinally (w_finally s)"
    using body by (auto simp: validate_body_def validate_scopes_def scope_ok_def collected_def collectScopeIDs_def
        validateSteps_def split: sum.splits)
  ultimately show ?thesis using root lifecycle_ok by auto
qed

end
