(* ===== verification/ScopeIds.thy ===== *)
theory ScopeIds
  imports StructureValidation
begin

text \<open>
  What collecting the identifiers of a scope decides (workflow/structure_validation.go,
  \<^verbatim>\<open>collectScopeIDs\<close>). \<open>claimed\<close> lists, in order, the ids a scope holds: those of its steps and of the
  blocks and controls that publish under their own name, through transparent blocks, both branches of
  a try/catch, cancel_on bodies and monitors, and deferred steps, but not through the bodies that are
  scopes of their own. Collecting succeeds exactly when these ids are valid, distinct and new
  (\<open>collect_iff\<close>).
\<close>

text \<open>The child sequences of a declaration that belong to its scope, besides those of monitors.\<close>

definition shared_sequences :: "decl \<Rightarrow> (child_role \<times> decl list) list" where
  "shared_sequences d =
     (if IsTryCatch d then childSequenceRefs d
      else case d_cancel_on d of Some (_, _, steps) \<Rightarrow> [(ChildSteps, steps)] | None \<Rightarrow>
      if is_scope_owner d then []
      else if is_container d then childSequenceRefs d
      else if d_return d \<noteq> None \<or> d_require d \<noteq> None then []
      else [(ChildDefer, steps_in (d_defer d))])"

definition own_id :: "decl \<Rightarrow> string list" where
  "own_id d =
     (if IsTryCatch d \<or> d_cancel_on d \<noteq> None \<or> is_scope_owner d then [d_id d]
      else if is_container d then (if d_worktree d \<noteq> None then [d_id d] else [])
      else if d_return d \<noteq> None \<or> d_require d \<noteq> None then [] else [d_id d])"

definition monitors_of :: "decl \<Rightarrow> decl list" where
  "monitors_of d = (if IsTryCatch d then [] else case d_cancel_on d of Some (_, monitors, _) \<Rightarrow> monitors | None \<Rightarrow> [])"

definition monitor_sequences :: "decl \<Rightarrow> (child_role \<times> decl list) list" where
  "monitor_sequences m = (let declaration = cancelOnMonitorDeclaration m in
     if d_id declaration = [] then childSequenceRefs declaration else [])"

lemma monitors_of_weight: "m \<in> set (monitors_of d) \<Longrightarrow> size m < size d"
  unfolding monitors_of_def
  by (auto split: if_splits option.splits dest!: cancel_on_weight [OF sym] dest: weight_mem)

lemma shared_sequences_weight: "(role, child) \<in> set (shared_sequences d) \<Longrightarrow> weight child < size d"
  using child_sequence_weight [of role child d] defer_weight [of d]
  by (cases "d_cancel_on d") (auto simp: shared_sequences_def split: if_splits dest!: cancel_on_weight)

lemma monitor_sequences_weight: "(role, child) \<in> set (monitor_sequences m) \<Longrightarrow> weight child < size m"
  using child_sequence_weight [of role child "cancelOnMonitorDeclaration m"]
  by (auto simp: monitor_sequences_def Let_def split: if_splits)

function (sequential) claimed :: "decl list \<Rightarrow> string list" where
  "claimed [] = []"
| "claimed (d # ds) = own_id d @
     concat (map (\<lambda>m. d_id m # concat (map (\<lambda>(role, child). claimed child) (monitor_sequences m))) (monitors_of d)) @
     concat (map (\<lambda>(role, child). claimed child) (shared_sequences d)) @ claimed ds"
  by pat_completeness auto
termination
proof (relation "measure weight", goal_cases)
  case (2 d ds m x role child)
  then have "weight child < size m" "size m < size d"
    using monitor_sequences_weight monitors_of_weight by auto
  then show ?case by simp
next
  case (3 d ds x role child)
  then have "weight child < size d" using shared_sequences_weight by auto
  then show ?case by simp
next
  case (4 d ds)
  then show ?case by (cases d) simp
qed simp

definition claimed_in :: "(child_role \<times> decl list) list \<Rightarrow> string list" where
  "claimed_in seqs = concat (map (\<lambda>(role, child). claimed child) seqs)"

definition claimed_by :: "decl list \<Rightarrow> string list" where
  "claimed_by ms = concat (map (\<lambda>m. d_id m # claimed_in (monitor_sequences m)) ms)"

lemma claimed_Cons: "claimed (d # ds) = own_id d @ claimed_by (monitors_of d) @ claimed_in (shared_sequences d) @ claimed ds"
  by (simp add: claimed_in_def claimed_by_def)

declare claimed.simps(2) [simp del]

lemma claimed_in_simps [simp]: "claimed_in [] = []" "claimed_in (s # seqs) = claimed (snd s) @ claimed_in seqs"
  by (simp_all add: claimed_in_def case_prod_beta)

lemma claimed_by_simps [simp]: "claimed_by [] = []"
    "claimed_by (m # ms) = d_id m # claimed_in (monitor_sequences m) @ claimed_by ms"
  by (simp_all add: claimed_by_def)

text \<open>Adding a list of ids: they must be valid, distinct and new.\<close>

definition claims :: "string list \<Rightarrow> string fset \<Rightarrow> string fset \<Rightarrow> bool" where
  "claims xs seen seen' \<longleftrightarrow> list_all identifierPattern xs \<and> distinct xs \<and> fset seen \<inter> set xs = {}
     \<and> seen' = seen |\<union>| fset_of_list xs"

lemma claims_Nil [simp]: "claims [] seen seen' \<longleftrightarrow> seen' = seen"
  by (auto simp: claims_def)

lemma claims_append: "claims (xs @ ys) seen seen' \<longleftrightarrow> (\<exists>mid. claims xs seen mid \<and> claims ys mid seen')"
  by (auto simp: claims_def fset_of_list.rep_eq sup_assoc)

definition new_id :: "string \<Rightarrow> string fset \<Rightarrow> string fset \<Rightarrow> bool" where
  "new_id x seen seen' \<longleftrightarrow> identifierPattern x \<and> x |\<notin>| seen \<and> seen' = finsert x seen"

lemma claims_Cons: "claims (x # xs) seen seen' \<longleftrightarrow> (\<exists>mid. new_id x seen mid \<and> claims xs mid seen')"
  by (auto simp: claims_def new_id_def)

lemma claim_id_iff: "claim_id i d seen = Inr seen' \<longleftrightarrow> new_id (d_id d) seen seen'"
  by (auto simp: claim_id_def new_id_def)

lemma claim_monitor_iff: "claim_monitor d i m seen = Inr seen' \<longleftrightarrow> new_id (d_id m) seen seen'"
  by (auto simp: claim_monitor_def new_id_def)

text \<open>A sequence is exact when collecting it claims its ids; the proofs go up from exact children.\<close>

definition exact :: "decl list \<Rightarrow> bool" where
  "exact steps \<longleftrightarrow> (\<forall>i seen seen'. collect i steps seen = Inr seen' \<longleftrightarrow> claims (claimed steps) seen seen')"

lemma exactD: "exact steps \<Longrightarrow> collect i steps seen = Inr seen' \<longleftrightarrow> claims (claimed steps) seen seen'"
  by (simp add: exact_def)

lemma seqs_claims:
  "(\<And>role child. (role, child) \<in> set seqs \<Longrightarrow> exact child) \<Longrightarrow>
     collect_seqs label seqs seen = Inr seen' \<longleftrightarrow> claims (claimed_in seqs) seen seen'"
proof (induction seqs arbitrary: seen)
  case (Cons s seqs)
  obtain role child where s: "s = (role, child)" by (cases s)
  have "exact child" using Cons.prems [of role child] s by simp
  moreover have "collect_seqs label seqs mid = Inr seen' \<longleftrightarrow> claims (claimed_in seqs) mid seen'" for mid
    by (rule Cons.IH) (metis Cons.prems list.set_intros(2))
  ultimately show ?case by (simp add: s sbind_Inr claims_append exactD)
qed auto

lemma monitors_claims:
  "(\<And>m role child. m \<in> set ms \<Longrightarrow> (role, child) \<in> set (monitor_sequences m) \<Longrightarrow> exact child) \<Longrightarrow>
     collect_monitors d i ms seen = Inr seen' \<longleftrightarrow> claims (claimed_by ms) seen seen'"
proof (induction ms arbitrary: i seen)
  case (Cons m ms)
  have "collect_seqs label (monitor_sequences m) s = Inr s' \<longleftrightarrow> claims (claimed_in (monitor_sequences m)) s s'" for label s s'
    by (rule seqs_claims) (use Cons.prems in force)
  then have body: "(if d_id (cancelOnMonitorDeclaration m) = []
      then collect_seqs label (childSequenceRefs (cancelOnMonitorDeclaration m)) s else Inr s) = Inr s'
      \<longleftrightarrow> claims (claimed_in (monitor_sequences m)) s s'" for label s s'
    by (auto simp: monitor_sequences_def Let_def)
  have tail: "collect_monitors d j ms mid = Inr seen' \<longleftrightarrow> claims (claimed_by ms) mid seen'" for j mid
    by (rule Cons.IH) (use Cons.prems in force)
  show ?case
    by (simp only: collect_monitors.simps Let_def sbind_Inr claim_monitor_iff body tail claims_append claims_Cons
        claimed_by_simps)
qed auto

lemma exact_Cons:
  assumes ds: "exact ds" and smaller: "\<And>steps. weight steps < size d \<Longrightarrow> exact steps"
  shows "exact (d # ds)"
proof -
  have seqs: "collect_seqs label (childSequenceRefs d) seen = Inr seen' \<longleftrightarrow> claims (claimed_in (childSequenceRefs d)) seen seen'"
    for label seen seen'
    by (rule seqs_claims) (use smaller child_sequence_weight in blast)
  have monitors: "collect_monitors d i (monitors_of d) seen = Inr seen' \<longleftrightarrow> claims (claimed_by (monitors_of d)) seen seen'"
    for i seen seen'
  proof (rule monitors_claims)
    fix m role child assume m: "m \<in> set (monitors_of d)" and c: "(role, child) \<in> set (monitor_sequences m)"
    show "exact child" by (rule smaller) (use monitors_of_weight [OF m] monitor_sequences_weight [OF c] in simp)
  qed
  note simps = sbind_Inr claim_id_iff claims_append claims_Cons claimed_Cons exactD [OF ds] seqs monitors own_id_def
    shared_sequences_def monitors_of_def
  show ?thesis unfolding exact_def
  proof (intro allI)
    fix i seen seen'
    consider (rescue) "IsTryCatch d" | (cancel) "\<not> IsTryCatch d" "d_cancel_on d \<noteq> None"
      | (owner) "\<not> IsTryCatch d" "d_cancel_on d = None" "is_scope_owner d"
      | (container) "\<not> IsTryCatch d" "d_cancel_on d = None" "\<not> is_scope_owner d" "is_container d"
      | (leaf) "\<not> IsTryCatch d" "d_cancel_on d = None" "\<not> is_scope_owner d" "\<not> is_container d" by blast
    then show "collect i (d # ds) seen = Inr seen' \<longleftrightarrow> claims (claimed (d # ds)) seen seen'"
    proof cases
      case cancel
      then obtain c ms steps where c: "d_cancel_on d = Some (c, ms, steps)" by (cases "d_cancel_on d") auto
      have "exact steps" by (rule smaller) (use cancel_on_weight [OF c] in simp)
      moreover have "collect_monitors d 0 ms s = Inr s' \<longleftrightarrow> claims (claimed_by ms) s s'" for s s'
        using monitors [of 0 s s'] cancel(1) c by (simp add: monitors_of_def)
      ultimately show ?thesis using cancel(1) c by (auto simp: simps exactD)
    next
      case leaf
      have "exact (steps_in (d_defer d))" by (rule smaller) (rule defer_weight)
      then show ?thesis using leaf by (auto simp: simps exactD)
    qed (auto simp: simps)
  qed
qed

lemma collect_exact: "exact steps"
proof (induction "weight steps" arbitrary: steps rule: less_induct)
  case less
  show ?case
  proof (cases steps)
    case Nil
    then show ?thesis by (auto simp: exact_def)
  next
    case (Cons d ds)
    show ?thesis unfolding Cons by (rule exact_Cons; rule less) (use Cons in \<open>cases d; simp\<close>)+
  qed
qed

end
