(* ===== verification/Classification.thy ===== *)
theory Classification
  imports StructureProperties
begin

text \<open>
  From the decoded struct to the tagged union the engine model runs on. \<open>classify\<close> reads the control
  of a declaration in the order in which \<^verbatim>\<open>validateSteps\<close>, \<^verbatim>\<open>childSequenceRefs\<close> and the engine test
  its fields; a concrete step without \<^verbatim>\<open>with\<close> gets the empty map, which \<^verbatim>\<open>validateSteps\<close> stores.

  The main fact, \<open>classify_children\<close>, is that a declaration with one control classifies without loss:
  its child sequences are the classified child sequences of the struct.
\<close>

definition with_default :: "decl \<Rightarrow> vmap" where
  "with_default d = (case d_with d of None \<Rightarrow> fmempty | Some m \<Rightarrow> m)"

text \<open>The controls in the order of the tests; \<open>f\<close> classifies the nested declarations.\<close>

definition controls :: "(decl \<Rightarrow> step) \<Rightarrow> decl \<Rightarrow> step_body option list" where
  "controls f d =
     [if IsTryCatch d then Some (TryCatchCtl (map f (steps_in (d_try d))) (map f (steps_in (d_catch d)))) else None,
      map_option (\<lambda>(c, ms, steps). CancelOnCtl c (map f ms) (map f steps)) (d_cancel_on d),
      map_option (\<lambda>(g, steps). ObserveCtl g (map f steps)) (d_observe d),
      map_option (\<lambda>(g, steps). OnceCtl g (map f steps)) (d_once d),
      map_option (\<lambda>(c, steps). AttemptCtl c (map f steps)) (d_attempt d),
      map_option (\<lambda>(t, w). ExecutorBlock t w (map f (steps_in (d_steps d))) (map f (steps_in (d_finally d)))) (d_executor d),
      if IsEnvironmentBlock d
      then Some (EnvBlock (case d_env d of None \<Rightarrow> [] | Some ops \<Rightarrow> ops) (map f (steps_in (d_steps d)))) else None,
      if IsWorkingDirectoryBlock d
      then Some (WorkDirBlock (f_working_directory (d_fields d)) (map f (steps_in (d_steps d)))) else None,
      map_option (\<lambda>(g, steps). WorktreeBlock g (map f steps)) (d_worktree d),
      if IsConditionalBlock d then Some (CondBlock (map f (steps_in (d_steps d)))) else None,
      map_option ReturnStep (d_return d),
      map_option (\<lambda>(g, steps). ConcurrentBlock g (map f steps)) (d_concurrent d),
      map_option (\<lambda>(g, steps). LoopCtl g (map f steps)) (d_loop d),
      map_option (\<lambda>(items, sz, g, steps). BatchCtl items sz g (map f steps)) (d_batch d),
      map_option (\<lambda>(items, g, steps). ForeachCtl items g (map f steps)) (d_foreach d),
      map_option (\<lambda>(axes, g, steps). MatrixCtl axes g (map f steps)) (d_matrix d)]"

definition classify_body :: "(decl \<Rightarrow> step) \<Rightarrow> decl \<Rightarrow> step_body" where
  "classify_body f d = (case first_some (controls f d) of
     Some b \<Rightarrow> b
   | None \<Rightarrow> if d_type d = [] then Uses (d_uses d) (with_default d) else Leaf (d_type d) (with_default d))"

lemma part_member:
  "x \<in> set (steps_in (d_try d)) \<Longrightarrow> size x < size d"
  "x \<in> set (steps_in (d_catch d)) \<Longrightarrow> size x < size d"
  "x \<in> set (steps_in (d_steps d)) \<Longrightarrow> size x < size d"
  "x \<in> set (steps_in (d_finally d)) \<Longrightarrow> size x < size d"
  "x \<in> set (steps_in (d_defer d)) \<Longrightarrow> size x < size d"
  using part_weight [of d] defer_weight [of d] weight_mem [of x] by fastforce+

lemma fan_weight:
  "d_batch d = Some (items, sz, g, steps) \<Longrightarrow> weight steps < size d"
  "d_foreach d = Some (items', g', steps) \<Longrightarrow> weight steps < size d"
  "d_matrix d = Some (axes, g'', steps) \<Longrightarrow> weight steps < size d"
  by (cases d; force)+

lemma body_member:
  "d_worktree d = Some (w, steps) \<Longrightarrow> x \<in> set steps \<Longrightarrow> size x < size d"
  "d_concurrent d = Some (c, steps) \<Longrightarrow> x \<in> set steps \<Longrightarrow> size x < size d"
  "d_loop d = Some (l, steps) \<Longrightarrow> x \<in> set steps \<Longrightarrow> size x < size d"
  "d_once d = Some (ong, steps) \<Longrightarrow> x \<in> set steps \<Longrightarrow> size x < size d"
  "d_attempt d = Some (a, steps) \<Longrightarrow> x \<in> set steps \<Longrightarrow> size x < size d"
  "d_observe d = Some (ob, steps) \<Longrightarrow> x \<in> set steps \<Longrightarrow> size x < size d"
  "d_cancel_on d = Some (s, monitors, steps) \<Longrightarrow> x \<in> set steps \<Longrightarrow> size x < size d"
  "d_cancel_on d = Some (s, monitors, steps) \<Longrightarrow> x \<in> set monitors \<Longrightarrow> size x < size d"
  "d_batch d = Some (items, sz, g, steps) \<Longrightarrow> x \<in> set steps \<Longrightarrow> size x < size d"
  "d_foreach d = Some (items', g', steps) \<Longrightarrow> x \<in> set steps \<Longrightarrow> size x < size d"
  "d_matrix d = Some (axes, g'', steps) \<Longrightarrow> x \<in> set steps \<Longrightarrow> size x < size d"
  using weight_mem [of x] body_weight [of d] fan_weight [of d] cancel_on_weight [of d]
  by (fastforce dest: weight_mem)+

lemma classify_body_cong [fundef_cong]:
  assumes "d = d'" and f: "\<And>x. size x < size d' \<Longrightarrow> f x = f' x"
  shows "classify_body f d = classify_body f' d'"
proof -
  have "map f steps = map f' steps" if "\<And>x. x \<in> set steps \<Longrightarrow> size x < size d'" for steps
    using f that by simp
  note maps = this [OF part_member(1)] this [OF part_member(2)] this [OF part_member(3)] this [OF part_member(4)]
    and lists = this [OF body_member(1)] this [OF body_member(2)] this [OF body_member(3)] this [OF body_member(4)]
      this [OF body_member(5)] this [OF body_member(6)] this [OF body_member(7)] this [OF body_member(8)]
      this [OF body_member(9)] this [OF body_member(10)] this [OF body_member(11)]
  have "controls f d' = controls f' d'"
    unfolding controls_def
    by (intro arg_cong2 [where f = Cons] refl; (rule option.map_cong0)?) (auto simp: maps lists split: prod.splits)
  then show ?thesis by (simp add: classify_body_def assms(1))
qed

function classify :: "decl \<Rightarrow> step" where
  "classify d = Step (meta_of d) (classify_body classify d) (map classify (steps_in (d_defer d)))"
  by pat_completeness auto
termination
  by (relation "measure size") (simp_all add: part_member)

declare classify.simps [simp del]

lemma classify_simps:
  "meta (classify d) = meta_of d" "body (classify d) = classify_body classify d"
  "deferred (classify d) = map classify (steps_in (d_defer d))"
  by (simp_all add: classify.simps)

subsection \<open>Child sequences\<close>

definition nonempty :: "(child_role \<times> 'a list) list \<Rightarrow> (child_role \<times> 'a list) list" where
  "nonempty seqs = filter (\<lambda>s. snd s \<noteq> []) seqs"

definition classify_seqs :: "(child_role \<times> decl list) list \<Rightarrow> (child_role \<times> step list) list" where
  "classify_seqs = map (\<lambda>(role, child). (role, map classify child))"

lemma first_some_Cons: "first_some (None # xs) = first_some xs" "first_some (Some v # xs) = Some v"
  by simp_all

declare first_some.simps(2) [simp del] first_some_Cons [simp]

lemmas refs_simps = childSequenceRefs_def single_body_def with_defer_def nonempty_def classify_seqs_def
lemmas union_simps = childSequences_def with_deferred_def classify_simps classify_body_def controls_def

lemma with_defer_classify:
  "nonempty (if deferred (classify d) \<noteq> [] then xs @ [(ChildDefer, deferred (classify d))] else xs) =
     classify_seqs (nonempty (with_defer d ys))"
  if "nonempty xs = classify_seqs (nonempty ys)"
  using that by (auto simp: classify_simps with_defer_def nonempty_def classify_seqs_def steps_in_def split: option.splits)

lemma one_control_flag: "one_control d \<Longrightarrow> True \<in> set (control_flags d)"
proof -
  assume "one_control d"
  then have "filter id (control_flags d) \<noteq> []" unfolding one_control_def by (metis length_0_conv zero_neq_one)
  then show ?thesis by (auto simp only: filter_empty_conv id_def)
qed

lemma classify_children:
  assumes one: "one_control d"
  shows "nonempty (childSequences (classify d)) = classify_seqs (nonempty (childSequenceRefs d))"
proof -
  note sum = one_control_sum control_flags_def
  consider "IsTryCatch d" | "d_cancel_on d \<noteq> None" | "d_observe d \<noteq> None" | "d_once d \<noteq> None" | "d_attempt d \<noteq> None"
    | "IsExecutorBlock d" | "IsEnvironmentBlock d" | "IsWorkingDirectoryBlock d" | "d_worktree d \<noteq> None"
    | "IsConditionalBlock d" | "d_require d \<noteq> None" | "d_return d \<noteq> None" | "d_concurrent d \<noteq> None" | "d_loop d \<noteq> None"
    | "d_batch d \<noteq> None" | "d_foreach d \<noteq> None" | "d_matrix d \<noteq> None" | "d_type d \<noteq> [] \<or> \<not> ActionSource_Empty (d_uses d)"
    using one_control_flag [OF one] unfolding control_flags_def by auto
  then show ?thesis
  proof cases
    case 6
    then obtain t w where "d_executor d = Some (t, w)" by (cases "d_executor d") (auto simp: IsExecutorBlock_def)
    then show ?thesis using 6 one
      by (simp add: sum del: not_None_eq, clarsimp simp: refs_simps union_simps steps_in_def split: option.split)
  next
    case 18
    then have none: "first_some (controls classify d) = None" and refs: "childSequenceRefs d = with_defer d []"
      using one by (auto simp: sum controls_def childSequenceRefs_def single_body_def IsExecutorBlock_def simp del: not_None_eq)
    have "childSequences (classify d) = with_deferred (classify d) []"
      by (simp add: childSequences_def classify_simps classify_body_def none)
    then show ?thesis using with_defer_classify [of "[]" "[]"]
      by (simp add: refs with_deferred_def nonempty_def classify_seqs_def)
  qed (use one in \<open>simp add: sum del: not_None_eq,
      clarsimp simp: refs_simps union_simps steps_in_def IsExecutorBlock_def simp del: not_None_eq split: option.split\<close>)+
qed

end
