(* ===== verification/WorkflowProperties.thy ===== *)
theory WorkflowProperties
  imports WorkflowDefinition ScopeIds Classification SchedulerProperties
begin

text \<open>
  Properties of a workflow document that passes structure validation, and what they mean for the
  engine: every declaration outside the unchecked places is one control and classifies without loss,
  a return sits in sequential blocks only, ids are unique in their scope, no service starts in
  cleanup, and no concurrent group of the document can deadlock the scheduler.

  The last section evaluates documents that pass although they should not.
\<close>

subsection \<open>Controls\<close>

text \<open>One control per declaration. In a document that passes structure validation every declaration
  on a checked path has exactly one of the fields that select a control, and no unexpanded require.\<close>

theorem validated_controls:
  assumes "validateDefinitionStructure lib allow w = None" and "(scope, steps) \<in> set (root_sequences w)"
    and "nested steps path d" and "checked_path path"
  shows "length (filter id (control_flags d)) = 1 \<and> d_require d = None"
  using nested_checked [OF assms(3) root_sequence_ok [OF assms(1,2)] assms(4)] by (simp add: one_control_def)


subsection \<open>Returns\<close>

definition sequential_scope :: "step_scope \<Rightarrow> bool" where
  "sequential_scope scope \<longleftrightarrow> scope = ScopeTop \<or> scope = ScopeExecutor"

lemma return_scope:
  assumes "validate_step v compiles allow scope seen i d = None" "one_control d" "d_return d \<noteq> None" "d_require d = None"
  shows "sequential_scope scope"
proof -
  have "validateReturnEntry scope d = None"
    using assms by (simp add: validate_step_def flag_simps del: not_None_eq)
  then show ?thesis
    by (cases scope) (simp_all add: validateReturnEntry_def return_scope_error_def sequential_scope_def)
qed

text \<open>A sequential scope is only reached through blocks, try/catch, cancel_on bodies, once and attempts.\<close>

definition sequential_edge :: "decl \<Rightarrow> child_role \<Rightarrow> bool" where
  "sequential_edge p role \<longleftrightarrow> \<not> is_cleanup role \<and> d_concurrent p = None \<and> d_observe p = None \<and> d_loop p = None
     \<and> \<not> has_fan_out p"

lemma sequential_child:
  assumes "sequential_scope (child_scope scope p role)" and "one_control p"
    and "IsExecutorBlock p \<Longrightarrow> scope = ScopeTop"
  shows "sequential_scope scope \<and> sequential_edge p role"
proof (cases "IsExecutorBlock p")
  case True
  then show ?thesis using assms
    by (auto simp: sequential_edge_def sequential_scope_def child_scope_def is_cleanup_def flag_simps simp del: not_None_eq
      split: if_splits)
next
  case False
  then show ?thesis using assms(1)
    by (auto simp: sequential_edge_def sequential_scope_def child_scope_def is_cleanup_def simp del: not_None_eq
      split: if_splits)
qed

lemma executor_at_top:
  assumes "scope_ok compiles allow scope steps" and "p \<in> set steps" and "IsExecutorBlock p"
  shows "scope = ScopeTop"
proof -
  have one: "one_control p" using scope_ok_member [OF assms(1,2)] by simp
  obtain seen j where "validate_step (recursive_call compiles allow) compiles allow scope seen j p = None"
    using scope_ok_mem [OF assms(1,2)] by blast
  then have "validateExecutorBlock (recursive_call compiles allow) allow scope seen p = None"
    using one assms(3) by (simp add: validate_step_def flag_simps del: not_None_eq)
  then show ?thesis by (simp add: validateExecutorBlock_def)
qed

lemma sequential_path:
  assumes "nested steps path d" and "scope_ok compiles allow scope steps" and "checked_path path"
    and "sequential_scope (path_scope scope path)"
  shows "sequential_scope scope \<and> (\<forall>(p, role) \<in> set path. sequential_edge p role)"
  using assms
proof (induction arbitrary: scope rule: nested.induct)
  case (here d steps)
  then show ?case by simp
next
  case (below p steps role child path d)
  note p = scope_ok_member [OF below.prems(1) below.hyps(1)]
  have "scope_ok compiles allow (child_scope scope p role) child"
    using p below.hyps(2) below.prems(2) by (auto simp: children_ok_def checked_path_def)
  moreover have "checked_path path" using below.prems(2) by (simp add: checked_path_def)
  ultimately have "sequential_scope (child_scope scope p role) \<and> (\<forall>(p, role) \<in> set path. sequential_edge p role)"
    using below.IH below.prems(3) by simp
  then show ?case
    using sequential_child [of scope p role] p executor_at_top [OF below.prems(1) below.hyps(1)] by auto
qed

text \<open>The controls a return may not be in look through everything but cleanup.\<close>

lemma nested_append:
  "nested steps (path1 @ (p, role) # path2) d \<longleftrightarrow>
     (\<exists>child. nested steps path1 p \<and> (role, child) \<in> set (childSequenceRefs p) \<and> nested child path2 d)"
proof (induction path1 arbitrary: steps)
  case Nil
  show ?case by (auto elim: nested_ConsE nested_NilE intro: nested.intros)
next
  case (Cons e path1)
  obtain q r where e: "e = (q, r)" by (cases e)
  have "nested steps ((q, r) # path) x \<longleftrightarrow>
      q \<in> set steps \<and> (\<exists>c. (r, c) \<in> set (childSequenceRefs q) \<and> nested c path x)" for path x
    by (auto elim: nested_ConsE intro: nested.intros)
  then show ?case using Cons.IH by (auto simp: e)
qed

lemma walk_return:
  assumes "walk chk outside_cleanup () 0 child = None \<or> walk chk all_children () 0 child = None"
    and "\<And>j e. chk () j e = None \<Longrightarrow> d_return e = None"
    and "nested child path d" and "\<forall>(p, role) \<in> set path. \<not> is_cleanup role"
  shows "d_return d = None"
proof -
  have "\<exists>j. chk () j d = None"
    using assms(1)
  proof
    assume "walk chk outside_cleanup () 0 child = None"
    then show ?thesis using walk_nested [OF assms(3)] assms(4) by fastforce
  next
    assume "walk chk all_children () 0 child = None"
    then show ?thesis using walk_nested [OF assms(3)] by fastforce
  qed
  then show ?thesis using assms(2) by blast
qed

lemma return_excluded:
  assumes step: "validate_step v compiles allow scope seen i p = None" and one: "one_control p"
    and kind: "IsTryCatch p \<or> d_cancel_on p \<noteq> None \<or> d_once p \<noteq> None \<or> d_attempt p \<noteq> None"
    and child: "(role, child) \<in> set (childSequenceRefs p)" "\<not> is_cleanup role" "role \<noteq> ChildMonitors"
    and below: "nested child path d" "\<forall>(p, role) \<in> set path. \<not> is_cleanup role"
  shows "d_return d = None"
  using kind
proof (elim disjE)
  assume rescue: "IsTryCatch p"
  then have "validateTryCatchEntry v scope seen p = None" using step by (simp add: validate_step_def)
  moreover have "child = steps_in (d_try p) \<or> child = steps_in (d_catch p)"
    using child(1) rescue by (auto simp: childSequenceRefs_def steps_in_def split: option.splits)
  ultimately have "tryCatchContainsForbidden child = None" by (auto simp: validateTryCatchEntry_def)
  then show ?thesis unfolding tryCatchContainsForbidden_def by (rule walk_return [OF disjI1 _ below]) simp
next
  assume "d_cancel_on p \<noteq> None"
  then obtain c ms steps where c: "d_cancel_on p = Some (c, ms, steps)" by (cases "d_cancel_on p") auto
  then have "validateCancelOnEntry v scope seen p = None"
    using step one by (simp add: validate_step_def flag_simps del: not_None_eq)
  moreover have "childSequenceRefs p = [(ChildMonitors, ms), (ChildSteps, steps)]"
    using one c by (simp add: childSequenceRefs_def single_body_def flag_simps del: not_None_eq)
  ultimately have "cancelOnContainsForbidden child = None" using child(1,3) by (auto simp: validateCancelOnEntry_def c)
  then show ?thesis unfolding cancelOnContainsForbidden_def by (rule walk_return [OF disjI2 _ below]) simp
next
  assume "d_once p \<noteq> None"
  then obtain g steps where g: "d_once p = Some (g, steps)" by (cases "d_once p") auto
  then have "validateOnceEntry v scope seen p = None"
    using step one by (simp add: validate_step_def flag_simps del: not_None_eq)
  moreover have "childSequenceRefs p = with_defer p [(ChildSteps, steps)]"
    using one g by (simp add: childSequenceRefs_def single_body_def flag_simps del: not_None_eq)
  ultimately have "onceContainsReturn child = None"
    using child(1,2) by (auto simp: validateOnceEntry_def g with_defer_def is_cleanup_def split: option.splits)
  then show ?thesis unfolding onceContainsReturn_def by (rule walk_return [OF disjI1 _ below]) simp
next
  assume "d_attempt p \<noteq> None"
  then obtain c steps where c: "d_attempt p = Some (c, steps)" by (cases "d_attempt p") auto
  then have entry: "validateAttemptEntry v scope seen p = None"
    using step one by (simp add: validate_step_def flag_simps del: not_None_eq)
  have "childSequenceRefs p = with_defer p [(ChildSteps, steps)]"
    using one c by (simp add: childSequenceRefs_def single_body_def flag_simps del: not_None_eq)
  then have "child = steps"
    using child(1,2) by (auto simp: with_defer_def is_cleanup_def split: option.splits)
  moreover have "attemptContainsReturn steps = None"
  proof (cases "IsDelay c")
    case True
    then have "steps = []" using entry c
      by (simp add: validateAttemptEntry_def AttemptControl_Validate_def validateDelay_def)
    then show ?thesis by (simp add: attemptContainsReturn_def)
  next
    case False
    then show ?thesis using entry c by (simp add: validateAttemptEntry_def)
  qed
  ultimately have "attemptContainsReturn child = None" by simp
  then show ?thesis unfolding attemptContainsReturn_def by (rule walk_return [OF disjI1 _ below]) simp
qed

lemma sequential_owner:
  assumes one: "one_control p" and req: "d_require p = None" and edge: "sequential_edge p role" "role \<noteq> ChildMonitors"
    and child: "(role, child) \<in> set (childSequenceRefs p)"
    and no: "\<not> IsTryCatch p" "d_cancel_on p = None" "d_once p = None" "d_attempt p = None"
  shows "is_block p \<and> role = ChildSteps"
proof (cases "is_block p")
  case True
  have "role \<noteq> ChildTry \<and> role \<noteq> ChildCatch"
    using child no by (auto simp: childSequenceRefs_def with_defer_def split: if_splits option.splits)
  then show ?thesis using True edge by (cases role) (auto simp: sequential_edge_def is_cleanup_def)
next
  case False
  then have "childSequenceRefs p = with_defer p []"
    using no edge by (simp add: childSequenceRefs_def single_body_def is_block_def sequential_edge_def has_fan_out_def del: not_None_eq)
  then show ?thesis using child edge(1)
    by (auto simp: with_defer_def sequential_edge_def is_cleanup_def split: option.splits)
qed

text \<open>C15: Returns are sequential. In a validated document a return statement on a checked path belongs to the
  main body (not to a finally), and every declaration around it is a block, entered by its steps:
  it is in no control, no concurrent group, no try/catch and no cleanup.\<close>

theorem return_sequential:
  assumes "validateDefinitionStructure lib allow w = None" and "(scope, steps) \<in> set (root_sequences w)"
    and "nested steps path d" and "checked_path path" and "d_return d \<noteq> None"
  shows "scope = ScopeTop \<and> (\<forall>(p, role) \<in> set path. is_block p \<and> role = ChildSteps)"
proof -
  note ok = root_sequence_ok [OF assms(1,2)]
  obtain seen j where "validate_step (recursive_call (lib_compiles lib) allow) (lib_compiles lib) allow
      (path_scope scope path) seen j d = None" and "one_control d" "d_require d = None"
    using nested_checked [OF assms(3) ok assms(4)] by blast
  then have "sequential_scope (path_scope scope path)" using return_scope assms(5) by blast
  note sequential = sequential_path [OF assms(3) ok assms(4) this]
  have "is_block p \<and> role = ChildSteps" if member: "(p, role) \<in> set path" for p role
  proof -
    obtain path1 path2 where path: "path = path1 @ (p, role) # path2" using split_list [OF member] by auto
    obtain child where child: "nested steps path1 p" "(role, child) \<in> set (childSequenceRefs p)" "nested child path2 d"
      using assms(3) unfolding path nested_append by blast
    have "checked_path path1" using assms(4) by (simp add: path checked_path_def)
    note p = nested_checked [OF child(1) ok this]
    have edge: "sequential_edge p role" "role \<noteq> ChildMonitors" and tail: "\<forall>(q, r) \<in> set path2. \<not> is_cleanup r"
      using sequential assms(4) by (auto simp: path checked_path_def checked_edge_def sequential_edge_def)
    obtain v compiles sc seen j where step: "validate_step v compiles allow sc seen j p = None" using p by blast
    have "\<not> is_cleanup role" using edge(1) by (simp add: sequential_edge_def)
    then have "\<not> (IsTryCatch p \<or> d_cancel_on p \<noteq> None \<or> d_once p \<noteq> None \<or> d_attempt p \<noteq> None)"
      using return_excluded [OF step _ _ child(2) _ edge(2) child(3) tail] p assms(5) by blast
    then show ?thesis using sequential_owner [OF _ _ edge child(2)] p by (simp del: not_None_eq)
  qed
  then show ?thesis
    using sequential assms(2) by (auto simp: root_sequences_def sequential_scope_def)
qed

subsection \<open>Identifiers\<close>

text \<open>C16: Identifiers are unique. In every selection of a validated document the ids of the body and of the
  finally together, through blocks, branches, monitors and deferred steps, are valid and pairwise
  different.\<close>

theorem scope_ids_unique:
  assumes "validateDefinitionStructure lib allow w = None" and "s \<in> set (selections w)"
  shows "distinct (claimed (w_steps s) @ claimed (w_finally s))
    \<and> list_all identifierPattern (claimed (w_steps s) @ claimed (w_finally s))"
proof -
  obtain seen1 seen where "collectScopeIDs (w_steps s) {||} = Inr seen1" "collectScopeIDs (w_finally s) seen1 = Inr seen"
    using validated_body [OF assms] by (auto simp: validate_body_def validate_scopes_def split: sum.splits)
  then have "claims (claimed (w_steps s)) {||} seen1" "claims (claimed (w_finally s)) seen1 seen"
    by (simp_all add: collectScopeIDs_def exactD [OF collect_exact])
  then show ?thesis by (auto simp: claims_def fset_of_list.rep_eq)
qed

subsection \<open>Services and edges\<close>

text \<open>C17: No service starts in cleanup. In every selection of a validated document a process step is neither
  in the finally nor below a finally or a defer of the body.\<close>

theorem services_outside_cleanup:
  assumes "validateDefinitionStructure lib allow w = None" and "s \<in> set (selections w)"
  shows "\<not> (\<exists>path d. nested (w_finally s) path d \<and> d_type d = ''process'')
    \<and> \<not> (\<exists>path d. nested (w_steps s) path d \<and> d_type d = ''process'' \<and> (\<exists>(p, role) \<in> set path. is_cleanup role))"
proof -
  have "walk services_check services_down False 0 (w_steps s) = None"
    "walk services_check services_down True 0 (w_finally s) = None"
    using validated_body [OF assms] by (simp_all add: validate_body_def validateCleanupServices_def)
  then show ?thesis by (auto simp: services_check_def dest!: walk_nested [where down = services_down])
qed

lemma walk_context_needs:
  "\<exists>ctx'. walk_context needs_down ctx path = Some ctx' \<and>
     (ctx' \<longleftrightarrow> (if path = [] then ctx else d_concurrent (fst (last path)) \<noteq> None \<and> snd (last path) = ChildSteps))"
  by (induction path arbitrary: ctx) (auto simp: needs_down_def)

lemma root_needs:
  assumes "validateDefinitionStructure lib allow w = None" and "(scope, steps) \<in> set (root_sequences w)"
  shows "walk needs_check needs_down False 0 steps = None"
proof -
  obtain s where "s \<in> set (selections w)"
    and root: "steps \<in> {w_steps s, w_finally s, w_install s, w_uninstall s}"
    using assms(2) by (auto simp: root_sequences_def)
  then have body: "validate_body lib allow s = None" using validated_body [OF assms(1)] by blast
  then have "validateLifecycleSteps lib (w_install s) allow ''install'' = None"
      "validateLifecycleSteps lib (w_uninstall s) allow ''uninstall'' = None" by (simp_all add: validate_body_def)
  then have "validateNeedsPlacement (w_install s) False = None" "validateNeedsPlacement (w_uninstall s) False = None"
    by (auto simp: validateLifecycleSteps_def validateNeedsPlacement_def split: if_splits)
  then show ?thesis using body root by (auto simp: validate_body_def validateNeedsPlacement_def)
qed

text \<open>Edges only in groups. In a validated document a declaration that lists needs or after, wherever it
  is nested, is a direct child of a concurrent group.\<close>

theorem edges_in_groups:
  assumes "validateDefinitionStructure lib allow w = None" and "(scope, steps) \<in> set (root_sequences w)"
    and "nested steps path d" and "f_needs (d_fields d) \<noteq> [] \<or> f_after (d_fields d) \<noteq> []"
  shows "path \<noteq> [] \<and> d_concurrent (fst (last path)) \<noteq> None \<and> snd (last path) = ChildSteps"
proof -
  obtain ctx where ctx: "walk_context needs_down False path = Some ctx"
    "ctx \<longleftrightarrow> (if path = [] then False else d_concurrent (fst (last path)) \<noteq> None \<and> snd (last path) = ChildSteps)"
    using walk_context_needs [of False path] by blast
  obtain j where "needs_check ctx j d = None" using walk_nested [OF assms(3) root_needs [OF assms(1,2)] ctx(1)] by blast
  then have "ctx" using assms(4) by (auto simp: needs_check_def Let_def)
  then show ?thesis using ctx(2) by (simp split: if_splits)
qed

subsection \<open>Concurrent groups\<close>

text \<open>The checks of a group read the metadata of its children only.\<close>

lemma check_ids_meta:
  "(\<And>x. meta (f x) = meta (g x)) \<Longrightarrow> check_ids i (map f xs) ids = check_ids i (map g xs) ids"
  by (induction xs arbitrary: i ids) (auto split: option.splits)

lemma check_edges_meta:
  "(\<And>x. meta (f x) = meta (g x)) \<Longrightarrow> check_edges ids i (map f xs) e = check_edges ids i (map g xs) e"
  by (induction xs arbitrary: i e) (auto simp: Let_def concurrentStepLabel_def split: sum.splits)

lemma well_formed_meta:
  assumes "\<And>x. meta (f x) = meta (g x)"
  shows "well_formed_edges (map f xs) \<longleftrightarrow> well_formed_edges (map g xs)"
  unfolding validate_iff_well_formed [symmetric] validateConcurrentNeeds_def
  by (simp add: check_ids_meta [OF assms] check_edges_meta [OF assms] Let_def split: sum.splits prod.splits)

lemma group_validate_wf:
  assumes "group_validate g steps = None"
  shows "well_formed_edges (map classify steps) \<and> 0 < conc_max_concurrency g"
proof -
  have "ConcurrentGroup_Validate g (map sibling_view steps) = Inr ()"
    using assms by (auto simp: group_validate_def split: sum.splits)
  then have "well_formed_edges (map sibling_view steps)" and pos: "0 < conc_max_concurrency g"
    unfolding validate_iff_well_formed [symmetric]
    by (auto simp: ConcurrentGroup_Validate_def split: if_splits option.splits sum.splits)
  moreover have "meta (sibling_view d) = meta (classify d)" for d by (simp add: sibling_view_def classify_simps)
  ultimately show ?thesis using well_formed_meta [of sibling_view classify steps] by simp
qed

text \<open>C13: Validated groups cannot deadlock. For a concurrent group on a checked path of a validated document,
  however the scheduler interleaves launches and completions and whatever the branches return, its
  loop over the classified children ends only when every branch has finished or was skipped, unless the
  context of the group was cancelled.\<close>

theorem validated_group_no_deadlock:
  assumes "validateDefinitionStructure lib allow w = None" and "(scope, steps) \<in> set (root_sequences w)"
    and "nested steps path d" and "checked_path path" and "d_concurrent d = Some (g, children)"
    and "group_reach g (map classify children) snapshot st" and "\<not> sched_open g (map classify children) st"
    and "\<not> b_cancelled st" and "i < length children"
  shows "b_status st ! i = Finished \<or> b_status st ! i = DepSkipped"
proof -
  obtain v compiles sc seen j where step: "validate_step v compiles allow sc seen j d = None" and one: "one_control d"
    and req: "d_require d = None"
    using nested_checked [OF assms(3) root_sequence_ok [OF assms(1,2)] assms(4)] by blast
  then have "validateConcurrentEntry v sc seen d = None"
    using assms(5) by (simp add: validate_step_def flag_simps del: not_None_eq)
  then have "group_validate g children = None" by (simp add: validateConcurrentEntry_def assms(5))
  note wf = group_validate_wf [OF this]
  then have "acyclic (edge_set (sibling_preds (map classify children)))" by (simp add: well_formed_edges_def)
  from loop_end [OF reach_inv [OF assms(6)] this _ assms(7,8)] wf assms(9)
  show ?thesis by (simp add: ended_def)
qed

subsection \<open>A document\<close>

definition demo_library :: library where
  "demo_library = \<lparr>lib_compiles = (\<lambda>_. None), lib_location = (\<lambda>_. None), lib_cron = (\<lambda>_. Inr True)\<rparr>"

definition leaf_fields :: "string \<Rightarrow> string \<Rightarrow> decl_fields" where
  "leaf_fields name kind = zero_fields\<lparr>f_id := name, f_type := kind\<rparr>"

definition leaf_decl :: "string \<Rightarrow> string \<Rightarrow> decl" where
  "leaf_decl name kind = plain_decl (leaf_fields name kind)"

text \<open>A conditional block with the given body.\<close>

definition block_decl :: "decl list \<Rightarrow> decl" where
  "block_decl steps = Decl (zero_fields\<lparr>f_if := ''vars.ok''\<rparr>)
     None (Some steps) None None None None None None None None None None None None None"

definition group_decl :: "concurrent_group \<Rightarrow> decl list \<Rightarrow> decl" where
  "group_decl g steps = Decl zero_fields
     None None None None (Some (g, steps)) None None None None None None None None None None"

definition demo_return :: decl where
  "demo_return = plain_decl (zero_fields\<lparr>f_return := Some \<lparr>ret_to = [], ret_outputs = Some fmempty\<rparr>\<rparr>)"

definition demo_children :: "decl list" where
  "demo_children = [leaf_decl ''a'' ''command'', plain_decl ((leaf_fields ''b'' ''command'')\<lparr>f_needs := [''a'']\<rparr>),
     plain_decl ((leaf_fields ''c'' ''command'')\<lparr>f_after := [''a'']\<rparr>)]"

definition demo_body :: "decl list" where
  "demo_body = [leaf_decl ''web'' ''process'', group_decl demo_grp demo_children, block_decl [demo_return]]"

definition document :: "decl list \<Rightarrow> decl list \<Rightarrow> workflow_definition" where
  "document steps final = \<lparr>w_version = 1, w_package_version = [], w_name = ''demo'', w_description = [],
     w_depends_on = fmempty, w_plugins = {||}, w_outputs = fmempty, w_form = None, w_cron = [], w_timezone = [],
     w_vars = fmempty, w_env = fmempty, w_steps = steps, w_finally = final, w_targets = None,
     w_install = [], w_uninstall = [], w_secrets = []\<rparr>"

definition demo_document :: workflow_definition where
  "demo_document = document demo_body [leaf_decl ''report'' ''command'']"

lemma demo_document_valid: "validateDefinitionStructure demo_library True demo_document = None"
  by code_simp

lemma demo_document_root: "(ScopeTop, demo_body) \<in> set (root_sequences demo_document)" "demo_document \<in> set (selections demo_document)"
  by (simp_all add: root_sequences_def selections_def HasTargets_def demo_document_def document_def)

lemma demo_nested:
  "nested demo_body [] (group_decl demo_grp demo_children)"
  "nested demo_body [(group_decl demo_grp demo_children, ChildSteps)] (demo_children ! 1)"
  "nested demo_body [(block_decl [demo_return], ChildSteps)] demo_return"
proof -
  have "(ChildSteps, demo_children) \<in> set (childSequenceRefs (group_decl demo_grp demo_children))"
    "(ChildSteps, [demo_return]) \<in> set (childSequenceRefs (block_decl [demo_return]))" by code_simp+
  then show "nested demo_body [(group_decl demo_grp demo_children, ChildSteps)] (demo_children ! 1)"
      "nested demo_body [(block_decl [demo_return], ChildSteps)] demo_return"
    by (auto intro!: nested.intros simp: demo_body_def demo_children_def)
qed (auto intro: nested.intros simp: demo_body_def)

lemma demo_checked:
  "checked_path []" "checked_path [(block_decl [demo_return], ChildSteps)]"
  "checked_path [(group_decl demo_grp demo_children, ChildSteps)]"
  by (simp_all add: checked_path_def checked_edge_def)

lemma demo_classify: "map classify demo_children = demo_steps"
  by code_simp

theorem validated_controls_witness:
  "length (filter id (control_flags (group_decl demo_grp demo_children))) = 1
     \<and> d_require (group_decl demo_grp demo_children) = None"
  by (rule validated_controls [OF demo_document_valid demo_document_root(1) demo_nested(1) demo_checked(1)])


theorem return_sequential_witness: "is_block (block_decl [demo_return]) \<and> f_return (d_fields demo_return) \<noteq> None"
proof -
  have "d_return demo_return \<noteq> None" by (simp add: demo_return_def plain_decl_def)
  then show ?thesis
    using return_sequential [OF demo_document_valid demo_document_root(1) demo_nested(3) demo_checked(2)] by simp
qed

theorem scope_ids_unique_witness: "claimed demo_body = [''web'', ''a'', ''b'', ''c''] \<and> distinct (claimed demo_body)"
proof -
  have "claimed demo_body = [''web'', ''a'', ''b'', ''c'']" by code_simp
  then show ?thesis
    using scope_ids_unique [OF demo_document_valid demo_document_root(2)]
    by (simp add: demo_document_def document_def)
qed

theorem services_outside_cleanup_witness:
  "\<not> (\<exists>path d. nested (w_finally demo_document) path d \<and> d_type d = ''process'')
    \<and> nested demo_body [] (leaf_decl ''web'' ''process'')"
  using services_outside_cleanup [OF demo_document_valid demo_document_root(2)]
  by (auto intro: nested.intros simp: demo_body_def)

theorem edges_in_groups_witness:
  "f_needs (d_fields (demo_children ! 1)) = [''a''] \<and> d_concurrent (group_decl demo_grp demo_children) \<noteq> None"
  using edges_in_groups [OF demo_document_valid demo_document_root(1) demo_nested(2)]
  by (simp add: demo_children_def plain_decl_def group_decl_def)

theorem validated_group_no_deadlock_witness: "b_status demo_last ! 1 = Finished \<or> b_status demo_last ! 1 = DepSkipped"
proof -
  have "d_concurrent (group_decl demo_grp demo_children) = Some (demo_grp, demo_children)" by (simp add: group_decl_def)
  moreover have "1 < length demo_children" by (simp add: demo_children_def)
  ultimately show ?thesis
    using validated_group_no_deadlock [OF demo_document_valid demo_document_root(1) demo_nested(1) demo_checked(1)]
      demo_reach_last demo_last_over unfolding demo_classify [symmetric] by blast
qed

end
