(* ===== verification/ValidationGaps.thy ===== *)
theory ValidationGaps
  imports WorkflowProperties
begin

text \<open>
  Documents that pass structure validation although its rules forbid what they hold, each a closed
  fact about a concrete document. They delimit the properties of the theory WorkflowProperties, whose
  paths avoid the places that are not checked.
\<close>

text \<open>The deferred steps of an attempt. workflow/attempt.go, \<^verbatim>\<open>validateAttemptEntry\<close>, does not mention the deferred steps of an attempt, and
  neither \<^verbatim>\<open>collectScopeIDs\<close> nor \<^verbatim>\<open>validateSteps\<close> goes on to them; \<^verbatim>\<open>executeSequence\<close> registers and
  runs them.\<close>

definition gap_control :: attempt_control where
  "gap_control = demo_attempt []"

definition gap_attempt :: decl where
  "gap_attempt = Decl (zero_fields\<lparr>f_id := ''retry''\<rparr>)
     None None None (Some [leaf_decl ''9 bad'' ''command'', leaf_decl ''9 bad'' ''command'', demo_return])
     None None None None None None (Some (gap_control, [leaf_decl ''call'' ''command''])) None None None None"

text \<open>A gap: this document passes structure validation although the deferred steps of its attempt
  repeat an id that is not even valid and contain a return.\<close>

theorem attempt_defer_unchecked:
  "validateDefinitionStructure demo_library True (document [gap_attempt] []) = None
    \<and> nested [gap_attempt] [(gap_attempt, ChildDefer)] demo_return
    \<and> nested [gap_attempt] [(gap_attempt, ChildDefer)] (leaf_decl ''9 bad'' ''command'')
    \<and> \<not> identifierPattern ''9 bad''"
proof (intro conjI)
  show "validateDefinitionStructure demo_library True (document [gap_attempt] []) = None" by code_simp
  have "(ChildDefer, [leaf_decl ''9 bad'' ''command'', leaf_decl ''9 bad'' ''command'', demo_return])
      \<in> set (childSequenceRefs gap_attempt)" by code_simp
  then show "nested [gap_attempt] [(gap_attempt, ChildDefer)] demo_return"
      "nested [gap_attempt] [(gap_attempt, ChildDefer)] (leaf_decl ''9 bad'' ''command'')"
    by (auto intro!: nested.intros)
  show "\<not> identifierPattern ''9 bad''" by code_simp
qed

text \<open>workflow/structure_validation.go, \<^verbatim>\<open>validateLoopEntry\<close>, rejects a \<^verbatim>\<open>steps\<close> list beside \<^verbatim>\<open>loop\<close> only
  through \<^verbatim>\<open>IsConditionalBlock\<close>, which is false for a loop. The list is then ignored.\<close>

definition gap_loop :: decl where
  "gap_loop = Decl (zero_fields\<lparr>f_id := ''poll''\<rparr>) None (Some [demo_return]) None None None None None None
     (Some (\<lparr>loop_until = ''true'', loop_delay_literal = 0, loop_delay_expression = [], loop_max_iterations = 3,
        loop_timeout = None\<rparr>, [leaf_decl ''call'' ''command''])) None None None None None None"

text \<open>The limit as numerals, for evaluation.\<close>

lemma MaxIterations_unfold [code_unfold]: "nat_text MaxIterations = ''1000000''" "int MaxIterations = 1000000"
  by (simp_all add: MaxIterations_def nat_text.simps char_of_def bit_0)

theorem loop_steps_ignored:
  "validateDefinitionStructure demo_library True (document [gap_loop] []) = None
    \<and> d_steps gap_loop = Some [demo_return] \<and> childSequenceRefs gap_loop = [(ChildSteps, [leaf_decl ''call'' ''command''])]"
  by (intro conjI; code_simp)

text \<open>workflow/cancel_on.go, \<^verbatim>\<open>cancelOnMonitorDeclaration\<close>, keeps the id of a worktree monitor, and
  \<^verbatim>\<open>collectScopeIDs\<close> goes on to the body of a monitor only when the id was taken away.\<close>

definition gap_monitor :: decl where
  "gap_monitor = Decl (zero_fields\<lparr>f_id := ''watch''\<rparr>)
     (Some (\<lparr>wt_revision = ''HEAD'', wt_path = ''auto'', wt_publish_branch = None\<rparr>, [leaf_decl ''body'' ''command'', leaf_decl ''body'' ''command'']))
     None None None None None None None None None None None None None None"

definition gap_cancel_on :: decl where
  "gap_cancel_on = Decl (zero_fields\<lparr>f_id := ''guard''\<rparr>) None None None None None None None None None None None
     (Some ([], [gap_monitor], [leaf_decl ''body'' ''command''])) None None None"

theorem worktree_monitor_ids_unchecked:
  "validateDefinitionStructure demo_library True (document [gap_cancel_on] []) = None
    \<and> claimed [gap_cancel_on] = [''guard'', ''watch'', ''body'']"
  by (intro conjI; code_simp)

text \<open>workflow/structure_validation.go: the lifecycle hooks are not given to \<^verbatim>\<open>validateCleanupServices\<close>, so a
  service may start in the deferred steps of a hook.\<close>

definition gap_hook :: decl where
  "gap_hook = Decl (leaf_fields ''setup'' ''command'') None None None (Some [leaf_decl ''web'' ''process''])
     None None None None None None None None None None None"

theorem hook_services_unchecked:
  "validateDefinitionStructure demo_library True ((document [leaf_decl ''a'' ''command''] [])\<lparr>w_install := [gap_hook]\<rparr>) = None
    \<and> validateCleanupServices [gap_hook] False \<noteq> None"
  by (intro conjI; code_simp)

end
