(* ===== verification/Machine.thy ===== *)
theory Machine
  imports Outcomes AttemptOptions "HOL-Library.State_Monad"
begin

text \<open>
  The machine on which the interpreter of the engine runs: what executeSequence and its handlers
  read and change, as the state of the library's state monad.

  \<open>'w mach\<close> holds what the Go code reaches through pointers: the \<^verbatim>\<open>State\<close> and the \<^verbatim>\<open>RunStats\<close>
  passed down the calls, the deferred groups of the current scope (\<^verbatim>\<open>Options.defers\<close>), the recorder
  of the enclosing attempt pass (\<^verbatim>\<open>Options.passFailure\<close>), the cleanup scope of the current path
  (\<^verbatim>\<open>Options.cleanups\<close>, or the run's) and the world \<open>'w\<close> outside the engine. \<open>options\<close> are the
  fields of \<^verbatim>\<open>Options\<close> passed by value. Progress events, traces and clock readings are not kept.

  The world is read through \<open>'w effects\<close>: the polls of contexts, the expression and template
  libraries, leaf steps, the store of once records, git and executors. An effect may answer
  anything; a concurrent branch of the program is run as one sequence of steps, and the answers it
  gets are those of some interleaving.
\<close>

subsection \<open>Contexts\<close>

text \<open>
  How a context was derived. What \<^verbatim>\<open>Err()\<close> returns depends on the clock and on other goroutines,
  so it is an answer of the world, except that a context detached by \<^verbatim>\<open>context.WithoutCancel\<close> is
  never done. \<open>Err()\<close> of the standard contexts is nil or one of the two sentinels.
\<close>

datatype ctx = RunCtx | WithCancel ctx | WithTimeout int ctx | WithoutCancel ctx

datatype ctx_state = Live | CtxCanceled | CtxDeadline

definition ctx_state_error :: "ctx_state \<Rightarrow> goerr option" where
  "ctx_state_error c = (case c of
     Live \<Rightarrow> None | CtxCanceled \<Rightarrow> Some Canceled | CtxDeadline \<Rightarrow> Some DeadlineExceeded)"

subsection \<open>Options passed by value\<close>

record options =
  o_runDir :: string
  o_interactive :: bool
  o_insideExecutor :: bool
  o_executorFileSystem :: bool
  o_executor :: nat
  o_scopedEnv :: "string gomap option"
  o_attempt :: int
  o_maxAttempts :: int
  o_operationID :: string
  o_operationPrefix :: string
  o_previousPass :: "step_result gomap"
  o_onceClaims :: "nat gomap"
  o_services :: nat
  o_deferContextValidation :: bool

text \<open>What the interpreter reads of a workflow.Definition\<close>

record run_definition =
  df_name :: string
  df_dir :: string
  df_timezone :: string
  df_steps :: "step list"
  df_finally :: "step list"
  df_outputs :: "workflow_output gomap"

subsection \<open>What a leaf step sees and returns\<close>

text \<open>step.Request, less its writers and host services\<close>

record request =
  rq_step :: string
  rq_workflow :: string
  rq_runDir :: string
  rq_loaders :: "string list"
  rq_inputs :: vmap
  rq_vars :: vmap
  rq_presetVars :: vmap
  rq_env :: "string gomap"
  rq_checks :: "check_finding list"
  rq_steps :: vmap
  rq_dependencies :: "vmap gomap"
  rq_providers :: vmap
  rq_bindings :: "vmap option"
  rq_interactive :: bool
  rq_attempt :: int
  rq_maxAttempts :: int
  rq_operationID :: string
  rq_previous :: "step_result option"

record runner =
  rn_handle :: nat
  rn_cleaner :: bool

datatype run_result = Returned step_result "goerr option" | Panicked string

text \<open>step.OutputSchema\<close>

datatype output_kind = OutputUnknown | OutputScalar | OutputObject | OutputArray

datatype output_schema = OutputSchema (os_kind: output_kind) (os_open: bool)
  (os_fields: "(string, output_schema) fmap") (os_items: "output_schema option")

text \<open>A managed resource: what the closure registered by managedExecutor captures\<close>

record cleanup =
  cl_step :: string
  cl_runner :: nat
  cl_outputs :: vmap
  cl_variables :: vmap

datatype claim_result = Claimed nat | ClaimBusy | ClaimFailed goerr

record executor_provider =
  ep_handle :: nat
  ep_filesystem :: bool

record background_program =
  bp_handle :: nat
  bp_result :: step_result

subsection \<open>Effects\<close>

type_synonym ('w, 'a) query = "'w \<Rightarrow> 'a \<times> 'w"

record 'w time_fx =
  fx_poll :: "ctx \<Rightarrow> ('w, ctx_state) query"
  fx_cancel :: "ctx \<Rightarrow> ('w, unit) query"
  fx_wait :: "ctx \<Rightarrow> int \<Rightarrow> ('w, ctx_state) query"
  fx_uniform :: "('w, rat) query"
  fx_pick :: "nat list \<Rightarrow> ('w, nat) query"

record 'w language_fx =
  fx_compile :: "string \<Rightarrow> goerr option"
  fx_compile_until :: "string \<Rightarrow> goerr option"
  fx_program :: "string \<Rightarrow> vmap \<Rightarrow> ('w, goerr + val) query"
  fx_eval :: "string \<Rightarrow> vmap \<Rightarrow> ('w, goerr + val) query"
  fx_evaluate :: "string \<Rightarrow> vmap \<Rightarrow> ('w, goerr + val) query"
  fx_render :: "string \<Rightarrow> vmap \<Rightarrow> ('w, goerr + string) query"
  fx_config :: "string \<Rightarrow> vmap \<Rightarrow> vmap \<Rightarrow> vmap \<Rightarrow> ('w, goerr + vmap) query"
  fx_show_float :: "rat \<Rightarrow> string"
  fx_os :: string
  fx_arch :: string
  fx_digest :: "string \<Rightarrow> string"
  fx_random :: "('w, goerr + string) query"

record 'w leaf_fx =
  fx_build :: "ctx \<Rightarrow> string \<Rightarrow> vmap \<Rightarrow> ('w, goerr + runner) query"
  fx_schema :: "ctx \<Rightarrow> string \<Rightarrow> vmap \<Rightarrow> ('w, goerr + output_schema) query"
  fx_run :: "nat \<Rightarrow> ctx \<Rightarrow> request \<Rightarrow> ('w, run_result) query"
  fx_cleanup :: "cleanup \<Rightarrow> ctx \<Rightarrow> ('w, goerr option) query"
  fx_action_prepare :: "action_source \<Rightarrow> vmap \<Rightarrow> vmap \<Rightarrow> ('w, goerr + nat) query"
  fx_action_run :: "nat \<Rightarrow> ctx \<Rightarrow> request \<Rightarrow> ('w, step_result \<times> goerr option) query"
  fx_action_cleanup :: "nat \<Rightarrow> ('w, unit) query"
  fx_validate :: "ctx \<Rightarrow> step list \<Rightarrow> options \<Rightarrow> wstate \<Rightarrow> ('w, goerr option) query"

record 'w services_fx =
  fx_services_new :: "ctx \<Rightarrow> ('w, nat) query"
  fx_services_seal :: "nat \<Rightarrow> ('w, unit) query"
  fx_services_stop :: "nat \<Rightarrow> ('w, unit) query"
  fx_services_wait :: "nat \<Rightarrow> ('w, goerr option) query"
  fx_services_ended :: "nat \<Rightarrow> ('w, bool) query"
  fx_services_cancel :: "nat \<Rightarrow> ('w, unit) query"
  fx_launch :: "ctx \<Rightarrow> step \<Rightarrow> string \<Rightarrow> string gomap \<Rightarrow> vmap \<Rightarrow> ('w, goerr + background_program) query"
  fx_close_program :: "nat \<Rightarrow> ('w, unit) query"
  fx_start_background :: "step \<Rightarrow> options \<Rightarrow> wstate \<Rightarrow> nat \<Rightarrow> ('w, goerr option) query"

record 'w host_fx =
  fx_filesystem :: "nat \<Rightarrow> nat"
  fx_stat_dir :: "nat \<Rightarrow> ctx \<Rightarrow> string \<Rightarrow> ('w, goerr + bool) query"
  fx_executor_build :: "ctx \<Rightarrow> string \<Rightarrow> vmap \<Rightarrow> ('w, goerr + executor_provider) query"
  fx_executor_open :: "nat \<Rightarrow> ctx \<Rightarrow> string \<Rightarrow> string gomap \<Rightarrow> ('w, goerr + nat) query"
  fx_executor_close :: "nat \<Rightarrow> ctx \<Rightarrow> ('w, goerr option) query"
  fx_worktree_path :: "string \<Rightarrow> string \<Rightarrow> ('w, goerr + string) query"
  fx_git :: "options \<Rightarrow> string gomap \<Rightarrow> ctx \<Rightarrow> string \<Rightarrow> string list \<Rightarrow> ('w, goerr + string) query"
  fx_on_return :: "string \<Rightarrow> ('w, unit) query"
  fx_replaced :: "('w, bool) query"

record 'w store_fx =
  fx_once_open :: "string \<Rightarrow> ('w, goerr + nat) query"
  fx_once_get :: "nat \<Rightarrow> ctx \<Rightarrow> string \<Rightarrow> ('w, goerr + val option) query"
  fx_once_set :: "nat \<Rightarrow> ctx \<Rightarrow> string \<Rightarrow> val \<Rightarrow> ('w, goerr + val) query"
  fx_once_claim :: "nat \<Rightarrow> ctx \<Rightarrow> string \<Rightarrow> bool \<Rightarrow> string list \<Rightarrow> ('w, claim_result) query"
  fx_claim_path :: "nat \<Rightarrow> string \<Rightarrow> string"
  fx_claim_location :: "nat \<Rightarrow> string"
  fx_add_wanted :: "nat \<Rightarrow> string \<Rightarrow> string \<Rightarrow> ('w, goerr option) query"
  fx_remove_wanted :: "nat \<Rightarrow> string \<Rightarrow> string \<Rightarrow> ('w, goerr option) query"
  fx_release :: "nat \<Rightarrow> ('w, goerr option) query"

record 'w effects =
  fx_time :: "'w time_fx"
  fx_language :: "'w language_fx"
  fx_leaf :: "'w leaf_fx"
  fx_services :: "'w services_fx"
  fx_host :: "'w host_fx"
  fx_store :: "'w store_fx"
  fx_polls :: nat

subsection \<open>The machine\<close>

text \<open>\<open>m_failure\<close> is the pointer to the recorder of a pass, with the last failed step and its outputs;
  \<open>m_stuck\<close> says that the run did not return: a polling attempt went beyond the bound \<open>fx_polls\<close>, or
  the Go code panics.\<close>

record 'w mach =
  m_world :: 'w
  m_state :: wstate
  m_stats :: run_stats
  m_defers :: "options defer_stack"
  m_failure :: "(string \<times> vmap option) option"
  m_cleanups :: "cleanup list"
  m_stuck :: bool

type_synonym ('w, 'a) exec = "('w mach, 'a) state"

abbreviation ret :: "'a \<Rightarrow> ('s, 'a) state" where
  "ret \<equiv> State_Monad.return"

definition effect :: "('w, 'a) query \<Rightarrow> ('w, 'a) exec" where
  "effect f = State (\<lambda>m. case f (m_world m) of (a, w) \<Rightarrow> (a, m\<lparr>m_world := w\<rparr>))"

definition gets :: "('s \<Rightarrow> 'a) \<Rightarrow> ('s, 'a) state" where
  "gets f = State (\<lambda>s. (f s, s))"

definition modify :: "('s \<Rightarrow> 's) \<Rightarrow> ('s, unit) state" where
  "modify f = State (\<lambda>s. ((), f s))"

lemma run_effect [simp]:
  "run_state (effect f) m = (case f (m_world m) of (a, w) \<Rightarrow> (a, m\<lparr>m_world := w\<rparr>))"
  by (simp add: effect_def)

lemma run_gets [simp]: "run_state (gets f) s = (f s, s)"
  by (simp add: gets_def)

lemma run_modify [simp]: "run_state (modify f) s = ((), f s)"
  by (simp add: modify_def)

text \<open>Sequential composition\<close>

lemma run_bindE:
  assumes "run_state (act \<bind> k) m = (b, m')"
  obtains a m1 where "run_state act m = (a, m1)" "run_state (k a) m1 = (b, m')"
  using assms by (cases "run_state act m") auto

lemma bind_agree:
  "(\<And>m a m'. run_state act m = (a, m') \<Longrightarrow> k a = k' a) \<Longrightarrow> act \<bind> k = act \<bind> k'"
  by (rule state.expand) (auto simp: fun_eq_iff split: prod.split)

abbreviation change_state :: "(wstate \<Rightarrow> wstate) \<Rightarrow> ('w, unit) exec" where
  "change_state f \<equiv> modify (\<lambda>m. m\<lparr>m_state := f (m_state m)\<rparr>)"

abbreviation change_stats :: "(run_stats \<Rightarrow> run_stats) \<Rightarrow> ('w, unit) exec" where
  "change_stats f \<equiv> modify (\<lambda>m. m\<lparr>m_stats := f (m_stats m)\<rparr>)"

text \<open>A run that does not return: it polls beyond the bound, or the Go code panics.\<close>

definition give_up :: "'a \<Rightarrow> ('w, 'a) exec" where
  "give_up a = do { modify (\<lambda>m. m\<lparr>m_stuck := True\<rparr>); ret a }"

text \<open>The result of \<^verbatim>\<open>ctx.Err()\<close>\<close>

fun ctx_err :: "'w effects \<Rightarrow> ctx \<Rightarrow> ('w, goerr option) exec" where
  "ctx_err fx (WithoutCancel _) = ret None"
| "ctx_err fx c = do { s \<leftarrow> effect (fx_poll (fx_time fx) c); ret (ctx_state_error s) }"

text \<open>The world picks one of the goroutines that may go on.\<close>

definition pick_one :: "'w effects \<Rightarrow> nat list \<Rightarrow> ('w, nat) exec" where
  "pick_one fx candidates = do {
     i \<leftarrow> effect (fx_pick (fx_time fx) candidates);
     ret (if i \<in> set candidates then i else hd candidates)
   }"

subsection \<open>Private states\<close>

text \<open>
  Running a body on a state and statistics of its own, as the controls do with the variables
  \<^verbatim>\<open>private\<close> and \<^verbatim>\<open>stats\<close>: the caller's are back afterwards, and what the body made of the private
  ones is a result.
\<close>

definition run_private :: "wstate \<Rightarrow> run_stats \<Rightarrow> ('w, 'a) exec \<Rightarrow> ('w, 'a \<times> wstate \<times> run_stats) exec" where
  "run_private st stats act = do {
     outer \<leftarrow> gets id;
     modify (\<lambda>m. m\<lparr>m_state := st, m_stats := stats\<rparr>);
     a \<leftarrow> act;
     inner \<leftarrow> gets id;
     modify (\<lambda>m. m\<lparr>m_state := m_state outer, m_stats := m_stats outer\<rparr>);
     ret (a, m_state inner, m_stats inner)
   }"

text \<open>Running a body on the current state with statistics of its own\<close>

definition run_counted :: "run_stats \<Rightarrow> ('w, 'a) exec \<Rightarrow> ('w, 'a \<times> run_stats) exec" where
  "run_counted stats act = do {
     outer \<leftarrow> gets m_stats;
     modify (\<lambda>m. m\<lparr>m_stats := stats\<rparr>);
     a \<leftarrow> act;
     inner \<leftarrow> gets m_stats;
     modify (\<lambda>m. m\<lparr>m_stats := outer\<rparr>);
     ret (a, inner)
   }"

text \<open>Running a body with another \<^verbatim>\<open>Options.defers\<close>, \<^verbatim>\<open>passFailure\<close> or \<^verbatim>\<open>cleanups\<close>\<close>

definition with_defers :: "options defer_stack \<Rightarrow> ('w, 'a) exec \<Rightarrow> ('w, 'a) exec" where
  "with_defers stack act = do {
     outer \<leftarrow> gets m_defers;
     modify (\<lambda>m. m\<lparr>m_defers := stack\<rparr>);
     a \<leftarrow> act;
     modify (\<lambda>m. m\<lparr>m_defers := outer\<rparr>);
     ret a
   }"

definition with_failure :: "('w, 'a) exec \<Rightarrow> ('w, 'a \<times> string \<times> vmap option) exec" where
  "with_failure act = do {
     outer \<leftarrow> gets m_failure;
     modify (\<lambda>m. m\<lparr>m_failure := Some ([], None)\<rparr>);
     a \<leftarrow> act;
     inner \<leftarrow> gets m_failure;
     modify (\<lambda>m. m\<lparr>m_failure := outer\<rparr>);
     ret (a, case inner of None \<Rightarrow> ([], None) | Some f \<Rightarrow> f)
   }"

definition with_cleanups :: "('w, 'a) exec \<Rightarrow> ('w, 'a \<times> cleanup list) exec" where
  "with_cleanups act = do {
     outer \<leftarrow> gets m_cleanups;
     modify (\<lambda>m. m\<lparr>m_cleanups := []\<rparr>);
     a \<leftarrow> act;
     inner \<leftarrow> gets m_cleanups;
     modify (\<lambda>m. m\<lparr>m_cleanups := outer\<rparr>);
     ret (a, inner)
   }"

subsection \<open>Cleanup scopes\<close>

text \<open>engine/progress.go: cleanupScope.register, adopt and run. Resources are released in reverse
  order, and every error is kept.\<close>

definition register_cleanup :: "cleanup \<Rightarrow> ('w, unit) exec" where
  "register_cleanup c = modify (\<lambda>m. m\<lparr>m_cleanups := m_cleanups m @ [c]\<rparr>)"

definition adopt_cleanups :: "cleanup list \<Rightarrow> ('w, unit) exec" where
  "adopt_cleanups cs = modify (\<lambda>m. m\<lparr>m_cleanups := m_cleanups m @ cs\<rparr>)"

definition release :: "'w effects \<Rightarrow> ctx \<Rightarrow> cleanup \<Rightarrow> ('w, goerr option) exec" where
  "release fx c cl = do {
     e \<leftarrow> effect (fx_cleanup (fx_leaf fx) cl c);
     ret (map_option (Wrapped (''cleaning managed resources for step '' @ go_quote (cl_step cl))) e)
   }"

definition run_cleanups :: "'w effects \<Rightarrow> ctx \<Rightarrow> cleanup list \<Rightarrow> ('w, goerr list) exec" where
  "run_cleanups fx c cs = do {
     es \<leftarrow> State_Monad.traverse_list (release fx c) (rev cs);
     ret (List.map_filter id es)
   }"

end
