(* ===== verification/Conditions.thy ===== *)
theory Conditions
  imports Machine Expansion
begin

text \<open>
  What expressions and templates see of a run, and how a condition is evaluated
  (engine/condition.go, engine/engine.go templateData, workflow/runtime.go, step/check.go). The
  compiler and the virtual machine of the expression library are effects, and so are the functions
  a definition's helpers add to the roots.
\<close>

text \<open>step.CheckValues\<close>

definition check_value :: "check_finding \<Rightarrow> val" where
  "check_value f = vmap_of [(''id'', VStr (chk_id f)), (''status'', VStr (chk_status f)),
     (''message'', VStr (chk_message f)), (''fix'', VStr (chk_fix f))]"

definition CheckValues :: "check_finding list \<Rightarrow> val" where
  "CheckValues fs = VList (map check_value fs)"

definition env_val :: "string gomap \<Rightarrow> val" where
  "env_val e = VMap (fmmap VStr e)"

definition run_val :: "'w effects \<Rightarrow> options \<Rightarrow> wstate \<Rightarrow> val" where
  "run_val fx opts st = vmap_of [(''dir'', VStr (o_runDir opts)),
     (''environment_loaders'', VList (map VStr (st_loaders st))),
     (''os'', VStr (fx_os (fx_language fx))), (''arch'', VStr (fx_arch (fx_language fx))),
     (''interactive'', VBool (o_interactive opts))]"

definition workflow_val :: "run_definition \<Rightarrow> val" where
  "workflow_val df = vmap_of [(''name'', VStr (df_name df)), (''dir'', VStr (df_dir df)),
     (''timezone'', VStr (df_timezone df))]"

definition bindings_of :: "wstate \<Rightarrow> vmap" where
  "bindings_of st = (case st_bindings st of None \<Rightarrow> fmempty | Some b \<Rightarrow> b)"

text \<open>engine/condition.go, makeConditionEnvironment\<close>

definition makeConditionEnvironment :: "'w effects \<Rightarrow> run_definition \<Rightarrow> options \<Rightarrow> wstate \<Rightarrow> vmap" where
  "makeConditionEnvironment fx df opts st =
     fmap_of_list [(''checks'', CheckValues (st_checks st)), (''inputs'', VMap (st_inputs st)),
       (''vars'', VMap (st_vars st)), (''env'', env_val (st_env st)), (''steps'', VMap (st_steps st)),
       (''dependencies'', VMap (fmmap VMap (st_dependencies st))),
       (''workflow'', workflow_val df), (''run'', run_val fx opts st),
       (''batch'', VMap (bindingRoot (st_bindings st) ''batch'')),
       (''foreach'', VMap (bindingRoot (st_bindings st) ''foreach'')),
       (''matrix'', VMap (bindingRoot (st_bindings st) ''matrix'')),
       (''finally'', VMap (bindingRoot (st_bindings st) ''finally'')),
       (''error'', VMap (bindingRoot (st_bindings st) ''error'')),
       (''secret'', VOther ''func(string) (string, error)'')]
     ++\<^sub>f bindings_of st ++\<^sub>f st_providers st"

text \<open>engine/engine.go, templateData, with TemplateDataWithProviders of workflow/runtime.go\<close>

definition templateData :: "'w effects \<Rightarrow> run_definition \<Rightarrow> options \<Rightarrow> wstate \<Rightarrow> vmap" where
  "templateData fx df opts st =
     fmupd ''checks'' (CheckValues (st_checks st))
      (fmap_of_list [(''inputs'', VMap (st_inputs st)), (''vars'', VMap (st_vars st)),
         (''env'', env_val (st_env st)), (''steps'', VMap (st_steps st)),
         (''dependencies'', VMap (fmmap VMap (st_dependencies st))), (''checks'', VList []),
         (''workflow'', workflow_val df), (''run'', run_val fx opts st)]
       ++\<^sub>f bindings_of st ++\<^sub>f st_providers st)"

text \<open>engine/condition.go, evaluateConditionProgram and evaluateCondition\<close>

definition evaluateConditionProgram :: "'w effects \<Rightarrow> string \<Rightarrow> vmap \<Rightarrow> ('w, goerr + bool) exec" where
  "evaluateConditionProgram fx condition environment = do {
     r \<leftarrow> effect (fx_program (fx_language fx) condition environment);
     ret (case r of
         Inl e \<Rightarrow> Inl e
       | Inr (VBool b) \<Rightarrow> Inr b
       | Inr v \<Rightarrow> Inl (Err (''expression returned '' @ go_type v @ '', want bool'')))
   }"

definition evaluateCondition :: "'w effects \<Rightarrow> string \<Rightarrow> vmap \<Rightarrow> ('w, goerr + bool) exec" where
  "evaluateCondition fx condition environment =
     (if condition = [] then ret (Inr True)
      else case fx_compile (fx_language fx) condition of
          Some e \<Rightarrow> ret (Inl e)
        | None \<Rightarrow> evaluateConditionProgram fx condition environment)"

text \<open>The environment of the current state\<close>

definition condition_roots :: "'w effects \<Rightarrow> run_definition \<Rightarrow> options \<Rightarrow> ('w, vmap) exec" where
  "condition_roots fx df opts = gets (\<lambda>m. makeConditionEnvironment fx df opts (m_state m))"

definition template_roots :: "'w effects \<Rightarrow> run_definition \<Rightarrow> options \<Rightarrow> ('w, vmap) exec" where
  "template_roots fx df opts = gets (\<lambda>m. templateData fx df opts (m_state m))"

text \<open>The condition of a step on the current state\<close>

definition step_condition :: "'w effects \<Rightarrow> run_definition \<Rightarrow> options \<Rightarrow> step \<Rightarrow> ('w, goerr + bool) exec" where
  "step_condition fx df opts s = do {
     environment \<leftarrow> condition_roots fx df opts;
     evaluateCondition fx (scond s) environment
   }"

subsection \<open>Rendering\<close>

text \<open>Rendering one template on the current state\<close>

definition render_text :: "'w effects \<Rightarrow> run_definition \<Rightarrow> options \<Rightarrow> string \<Rightarrow> ('w, goerr + string) exec" where
  "render_text fx df opts template = do {
     data \<leftarrow> template_roots fx df opts;
     effect (fx_render (fx_language fx) template data)
   }"

text \<open>engine/template.go, renderValue; a map is walked in the order of its keys, and the raw field of
  the outermost map is kept as it is.\<close>

fun render_items :: "nat \<Rightarrow> ('w, goerr + val) exec list \<Rightarrow> ('w, goerr + val list) exec" where
  "render_items i [] = ret (Inr [])"
| "render_items i (act # acts) = do {
     r \<leftarrow> act;
     (case r of
        Inl e \<Rightarrow> ret (Inl (Wrapped (''item '' @ nat_text i) e))
      | Inr v \<Rightarrow> do {
          rest \<leftarrow> render_items (Suc i) acts;
          ret (map_sum id ((#) v) rest)
        })
   }"

fun render_fields :: "(string \<times> ('w, goerr + val) exec) list \<Rightarrow> vmap \<Rightarrow> ('w, goerr + vmap) exec" where
  "render_fields [] acc = ret (Inr acc)"
| "render_fields ((key, act) # rest) acc = do {
     r \<leftarrow> act;
     (case r of
        Inl e \<Rightarrow> ret (Inl (Wrapped (''field '' @ key) e))
      | Inr v \<Rightarrow> render_fields rest (fmupd key v acc))
   }"

definition entry_action :: "string \<Rightarrow> (string \<Rightarrow> ('w, goerr + val) exec) \<times> val \<Rightarrow> string \<Rightarrow> ('w, goerr + val) exec" where
  "entry_action raw p key = (if raw \<noteq> [] \<and> key = raw then ret (Inr (snd p)) else fst p [])"

primrec render_value :: "(string \<Rightarrow> ('w, goerr + string) exec) \<Rightarrow> val \<Rightarrow> string \<Rightarrow> ('w, goerr + val) exec" where
  "render_value r VNil raw = ret (Inr VNil)"
| "render_value r (VBool b) raw = ret (Inr (VBool b))"
| "render_value r (VInt i) raw = ret (Inr (VInt i))"
| "render_value r (VFloat q) raw = ret (Inr (VFloat q))"
| "render_value r (VStr s) raw = do { t \<leftarrow> r s; ret (map_sum id VStr t) }"
| "render_value r (VList items) raw = do {
     vs \<leftarrow> render_items 0 (map (\<lambda>act. act []) (map (render_value r) items));
     ret (map_sum id VList vs)
   }"
| "render_value r (VMap m) raw = do {
     vs \<leftarrow> render_fields (map (\<lambda>(k, act). (k, entry_action raw (act, case fmlookup m k of Some v \<Rightarrow> v | None \<Rightarrow> VNil) k))
             (sorted_entries (fmmap (render_value r) m))) fmempty;
     ret (map_sum id VMap vs)
   }"
| "render_value r (VDuration d) raw = ret (Inr (VDuration d))"
| "render_value r (VOther t) raw = ret (Inr (VOther t))"

definition renderValue :: "'w effects \<Rightarrow> vmap \<Rightarrow> val \<Rightarrow> string \<Rightarrow> ('w, goerr + val) exec" where
  "renderValue fx data = render_value (\<lambda>s. effect (fx_render (fx_language fx) s data))"

end
