(* ===== verification/StepExecution.thy ===== *)
theory StepExecution
  imports Conditions
begin

text \<open>
  The steps that run no nested steps of the workflow: a return (engine/return.go), the final
  outputs of a run, and a leaf step or an action (engine/engine.go executeStep and managedExecutor,
  engine/retry.go executionOperationID, engine/attempt.go passFailure, step/step.go
  ValidateOutputKeys). The actions' own workflow runs behind the effects \<open>fx_action_prepare\<close> and
  \<open>fx_action_run\<close>.
\<close>

text \<open>The prefixes of the errors of a run\<close>

definition workflow_where :: "run_definition \<Rightarrow> string \<Rightarrow> string" where
  "workflow_where df what = ''workflow '' @ go_quote (df_name df) @ '' '' @ what"

definition step_where :: "run_definition \<Rightarrow> step \<Rightarrow> string \<Rightarrow> string" where
  "step_where df s kind =
     ''workflow '' @ go_quote (df_name df) @ '' step '' @ go_quote (sid s) @ '' ('' @ kind @ '')''"

text \<open>An error ends an operation with a label; a value goes on.\<close>

definition labelled :: "string \<Rightarrow> ('w, goerr + 'a) exec \<Rightarrow> ('a \<Rightarrow> ('w, goerr + 'b) exec) \<Rightarrow> ('w, goerr + 'b) exec" where
  "labelled label act k = do {
     r \<leftarrow> act;
     (case r of Inl e \<Rightarrow> ret (Inl (Wrapped label e)) | Inr a \<Rightarrow> k a)
   }"

subsection \<open>Return\<close>

text \<open>workflow/action.go, actionValueMatches, which is OutputValueMatches\<close>

definition OutputValueMatches :: "string \<Rightarrow> val \<Rightarrow> bool" where
  "OutputValueMatches kind v =
     (if kind = ''string'' then (case v of VStr _ \<Rightarrow> True | _ \<Rightarrow> False)
      else if kind = ''boolean'' then (case v of VBool _ \<Rightarrow> True | _ \<Rightarrow> False)
      else if kind = ''number'' then (case v of VInt _ \<Rightarrow> True | VFloat _ \<Rightarrow> True | _ \<Rightarrow> False)
      else if kind = ''array'' then (case v of VList _ \<Rightarrow> True | _ \<Rightarrow> False)
      else if kind = ''object'' then (case v of VMap _ \<Rightarrow> True | _ \<Rightarrow> False)
      else False)"

text \<open>engine/return.go, validateWorkflowOutputValues: the contract is checked name by name.\<close>

definition check_output :: "vmap \<Rightarrow> string \<times> workflow_output \<Rightarrow> goerr option" where
  "check_output outputs d = (case fmlookup outputs (fst d) of
     None \<Rightarrow> Some (Err (''workflow output '' @ go_quote (fst d) @ '' is missing''))
   | Some v \<Rightarrow>
       if \<not> OutputValueMatches (out_type (snd d)) v
       then Some (Err (''workflow output '' @ go_quote (fst d) @ '' value does not match type '' @ out_type (snd d)))
       else if \<not> actionDataValue v
       then Some (Err (''workflow output '' @ go_quote (fst d) @ '' is not a YAML/JSON-compatible value''))
       else None)"

definition validateWorkflowOutputValues :: "workflow_output gomap \<Rightarrow> vmap \<Rightarrow> goerr option" where
  "validateWorkflowOutputValues contract outputs =
     first_some (map (check_output outputs) (sorted_entries contract))"

text \<open>engine/return.go, executeReturn\<close>

fun return_values :: "'w effects \<Rightarrow> run_definition \<Rightarrow> ctx \<Rightarrow> vmap \<Rightarrow> (string \<times> string) list \<Rightarrow> vmap \<Rightarrow> ('w, goerr + vmap) exec" where
  "return_values fx df c environment [] acc = ret (Inr acc)"
| "return_values fx df c environment ((name, source) # rest) acc = do {
     done \<leftarrow> ctx_err fx c;
     (case done of Some e \<Rightarrow> ret (Inl e)
      | None \<Rightarrow> do {
          r \<leftarrow> effect (fx_eval (fx_language fx) source environment);
          (case r of
             Inl e \<Rightarrow> ret (Inl (Wrapped (workflow_where df (''return output '' @ go_quote name)) e))
           | Inr v \<Rightarrow>
               if \<not> actionDataValue v
               then ret (Inl (Wrapped (workflow_where df ''return'')
                      (Err (''output '' @ go_quote name @ '' is not a YAML/JSON-compatible value''))))
               else return_values fx df c environment rest (fmupd name v acc))
        })
   }"

definition executeReturn :: "'w effects \<Rightarrow> run_definition \<Rightarrow> ctx \<Rightarrow> step \<Rightarrow> return_control \<Rightarrow> options \<Rightarrow> ('w, goerr + bool) exec" where
  "executeReturn fx df c s rc opts = do {
     done \<leftarrow> ctx_err fx c;
     (case done of Some e \<Rightarrow> ret (Inl e)
      | None \<Rightarrow> do {
          environment \<leftarrow> condition_roots fx df opts;
          run \<leftarrow> evaluateCondition fx (scond s) environment;
          (case run of
             Inl e \<Rightarrow> ret (Inl (Wrapped (workflow_where df ''return: evaluating if'') e))
           | Inr run \<Rightarrow>
               if \<not> run then ret (Inr False)
               else do {
                 r \<leftarrow> return_values fx df c environment
                       (sorted_entries (case ret_outputs rc of None \<Rightarrow> fmempty | Some outs \<Rightarrow> outs)) fmempty;
                 (case r of Inl e \<Rightarrow> ret (Inl e)
                  | Inr outputs \<Rightarrow>
                      (case validateWorkflowOutputValues (df_outputs df) outputs of
                         Some e \<Rightarrow> ret (Inl (Wrapped (workflow_where df ''return'') e))
                       | None \<Rightarrow> do {
                           change_state (\<lambda>st. st\<lparr>st_outputs := outputs, st_returning := True, st_didReturn := True\<rparr>);
                           effect (fx_on_return (fx_host fx) (ret_to rc));
                           ret (Inr True)
                         }))
               })
        })
   }"

text \<open>engine/return.go, finishWorkflowOutputs\<close>

fun output_values :: "'w effects \<Rightarrow> run_definition \<Rightarrow> vmap \<Rightarrow> (string \<times> workflow_output) list \<Rightarrow> vmap \<Rightarrow> ('w, goerr + vmap) exec" where
  "output_values fx df environment [] acc = ret (Inr acc)"
| "output_values fx df environment ((name, d) # rest) acc = do {
     r \<leftarrow> effect (fx_eval (fx_language fx) (out_value d) environment);
     (case r of
        Inl e \<Rightarrow> ret (Inl (Wrapped (workflow_where df (''output '' @ go_quote name @ '': evaluating value'')) e))
      | Inr v \<Rightarrow> output_values fx df environment rest (fmupd name v acc))
   }"

definition finishWorkflowOutputs :: "'w effects \<Rightarrow> run_definition \<Rightarrow> options \<Rightarrow> ('w, goerr option) exec" where
  "finishWorkflowOutputs fx df opts =
     (if df_outputs df = fmempty then ret None
      else do {
        st \<leftarrow> gets m_state;
        (if st_didReturn st then ret (validateWorkflowOutputValues (df_outputs df) (st_outputs st))
         else do {
           environment \<leftarrow> condition_roots fx df opts;
           r \<leftarrow> output_values fx df environment (sorted_entries (df_outputs df)) fmempty;
           (case r of Inl e \<Rightarrow> ret (Some e)
            | Inr outputs \<Rightarrow>
                (case validateWorkflowOutputValues (df_outputs df) outputs of
                   Some e \<Rightarrow> ret (Some (Wrapped (''workflow '' @ go_quote (df_name df)) e))
                 | None \<Rightarrow> do { change_state (\<lambda>st. st\<lparr>st_outputs := outputs\<rparr>); ret None }))
         })
      })"

subsection \<open>Outcomes of steps\<close>

text \<open>engine/engine.go, stepOutcome\<close>

record step_outcome =
  so_result :: step_result
  so_stats :: step_stats
  so_err :: "goerr option"
  so_started :: bool
  so_skipped :: bool
  so_commitSkipped :: bool
  so_nested :: "run_stats option"

definition no_stats :: step_stats where
  "no_stats = StepStats [] [] StatusSkipped 0 [] None []"

definition not_started :: "goerr \<Rightarrow> step_outcome" where
  "not_started e = \<lparr>so_result = empty_result, so_stats = no_stats, so_err = Some e, so_started = False,
     so_skipped = False, so_commitSkipped = False, so_nested = None\<rparr>"

text \<open>The outcome the closures \<^verbatim>\<open>finish\<close> and \<^verbatim>\<open>finishStep\<close> of the handlers leave behind\<close>

definition finished :: "step_stats \<Rightarrow> run_stats option \<Rightarrow> step_outcome" where
  "finished stats nested = \<lparr>so_result = empty_result, so_stats = stats, so_err = None, so_started = True,
     so_skipped = False, so_commitSkipped = False, so_nested = nested\<rparr>"

definition failed_with :: "goerr \<Rightarrow> step_outcome \<Rightarrow> step_outcome" where
  "failed_with e oc = oc\<lparr>so_err := Some e\<rparr>"

definition skipped_out :: "step_outcome \<Rightarrow> step_outcome" where
  "skipped_out oc = oc\<lparr>so_skipped := True\<rparr>"

definition succeeded_with :: "step_result \<Rightarrow> step_outcome \<Rightarrow> step_outcome" where
  "succeeded_with r oc = oc\<lparr>so_result := r\<rparr>"

definition replayed :: "step_result \<Rightarrow> step_outcome \<Rightarrow> step_outcome" where
  "replayed r oc = oc\<lparr>so_result := r, so_skipped := True, so_commitSkipped := True\<rparr>"

lemmas outcome_defs = not_started_def finished_def failed_with_def skipped_out_def succeeded_with_def replayed_def

subsection \<open>The output contract\<close>

text \<open>step/step.go, validateOutputValue and ValidateOutputKeys\<close>

definition path_item :: "string \<Rightarrow> nat \<Rightarrow> string" where
  "path_item path i = path @ ''['' @ nat_text i @ '']''"

definition schema_mismatch :: "output_schema \<Rightarrow> string \<Rightarrow> goerr" where
  "schema_mismatch sch path = Err (path @ (if os_kind sch = OutputArray then '' must be an array'' else '' must be an object''))"

definition accepts_any :: "output_schema \<Rightarrow> bool" where
  "accepts_any sch \<longleftrightarrow> os_kind sch = OutputUnknown \<or> os_open sch \<or> os_kind sch = OutputScalar"

definition validate_other :: "output_schema \<Rightarrow> string \<Rightarrow> goerr option" where
  "validate_other sch path = (if accepts_any sch then None else Some (schema_mismatch sch path))"

primrec validateOutputValue :: "val \<Rightarrow> output_schema \<Rightarrow> string \<Rightarrow> goerr option" where
  "validateOutputValue (VList items) = (\<lambda>sch path.
     if accepts_any sch then None
     else if os_kind sch = OutputArray then (case os_items sch of
         None \<Rightarrow> None
       | Some item \<Rightarrow> first_some (map (\<lambda>(i, check). check item (path_item path i))
                        (indexed (map validateOutputValue items))))
     else Some (schema_mismatch sch path))"
| "validateOutputValue (VMap m) = (\<lambda>sch path.
     if accepts_any sch then None
     else if os_kind sch = OutputArray then Some (schema_mismatch sch path)
     else first_some (map (\<lambda>(name, check). case fmlookup (os_fields sch) name of
              None \<Rightarrow> Some (Err (path @ '' contains undeclared output '' @ go_quote name))
            | Some child \<Rightarrow> check child (path @ ''.'' @ name)) (sorted_entries (fmmap validateOutputValue m))))"
| "validateOutputValue VNil = validate_other"
| "validateOutputValue (VBool _) = validate_other"
| "validateOutputValue (VInt _) = validate_other"
| "validateOutputValue (VFloat _) = validate_other"
| "validateOutputValue (VStr _) = validate_other"
| "validateOutputValue (VDuration _) = validate_other"
| "validateOutputValue (VOther _) = validate_other"

definition result_outputs :: "step_result \<Rightarrow> vmap" where
  "result_outputs r = (case res_outputs r of None \<Rightarrow> fmempty | Some o' \<Rightarrow> o')"

definition ValidateOutputKeys :: "output_schema \<Rightarrow> vmap \<Rightarrow> goerr option" where
  "ValidateOutputKeys sch outputs = validateOutputValue (VMap outputs) sch ''outputs''"

subsection \<open>Leaf steps and actions\<close>

text \<open>engine/retry.go, executionOperationID\<close>

definition executionOperationID :: "'w effects \<Rightarrow> run_definition \<Rightarrow> options \<Rightarrow> string \<Rightarrow> string \<Rightarrow> ('w, goerr + string) exec" where
  "executionOperationID fx df opts stepID template =
     (if template \<noteq> [] then do {
        r \<leftarrow> render_text fx df opts template;
        ret (case r of
            Inl e \<Rightarrow> Inl (Wrapped ''rendering attempt operation_id'' e)
          | Inr t \<Rightarrow> if blank t then Inl (Err ''rendered attempt operation_id is empty'') else Inr t)
      }
      else if o_operationPrefix opts \<noteq> [] then
        ret (Inr (fx_digest (fx_language fx)
          (o_operationPrefix opts @ [CHR 0x00] @ df_name df @ [CHR 0x00] @ stepID)))
      else do {
        r \<leftarrow> effect (fx_random (fx_language fx));
        ret (map_sum (Wrapped ''generating step operation ID'') id r)
      })"

text \<open>engine/engine.go, makeRequest\<close>

definition makeRequest :: "run_definition \<Rightarrow> string \<Rightarrow> options \<Rightarrow> wstate \<Rightarrow> int \<Rightarrow> int \<Rightarrow> string \<Rightarrow> request" where
  "makeRequest df stepID opts st attempt maxAttempts operationID =
     \<lparr>rq_step = stepID, rq_workflow = df_name df, rq_runDir = o_runDir opts, rq_loaders = st_loaders st,
      rq_inputs = st_inputs st, rq_vars = st_vars st, rq_presetVars = st_presetVars st, rq_env = st_env st,
      rq_checks = st_checks st, rq_steps = st_steps st, rq_dependencies = st_dependencies st,
      rq_providers = st_providers st, rq_bindings = st_bindings st, rq_interactive = o_interactive opts,
      rq_attempt = attempt, rq_maxAttempts = maxAttempts, rq_operationID = operationID,
      rq_previous = fmlookup (o_previousPass opts) stepID\<rparr>"

text \<open>engine/engine.go, runContained and managedExecutor\<close>

definition runContained :: "'w effects \<Rightarrow> ctx \<Rightarrow> runner \<Rightarrow> request \<Rightarrow> ('w, step_result \<times> goerr option) exec" where
  "runContained fx c r req = do {
     a \<leftarrow> effect (fx_run (fx_leaf fx) (rn_handle r) c req);
     ret (case a of
         Returned result err \<Rightarrow> (result, err)
       | Panicked t \<Rightarrow> (empty_result, Some (Foreign (''panic: '' @ t) None None None)))
   }"

definition managedExecutor :: "'w effects \<Rightarrow> string \<Rightarrow> runner \<Rightarrow> output_schema \<Rightarrow> ctx \<Rightarrow> request \<Rightarrow> ('w, step_result \<times> goerr option) exec" where
  "managedExecutor fx stepID r outputs c req = do {
     (result, err) \<leftarrow> runContained fx c r req;
     (case err of
        Some e \<Rightarrow> ret (result, Some e)
      | None \<Rightarrow> do {
          (if rn_cleaner r then register_cleanup
             \<lparr>cl_step = stepID, cl_runner = rn_handle r, cl_outputs = result_outputs result,
              cl_variables = res_variables result\<rparr>
           else ret ());
          ret (result, map_option
            (Wrapped (''step '' @ go_quote stepID @ '' violated its registered output contract''))
            (ValidateOutputKeys outputs (result_outputs result)))
        })
   }"

text \<open>engine/attempt.go, passFailure.record: nothing is recorded outside an attempt.\<close>

definition record_failure :: "string \<Rightarrow> vmap option \<Rightarrow> ('w, unit) exec" where
  "record_failure stepID outputs =
     modify (\<lambda>m. m\<lparr>m_failure := map_option (\<lambda>_. (stepID, outputs)) (m_failure m)\<rparr>)"

text \<open>The type and configuration of a leaf step; every other step has none.\<close>

definition step_type :: "step \<Rightarrow> string" where
  "step_type s = (case body s of Leaf t _ \<Rightarrow> t | _ \<Rightarrow> [])"

definition step_with :: "step \<Rightarrow> vmap" where
  "step_with s = (case body s of Leaf _ w \<Rightarrow> w | Uses _ w \<Rightarrow> w | _ \<Rightarrow> fmempty)"

text \<open>
  The preparation in executeStep: an action resolves its inputs; a leaf step renders its
  configuration, is built, and declares its outputs. The result is the executor and its cleanup,
  or the error with the status under which it is recorded.
\<close>

definition prepare_action :: "'w effects \<Rightarrow> run_definition \<Rightarrow> step \<Rightarrow> action_source \<Rightarrow> options
    \<Rightarrow> ('w, exec_status \<times> goerr + (ctx \<Rightarrow> request \<Rightarrow> ('w, step_result \<times> goerr option) exec) \<times> ('w, unit) exec) exec" where
  "prepare_action fx df s source opts = do {
     data \<leftarrow> template_roots fx df opts;
     r \<leftarrow> effect (fx_action_prepare (fx_leaf fx) source (step_with s) data);
     ret (case r of
         Inl e \<Rightarrow> (let err = Wrapped (step_where df s (executionKind s)) e
                   in Inl (statusFromError (Some err), err))
       | Inr handle \<Rightarrow> Inr (\<lambda>c req. effect (fx_action_run (fx_leaf fx) handle c req),
                            effect (fx_action_cleanup (fx_leaf fx) handle)))
   }"

definition prepare_leaf :: "'w effects \<Rightarrow> run_definition \<Rightarrow> ctx \<Rightarrow> step \<Rightarrow> options
    \<Rightarrow> ('w, exec_status \<times> goerr + (ctx \<Rightarrow> request \<Rightarrow> ('w, step_result \<times> goerr option) exec) \<times> ('w, unit) exec) exec" where
  "prepare_leaf fx df c s opts = do {
     data \<leftarrow> template_roots fx df opts;
     environment \<leftarrow> condition_roots fx df opts;
     raw \<leftarrow> effect (fx_config (fx_language fx) (step_type s) (step_with s) data environment);
     (case raw of
        Inl e \<Rightarrow> ret (Inl (StatusFailed, Wrapped (step_where df s (step_type s) @ '': rendering configuration'') e))
      | Inr raw \<Rightarrow> do {
          r \<leftarrow> effect (fx_build (fx_leaf fx) c (step_type s) raw);
          (case r of
             Inl e \<Rightarrow> ret (Inl (StatusFailed, Wrapped (step_where df s (step_type s)) e))
           | Inr runner \<Rightarrow> do {
               sch \<leftarrow> effect (fx_schema (fx_leaf fx) c (step_type s) raw);
               (case sch of
                  Inl e \<Rightarrow> ret (Inl (StatusFailed, Wrapped (step_where df s (step_type s) @ '': resolving output contract'') e))
                | Inr outputs \<Rightarrow> ret (Inr (managedExecutor fx (sid s) runner outputs, ret ())))
             })
        })
   }"

definition prepare_step :: "'w effects \<Rightarrow> run_definition \<Rightarrow> ctx \<Rightarrow> step \<Rightarrow> options
    \<Rightarrow> ('w, exec_status \<times> goerr + (ctx \<Rightarrow> request \<Rightarrow> ('w, step_result \<times> goerr option) exec) \<times> ('w, unit) exec) exec" where
  "prepare_step fx df c s opts =
     (case body s of Uses source _ \<Rightarrow> prepare_action fx df s source opts | _ \<Rightarrow> prepare_leaf fx df c s opts)"

definition step_operation :: "'w effects \<Rightarrow> run_definition \<Rightarrow> options \<Rightarrow> step \<Rightarrow> ('w, goerr + string) exec" where
  "step_operation fx df opts s =
     (if o_operationID opts = [] then executionOperationID fx df opts (sid s) []
      else ret (Inr (o_operationID opts)))"

definition leaf_stats :: "step \<Rightarrow> exec_status \<Rightarrow> goerr option \<Rightarrow> attempt_stats list \<Rightarrow> step_stats" where
  "leaf_stats s status err atts = StepStats (sid s) (executionKind s) status 0 atts err []"

text \<open>The run itself: the executor is called, its cleanup follows, and the attempt is counted unless an
  enclosing attempt counts it.\<close>

definition run_step :: "run_definition \<Rightarrow> ctx \<Rightarrow> step \<Rightarrow> options \<Rightarrow> string
    \<Rightarrow> (ctx \<Rightarrow> request \<Rightarrow> ('w, step_result \<times> goerr option) exec) \<Rightarrow> ('w, unit) exec \<Rightarrow> ('w, step_outcome) exec" where
  "run_step df c s opts operationID execute clean = do {
     st \<leftarrow> gets m_state;
     let attempt = max (o_attempt opts) 1;
     let req = makeRequest df (sid s) opts st attempt (max (max (o_maxAttempts opts) 1) attempt) operationID;
     (result, runErr) \<leftarrow> execute c req;
     clean;
     let atts = (if o_maxAttempts opts = 0
       then [\<lparr>at_number = nat attempt, at_status = statusFromError runErr, at_error = runErr\<rparr>] else []);
     let oc = succeeded_with result (finished (leaf_stats s (statusFromError runErr) runErr atts) None);
     (case runErr of
        None \<Rightarrow> ret oc
      | Some e \<Rightarrow> do {
          record_failure (sid s) (res_outputs result);
          ret (failed_with (Wrapped (step_where df s (executionKind s)) e) oc)
        })
   }"

definition fail_leaf :: "step \<Rightarrow> exec_status \<Rightarrow> goerr \<Rightarrow> step_outcome" where
  "fail_leaf s status e = failed_with e (finished (leaf_stats s status (Some e) []) None)"

text \<open>engine/engine.go, executeStep: the part after the condition, and the whole\<close>

definition prepare_and_run :: "'w effects \<Rightarrow> run_definition \<Rightarrow> ctx \<Rightarrow> step \<Rightarrow> options \<Rightarrow> ('w, step_outcome) exec" where
  "prepare_and_run fx df c s opts = do {
     prepared \<leftarrow> prepare_step fx df c s opts;
     (case prepared of
        Inl (status, e) \<Rightarrow> ret (fail_leaf s status e)
      | Inr (execute, clean) \<Rightarrow> do {
          operation \<leftarrow> step_operation fx df opts s;
          (case operation of
             Inl e \<Rightarrow> do {
               clean;
               ret (fail_leaf s StatusFailed (Wrapped (step_where df s (executionKind s)) e))
             }
           | Inr operationID \<Rightarrow> run_step df c s opts operationID execute clean)
        })
   }"

definition executeStep :: "'w effects \<Rightarrow> run_definition \<Rightarrow> ctx \<Rightarrow> step \<Rightarrow> options \<Rightarrow> ('w, step_outcome) exec" where
  "executeStep fx df c s opts = do {
     done \<leftarrow> ctx_err fx c;
     (case done of Some e \<Rightarrow> ret (not_started e)
      | None \<Rightarrow> do {
          run \<leftarrow> step_condition fx df opts s;
          (case run of
             Inl e \<Rightarrow> ret (fail_leaf s StatusFailed (Wrapped (step_where df s (executionKind s) @ '': evaluating if'') e))
           | Inr run \<Rightarrow>
               if run then prepare_and_run fx df c s opts
               else ret (skipped_out (finished (leaf_stats s StatusSkipped None []) None)))
        })
   }"

end
