(* ===== verification/Cleanup.thy ===== *)
theory Cleanup
  imports StepExecution
begin

text \<open>
  Deferred groups and finally sequences (engine/defer.go executeDeferred, engine/engine.go
  executeCleanupScope and executeCleanupSteps). The handlers take executeSequence as the argument
  \<open>seq\<close>, so that each is a function of its own; the theory \<open>Interpreter\<close> ties the knot.

  The steps of the groups of a scope are those that newDeferStack collects from the scope's steps;
  whether a group is active, and with which options, is read from the machine.
\<close>

type_synonym 'w sequence = "ctx \<Rightarrow> step list \<Rightarrow> options \<Rightarrow> ('w, goerr option) exec"

text \<open>engine/engine.go, executeCleanupSteps: every step runs, whatever the others did; the records of
  each failure are appended to the errors of the root \<^verbatim>\<open>finally\<close>, which the next step sees.\<close>

definition finally_errors :: "wstate \<Rightarrow> val list" where
  "finally_errors st = (case fmlookup (bindingRoot (st_bindings st) ''finally'') ''errors'' of
     Some (VList es) \<Rightarrow> es | _ \<Rightarrow> [])"

definition set_finally_errors :: "val list \<Rightarrow> wstate \<Rightarrow> wstate" where
  "set_finally_errors es st = st\<lparr>st_bindings := map_option (\<lambda>b.
     case fmlookup b ''finally'' of
       Some (VMap f) \<Rightarrow> fmupd ''finally'' (VMap (fmupd ''errors'' (VList es) f)) b
     | _ \<Rightarrow> b) (st_bindings st)\<rparr>"

definition new_records :: "nat \<Rightarrow> step \<Rightarrow> goerr \<Rightarrow> run_stats \<Rightarrow> val list" where
  "new_records before s e stats =
     (let records = finallyErrorRecords (drop before (rsteps stats))
      in map finally_val (if records = []
           then [finallyErrorRecord (statusFromError (Some e)) (sid s) (executionKind s) e] else records))"

fun cleanup_steps :: "'w sequence \<Rightarrow> ctx \<Rightarrow> options \<Rightarrow> val list \<Rightarrow> step list \<Rightarrow> ('w, goerr list) exec" where
  "cleanup_steps seq c opts errs [] = ret []"
| "cleanup_steps seq c opts errs (s # rest) = do {
     before \<leftarrow> gets (\<lambda>m. length (rsteps (m_stats m)));
     err \<leftarrow> seq c [s] opts;
     (case err of
        None \<Rightarrow> cleanup_steps seq c opts errs rest
      | Some e \<Rightarrow> do {
          records \<leftarrow> gets (\<lambda>m. new_records before s e (m_stats m));
          change_state (set_finally_errors (errs @ records));
          es \<leftarrow> cleanup_steps seq c opts (errs @ records) rest;
          ret (e # es)
        })
   }"

definition executeCleanupSteps :: "'w sequence \<Rightarrow> ctx \<Rightarrow> step list \<Rightarrow> options \<Rightarrow> ('w, goerr list) exec" where
  "executeCleanupSteps seq c ss opts = do {
     errs \<leftarrow> gets (\<lambda>m. finally_errors (m_state m));
     cleanup_steps seq c opts errs ss
   }"

text \<open>engine/defer.go, executeDeferred: the last group first; an active group runs with the options
  captured by its owner and its environment, an inactive one is recorded as skipped.\<close>

definition deferred_groups :: "step list \<Rightarrow> (nat \<times> step list) list" where
  "deferred_groups scope = rev (indexed (map grp_steps (ds_groups (newDeferStack scope :: options defer_stack))))"

definition run_group :: "'w sequence \<Rightarrow> ctx \<Rightarrow> step list \<Rightarrow> options option \<Rightarrow> ('w, goerr list) exec" where
  "run_group seq c ss active = (case active of
     None \<Rightarrow> do { change_stats (recordSkippedSteps ss); ret [] }
   | Some opts \<Rightarrow> do {
       previousEnv \<leftarrow> gets (\<lambda>m. st_env (m_state m));
       (case o_scopedEnv opts of
          Some e \<Rightarrow> change_state (\<lambda>st. st\<lparr>st_env := e\<rparr>)
        | None \<Rightarrow> ret ());
       es \<leftarrow> executeCleanupSteps seq c ss opts;
       change_state (\<lambda>st. st\<lparr>st_env := previousEnv\<rparr>);
       ret es
     })"

fun run_groups :: "'w sequence \<Rightarrow> ctx \<Rightarrow> (nat \<times> step list) list \<Rightarrow> ('w, goerr list) exec" where
  "run_groups seq c [] = ret []"
| "run_groups seq c ((i, ss) # rest) = do {
     active \<leftarrow> gets (\<lambda>m. grp_options (ds_groups (m_defers m) ! i));
     es \<leftarrow> run_group seq c ss active;
     es' \<leftarrow> run_groups seq c rest;
     ret (es @ es')
   }"

definition executeDeferred :: "'w sequence \<Rightarrow> ctx \<Rightarrow> step list \<Rightarrow> ('w, goerr list) exec" where
  "executeDeferred seq c scope = run_groups seq c (deferred_groups scope)"

text \<open>engine/engine.go, executeCleanupScope\<close>

definition finally_root :: "goerr option \<Rightarrow> step_stats list \<Rightarrow> val" where
  "finally_root mainErr mainStats =
     (let records = finallyErrorRecords mainStats;
          records = (case mainErr of
              Some e \<Rightarrow> if records = [] then [finallyErrorRecord (statusFromError mainErr) [] [] e] else records
            | None \<Rightarrow> records)
      in vmap_of [(''status'', VStr (status_text (statusFromError mainErr))),
                  (''errors'', VList (map finally_val records))])"

definition executeCleanupScope :: "'w sequence \<Rightarrow> ctx \<Rightarrow> step list \<Rightarrow> step list \<Rightarrow> options \<Rightarrow> goerr option \<Rightarrow> step_stats list
    \<Rightarrow> ('w, goerr list) exec" where
  "executeCleanupScope seq c scope final opts mainErr mainStats =
     (if deferred_groups scope = [] \<and> final = [] then ret []
      else do {
        before \<leftarrow> gets (\<lambda>m. st_bindings (m_state m));
        change_state (bind_root ''finally'' (finally_root mainErr mainStats));
        es \<leftarrow> executeDeferred seq c scope;
        es' \<leftarrow> executeCleanupSteps seq c final opts;
        change_state (restore_root ''finally'' before);
        ret (es @ es')
      })"

end
