(* ===== verification/TryCatch.thy ===== *)
theory TryCatch
  imports Cleanup
begin

text \<open>
  The try/catch control (engine/try_catch.go): the try phase runs on a private state; a failure or
  timeout of a live run is handed to the catch phase; the deferred groups of both phases follow;
  and the control publishes what the three phases did.
\<close>

text \<open>shouldCatch\<close>

definition shouldCatch :: "'w effects \<Rightarrow> ctx \<Rightarrow> goerr option \<Rightarrow> ('w, bool) exec" where
  "shouldCatch fx c err = (case err of
     None \<Rightarrow> ret False
   | Some _ \<Rightarrow> do {
       done \<leftarrow> ctx_err fx c;
       ret (done = None \<and> statusFromError err \<in> {StatusFailed, StatusTimedOut})
     })"

text \<open>executeCatchPhase: every entry runs, unless the run is being cancelled.\<close>

fun catch_steps :: "'w effects \<Rightarrow> 'w sequence \<Rightarrow> ctx \<Rightarrow> options \<Rightarrow> step list \<Rightarrow> ('w, goerr list) exec" where
  "catch_steps fx seq c opts [] = ret []"
| "catch_steps fx seq c opts (s # rest) = do {
     err \<leftarrow> seq c [s] opts;
     (case err of
        None \<Rightarrow> catch_steps fx seq c opts rest
      | Some e \<Rightarrow> do {
          done \<leftarrow> ctx_err fx c;
          (if done \<noteq> None \<or> err_is e Canceled
           then do { change_stats (recordSkippedSteps rest); ret [e] }
           else do { es \<leftarrow> catch_steps fx seq c opts rest; ret (e # es) })
        })
   }"

definition executeCatchPhase :: "'w effects \<Rightarrow> 'w sequence \<Rightarrow> ctx \<Rightarrow> options \<Rightarrow> step list \<Rightarrow> ('w, goerr option) exec" where
  "executeCatchPhase fx seq c opts ss = do {
     es \<leftarrow> catch_steps fx seq c opts ss;
     ret (errors_join (map Some es))
   }"

text \<open>catchPhaseStatus, cleanupPhaseStatus, phaseOutput and phaseIteration\<close>

definition catchPhaseStatus :: "goerr option \<Rightarrow> run_stats \<Rightarrow> exec_status" where
  "catchPhaseStatus err stats =
     (if err = None \<and> allStepsSkipped stats then StatusSkipped else statusFromError err)"

definition cleanupPhaseStatus :: "step list \<Rightarrow> goerr option \<Rightarrow> run_stats \<Rightarrow> exec_status" where
  "cleanupPhaseStatus scope err stats =
     (if stack_stepCount (newDeferStack scope :: options defer_stack) = 0 then StatusSkipped
      else if err = None \<and> allStepsSkipped stats then StatusSkipped
      else statusFromError err)"

definition phaseOutput :: "exec_status \<Rightarrow> val \<Rightarrow> step list \<Rightarrow> wstate \<Rightarrow> run_stats \<Rightarrow> vmap \<Rightarrow> val" where
  "phaseOutput status err declarations st stats vars =
     vmap_of [(''status'', VStr (status_text status)), (''error'', err),
       (''steps'', VMap (controlStepRecords declarations (Some st) stats False)), (''vars'', VMap vars)]"

definition phaseIteration :: "nat \<Rightarrow> string \<Rightarrow> exec_status \<Rightarrow> goerr option \<Rightarrow> run_stats \<Rightarrow> iteration_stats" where
  "phaseIteration i label status err stats = IterationStats i label status err (rsteps stats)"

text \<open>The catch phase as executeTryCatch runs it: the error is bound for its time. The result is its
  error, its status, whether the failure is recovered, the bound error, the state and the records.\<close>

record caught =
  ca_err :: "goerr option"
  ca_status :: exec_status
  ca_recovered :: bool
  ca_error :: val
  ca_state :: wstate
  ca_stats :: run_stats

definition clear_written :: "wstate \<Rightarrow> wstate" where
  "clear_written st = st\<lparr>st_writtenVars := Some {||}\<rparr>"

definition written_set :: "wstate \<Rightarrow> string fset" where
  "written_set st = (case st_writtenVars st of None \<Rightarrow> {||} | Some w \<Rightarrow> w)"

definition run_catch :: "'w effects \<Rightarrow> 'w sequence \<Rightarrow> ctx \<Rightarrow> options \<Rightarrow> step list \<Rightarrow> goerr option \<Rightarrow> wstate \<Rightarrow> run_stats
    \<Rightarrow> ('w, caught) exec" where
  "run_catch fx seq c opts handlers tryErr private tryStats = do {
     catching \<leftarrow> shouldCatch fx c tryErr;
     (case (if catching then tryErr else None) of
        Some e \<Rightarrow> do {
          let original = recoveryErrorValue (statusFromError (Some e)) e (rsteps tryStats);
          (err, st, stats) \<leftarrow> run_private (bind_root ''error'' original private) (new_stats handlers)
             (executeCatchPhase fx seq c opts handlers);
          ret \<lparr>ca_err = err, ca_status = catchPhaseStatus err stats,
               ca_recovered = (err = None \<and> catchPhaseStatus err stats \<noteq> StatusSkipped),
               ca_error = original, ca_state = restore_root ''error'' (st_bindings private) st,
               ca_stats = stats\<rparr>
        }
      | None \<Rightarrow> ret \<lparr>ca_err = None, ca_status = StatusSkipped, ca_recovered = False, ca_error = VNil,
               ca_state = private, ca_stats = recordSkippedSteps handlers (new_stats handlers)\<rparr>)
   }"

text \<open>The error of the two phases together\<close>

definition effective_error :: "'w effects \<Rightarrow> ctx \<Rightarrow> goerr option \<Rightarrow> caught \<Rightarrow> ('w, goerr option) exec" where
  "effective_error fx c tryErr ca =
     (if ca_recovered ca then ret None
      else case ca_err ca of
          None \<Rightarrow> ret tryErr
        | Some e \<Rightarrow> do {
            done \<leftarrow> ctx_err fx c;
            ret (if done \<noteq> None \<or> err_is e Canceled then Some e else errors_join [tryErr, Some e])
          })"

definition try_stats :: "step \<Rightarrow> exec_status \<Rightarrow> goerr option \<Rightarrow> iteration_stats list \<Rightarrow> step_stats" where
  "try_stats s status err phases = StepStats (sid s) ''try'' status 0 [] err phases"

text \<open>The outputs of a control that succeeded\<close>

definition try_outputs :: "step list \<Rightarrow> step list \<Rightarrow> goerr option \<Rightarrow> run_stats \<Rightarrow> vmap \<Rightarrow> caught \<Rightarrow> vmap
    \<Rightarrow> wstate \<Rightarrow> run_stats \<Rightarrow> vmap \<Rightarrow> string fset \<Rightarrow> vmap" where
  "try_outputs tries handlers tryErr tryStats tryVars ca catchVars private cleanupStats cleanupVars written =
     (let scope = tries @ handlers
      in fmap_of_list [(''ok'', VBool True), (''recovered'', VBool (ca_recovered ca)),
         (''status'', VStr (status_text StatusSucceeded)), (''error'', VNil),
         (''try'', phaseOutput (statusFromError tryErr) (ca_error ca) tries private tryStats tryVars),
         (''catch'', phaseOutput (ca_status ca) VNil handlers private (ca_stats ca) catchVars),
         (''cleanup'', vmap_of [(''status'', VStr (status_text (cleanupPhaseStatus scope None cleanupStats))),
            (''error'', VNil),
            (''steps'', VMap (controlStepRecords
               (deferredDeclarations (newDeferStack scope :: options defer_stack)) (Some private) cleanupStats False)),
            (''vars'', VMap cleanupVars)]),
         (''vars'', VMap (controlVariables private written))])"

text \<open>executeTryCatch, once its condition holds\<close>

definition run_try :: "'w effects \<Rightarrow> run_definition \<Rightarrow> 'w sequence \<Rightarrow> ctx \<Rightarrow> step \<Rightarrow> step list \<Rightarrow> step list \<Rightarrow> options
    \<Rightarrow> ('w, step_outcome) exec" where
  "run_try fx df seq c s tries handlers opts = do {
     st \<leftarrow> gets m_state;
     let scope = tries @ handlers;
     with_defers (newDeferStack scope) (do {
       (tryErr, p, tryStats) \<leftarrow> run_private (privateState st) (new_stats tries) (seq c tries opts);
       let tryVars = controlWrittenVars p;
       let tried = written_set p;
       ca \<leftarrow> run_catch fx seq c opts handlers tryErr (clear_written p) tryStats;
       let catchVars = controlWrittenVars (ca_state ca);
       let caught = written_set (ca_state ca);
       effective \<leftarrow> effective_error fx c tryErr ca;
       let mainStats = (if effective = None then [] else rsteps tryStats @ rsteps (ca_stats ca));
       (es, p, cleanupStats) \<leftarrow> run_private (clear_written (ca_state ca))
          (empty_stats\<lparr>total := stack_stepCount (newDeferStack scope :: options defer_stack)\<rparr>)
          (executeCleanupScope seq (WithoutCancel c) scope [] opts effective mainStats);
       let cleanupVars = controlWrittenVars p;
       let written = tried |\<union>| caught |\<union>| written_set p;
       let cleanupErr = errors_join (map Some es);
       let final = (if effective = None then cleanupErr
                    else if cleanupErr = None then effective else errors_join [effective, cleanupErr]);
       let phases = [phaseIteration 0 ''try'' (statusFromError tryErr) tryErr tryStats,
                     phaseIteration 1 ''catch'' (ca_status ca) (ca_err ca) (ca_stats ca),
                     phaseIteration 2 ''cleanup'' (cleanupPhaseStatus scope cleanupErr cleanupStats) cleanupErr cleanupStats];
       let nested = foldl rollupNestedMetrics empty_stats [tryStats, ca_stats ca, cleanupStats];
       (case final of
          Some e \<Rightarrow> (let err = Wrapped (step_where df s ''try'') e
             in ret (failed_with err (finished (try_stats s (statusFromError (Some e)) (Some err) phases) (Some nested))))
        | None \<Rightarrow> ret (succeeded_with
             \<lparr>res_checks = st_checkWrites p,
              res_outputs = Some (try_outputs tries handlers tryErr tryStats tryVars ca catchVars p cleanupStats cleanupVars written),
              res_variables = controlVariables p written\<rparr>
             (finished (try_stats s StatusSucceeded None phases) (Some nested))))
     })
   }"

definition executeTryCatch :: "'w effects \<Rightarrow> run_definition \<Rightarrow> 'w sequence \<Rightarrow> ctx \<Rightarrow> step \<Rightarrow> step list \<Rightarrow> step list \<Rightarrow> options
    \<Rightarrow> ('w, step_outcome) exec" where
  "executeTryCatch fx df seq c s tries handlers opts = do {
     done \<leftarrow> ctx_err fx c;
     (case done of Some e \<Rightarrow> ret (not_started e)
      | None \<Rightarrow> do {
          run \<leftarrow> step_condition fx df opts s;
          (case run of
             Inl e \<Rightarrow> (let err = Wrapped (step_where df s ''try'' @ '': evaluating if'') e
                in ret (failed_with err (finished (try_stats s StatusFailed (Some err) []) (Some empty_stats))))
           | Inr run \<Rightarrow>
               if run then run_try fx df seq c s tries handlers opts
               else ret (skipped_out (finished (try_stats s StatusSkipped None []) (Some empty_stats))))
        })
   }"

end
