(* ===== verification/LoopControl.thy ===== *)
theory LoopControl
  imports Cleanup
begin

text \<open>
  The loop control (engine/loop.go): its body runs on the state of the workflow until a condition
  holds, at most \<open>max_iterations\<close> times, with a delay between two iterations.
\<close>

definition loop_stats :: "step \<Rightarrow> exec_status \<Rightarrow> goerr option \<Rightarrow> step_stats" where
  "loop_stats s status err = StepStats (sid s) ''loop'' status 0 [] err []"

definition fail_loop :: "step \<Rightarrow> exec_status \<Rightarrow> goerr \<Rightarrow> run_stats \<Rightarrow> step_outcome" where
  "fail_loop s status e nested = failed_with e (finished (loop_stats s status (Some e)) (Some nested))"

text \<open>loopDelay; of the texts of time.ParseDuration, the one for an invalid duration is kept.\<close>

definition loopDelay :: "'w effects \<Rightarrow> run_definition \<Rightarrow> options \<Rightarrow> loop_group \<Rightarrow> ('w, goerr + int) exec" where
  "loopDelay fx df opts g =
     (if loop_delay_literal g > 0 then ret (Inr (loop_delay_literal g))
      else if loop_delay_expression g = [] then ret (Inr 0)
      else do {
        data \<leftarrow> template_roots fx df opts;
        r \<leftarrow> effect (fx_evaluate (fx_language fx) (loop_delay_expression g) data);
        ret (case r of
            Inl e \<Rightarrow> Inl (Wrapped ''evaluating loop delay'' e)
          | Inr (VStr t) \<Rightarrow> (case parse_duration t of
                None \<Rightarrow> Inl (Wrapped (''parsing loop delay '' @ go_quote t)
                          (Err (''time: invalid duration '' @ go_quote t)))
              | Some d \<Rightarrow> if d \<le> 0 then Inl (Wrapped (''parsing loop delay '' @ go_quote t)
                                     (Err ''duration must be greater than zero''))
                          else Inr d)
          | Inr v \<Rightarrow> Inl (Err (''loop delay expression returned '' @ go_type v @ '', want duration string'')))
      })"

text \<open>What a matching iteration publishes\<close>

definition loop_outputs :: "wstate \<Rightarrow> step list \<Rightarrow> nat \<Rightarrow> vmap" where
  "loop_outputs st ss iterations = fmap_of_list [(''iterations'', VInt (int iterations)),
     (''count'', VInt (int iterations)), (''last'', VMap (selected st ss))]"

text \<open>Waiting before the next iteration: nothing, or the error of the context that ended the wait\<close>

definition loop_pause :: "'w effects \<Rightarrow> ctx \<Rightarrow> int \<Rightarrow> ('w, goerr option) exec" where
  "loop_pause fx c delay =
     (if delay > 0 then do { w \<leftarrow> effect (fx_wait (fx_time fx) c delay); ret (ctx_state_error w) }
      else ret None)"

primrec loop_run :: "nat \<Rightarrow> 'w effects \<Rightarrow> run_definition \<Rightarrow> 'w sequence \<Rightarrow> ctx \<Rightarrow> step \<Rightarrow> loop_group \<Rightarrow> step list \<Rightarrow> options
    \<Rightarrow> nat \<Rightarrow> run_stats \<Rightarrow> ('w, step_outcome) exec" where
  "loop_run 0 fx df seq c s g ss opts iterations nested = give_up (not_started (Err ''unreachable''))"
| "loop_run (Suc n) fx df seq c s g ss opts iterations nested = do {
     done \<leftarrow> ctx_err fx c;
     (case done of
        Some e \<Rightarrow> ret (fail_loop s (statusFromError (Some e)) e nested)
      | None \<Rightarrow> do {
          (bodyErr, bodyStats) \<leftarrow> run_counted (new_stats ss) (seq c ss opts);
          let nested = mergeRunStats nested bodyStats;
          (case bodyErr of
             Some e \<Rightarrow> ret (fail_loop s (statusFromError (Some e)) e nested)
           | None \<Rightarrow> do {
               environment \<leftarrow> condition_roots fx df opts;
               matched \<leftarrow> evaluateCondition fx (loop_until g) environment;
               (case matched of
                  Inl e \<Rightarrow> ret (fail_loop s StatusFailed (Wrapped ''evaluating loop until'' e) nested)
                | Inr True \<Rightarrow> do {
                    st \<leftarrow> gets m_state;
                    ret (succeeded_with (empty_result\<lparr>res_outputs := Some (loop_outputs st ss (Suc iterations))\<rparr>)
                      (finished (loop_stats s StatusSucceeded None) (Some nested)))
                  }
                | Inr False \<Rightarrow>
                    if int (Suc iterations) = loop_max_iterations g
                    then ret (fail_loop s StatusFailed
                           (Err (''loop exceeded max_iterations '' @ int_text (loop_max_iterations g))) nested)
                    else do {
                      delay \<leftarrow> loopDelay fx df opts g;
                      (case delay of
                         Inl e \<Rightarrow> ret (fail_loop s StatusFailed e nested)
                       | Inr d \<Rightarrow> do {
                           paused \<leftarrow> loop_pause fx c d;
                           (case paused of
                              Some e \<Rightarrow> ret (fail_loop s (statusFromError (Some e)) e nested)
                            | None \<Rightarrow> loop_run n fx df seq c s g ss opts (Suc iterations) nested)
                         })
                    })
             })
        })
   }"

text \<open>executeLoop\<close>

definition executeLoop :: "'w effects \<Rightarrow> run_definition \<Rightarrow> 'w sequence \<Rightarrow> ctx \<Rightarrow> step \<Rightarrow> loop_group \<Rightarrow> step list \<Rightarrow> options
    \<Rightarrow> ('w, step_outcome) exec" where
  "executeLoop fx df seq c s g ss opts =
     (let loopCtx = (case loop_timeout g of None \<Rightarrow> c | Some t \<Rightarrow> WithTimeout t c)
      in loop_run (nat (loop_max_iterations g)) fx df seq loopCtx s g ss opts 0 empty_stats)"

end
