(* ===== verification/AttemptRun.thy ===== *)
theory AttemptRun
  imports LoopControl
begin

text \<open>
  The attempt control (engine/attempt.go executeAttempt, engine/retry.go): its body is repeated on
  private states until a pass succeeds and the \<open>until\<close> condition holds, with the resources of a
  discarded pass released. Passes that fail are bounded by \<open>max_attempts\<close>; passes that succeed while
  \<open>until\<close> is false are not, so the loop takes a bound \<open>fx_polls\<close> on them.
\<close>

subsection \<open>Retrying\<close>

text \<open>errors.As with httpRetryError: the first error of the tree that carries HTTP metadata\<close>

definition own_http :: "goerr \<Rightarrow> http_meta option" where
  "own_http e = (case e of Foreign _ h _ _ \<Rightarrow> h | _ \<Rightarrow> None)"

fun err_http :: "goerr \<Rightarrow> http_meta option" where
  "err_http e = (case own_http e of
     Some h \<Rightarrow> Some h
   | None \<Rightarrow> fold (\<lambda>c acc. case acc of Some x \<Rightarrow> Some x | None \<Rightarrow> err_http c) (error_children e) None)"

declare err_http.simps [simp del]

definition defaultHTTPRetryMethods :: "string list" where
  "defaultHTTPRetryMethods = [''GET'', ''HEAD'', ''OPTIONS'', ''PUT'', ''DELETE'', ''TRACE'']"

definition defaultHTTPRetryStatuses :: "status_range list" where
  "defaultHTTPRetryStatuses =
     [\<lparr>status_from = 408, status_to = 408\<rparr>, \<lparr>status_from = 425, status_to = 425\<rparr>,
      \<lparr>status_from = 429, status_to = 429\<rparr>, \<lparr>status_from = 500, status_to = 599\<rparr>]"

text \<open>retryableError\<close>

definition retryableError :: "attempt_control \<Rightarrow> goerr \<Rightarrow> bool" where
  "retryableError control e = (case err_http e of
     None \<Rightarrow> True
   | Some h \<Rightarrow>
       let methods = (if att_methods control = [] then defaultHTTPRetryMethods else att_methods control);
           statuses = (if att_statuses control = [] then defaultHTTPRetryStatuses else att_statuses control)
       in list_ex (\<lambda>m. to_upper m = to_upper (http_method h)) methods \<and>
          (http_status h = 0 \<or>
           list_ex (\<lambda>r. status_from r \<le> http_status h \<and> http_status h \<le> status_to r) statuses))"

text \<open>retryDelay and retryDelayForError, on rationals instead of floats. Resolve admits only finite
  factors; \<open>u\<close> is what \<^verbatim>\<open>rand.Float64\<close> returned.\<close>

definition finite_part :: "go_float \<Rightarrow> rat" where
  "finite_part f = (case f of Finite q \<Rightarrow> q | _ \<Rightarrow> 0)"

definition retryDelay :: "resolved_attempt \<Rightarrow> int \<Rightarrow> rat \<Rightarrow> int" where
  "retryDelay policy failedAttempt u =
     (if ra_initial_delay policy = 0 then 0
      else
        let cap = of_int (ra_max_delay policy);
            delay = min (of_int (ra_initial_delay policy) * finite_part (ra_backoff policy) ^ nat (failedAttempt - 1)) cap;
            jitter = finite_part (ra_jitter policy);
            delay = (if jitter > 0 then delay * (1 + (u * 2 - 1) * jitter) else delay);
            delay = min delay cap
        in max 0 (if delay < 0 then \<lceil>delay\<rceil> else \<lfloor>delay\<rfloor>))"

definition retryDelayForError :: "resolved_attempt \<Rightarrow> int \<Rightarrow> rat \<Rightarrow> goerr \<Rightarrow> int" where
  "retryDelayForError policy failedAttempt u e =
     (let delay = retryDelay policy failedAttempt u;
          delay = (case err_http e of None \<Rightarrow> delay | Some h \<Rightarrow> max delay (http_retry_after h))
      in max 0 (min delay (ra_max_delay policy)))"

text \<open>executionContextError: cancellation of the parent comes before the control's own budget.\<close>

definition executionContextError :: "'w effects \<Rightarrow> ctx \<Rightarrow> ctx \<Rightarrow> int \<Rightarrow> ('w, goerr option) exec" where
  "executionContextError fx parent runCtx maxElapsed = do {
     outer \<leftarrow> ctx_err fx parent;
     (case outer of Some e \<Rightarrow> ret (Some e)
      | None \<Rightarrow> do {
          own \<leftarrow> ctx_err fx runCtx;
          ret (case own of None \<Rightarrow> None
             | Some e \<Rightarrow> Some (if maxElapsed > 0
                 then Wrapped (''attempt max_elapsed_time '' @ duration_text maxElapsed @ '' exceeded'') e else e))
        })
   }"

text \<open>waitForRetry, and the error with which a broken wait ends the control; a context that ended
  the wait is done, so its error is used when the second poll of executionContextError is live.\<close>

definition retry_wait :: "'w effects \<Rightarrow> ctx \<Rightarrow> ctx \<Rightarrow> int \<Rightarrow> int \<Rightarrow> ('w, goerr option) exec" where
  "retry_wait fx parent runCtx maxElapsed delay =
     (if delay \<le> 0 then ret None
      else do {
        w \<leftarrow> effect (fx_wait (fx_time fx) runCtx delay);
        (case ctx_state_error w of None \<Rightarrow> ret None
         | Some e \<Rightarrow> do {
             err \<leftarrow> executionContextError fx parent runCtx maxElapsed;
             ret (Some (case err of None \<Rightarrow> e | Some e' \<Rightarrow> e'))
           })
      })"

subsection \<open>What a pass leaves behind\<close>

text \<open>attemptResult, passResults and attemptErrorValue; a pass failure is the last failed step with its
  outputs.\<close>

type_synonym pass_failure = "string \<times> vmap option"

definition attemptResult :: "step list \<Rightarrow> wstate \<Rightarrow> int \<Rightarrow> nat \<Rightarrow> step_result" where
  "attemptResult ss private attempt polled =
     \<lparr>res_checks = st_checkWrites private,
      res_outputs = Some (fmap_of_list [(''attempts'', VInt attempt), (''polls'', VInt (int polled)),
        (''steps'', VMap (selected private ss)), (''vars'', VMap (controlWrittenVars private))]),
      res_variables = fmempty\<rparr>"

definition outputs_result :: "vmap \<Rightarrow> step_result" where
  "outputs_result m = empty_result\<lparr>res_outputs := Some m\<rparr>"

definition passResults :: "step list \<Rightarrow> wstate \<Rightarrow> pass_failure \<Rightarrow> step_result gomap" where
  "passResults ss private failure =
     (let committed = fmap_of_list (List.map_filter (\<lambda>(i, v). case v of VMap m \<Rightarrow> Some (i, outputs_result m) | _ \<Rightarrow> None)
            (sorted_entries (selected private ss)))
      in case failure of
           (stepID, Some m) \<Rightarrow> if stepID = [] then committed else fmupd stepID (outputs_result m) committed
         | (_, None) \<Rightarrow> committed)"

definition attemptErrorValue :: "step \<Rightarrow> step list \<Rightarrow> goerr \<Rightarrow> wstate \<Rightarrow> pass_failure \<Rightarrow> int \<Rightarrow> nat \<Rightarrow> vmap" where
  "attemptErrorValue s ss e private failure attempt polled =
     retryErrorValue (statusFromError (Some e)) (sid s) ''attempt'' e
        (retryConditionOutputs e (case snd failure of None \<Rightarrow> fmempty | Some m \<Rightarrow> m))
     ++\<^sub>f fmap_of_list [(''failed_step'', VStr (fst failure)), (''steps'', VMap (selected private ss)),
        (''vars'', VMap (controlWrittenVars private)), (''attempts'', VInt attempt), (''polls'', VInt (int polled))]"

subsection \<open>The loop\<close>

text \<open>The local variables of executeAttempt that its closures \<^verbatim>\<open>finish\<close> and \<^verbatim>\<open>fail\<close> read\<close>

record attempt_vars =
  av_attempts :: "attempt_stats list"
  av_polls :: nat
  av_nested :: run_stats

definition attempt_finish :: "step \<Rightarrow> exec_status \<Rightarrow> goerr option \<Rightarrow> attempt_vars \<Rightarrow> step_outcome" where
  "attempt_finish s status err v =
     finished (StepStats (sid s) ''attempt'' status (av_polls v) (av_attempts v) err []) (Some (av_nested v))"

definition attempt_fail :: "run_definition \<Rightarrow> step \<Rightarrow> goerr \<Rightarrow> attempt_vars \<Rightarrow> step_outcome" where
  "attempt_fail df s e v = (let err = Wrapped (step_where df s ''attempt'') e
     in failed_with err (attempt_finish s (statusFromError (Some e)) (Some err) v))"

definition attempt_succeed :: "step \<Rightarrow> step list \<Rightarrow> wstate \<Rightarrow> int \<Rightarrow> cleanup list \<Rightarrow> attempt_vars \<Rightarrow> ('w, step_outcome) exec" where
  "attempt_succeed s ss private attempt resources v = do {
     adopt_cleanups resources;
     ret (succeeded_with (attemptResult ss private attempt (av_polls v)) (attempt_finish s StatusSucceeded None v))
   }"

text \<open>One pass: the body on a private state, with a recorder and a cleanup scope of its own; the error
  of the pass, and then the same error with those of releasing the resources of a failed pass.\<close>

record pass =
  pa_err :: "goerr option"
  pa_joined :: "goerr option"
  pa_state :: wstate
  pa_stats :: run_stats
  pa_failure :: pass_failure
  pa_resources :: "cleanup list"

definition release_pass :: "'w effects \<Rightarrow> ctx \<Rightarrow> cleanup list \<Rightarrow> ('w, goerr option) exec" where
  "release_pass fx c resources = do {
     es \<leftarrow> run_cleanups fx (WithoutCancel c) resources;
     ret (errors_join (map Some es))
   }"

definition pass_context :: "resolved_attempt \<Rightarrow> ctx \<Rightarrow> ctx" where
  "pass_context policy runCtx = (if ra_has_timeout policy then WithTimeout (ra_timeout policy) runCtx else runCtx)"

definition run_pass :: "'w effects \<Rightarrow> 'w sequence \<Rightarrow> ctx \<Rightarrow> ctx \<Rightarrow> resolved_attempt \<Rightarrow> step list \<Rightarrow> options \<Rightarrow> ('w, pass) exec" where
  "run_pass fx seq c runCtx policy ss opts = do {
     st \<leftarrow> gets m_state;
     (((err, private, stats), failure), resources) \<leftarrow> with_cleanups (with_failure
        (run_private (privateState st) (new_stats ss) (seq (pass_context policy runCtx) ss opts)));
     passContextErr \<leftarrow> ctx_err fx (pass_context policy runCtx);
     contextErr \<leftarrow> executionContextError fx c runCtx (ra_max_elapsed policy);
     let passErr = (case contextErr of Some e \<Rightarrow> Some e
       | None \<Rightarrow> (case err of None \<Rightarrow> None
           | Some e \<Rightarrow> if passContextErr = Some DeadlineExceeded \<and> ra_has_timeout policy
                       then Some (AttemptTimeout (ra_timeout policy) (Some e)) else Some e));
     joined \<leftarrow> (if passErr = None then ret None
                else do { released \<leftarrow> release_pass fx c resources;
                          ret (if released = None then passErr else errors_join [passErr, released]) });
     ret \<lparr>pa_err = passErr, pa_joined = joined, pa_state = private, pa_stats = stats, pa_failure = failure,
          pa_resources = resources\<rparr>
   }"

text \<open>A pass that succeeded: it wins, or it is a poll. \<open>Inr\<close> asks for the next pass.\<close>

definition after_success :: "'w effects \<Rightarrow> run_definition \<Rightarrow> ctx \<Rightarrow> ctx \<Rightarrow> step \<Rightarrow> attempt_control \<Rightarrow> step list \<Rightarrow> resolved_attempt
    \<Rightarrow> options \<Rightarrow> int \<Rightarrow> pass \<Rightarrow> attempt_stats \<Rightarrow> attempt_vars \<Rightarrow> ('w, step_outcome + attempt_vars) exec" where
  "after_success fx df c runCtx s control ss policy opts attempt p stat v =
     (let counted = v\<lparr>av_attempts := av_attempts v @ [stat]\<rparr>
      in if att_until control = [] then do {
           oc \<leftarrow> attempt_succeed s ss (pa_state p) attempt (pa_resources p) counted;
           ret (Inl oc)
         }
         else do {
           let v = v\<lparr>av_polls := Suc (av_polls v)\<rparr>;
           let counted = counted\<lparr>av_polls := av_polls v\<rparr>;
           matched \<leftarrow> evaluateConditionProgram fx (att_until control)
              (fmupd ''poll'' (VInt (int (av_polls v))) (makeConditionEnvironment fx df opts (pa_state p)));
           (case matched of
              Inl e \<Rightarrow> do {
                released \<leftarrow> release_pass fx c (pa_resources p);
                ret (Inl (attempt_fail df s (Wrapped ''evaluating attempt until''
                   (case released of None \<Rightarrow> e | Some r \<Rightarrow> Joined [e, r])) counted))
              }
            | Inr True \<Rightarrow> do {
                oc \<leftarrow> attempt_succeed s ss (pa_state p) attempt (pa_resources p) counted;
                ret (Inl oc)
              }
            | Inr False \<Rightarrow> do {
                released \<leftarrow> release_pass fx c (pa_resources p);
                (case released of
                   Some e \<Rightarrow> ret (Inl (attempt_fail df s e counted))
                 | None \<Rightarrow> do {
                     waited \<leftarrow> retry_wait fx c runCtx (ra_max_elapsed policy) (ra_interval policy);
                     ret (case waited of Some e \<Rightarrow> Inl (attempt_fail df s e v) | None \<Rightarrow> Inr v)
                   })
              })
         })"

text \<open>Whether a failed pass is repeated: \<open>None\<close> says yes, and an error ends the control.\<close>

definition retry_decision :: "'w effects \<Rightarrow> run_definition \<Rightarrow> step \<Rightarrow> attempt_control \<Rightarrow> step list \<Rightarrow> options \<Rightarrow> int \<Rightarrow> pass
    \<Rightarrow> nat \<Rightarrow> goerr \<Rightarrow> ('w, goerr option) exec" where
  "retry_decision fx df s control ss opts attempt p polled e =
     (if att_when control \<noteq> [] then do {
        environment \<leftarrow> condition_roots fx df opts;
        r \<leftarrow> evaluateConditionProgram fx (att_when control)
          (fmupd ''error'' (VMap (attemptErrorValue s ss e (pa_state p) (pa_failure p) attempt polled)) environment);
        ret (case r of
            Inl err \<Rightarrow> Some (Wrapped (''evaluating attempt when after '' @ err_text e) err)
          | Inr again \<Rightarrow> if again then None else Some e)
      }
      else ret (if retryableError control e then None else Some e))"

text \<open>A pass that failed\<close>

definition after_failure :: "'w effects \<Rightarrow> run_definition \<Rightarrow> ctx \<Rightarrow> ctx \<Rightarrow> step \<Rightarrow> attempt_control \<Rightarrow> step list \<Rightarrow> resolved_attempt
    \<Rightarrow> options \<Rightarrow> int \<Rightarrow> pass \<Rightarrow> goerr \<Rightarrow> attempt_vars \<Rightarrow> ('w, step_outcome + attempt_vars) exec" where
  "after_failure fx df c runCtx s control ss policy opts attempt p e v = do {
     outer \<leftarrow> ctx_err fx c;
     own \<leftarrow> (if outer = None then ctx_err fx runCtx else ret None);
     (if outer \<noteq> None \<or> own \<noteq> None then ret (Inl (attempt_fail df s e v))
      else if attempt = ra_max_attempts policy
      then ret (Inl (attempt_fail df s (Wrapped (''attempt '' @ int_text attempt @ ''/'' @
             int_text (ra_max_attempts policy) @ '' failed'') e) v))
      else do {
        decision \<leftarrow> retry_decision fx df s control ss opts attempt p (av_polls v) e;
        (case decision of
           Some err \<Rightarrow> ret (Inl (attempt_fail df s err v))
         | None \<Rightarrow> do {
             u \<leftarrow> effect (fx_uniform (fx_time fx));
             waited \<leftarrow> retry_wait fx c runCtx (ra_max_elapsed policy) (retryDelayForError policy attempt u e);
             ret (case waited of Some err \<Rightarrow> Inl (attempt_fail df s err v) | None \<Rightarrow> Inr v)
           })
      })
   }"

primrec attempt_loop :: "nat \<Rightarrow> 'w effects \<Rightarrow> run_definition \<Rightarrow> 'w sequence \<Rightarrow> ctx \<Rightarrow> ctx \<Rightarrow> step \<Rightarrow> attempt_control \<Rightarrow> step list
    \<Rightarrow> resolved_attempt \<Rightarrow> options \<Rightarrow> int \<Rightarrow> step_result gomap \<Rightarrow> attempt_vars \<Rightarrow> ('w, step_outcome) exec" where
  "attempt_loop 0 fx df seq c runCtx s control ss policy opts attempt previous v =
     give_up (attempt_fail df s (Err ''polling'') v)"
| "attempt_loop (Suc n) fx df seq c runCtx s control ss policy opts attempt previous v = do {
     gone \<leftarrow> executionContextError fx c runCtx (ra_max_elapsed policy);
     (case gone of
        Some e \<Rightarrow> ret (attempt_fail df s e v)
      | None \<Rightarrow> do {
          p \<leftarrow> run_pass fx seq c runCtx policy ss (opts\<lparr>o_attempt := attempt, o_previousPass := previous\<rparr>);
          let v = v\<lparr>av_nested := mergeRunStats (av_nested v) (pa_stats p)\<rparr>;
          let stat = \<lparr>at_number = nat attempt, at_status = statusFromError (pa_err p), at_error = pa_err p\<rparr>;
          (case pa_joined p of
             None \<Rightarrow> do {
               next \<leftarrow> after_success fx df c runCtx s control ss policy opts attempt p stat v;
               (case next of
                  Inl oc \<Rightarrow> ret oc
                | Inr v \<Rightarrow> attempt_loop n fx df seq c runCtx s control ss policy opts attempt
                    (passResults ss (pa_state p) (pa_failure p)) v)
             }
           | Some e \<Rightarrow> do {
               next \<leftarrow> after_failure fx df c runCtx s control ss policy opts attempt p e
                         (v\<lparr>av_attempts := av_attempts v @ [stat]\<rparr>);
               (case next of
                  Inl oc \<Rightarrow> ret oc
                | Inr v \<Rightarrow> attempt_loop n fx df seq c runCtx s control ss policy opts (attempt + 1)
                    (passResults ss (pa_state p) (pa_failure p)) v)
             })
        })
   }"

subsection \<open>The control\<close>

definition no_attempts :: attempt_vars where
  "no_attempts = \<lparr>av_attempts = [], av_polls = 0, av_nested = empty_stats\<rparr>"

text \<open>Resolving the options; their expressions are evaluated in one world.\<close>

definition resolve_policy :: "'w effects \<Rightarrow> run_definition \<Rightarrow> options \<Rightarrow> attempt_control \<Rightarrow> ('w, goerr + resolved_attempt) exec" where
  "resolve_policy fx df opts control = gets (\<lambda>m.
     Resolve (fx_show_float (fx_language fx))
       (\<lambda>x. fst (fx_evaluate (fx_language fx) x (templateData fx df opts (m_state m)) (m_world m))) control)"

text \<open>The checks between the resolution and the first pass: the operation and the two conditions\<close>

definition attempt_setup :: "'w effects \<Rightarrow> run_definition \<Rightarrow> options \<Rightarrow> step \<Rightarrow> attempt_control \<Rightarrow> ('w, goerr + string) exec" where
  "attempt_setup fx df opts s control = do {
     operation \<leftarrow> executionOperationID fx df opts (sid s) (att_operation_id control);
     ret (case operation of Inl e \<Rightarrow> Inl e
       | Inr operationID \<Rightarrow>
          (case (if att_until control = [] then None else fx_compile_until (fx_language fx) (att_until control)) of
             Some e \<Rightarrow> Inl (Wrapped ''compiling until'' e)
           | None \<Rightarrow>
              (case (if att_when control = [] then None else fx_compile (fx_language fx) (att_when control)) of
                 Some e \<Rightarrow> Inl (Wrapped ''compiling attempt when'' e)
               | None \<Rightarrow> Inr operationID)))
   }"

definition run_attempts :: "'w effects \<Rightarrow> run_definition \<Rightarrow> 'w sequence \<Rightarrow> ctx \<Rightarrow> step \<Rightarrow> attempt_control \<Rightarrow> step list
    \<Rightarrow> resolved_attempt \<Rightarrow> options \<Rightarrow> ('w, step_outcome) exec" where
  "run_attempts fx df seq c s control ss policy opts = do {
     prepared \<leftarrow> attempt_setup fx df opts s control;
     (case prepared of
        Inl e \<Rightarrow> ret (attempt_fail df s e no_attempts)
      | Inr operationID \<Rightarrow>
          attempt_loop (nat (ra_max_attempts policy) + fx_polls fx) fx df seq c
            (if ra_max_elapsed policy > 0 then WithTimeout (ra_max_elapsed policy) c else c)
            s control ss policy (opts\<lparr>o_operationID := operationID, o_maxAttempts := ra_max_attempts policy\<rparr>)
            1 fmempty (no_attempts\<lparr>av_nested := new_stats ss\<rparr>))
   }"

text \<open>A delay: it waits for its duration, or fails with the error of the context.\<close>

definition run_delay :: "'w effects \<Rightarrow> run_definition \<Rightarrow> ctx \<Rightarrow> step \<Rightarrow> resolved_attempt \<Rightarrow> ('w, step_outcome) exec" where
  "run_delay fx df c s policy = do {
     w \<leftarrow> effect (fx_wait (fx_time fx) c (ra_duration policy));
     ret (case ctx_state_error w of
         None \<Rightarrow> succeeded_with (outputs_result fmempty) (attempt_finish s StatusSucceeded None no_attempts)
       | Some e \<Rightarrow> attempt_fail df s e no_attempts)
   }"

definition executeAttempt :: "'w effects \<Rightarrow> run_definition \<Rightarrow> 'w sequence \<Rightarrow> ctx \<Rightarrow> step \<Rightarrow> attempt_control \<Rightarrow> step list \<Rightarrow> options
    \<Rightarrow> ('w, step_outcome) exec" where
  "executeAttempt fx df seq c s control ss opts = do {
     done \<leftarrow> ctx_err fx c;
     (case done of Some e \<Rightarrow> ret (not_started e)
      | None \<Rightarrow> do {
          run \<leftarrow> step_condition fx df opts s;
          (case run of
             Inl e \<Rightarrow> ret (attempt_fail df s (Wrapped ''evaluating if'' e) no_attempts)
           | Inr run \<Rightarrow>
               if \<not> run then ret (skipped_out (attempt_finish s StatusSkipped None no_attempts))
               else do {
                 policy \<leftarrow> resolve_policy fx df opts control;
                 (case policy of
                    Inl e \<Rightarrow> ret (attempt_fail df s e no_attempts)
                  | Inr policy \<Rightarrow>
                      if IsDelay control then run_delay fx df c s policy
                      else run_attempts fx df seq c s control ss policy opts)
               })
        })
   }"

end
