(* ===== verification/FanOutRun.thy ===== *)
theory FanOutRun
  imports LoopControl
begin

text \<open>
  The fan-out controls batch, foreach and matrix (engine/control.go executeControl, control/control.go
  Run, control/fanout.go FanOut): the declaration is expanded into iterations, every iteration runs
  the body on a clone of the state with its own bindings, and the errors are combined.

  FanOut admits the iterations in order, each only while its context is live. How many run at
  once decides just when the answers of the world are read, so the model runs an admitted
  iteration to its end before it admits the next.
\<close>

subsection \<open>control.FanOut and control.Run\<close>

record fan_outcome =
  fo_iteration :: iteration
  fo_state :: "wstate option"
  fo_stats :: run_stats
  fo_started :: bool
  fo_err :: "goerr option"

definition not_run :: "iteration \<Rightarrow> fan_outcome" where
  "not_run it = \<lparr>fo_iteration = it, fo_state = None, fo_stats = empty_stats, fo_started = False, fo_err = None\<rparr>"

text \<open>FanOut with the task runOne of Run: the context is polled before the admission of a task, again
  in the task, and the first error of a fail-fast group cancels the context of the rest.\<close>

type_synonym 'w iteration_body = "ctx \<Rightarrow> iteration \<Rightarrow> ('w, goerr option \<times> wstate \<times> run_stats) exec"

definition run_one :: "'w effects \<Rightarrow> ctx \<Rightarrow> bool \<Rightarrow> 'w iteration_body \<Rightarrow> iteration \<Rightarrow> ('w, fan_outcome) exec" where
  "run_one fx c failFast run it = do {
     done \<leftarrow> ctx_err fx c;
     (case done of Some e \<Rightarrow> ret (not_run it)
      | None \<Rightarrow> do {
          (err, st, stats) \<leftarrow> run c it;
          (if failFast \<and> err \<noteq> None then effect (fx_cancel (fx_time fx) c) else ret ());
          ret \<lparr>fo_iteration = it, fo_state = Some st, fo_stats = stats, fo_started = True, fo_err = err\<rparr>
        })
   }"

fun FanOut :: "'w effects \<Rightarrow> ctx \<Rightarrow> bool \<Rightarrow> 'w iteration_body \<Rightarrow> iteration list \<Rightarrow> ('w, fan_outcome list) exec" where
  "FanOut fx c failFast run [] = ret []"
| "FanOut fx c failFast run (it # its) = do {
     done \<leftarrow> ctx_err fx c;
     (if done \<noteq> None then ret (map not_run (it # its))
      else do {
        oc \<leftarrow> run_one fx c failFast run it;
        ocs \<leftarrow> FanOut fx c failFast run its;
        ret (oc # ocs)
      })
   }"

text \<open>allSucceeded, and the errors Run returns\<close>

definition allSucceeded :: "fan_outcome list \<Rightarrow> bool" where
  "allSucceeded ocs = list_all (\<lambda>oc. fo_started oc \<and> fo_err oc = None) ocs"

definition iteration_error :: "fan_outcome \<Rightarrow> goerr option" where
  "iteration_error oc = map_option (Wrapped (''iteration '' @ nat_text (it_index (fo_iteration oc)))) (fo_err oc)"

definition iteration_errors :: "bool \<Rightarrow> fan_outcome list \<Rightarrow> goerr option" where
  "iteration_errors failFast ocs =
     (let primary = filter (\<lambda>oc. case fo_err oc of None \<Rightarrow> False | Some e \<Rightarrow> \<not> (failFast \<and> err_is e Canceled)) ocs
      in if primary = [] \<and> failFast then errors_join (map iteration_error ocs)
         else errors_join (map iteration_error primary))"

fun wrong_index :: "nat \<Rightarrow> iteration list \<Rightarrow> goerr option" where
  "wrong_index i [] = None"
| "wrong_index i (it # its) =
     (if it_index it \<noteq> i then Some (Err (''iteration '' @ nat_text i @ '' has index '' @
        nat_text (it_index it) @ '', want '' @ nat_text i))
      else wrong_index (Suc i) its)"

definition control_Run :: "'w effects \<Rightarrow> ctx \<Rightarrow> iteration list \<Rightarrow> policy \<Rightarrow> 'w iteration_body
    \<Rightarrow> ('w, fan_outcome list \<times> goerr option) exec" where
  "control_Run fx c its p run =
     (case Policy_Validate p of Some e \<Rightarrow> ret ([], Some e)
      | None \<Rightarrow> (case wrong_index 0 its of Some e \<Rightarrow> ret ([], Some e)
      | None \<Rightarrow> do {
          let runCtx = (if pol_timeout p > 0 then WithTimeout (pol_timeout p) c else c);
          ocs \<leftarrow> FanOut fx (if pol_fail_fast p then WithCancel runCtx else runCtx) (pol_fail_fast p) run its;
          outer \<leftarrow> ctx_err fx c;
          (case outer of Some e \<Rightarrow> ret (ocs, Some e)
           | None \<Rightarrow> do {
               own \<leftarrow> (if pol_timeout p > 0 then ctx_err fx runCtx else ret None);
               ret (ocs, if own = Some DeadlineExceeded \<and> \<not> allSucceeded ocs
                 then Some (Wrapped (''timed out after '' @ duration_text (pol_timeout p)) DeadlineExceeded)
                 else iteration_errors (pol_fail_fast p) ocs)
             })
        }))"

subsection \<open>Expansion of the declaration\<close>

text \<open>controlDeclaration and controlCollect\<close>

definition controlDeclaration :: "step_body \<Rightarrow> (string \<times> step list \<times> fan_policy) option" where
  "controlDeclaration b = (case b of
     BatchCtl _ _ p ss \<Rightarrow> Some (''batch'', ss, p)
   | ForeachCtl _ p ss \<Rightarrow> Some (''foreach'', ss, p)
   | MatrixCtl _ p ss \<Rightarrow> Some (''matrix'', ss, p)
   | _ \<Rightarrow> None)"

text \<open>effectiveMaxIterations of the declared bound; a negative one stays out of range.\<close>

definition declared_bound :: "fan_policy \<Rightarrow> nat" where
  "declared_bound p = (if fan_max_iterations p < 0 then Suc MaxIterations
     else effectiveMaxIterations (nat (fan_max_iterations p)))"

definition declared_policy :: "fan_policy \<Rightarrow> policy" where
  "declared_policy p = \<lparr>pol_max_concurrency = nat (fan_max_concurrency p),
     pol_timeout = (case fan_timeout p of None \<Rightarrow> 0 | Some t \<Rightarrow> t), pol_fail_fast = fan_fail_fast p\<rparr>"

text \<open>The polls of a context, as the expansions take them\<close>

definition ctx_poller :: "'w effects \<Rightarrow> ctx \<Rightarrow> 'w poller" where
  "ctx_poller fx c w = (case c of WithoutCancel _ \<Rightarrow> (None, w)
     | _ \<Rightarrow> (case fx_poll (fx_time fx) c w of (a, w) \<Rightarrow> (ctx_state_error a, w)))"

text \<open>control.EvaluateExpression and EvaluateList\<close>

definition evaluate :: "'w effects \<Rightarrow> vmap \<Rightarrow> string \<Rightarrow> ('w, goerr + val) exec" where
  "evaluate fx data source = effect (fx_evaluate (fx_language fx) source data)"

definition EvaluateList :: "'w effects \<Rightarrow> vmap \<Rightarrow> string \<Rightarrow> ('w, goerr + val list) exec" where
  "EvaluateList fx data source = do {
     r \<leftarrow> evaluate fx data source;
     ret (case r of Inl e \<Rightarrow> Inl e
       | Inr v \<Rightarrow> (case asSlice v of Some vs \<Rightarrow> Inr vs
           | None \<Rightarrow> Inl (Err (''expression returned '' @ go_type v @ '', want list or array''))))
   }"

text \<open>positiveInteger; the largest int is \<open>2\<^sup>6\<^sup>3 - 1\<close>, and a duration is an integer of its kind.\<close>

definition positiveInteger :: "val \<Rightarrow> goerr + int" where
  "positiveInteger v =
     (let refuse = Inl (Err (''expression returned '' @ (if v = VNil then ''nil'' else go_type v) @ '', want positive integer''));
          accept = (\<lambda>i. if 0 < i \<and> i < 2 ^ 63 then Inr i else refuse)
      in case v of
           VInt i \<Rightarrow> accept i
         | VDuration d \<Rightarrow> accept d
         | VFloat q \<Rightarrow> if q = of_int \<lfloor>q\<rfloor> then accept \<lfloor>q\<rfloor> else refuse
         | _ \<Rightarrow> refuse)"

definition evaluateBatchSize :: "'w effects \<Rightarrow> vmap \<Rightarrow> batch_size \<Rightarrow> ('w, goerr + int) exec" where
  "evaluateBatchSize fx data sz =
     (if size_literal sz \<noteq> 0 then ret (Inr (size_literal sz))
      else do {
        r \<leftarrow> evaluate fx data (size_expression sz);
        ret (case r of Inl e \<Rightarrow> Inl e | Inr v \<Rightarrow> positiveInteger v)
      })"

text \<open>expandControl; \<open>live\<close> is the idiom of returning the error of a context that is done.\<close>

definition live :: "'w effects \<Rightarrow> ctx \<Rightarrow> ('w, goerr + 'a) exec \<Rightarrow> ('w, goerr + 'a) exec" where
  "live fx c act = do {
     done \<leftarrow> ctx_err fx c;
     (case done of Some e \<Rightarrow> ret (Inl e) | None \<Rightarrow> act)
   }"

fun expand_axes :: "'w effects \<Rightarrow> ctx \<Rightarrow> vmap \<Rightarrow> matrix_axis list \<Rightarrow> ('w, goerr + (string \<times> val list) list) exec" where
  "expand_axes fx c data [] = ret (Inr [])"
| "expand_axes fx c data (a # axes) = live fx c (
     labelled (''axis '' @ go_quote (axis_name a))
       (if axis_expression a = [] then ret (Inr (axis_literal a)) else EvaluateList fx data (axis_expression a))
       (\<lambda>values. (if axis_expression a = [] then id else live fx c) (do {
          rest \<leftarrow> expand_axes fx c data axes;
          ret (map_sum id ((#) (axis_name a, values)) rest)
        })))"

definition expandControl :: "'w effects \<Rightarrow> ctx \<Rightarrow> step_body \<Rightarrow> vmap \<Rightarrow> nat \<Rightarrow> ('w, goerr + iteration list) exec" where
  "expandControl fx c b data maxIterations = live fx c (case b of
     BatchCtl items sz _ _ \<Rightarrow>
       labelled ''items'' (EvaluateList fx data items) (\<lambda>values. live fx c (
         labelled ''size'' (evaluateBatchSize fx data sz) (\<lambda>n. live fx c (
           effect (BatchContext (ctx_poller fx c) (VList values) n maxIterations)))))
   | ForeachCtl items _ _ \<Rightarrow>
       labelled ''items'' (EvaluateList fx data items) (\<lambda>values.
         effect (ForeachContext (ctx_poller fx c) (VList values) maxIterations))
   | MatrixCtl axes _ _ \<Rightarrow> do {
       r \<leftarrow> expand_axes fx c data axes;
       (case r of Inl e \<Rightarrow> ret (Inl e)
        | Inr axes \<Rightarrow> effect (MatrixContext (ctx_poller fx c) axes maxIterations))
     }
   | _ \<Rightarrow> ret (Inr []))"

subsection \<open>The control\<close>

definition fan_stats :: "step \<Rightarrow> string \<Rightarrow> exec_status \<Rightarrow> goerr option \<Rightarrow> iteration_stats list \<Rightarrow> step_stats" where
  "fan_stats s kind status err its = StepStats (sid s) kind status 0 [] err its"

definition fan_fail :: "step \<Rightarrow> string \<Rightarrow> exec_status \<Rightarrow> goerr \<Rightarrow> iteration_stats list \<Rightarrow> run_stats \<Rightarrow> step_outcome" where
  "fan_fail s kind status e its nested = failed_with e (finished (fan_stats s kind status (Some e) its) (Some nested))"

text \<open>The state of one iteration\<close>

definition iteration_state :: "wstate \<Rightarrow> iteration \<Rightarrow> wstate" where
  "iteration_state st it = (let st = cloneState st
     in st\<lparr>st_bindings := Some (bindings_of st ++\<^sub>f it_bindings it)\<rparr>)"

definition iteration_body :: "'w sequence \<Rightarrow> step list \<Rightarrow> options \<Rightarrow> wstate \<Rightarrow> 'w iteration_body" where
  "iteration_body seq children opts st c it =
     run_private (iteration_state st it) (new_stats children) (seq c children opts)"

text \<open>The records of the iterations that started\<close>

definition iteration_record :: "fan_outcome \<Rightarrow> iteration_stats" where
  "iteration_record oc = IterationStats (it_index (fo_iteration oc)) [] (statusFromError (fo_err oc)) (fo_err oc)
     (rsteps (fo_stats oc))"

definition fan_records :: "fan_outcome list \<Rightarrow> iteration_stats list" where
  "fan_records ocs = map iteration_record (filter fo_started ocs)"

definition fan_nested :: "fan_outcome list \<Rightarrow> run_stats" where
  "fan_nested ocs = foldl rollupNestedMetrics empty_stats (map fo_stats (filter fo_started ocs))"

text \<open>collectControlResults\<close>

definition collect_one :: "'w effects \<Rightarrow> run_definition \<Rightarrow> ctx \<Rightarrow> options \<Rightarrow> string \<Rightarrow> wstate \<Rightarrow> ('w, goerr + val) exec" where
  "collect_one fx df c opts source st = live fx c (do {
     r \<leftarrow> evaluate fx (templateData fx df opts st) source;
     (case r of Inl e \<Rightarrow> ret (Inl e)
      | Inr v \<Rightarrow> live fx c (ret (if actionDataValue v then Inr v
          else Inl (Err (''expression returned '' @ go_type v @ '', want YAML/JSON-compatible value'')))))
   })"

fun collectControlResults :: "'w effects \<Rightarrow> run_definition \<Rightarrow> ctx \<Rightarrow> options \<Rightarrow> string \<Rightarrow> nat \<Rightarrow> wstate list
    \<Rightarrow> ('w, goerr + val list) exec" where
  "collectControlResults fx df c opts source i [] = ret (Inr [])"
| "collectControlResults fx df c opts source i (st # sts) =
     labelled (''collect iteration '' @ nat_text i) (collect_one fx df c opts source st)
       (\<lambda>v. do {
          rest \<leftarrow> collectControlResults fx df c opts source (Suc i) sts;
          ret (map_sum id ((#) v) rest)
        })"

text \<open>executeControl after the expansion. After a run without an error every iteration has a state; the
  code would panic on a missing one.\<close>

definition finish_fan_out :: "'w effects \<Rightarrow> run_definition \<Rightarrow> ctx \<Rightarrow> step \<Rightarrow> string \<Rightarrow> string \<Rightarrow> options \<Rightarrow> fan_outcome list
    \<Rightarrow> ('w, step_outcome) exec" where
  "finish_fan_out fx df c s kind collects opts ocs =
     (case those (map fo_state ocs) of
        None \<Rightarrow> give_up (not_started (Err ''nil state''))
      | Some sts \<Rightarrow> do {
          results \<leftarrow> (if collects = [] then ret (Inr []) else collectControlResults fx df c opts collects 0 sts);
          (case results of
             Inl e \<Rightarrow> (let err = Wrapped (step_where df s kind) e
               in ret (fan_fail s kind (statusFromError (Some err)) err (fan_records ocs) (fan_nested ocs)))
           | Inr vs \<Rightarrow> ret (succeeded_with
               \<lparr>res_checks = concat (map st_checkWrites sts),
                res_outputs = Some (fmap_of_list ((''count'', VInt (int (length ocs))) #
                  (if collects = [] then [] else [(''results'', VList vs)]))),
                res_variables = fmempty\<rparr>
               (finished (fan_stats s kind StatusSucceeded None (fan_records ocs)) (Some (fan_nested ocs)))))
        })"

definition run_fan_out :: "'w effects \<Rightarrow> run_definition \<Rightarrow> 'w sequence \<Rightarrow> ctx \<Rightarrow> step \<Rightarrow> string \<Rightarrow> step list \<Rightarrow> fan_policy \<Rightarrow> options
    \<Rightarrow> ('w, step_outcome) exec" where
  "run_fan_out fx df seq c s kind children p opts = do {
     st \<leftarrow> gets m_state;
     expanded \<leftarrow> expandControl fx c (body s) (templateData fx df opts st) (declared_bound p);
     (case expanded of
        Inl e \<Rightarrow> ret (fan_fail s kind StatusFailed (Wrapped (step_where df s kind @ '': expanding'') e) [] empty_stats)
      | Inr its \<Rightarrow> do {
          let childOpts = opts\<lparr>o_interactive := o_interactive opts \<and> fan_max_concurrency p = 1\<rparr>;
          (ocs, runErr) \<leftarrow> control_Run fx c its (declared_policy p) (iteration_body seq children childOpts st);
          (case runErr of
             Some e \<Rightarrow> ret (fan_fail s kind (statusFromError (Some e)) (Wrapped (step_where df s kind) e)
                         (fan_records ocs) (fan_nested ocs))
           | None \<Rightarrow> finish_fan_out fx df c s kind (fan_collect p) opts ocs)
        })
   }"

text \<open>executeControl\<close>

definition executeControl :: "'w effects \<Rightarrow> run_definition \<Rightarrow> 'w sequence \<Rightarrow> ctx \<Rightarrow> step \<Rightarrow> string \<Rightarrow> step list \<Rightarrow> fan_policy \<Rightarrow> options
    \<Rightarrow> ('w, step_outcome) exec" where
  "executeControl fx df seq c s kind children p opts = do {
     done \<leftarrow> ctx_err fx c;
     (case done of Some e \<Rightarrow> ret (not_started e)
      | None \<Rightarrow> do {
          run \<leftarrow> step_condition fx df opts s;
          (case run of
             Inl e \<Rightarrow> ret (fan_fail s kind StatusFailed (Wrapped (step_where df s kind @ '': evaluating if'') e) [] empty_stats)
           | Inr run \<Rightarrow>
               if run then run_fan_out fx df seq c s kind children p opts
               else ret (skipped_out (finished (fan_stats s kind StatusSkipped None []) (Some empty_stats))))
        })
   }"

end
