(* ===== verification/Blocks.thy ===== *)
theory Blocks
  imports Cleanup PathMatch
begin

text \<open>
  The scoped blocks: env (engine/environment.go), working_directory (engine/working_directory.go),
  conditional (engine/engine.go evaluateConditionalBlock), executor (engine/executor.go) and worktree
  (engine/worktree.go), and the launch of a background control (engine/background_control.go). The
  supervisor of services, the executors and git are effects.
\<close>

subsection \<open>The env block\<close>

text \<open>What renderEnvironmentOverlay carries through the operations: the environment, and the template
  data, whose root \<^verbatim>\<open>env\<close> is renewed before an operation that reads it.\<close>

type_synonym overlay = "string gomap \<times> vmap"

definition env_snapshot :: "overlay \<Rightarrow> overlay" where
  "env_snapshot o' = (fst o', fmupd ''env'' (env_val (fst o')) (snd o'))"

text \<open>One variable of a set operation; a declaration without a value gives nil.\<close>

definition env_entry :: "'w effects \<Rightarrow> vmap \<Rightarrow> env_value \<Rightarrow> ('w, goerr + val) exec" where
  "env_entry fx data d =
     (if env_expression d \<noteq> [] then effect (fx_eval (fx_language fx) (env_expression d) data)
      else case env_literal d of
          Some t \<Rightarrow> do { r \<leftarrow> effect (fx_render (fx_language fx) t data); ret (map_sum id VStr r) }
        | None \<Rightarrow> ret (Inr VNil))"

fun env_set :: "'w effects \<Rightarrow> nat \<Rightarrow> vmap \<Rightarrow> (string \<times> env_value) list \<Rightarrow> string gomap \<Rightarrow> ('w, goerr + string gomap) exec" where
  "env_set fx i data [] env = ret (Inr env)"
| "env_set fx i data ((name, d) # rest) env = do {
     r \<leftarrow> env_entry fx data d;
     (let at_entry = ''env operation '' @ nat_text (i + 1) @ '' set '' @ go_quote name
      in case r of
         Inl e \<Rightarrow> ret (Inl (Wrapped at_entry e))
       | Inr VNil \<Rightarrow> env_set fx i data rest (fmdrop name env)
       | Inr (VStr t) \<Rightarrow> env_set fx i data rest (fmupd name t env)
       | Inr _ \<Rightarrow> ret (Inl (Wrapped at_entry (Err ''expression must return a string or nil''))))
   }"

text \<open>resolveEnvironmentUnset\<close>

fun string_items :: "nat \<Rightarrow> val list \<Rightarrow> goerr + string list" where
  "string_items i [] = Inr []"
| "string_items i (VStr t # rest) = map_sum id ((#) t) (string_items (Suc i) rest)"
| "string_items i (v # rest) =
     Inl (Err (''expression must return a list of strings (item '' @ nat_text (i + 1) @ '' is not a string)''))"

fun render_patterns :: "'w effects \<Rightarrow> nat \<Rightarrow> vmap \<Rightarrow> string list \<Rightarrow> ('w, goerr + string list) exec" where
  "render_patterns fx i data [] = ret (Inr [])"
| "render_patterns fx i data (p # ps) = do {
     r \<leftarrow> effect (fx_render (fx_language fx) p data);
     (case r of
        Inl e \<Rightarrow> ret (Inl (Wrapped (''item '' @ nat_text (i + 1) @ '' template'') e))
      | Inr t \<Rightarrow> do {
          rest \<leftarrow> render_patterns fx (Suc i) data ps;
          ret (map_sum id ((#) t) rest)
        })
   }"

definition unset_list :: "env_unset \<Rightarrow> string list" where
  "unset_list u = (case unset_patterns u of None \<Rightarrow> [] | Some ps \<Rightarrow> ps)"

definition resolveEnvironmentUnset :: "'w effects \<Rightarrow> vmap \<Rightarrow> env_unset \<Rightarrow> ('w, goerr + string list) exec" where
  "resolveEnvironmentUnset fx data u =
     (if unset_expression u \<noteq> [] then do {
        r \<leftarrow> effect (fx_eval (fx_language fx) (unset_expression u) data);
        ret (case r of Inl e \<Rightarrow> Inl e
          | Inr (VList vs) \<Rightarrow> string_items 0 vs
          | Inr _ \<Rightarrow> Inl (Err ''expression must return a list of strings''))
      }
      else render_patterns fx 0 data (unset_list u))"

text \<open>Removing the variables a list of patterns names\<close>

fun env_remove :: "nat \<Rightarrow> nat \<Rightarrow> string list \<Rightarrow> string gomap \<Rightarrow> goerr + string gomap" where
  "env_remove i item [] env = Inr env"
| "env_remove i item (p # ps) env = (case ValidateEnvironmentPattern p of
     Some e \<Rightarrow> Inl (Wrapped (''env operation '' @ nat_text (i + 1) @ '' unset item '' @ nat_text (item + 1)) (Err (snd e)))
   | None \<Rightarrow> env_remove i (Suc item) ps
       (if has_special p then fmfilter (\<lambda>name. \<not> path_match p name) env else fmdrop p env))"

definition reads_env :: "env_unset \<Rightarrow> bool" where
  "reads_env u \<longleftrightarrow> unset_expression u \<noteq> [] \<or> list_ex contains_open (unset_list u)"

text \<open>renderEnvironmentOverlay at run time. An operation holds one of set and unset.\<close>

fun env_operations :: "'w effects \<Rightarrow> nat \<Rightarrow> env_operation list \<Rightarrow> overlay \<Rightarrow> ('w, goerr + string gomap) exec" where
  "env_operations fx i [] ov = ret (Inr (fst ov))"
| "env_operations fx i (operation # rest) ov =
     (case op_set operation of
        Some m \<Rightarrow> do {
          let ov = env_snapshot ov;
          r \<leftarrow> env_set fx i (snd ov) (sorted_entries m) (fst ov);
          (case r of Inl e \<Rightarrow> ret (Inl e)
           | Inr env \<Rightarrow> env_operations fx (Suc i) rest (env, snd ov))
        }
      | None \<Rightarrow> (case op_unset operation of
          None \<Rightarrow> give_up (Inl (Err ''nil unset''))
        | Some u \<Rightarrow> do {
            let ov = (if reads_env u then env_snapshot ov else ov);
            r \<leftarrow> resolveEnvironmentUnset fx (snd ov) u;
            (case r of
               Inl e \<Rightarrow> ret (Inl (Wrapped (''env operation '' @ nat_text (i + 1) @ '' unset'') e))
             | Inr ps \<Rightarrow> (case env_remove i 0 ps (fst ov) of
                 Inl e \<Rightarrow> ret (Inl e)
               | Inr env \<Rightarrow> env_operations fx (Suc i) rest (env, snd ov)))
          }))"

definition renderEnvironmentOverlay :: "'w effects \<Rightarrow> vmap \<Rightarrow> string gomap \<Rightarrow> env_operation list \<Rightarrow> ('w, goerr + string gomap) exec" where
  "renderEnvironmentOverlay fx data base ops = env_operations fx 0 ops (base, data)"

text \<open>The scoped validation of a block's steps, and then the steps themselves\<close>

definition validated_steps :: "'w effects \<Rightarrow> 'w sequence \<Rightarrow> ctx \<Rightarrow> string \<Rightarrow> step list \<Rightarrow> options \<Rightarrow> ('w, goerr option) exec" where
  "validated_steps fx seq c label ss opts = do {
     st \<leftarrow> gets m_state;
     invalid \<leftarrow> effect (fx_validate (fx_leaf fx) c ss opts st);
     (case invalid of
        Some e \<Rightarrow> ret (Some (Wrapped (label @ '': validating scoped steps'') e))
      | None \<Rightarrow> seq c ss opts)
   }"

text \<open>executeEnvironmentBlock: the environment of the state is replaced for the time of the block.\<close>

definition executeEnvironmentBlock :: "'w effects \<Rightarrow> run_definition \<Rightarrow> 'w sequence \<Rightarrow> ctx \<Rightarrow> env_operation list \<Rightarrow> step list \<Rightarrow> options
    \<Rightarrow> ('w, goerr option) exec" where
  "executeEnvironmentBlock fx df seq c ops ss opts = do {
     done \<leftarrow> ctx_err fx c;
     (case done of Some e \<Rightarrow> ret (Some e)
      | None \<Rightarrow> do {
          data \<leftarrow> template_roots fx df opts;
          previous \<leftarrow> gets (\<lambda>m. st_env (m_state m));
          r \<leftarrow> renderEnvironmentOverlay fx data previous ops;
          (case r of
             Inl e \<Rightarrow> ret (Some (Wrapped (workflow_where df ''env block'') e))
           | Inr env \<Rightarrow> do {
               change_state (\<lambda>st. st\<lparr>st_env := env\<rparr>);
               err \<leftarrow> validated_steps fx seq c (workflow_where df ''env block'') ss
                        (opts\<lparr>o_scopedEnv := Some env, o_deferContextValidation := False\<rparr>);
               change_state (\<lambda>st. st\<lparr>st_env := previous\<rparr>);
               ret err
             })
        })
   }"

subsection \<open>The working_directory block\<close>

text \<open>cleanWorkingDirectory\<close>

definition cleanWorkingDirectory :: "string \<Rightarrow> string \<Rightarrow> string" where
  "cleanWorkingDirectory base t = clean_path (if is_abs t then t else join_path base t)"

text \<open>scopedWorkingDirectory and resolveWorkingDirectory: the directory is looked up in the executor's
  own file system, or in that of the host, which is \<open>0\<close>.\<close>

definition scopedWorkingDirectory :: "'w effects \<Rightarrow> ctx \<Rightarrow> options \<Rightarrow> string \<Rightarrow> ('w, goerr + string) exec" where
  "scopedWorkingDirectory fx c opts t =
     (if blank t then ret (Inl (Err ''resolved path must not be empty''))
      else do {
        let fs = (if o_insideExecutor opts \<and> o_executorFileSystem opts then fx_filesystem (fx_host fx) (o_executor opts) else 0);
        let dir = cleanWorkingDirectory (o_runDir opts) t;
        r \<leftarrow> effect (fx_stat_dir (fx_host fx) fs c dir);
        ret (case r of
            Inl e \<Rightarrow> Inl (Wrapped (''inspecting directory '' @ dir) e)
          | Inr isDir \<Rightarrow> if isDir then Inr dir else Inl (Err (''working_directory '' @ dir @ '' is not a directory'')))
      })"

definition executeWorkingDirectoryBlock :: "'w effects \<Rightarrow> run_definition \<Rightarrow> 'w sequence \<Rightarrow> ctx \<Rightarrow> string \<Rightarrow> step list \<Rightarrow> options
    \<Rightarrow> ('w, goerr option) exec" where
  "executeWorkingDirectoryBlock fx df seq c template ss opts = do {
     done \<leftarrow> ctx_err fx c;
     (case done of Some e \<Rightarrow> ret (Some e)
      | None \<Rightarrow> do {
          rendered \<leftarrow> render_text fx df opts template;
          (case rendered of
             Inl e \<Rightarrow> ret (Some (Wrapped (workflow_where df ''working_directory block: rendering path'') e))
           | Inr t \<Rightarrow> do {
               dir \<leftarrow> scopedWorkingDirectory fx c opts t;
               (case dir of
                  Inl e \<Rightarrow> ret (Some (Wrapped (workflow_where df ''working_directory block'') e))
                | Inr dir \<Rightarrow> validated_steps fx seq c (workflow_where df ''working_directory block'') ss
                    (opts\<lparr>o_runDir := dir, o_deferContextValidation := False\<rparr>))
             })
        })
   }"

subsection \<open>The conditional block\<close>

text \<open>evaluateConditionalBlock, and the case of the block in executeSequence\<close>

definition executeConditionalBlock :: "'w effects \<Rightarrow> run_definition \<Rightarrow> 'w sequence \<Rightarrow> ctx \<Rightarrow> step \<Rightarrow> step list \<Rightarrow> options
    \<Rightarrow> ('w, goerr option) exec" where
  "executeConditionalBlock fx df seq c s ss opts = do {
     done \<leftarrow> ctx_err fx c;
     (case done of Some e \<Rightarrow> ret (Some e)
      | None \<Rightarrow> do {
          run \<leftarrow> step_condition fx df opts s;
          (case run of
             Inl e \<Rightarrow> ret (Some (Wrapped (workflow_where df ''conditional block: evaluating if'') e))
           | Inr run \<Rightarrow>
               if run then seq c ss opts
               else do { change_stats (recordSkippedSteps ss); ret None })
        })
   }"

subsection \<open>Scopes with services\<close>

text \<open>engine/background.go, joinBackgroundError and nonCancellationError\<close>

definition nonCancellationError :: "goerr option \<Rightarrow> goerr option" where
  "nonCancellationError e = (if cancellation_only e then None else e)"

definition joinBackgroundError :: "goerr option \<Rightarrow> goerr option \<Rightarrow> goerr option" where
  "joinBackgroundError mainErr backgroundErr =
     (if cancellation_only mainErr \<and> nonCancellationError backgroundErr \<noteq> None then backgroundErr
      else errors_join [mainErr, backgroundErr])"

text \<open>The common part of an executor block and a worktree block: the body runs under the supervisor of
  the scope; when it ends, the services are stopped or joined and their error joins the body's;
  then the deferred groups and the finally sequence run, not returning.\<close>

definition join_services :: "'w effects \<Rightarrow> nat \<Rightarrow> goerr option \<Rightarrow> ('w, goerr option) exec" where
  "join_services fx scope mainErr = do {
     effect (fx_services_seal (fx_services fx) scope);
     returned \<leftarrow> gets (\<lambda>m. st_didReturn (m_state m));
     (if mainErr \<noteq> None \<or> returned then effect (fx_services_stop (fx_services fx) scope) else ret ());
     serviceErr \<leftarrow> effect (fx_services_wait (fx_services fx) scope);
     ended \<leftarrow> effect (fx_services_ended (fx_services fx) scope);
     ret (joinBackgroundError (if ended \<and> cancellation_only mainErr then None else mainErr) serviceErr)
   }"

definition run_scope :: "'w effects \<Rightarrow> 'w sequence \<Rightarrow> ctx \<Rightarrow> nat \<Rightarrow> step list \<Rightarrow> step list \<Rightarrow> options
    \<Rightarrow> ('w, goerr option \<times> goerr list) exec" where
  "run_scope fx seq c scope ss final opts = with_defers (newDeferStack ss) (do {
     start \<leftarrow> gets (\<lambda>m. length (rsteps (m_stats m)));
     err \<leftarrow> seq (WithCancel c) ss opts;
     mainErr \<leftarrow> join_services fx scope err;
     returning \<leftarrow> gets (\<lambda>m. st_returning (m_state m));
     change_state (\<lambda>st. st\<lparr>st_returning := False\<rparr>);
     records \<leftarrow> gets (\<lambda>m. drop start (rsteps (m_stats m)));
     es \<leftarrow> executeCleanupScope seq (WithoutCancel c) ss final opts mainErr records;
     change_state (\<lambda>st. st\<lparr>st_returning := returning\<rparr>);
     ret (mainErr, es)
   })"

definition scope_error :: "goerr option \<times> goerr list \<Rightarrow> goerr option" where
  "scope_error r = errors_join (fst r # map Some (snd r))"

subsection \<open>The executor block\<close>

definition executor_where :: "run_definition \<Rightarrow> string \<Rightarrow> string" where
  "executor_where df type = workflow_where df (''executor '' @ go_quote type)"

definition executorCleanupTimeout :: int where
  "executorCleanupTimeout = 5000000000"

text \<open>The session is closed last, with a context of its own.\<close>

definition close_session :: "'w effects \<Rightarrow> run_definition \<Rightarrow> string \<Rightarrow> ctx \<Rightarrow> nat \<Rightarrow> goerr option \<Rightarrow> ('w, goerr option) exec" where
  "close_session fx df type c session runErr = do {
     closeErr \<leftarrow> effect (fx_executor_close (fx_host fx) session (WithTimeout executorCleanupTimeout (WithoutCancel c)));
     ret (case closeErr of None \<Rightarrow> runErr
       | Some e \<Rightarrow> errors_join [runErr, Some (Wrapped (executor_where df type @ '': closing session'') e)])
   }"

definition run_session :: "'w effects \<Rightarrow> run_definition \<Rightarrow> 'w sequence \<Rightarrow> ctx \<Rightarrow> string \<Rightarrow> executor_provider \<Rightarrow> nat \<Rightarrow> step list \<Rightarrow> step list
    \<Rightarrow> options \<Rightarrow> ('w, goerr option) exec" where
  "run_session fx df seq c type provider session ss final opts = do {
     scope \<leftarrow> effect (fx_services_new (fx_services fx) c);
     r \<leftarrow> run_scope fx seq c scope ss final
        (opts\<lparr>o_executor := session, o_insideExecutor := True,
              o_executorFileSystem := ep_filesystem provider, o_services := scope\<rparr>);
     effect (fx_services_cancel (fx_services fx) scope);
     close_session fx df type c session (scope_error r)
   }"

definition executeExecutorBlock :: "'w effects \<Rightarrow> run_definition \<Rightarrow> 'w sequence \<Rightarrow> ctx \<Rightarrow> string \<Rightarrow> vmap \<Rightarrow> step list \<Rightarrow> step list
    \<Rightarrow> options \<Rightarrow> ('w, goerr option) exec" where
  "executeExecutorBlock fx df seq c type config ss final opts = do {
     done \<leftarrow> ctx_err fx c;
     (case done of Some e \<Rightarrow> ret (Some e)
      | None \<Rightarrow> do {
          data \<leftarrow> template_roots fx df opts;
          rendered \<leftarrow> renderValue fx data (VMap config) [];
          (case rendered of
             Inl e \<Rightarrow> ret (Some (Wrapped (executor_where df type @ '': rendering configuration'') e))
           | Inr (VMap raw) \<Rightarrow> do {
               built \<leftarrow> effect (fx_executor_build (fx_host fx) c type raw);
               (case built of
                  Inl e \<Rightarrow> ret (Some (Wrapped (executor_where df type) e))
                | Inr provider \<Rightarrow> do {
                    env \<leftarrow> gets (\<lambda>m. st_env (m_state m));
                    opened \<leftarrow> effect (fx_executor_open (fx_host fx) (ep_handle provider) c (o_runDir opts) env);
                    (case opened of
                       Inl e \<Rightarrow> ret (Some (Wrapped (executor_where df type @ '': opening session'') e))
                     | Inr session \<Rightarrow> run_session fx df seq c type provider session ss final opts)
                  })
             }
           | Inr _ \<Rightarrow> ret (Some (Wrapped (executor_where df type) (Err ''configuration is not an object''))))
        })
   }"

end
