(* ===== verification/Worktree.thy ===== *)
theory Worktree
  imports Blocks
begin

text \<open>
  The worktree block (engine/worktree.go): a git worktree is created, the body runs in it as a scope
  of its own, a new commit may be published as a branch, and the worktree is removed again whatever
  happened. Also the launch of a background control (engine/background_control.go).
\<close>

subsection \<open>The worktree block\<close>

definition worktree_where :: "run_definition \<Rightarrow> step \<Rightarrow> string" where
  "worktree_where df s = workflow_where df (''worktree '' @ go_quote (sid s))"

definition worktreeCleanupTimeout :: int where
  "worktreeCleanupTimeout = 5000000000"

text \<open>runGit in a directory, with the environment of the state\<close>

definition runGit :: "'w effects \<Rightarrow> options \<Rightarrow> ctx \<Rightarrow> string \<Rightarrow> string list \<Rightarrow> ('w, goerr + string) exec" where
  "runGit fx opts c dir args = do {
     env \<leftarrow> gets (\<lambda>m. st_env (m_state m));
     effect (fx_git (fx_host fx) opts env c dir args)
   }"

definition head_commit :: "'w effects \<Rightarrow> options \<Rightarrow> ctx \<Rightarrow> string \<Rightarrow> ('w, goerr + string) exec" where
  "head_commit fx opts c path = do {
     r \<leftarrow> runGit fx opts c path [''rev-parse'', ''--verify'', ''HEAD^{commit}''];
     ret (map_sum id trimSpace r)
   }"

text \<open>The part before the worktree exists: the revision, the path, the repository and its root\<close>

record worktree_site =
  ws_revision :: string
  ws_path :: string
  ws_root :: string

definition worktree_setup :: "'w effects \<Rightarrow> run_definition \<Rightarrow> ctx \<Rightarrow> step \<Rightarrow> worktree_group \<Rightarrow> options \<Rightarrow> ('w, goerr + worktree_site) exec" where
  "worktree_setup fx df c s g opts =
     (let here = worktree_where df s in
      labelled (here @ '': rendering revision'') (render_text fx df opts (wt_revision g)) (\<lambda>revision.
      labelled (here @ '': rendering path'')
        (if wt_path g = ''auto'' then ret (Inr (wt_path g)) else render_text fx df opts (wt_path g)) (\<lambda>configured.
      labelled here (effect (fx_worktree_path (fx_host fx) (o_runDir opts) configured)) (\<lambda>path.
      labelled (here @ '': locating repository'')
        (runGit fx opts c (o_runDir opts) [''rev-parse'', ''--show-toplevel'']) (\<lambda>output.
      let root = trimSpace output in
      if root = [] then ret (Inl (Err (here @ '': git returned an empty repository root'')))
      else if take 1 (trimSpace revision) = ''-''
      then ret (Inl (Err (here @ '': revision must not begin with '' @ [CHR 0x27, CHR ''-'', CHR 0x27])))
      else labelled (here @ '': creating worktree'')
        (runGit fx opts c root [''worktree'', ''add'', ''--detach'', path, trimSpace revision]) (\<lambda>_.
      ret (Inr \<lparr>ws_revision = trimSpace revision, ws_path = path, ws_root = root\<rparr>)))))))"

text \<open>Publishing the final commit as a branch; \<open>Inr\<close> holds the name of the branch and whether it was
  published.\<close>

definition publish :: "'w effects \<Rightarrow> run_definition \<Rightarrow> ctx \<Rightarrow> step \<Rightarrow> worktree_group \<Rightarrow> worktree_site \<Rightarrow> options \<Rightarrow> string \<Rightarrow> string
    \<Rightarrow> ('w, goerr + string \<times> bool) exec" where
  "publish fx df c s g site opts baseCommit finalCommit = (case wt_publish_branch g of
     None \<Rightarrow> ret (Inr ([], False))
   | Some template \<Rightarrow>
      (let here = worktree_where df s in
       labelled (here @ '': rendering publish branch'')
         (render_text fx df (opts\<lparr>o_runDir := ws_path site\<rparr>) template) (\<lambda>rendered.
       let branch = trimSpace rendered in
       labelled (here @ '': invalid publish branch '' @ go_quote branch)
         (runGit fx opts c (ws_root site) [''check-ref-format'', ''--branch'', branch]) (\<lambda>_.
       if finalCommit = baseCommit
       then ret (Inl (Err (here @ '': publish requested but nested steps created no commit'')))
       else do {
         existing \<leftarrow> runGit fx opts c (ws_root site)
           [''show-ref'', ''--verify'', ''--quiet'', ''--'', ''refs/heads/'' @ branch];
         (case existing of
            Inr _ \<Rightarrow> ret (Inl (Err (here @ '': publish branch '' @ go_quote branch @ '' already exists'')))
          | Inl _ \<Rightarrow> labelled (here @ '': publishing branch '' @ go_quote branch)
              (runGit fx opts c (ws_root site) [''branch'', ''--'', branch, finalCommit])
              (\<lambda>_. ret (Inr (branch, True))))
       }))))"

text \<open>The part in the worktree\<close>

definition worktree_result :: "worktree_site \<Rightarrow> string \<Rightarrow> string \<Rightarrow> string \<times> bool \<Rightarrow> step_result" where
  "worktree_result site baseCommit finalCommit published = empty_result\<lparr>res_outputs := Some (fmap_of_list
     [(''path'', VStr (ws_path site)), (''revision'', VStr (ws_revision site)),
      (''base_commit'', VStr baseCommit), (''commit'', VStr finalCommit),
      (''branch'', VStr (fst published)), (''published'', VBool (snd published))])\<rparr>"

definition worktree_services :: "'w effects \<Rightarrow> 'w sequence \<Rightarrow> ctx \<Rightarrow> step list \<Rightarrow> options \<Rightarrow> ('w, goerr option \<times> goerr list) exec" where
  "worktree_services fx seq c ss opts = do {
     scope \<leftarrow> effect (fx_services_new (fx_services fx) c);
     r \<leftarrow> run_scope fx seq c scope ss [] (opts\<lparr>o_services := scope\<rparr>);
     effect (fx_services_cancel (fx_services fx) scope);
     ret r
   }"

definition worktree_body :: "'w effects \<Rightarrow> run_definition \<Rightarrow> 'w sequence \<Rightarrow> ctx \<Rightarrow> step \<Rightarrow> worktree_group \<Rightarrow> worktree_site \<Rightarrow> step list
    \<Rightarrow> options \<Rightarrow> ('w, goerr + step_result) exec" where
  "worktree_body fx df seq c s g site ss opts =
     (let here = worktree_where df s;
          childOpts = opts\<lparr>o_runDir := ws_path site, o_deferContextValidation := False\<rparr> in
      labelled (here @ '': resolving base commit'') (head_commit fx opts c (ws_path site)) (\<lambda>baseCommit. do {
        st \<leftarrow> gets m_state;
        invalid \<leftarrow> effect (fx_validate (fx_leaf fx) c ss childOpts st);
        (case invalid of
           Some e \<Rightarrow> ret (Inl (Wrapped (here @ '': validating scoped steps'') e))
         | None \<Rightarrow> do {
             r \<leftarrow> worktree_services fx seq c ss childOpts;
             (case scope_error r of
                Some e \<Rightarrow> ret (Inl e)
              | None \<Rightarrow> labelled (here @ '': resolving final commit'') (head_commit fx opts c (ws_path site)) (\<lambda>finalCommit. do {
                  published \<leftarrow> publish fx df c s g site opts baseCommit finalCommit;
                  ret (map_sum id (worktree_result site baseCommit finalCommit) published)
                }))
           })
      }))"

text \<open>The cleanup: the worktree is removed and the list of worktrees pruned, both in any case.\<close>

definition remove_worktree :: "'w effects \<Rightarrow> ctx \<Rightarrow> worktree_site \<Rightarrow> options \<Rightarrow> ('w, goerr option) exec" where
  "remove_worktree fx c site opts = do {
     let cleanupCtx = WithTimeout worktreeCleanupTimeout (WithoutCancel c);
     removed \<leftarrow> runGit fx opts cleanupCtx (ws_root site) [''worktree'', ''remove'', ''--force'', ws_path site];
     pruned \<leftarrow> runGit fx opts cleanupCtx (ws_root site) [''worktree'', ''prune''];
     ret (errors_join
       [case removed of Inl e \<Rightarrow> Some (Wrapped (''removing worktree '' @ ws_path site) e) | Inr _ \<Rightarrow> None,
        case pruned of Inl e \<Rightarrow> Some (Wrapped ''pruning worktrees'' e) | Inr _ \<Rightarrow> None])
   }"

definition run_worktree :: "'w effects \<Rightarrow> run_definition \<Rightarrow> 'w sequence \<Rightarrow> ctx \<Rightarrow> step \<Rightarrow> worktree_group \<Rightarrow> step list \<Rightarrow> options
    \<Rightarrow> ('w, goerr + step_result) exec" where
  "run_worktree fx df seq c s g ss opts = do {
     site \<leftarrow> worktree_setup fx df c s g opts;
     (case site of Inl e \<Rightarrow> ret (Inl e)
      | Inr site \<Rightarrow> do {
          r \<leftarrow> worktree_body fx df seq c s g site ss opts;
          cleanupErr \<leftarrow> remove_worktree fx c site opts;
          ret (case cleanupErr of None \<Rightarrow> r
            | Some e \<Rightarrow> Inl (Joined (case r of Inl e' \<Rightarrow> [e', e] | Inr _ \<Rightarrow> [e])))
        })
   }"

definition worktree_stats :: "step \<Rightarrow> goerr option \<Rightarrow> run_stats \<Rightarrow> step_stats" where
  "worktree_stats s err bodyStats = StepStats (sid s) ''worktree'' (statusFromError err) 0 [] err
     [IterationStats 0 [] (statusFromError err) err (rsteps bodyStats)]"

definition executeWorktreeBlock :: "'w effects \<Rightarrow> run_definition \<Rightarrow> 'w sequence \<Rightarrow> ctx \<Rightarrow> step \<Rightarrow> worktree_group \<Rightarrow> step list \<Rightarrow> options
    \<Rightarrow> ('w, step_outcome) exec" where
  "executeWorktreeBlock fx df seq c s g ss opts = do {
     done \<leftarrow> ctx_err fx c;
     (case done of Some e \<Rightarrow> ret (not_started e)
      | None \<Rightarrow> do {
          (r, bodyStats) \<leftarrow> run_counted
             (empty_stats\<lparr>total := leafStepCount ss + stack_stepCount (newDeferStack ss :: options defer_stack)\<rparr>)
             (run_worktree fx df seq c s g ss opts);
          ret (case r of
              Inl e \<Rightarrow> failed_with e (finished (worktree_stats s (Some e) bodyStats) (Some bodyStats))
            | Inr result \<Rightarrow> succeeded_with result (finished (worktree_stats s None bodyStats) (Some bodyStats)))
        })
   }"

subsection \<open>Background controls\<close>

definition background_stats :: "step \<Rightarrow> string \<Rightarrow> goerr option \<Rightarrow> step_stats" where
  "background_stats s kind err = StepStats (sid s) kind (statusFromError err) 0 [] err []"

text \<open>executeBackgroundControl: the control is launched with a snapshot of the state, and its program
  handed to the supervisor of the run.\<close>

definition executeBackgroundControl :: "'w effects \<Rightarrow> run_definition \<Rightarrow> ctx \<Rightarrow> step \<Rightarrow> options \<Rightarrow> ('w, step_outcome) exec" where
  "executeBackgroundControl fx df c s opts =
     (let kind = executionKind s;
          fail = (\<lambda>e. let err = Wrapped (step_where df s kind) e
             in failed_with err (finished (background_stats s kind (Some err)) None))
      in do {
        st \<leftarrow> gets m_state;
        launched \<leftarrow> effect (fx_launch (fx_services fx) c s (o_runDir opts) (st_env st) (templateData fx df opts st));
        (case launched of
           Inl e \<Rightarrow> ret (fail e)
         | Inr program \<Rightarrow> do {
             started \<leftarrow> effect (fx_start_background (fx_services fx) s (opts\<lparr>o_interactive := False\<rparr>)
                (cloneState st) (bp_handle program));
             (case started of
                Some e \<Rightarrow> do { effect (fx_close_program (fx_services fx) (bp_handle program)); ret (fail e) }
              | None \<Rightarrow> ret (succeeded_with (bp_result program) (finished (background_stats s kind None) None)))
           })
      })"

text \<open>One iteration of a background program (runBackgroundProgram, RunIteration): the body runs on a
  clone of the snapshot with the control's root bound, and releases its resources.\<close>

definition background_iteration :: "'w effects \<Rightarrow> 'w sequence \<Rightarrow> ctx \<Rightarrow> string \<Rightarrow> vmap \<Rightarrow> wstate \<Rightarrow> step list \<Rightarrow> options
    \<Rightarrow> ('w, goerr option) exec" where
  "background_iteration fx seq c root binding baseline ss opts = do {
     ((err, st, stats), resources) \<leftarrow> with_cleanups
        (run_private (bind_root root (VMap binding) (cloneState baseline)) (new_stats ss) (seq c ss opts));
     es \<leftarrow> run_cleanups fx (WithoutCancel c) resources;
     ret (errors_join (err # map Some es))
   }"

end
