(* ===== verification/CancelOn.thy ===== *)
theory CancelOn
  imports Cleanup
begin

text \<open>
  The cancel_on control (engine/cancel_on.go) and the race it is built on (control/race.go): the body
  and the monitors run at the same time on private states; the first eligible one to complete wins
  and cancels the others; the outcome of every participant is published.

  The order in which the participants complete is an answer of the world; as each works on a state of
  its own, the model runs them one after the other in that order. A participant that panics inside
  the engine is not modelled.
\<close>

subsection \<open>control.Race\<close>

primrec race_from :: "nat \<Rightarrow> 'w effects \<Rightarrow> ctx \<Rightarrow> (ctx \<Rightarrow> nat \<Rightarrow> ('w, bool \<times> 'a) exec) \<Rightarrow> nat list \<Rightarrow> nat option
    \<Rightarrow> ('w, nat option \<times> (nat \<times> 'a) list) exec" where
  "race_from 0 fx c run remaining winner = ret (winner, [])"
| "race_from (Suc n) fx c run remaining winner = do {
     i \<leftarrow> pick_one fx remaining;
     (eligible, a) \<leftarrow> run c i;
     (if winner = None \<and> eligible then effect (fx_cancel (fx_time fx) c) else ret ());
     (w, completed) \<leftarrow> race_from n fx c run (removeAll i remaining)
        (if winner = None \<and> eligible then Some i else winner);
     ret (w, (i, a) # completed)
   }"

text \<open>The winner, or the error of the parent's context, and every participant in the order of its index\<close>

definition in_order :: "nat \<Rightarrow> (nat \<times> 'a) list \<Rightarrow> 'a list" where
  "in_order n completed = List.map_filter (map_of completed) [0..<n]"

definition Race :: "'w effects \<Rightarrow> ctx \<Rightarrow> nat \<Rightarrow> (ctx \<Rightarrow> nat \<Rightarrow> ('w, bool \<times> 'a) exec)
    \<Rightarrow> ('w, (goerr + nat option) \<times> 'a list) exec" where
  "Race fx c n run = do {
     (winner, completed) \<leftarrow> race_from n fx (WithCancel c) run [0..<n] None;
     outer \<leftarrow> ctx_err fx c;
     ret (case outer of Some e \<Rightarrow> Inl e | None \<Rightarrow> Inr winner, in_order n completed)
   }"

subsection \<open>Participants\<close>

record participant =
  pt_declaration :: "step list"
  pt_kind :: string
  pt_label :: string
  pt_state :: wstate
  pt_stats :: run_stats
  pt_err :: "goerr option"
  pt_skipped :: bool

text \<open>workflow/cancel_on.go, MonitorDeclaration: the label of a block that has no ID of its own belongs to
  the control.\<close>

definition labelled_block :: "step \<Rightarrow> bool" where
  "labelled_block s \<longleftrightarrow> isExecutorBlock s \<or> isEnvironmentBlock s \<or> isWorkingDirectoryBlock s \<or> isConditionalBlock s
     \<or> isConcurrent s"

definition MonitorDeclaration :: "step \<Rightarrow> step" where
  "MonitorDeclaration s =
     (if labelled_block s then Step ((meta s)\<lparr>step_id := []\<rparr>) (body s) (deferred s) else s)"

text \<open>cancelOnDeclarationKind\<close>

definition cancelOnDeclarationKind :: "step \<Rightarrow> string" where
  "cancelOnDeclarationKind s = (case body s of
     ExecutorBlock _ _ _ _ \<Rightarrow> ''executor''
   | EnvBlock _ _ \<Rightarrow> ''env''
   | WorkDirBlock _ _ \<Rightarrow> ''working_directory''
   | CondBlock _ \<Rightarrow> ''if''
   | ConcurrentBlock _ _ \<Rightarrow> ''concurrent''
   | BatchCtl _ _ _ _ \<Rightarrow> ''batch''
   | ForeachCtl _ _ _ \<Rightarrow> ''foreach''
   | MatrixCtl _ _ _ \<Rightarrow> ''matrix''
   | LoopCtl _ _ \<Rightarrow> ''loop''
   | _ \<Rightarrow> executionKind s)"

text \<open>The declarations that race: the body first, then the monitors\<close>

definition race_declarations :: "step list \<Rightarrow> step list \<Rightarrow> (step list \<times> string \<times> string) list" where
  "race_declarations monitors ss =
     (ss, ''body'', ''body'') # map (\<lambda>m. ([MonitorDeclaration m], cancelOnDeclarationKind m, sid m)) monitors"

definition run_participant :: "'w sequence \<Rightarrow> step list \<Rightarrow> step list \<Rightarrow> options \<Rightarrow> wstate \<Rightarrow> ctx \<Rightarrow> nat \<Rightarrow> ('w, bool \<times> participant) exec" where
  "run_participant seq monitors ss opts outer c i =
     (let (declaration, kind, label) = race_declarations monitors ss ! i in do {
        (err, st, stats) \<leftarrow> run_private (privateState outer) (new_stats declaration)
          (seq c declaration (opts\<lparr>o_interactive := o_interactive opts \<and> i = 0\<rparr>));
        ret (i = 0 \<or> \<not> allStepsSkipped stats,
          \<lparr>pt_declaration = declaration, pt_kind = kind, pt_label = label, pt_state = st, pt_stats = stats,
           pt_err = err, pt_skipped = allStepsSkipped stats\<rparr>)
      })"

subsection \<open>Outputs\<close>

text \<open>cancelOnParticipantStatus, cancelOnErrorValue and cancelOnParticipantError\<close>

definition cancelOnParticipantStatus :: "participant \<Rightarrow> exec_status" where
  "cancelOnParticipantStatus p =
     (if pt_skipped p \<and> pt_err p = None then StatusSkipped else statusFromError (pt_err p))"

definition cancelOnErrorValue :: "goerr option \<Rightarrow> val" where
  "cancelOnErrorValue err = (case err of None \<Rightarrow> VNil | Some e \<Rightarrow> VStr (err_text e))"

definition cancelOnParticipantError :: "goerr option \<Rightarrow> bool \<Rightarrow> val" where
  "cancelOnParticipantError err lostRace =
     (if lostRace \<and> cancellation_only err then VNil else cancelOnErrorValue err)"

text \<open>cancelOnMonitorStepRecords\<close>

definition cancelOnMonitorStepRecords :: "step \<Rightarrow> wstate \<Rightarrow> run_stats \<Rightarrow> bool \<Rightarrow> vmap" where
  "cancelOnMonitorStepRecords declaration st stats lostRace = (case transparentChildSequences declaration of
     None \<Rightarrow> fmempty
   | Some children \<Rightarrow>
       fold (collectControlStepRecords (Some st) (indexStepStats stats) lostRace) (map snd children) fmempty)"

text \<open>cancelOnOutputs\<close>

definition monitor_record :: "nat \<Rightarrow> nat \<Rightarrow> step \<Rightarrow> participant \<Rightarrow> val" where
  "monitor_record winner i m p =
     (let lostRace = (i + 1 \<noteq> winner)
      in vmap_of [(''kind'', VStr (pt_kind p)), (''status'', VStr (status_text (cancelOnParticipantStatus p))),
        (''error'', cancelOnParticipantError (pt_err p) lostRace),
        (''outputs'', case fmlookup (st_steps (pt_state p)) (sid m) of
            Some v \<Rightarrow> if cancelOnParticipantStatus p = StatusSucceeded then v else VNil
          | None \<Rightarrow> VNil),
        (''steps'', VMap (cancelOnMonitorStepRecords (MonitorDeclaration m) (pt_state p) (pt_stats p) lostRace)),
        (''vars'', VMap (controlWrittenVars (pt_state p)))])"

definition monitor_records :: "nat \<Rightarrow> step list \<Rightarrow> participant list \<Rightarrow> vmap" where
  "monitor_records winner monitors ps = fmap_of_list (rev
     (map (\<lambda>(i, m, p). (sid m, monitor_record winner i m p)) (indexed (zip monitors (tl ps)))))"

definition cancelOnOutputs :: "step list \<Rightarrow> step list \<Rightarrow> participant list \<Rightarrow> nat \<Rightarrow> vmap" where
  "cancelOnOutputs monitors ss ps winner =
     (let won = ps ! winner; ran = ps ! 0; status = statusFromError (pt_err won)
      in fmap_of_list [(''ok'', VBool (status = StatusSucceeded)), (''triggered'', VBool (winner > 0)),
        (''status'', VStr (status_text status)), (''error'', cancelOnErrorValue (pt_err won)),
        (''winner'', vmap_of [(''monitor'', VStr (if winner > 0 then sid (monitors ! (winner - 1)) else [])),
                              (''kind'', VStr (pt_kind won))]),
        (''steps'', VMap (controlStepRecords ss (Some (pt_state ran)) (pt_stats ran) (winner \<noteq> 0))),
        (''vars'', VMap (controlWrittenVars (pt_state ran))),
        (''monitors'', VMap (monitor_records winner monitors ps)), (''result'', VNil)])"

text \<open>collectCancelOn\<close>

definition output_of :: "vmap \<Rightarrow> string \<Rightarrow> val" where
  "output_of outputs name = (case fmlookup outputs name of None \<Rightarrow> VNil | Some v \<Rightarrow> v)"

definition collectCancelOn :: "'w effects \<Rightarrow> run_definition \<Rightarrow> options \<Rightarrow> vmap \<Rightarrow> string \<Rightarrow> ('w, goerr + val) exec" where
  "collectCancelOn fx df opts outputs source = do {
     environment \<leftarrow> template_roots fx df opts;
     let environment = environment ++\<^sub>f fmap_of_list
       ((''cancel_on'', vmap_of (map (\<lambda>n. (n, output_of outputs n))
           [''ok'', ''triggered'', ''status'', ''error'', ''winner'']))
        # map (\<lambda>n. (n, output_of outputs n)) [''steps'', ''vars'', ''monitors'']);
     r \<leftarrow> effect (fx_evaluate (fx_language fx) source environment);
     ret (case r of Inl e \<Rightarrow> Inl e
       | Inr v \<Rightarrow> if actionDataValue v then Inr v
           else Inl (Err (''expression returned '' @ go_type v @ '', want YAML/JSON-compatible value'')))
   }"

text \<open>cancelOnParticipantStats and cancelOnNestedStats\<close>

definition cancelOnParticipantStats :: "participant list \<Rightarrow> iteration_stats list" where
  "cancelOnParticipantStats ps = map (\<lambda>(i, p).
     IterationStats i (pt_label p) (cancelOnParticipantStatus p) (pt_err p) (rsteps (pt_stats p))) (indexed ps)"

definition cancelOnNestedStats :: "participant list \<Rightarrow> run_stats" where
  "cancelOnNestedStats ps = foldl rollupNestedMetrics empty_stats (map pt_stats ps)"

subsection \<open>The control\<close>

definition cancel_on_stats :: "step \<Rightarrow> exec_status \<Rightarrow> goerr option \<Rightarrow> participant list \<Rightarrow> step_stats" where
  "cancel_on_stats s status err ps = StepStats (sid s) ''cancel_on'' status 0 [] err (cancelOnParticipantStats ps)"

definition cancel_on_done :: "step \<Rightarrow> exec_status \<Rightarrow> goerr option \<Rightarrow> participant list \<Rightarrow> step_outcome" where
  "cancel_on_done s status err ps =
     finished (cancel_on_stats s status err ps) (Some (cancelOnNestedStats ps))"

definition fail_cancel_on :: "step \<Rightarrow> exec_status \<Rightarrow> goerr \<Rightarrow> participant list \<Rightarrow> step_outcome" where
  "fail_cancel_on s status e ps = failed_with e (cancel_on_done s status (Some e) ps)"

definition publish_race :: "'w effects \<Rightarrow> run_definition \<Rightarrow> step \<Rightarrow> string \<Rightarrow> step list \<Rightarrow> step list \<Rightarrow> options \<Rightarrow> participant list \<Rightarrow> nat
    \<Rightarrow> ('w, step_outcome) exec" where
  "publish_race fx df s collects monitors ss opts ps winner = do {
     let outputs = cancelOnOutputs monitors ss ps winner;
     collected \<leftarrow> (if collects = [] then ret (Inr outputs)
       else do { r \<leftarrow> collectCancelOn fx df opts outputs collects;
                 ret (map_sum id (\<lambda>v. fmupd ''result'' v outputs) r) });
     ret (case collected of
         Inl e \<Rightarrow> fail_cancel_on s StatusFailed (Wrapped (step_where df s ''cancel_on'' @ '': collecting result'') e) ps
       | Inr outputs \<Rightarrow> succeeded_with
           \<lparr>res_checks = (if pt_err (ps ! winner) = None then st_checkWrites (pt_state (ps ! winner)) else []),
            res_outputs = Some outputs, res_variables = fmempty\<rparr>
           (cancel_on_done s StatusSucceeded None ps))
   }"

text \<open>executeCancelOn\<close>

definition run_race :: "'w effects \<Rightarrow> run_definition \<Rightarrow> 'w sequence \<Rightarrow> ctx \<Rightarrow> step \<Rightarrow> string \<Rightarrow> step list \<Rightarrow> step list \<Rightarrow> options
    \<Rightarrow> ('w, step_outcome) exec" where
  "run_race fx df seq c s collects monitors ss opts = do {
     st \<leftarrow> gets m_state;
     (r, ps) \<leftarrow> Race fx c (length monitors + 1) (run_participant seq monitors ss opts st);
     (case r of
        Inl e \<Rightarrow> ret (fail_cancel_on s (statusFromError (Some e)) (Wrapped (step_where df s ''cancel_on'') e) ps)
      | Inr None \<Rightarrow> ret (fail_cancel_on s StatusFailed
          (Err (step_where df s ''cancel_on'' @ '': no participant produced an outcome'')) ps)
      | Inr (Some winner) \<Rightarrow> publish_race fx df s collects monitors ss opts ps winner)
   }"

definition executeCancelOn :: "'w effects \<Rightarrow> run_definition \<Rightarrow> 'w sequence \<Rightarrow> ctx \<Rightarrow> step \<Rightarrow> string \<Rightarrow> step list \<Rightarrow> step list \<Rightarrow> options
    \<Rightarrow> ('w, step_outcome) exec" where
  "executeCancelOn fx df seq c s collects monitors ss opts = do {
     done \<leftarrow> ctx_err fx c;
     (case done of Some e \<Rightarrow> ret (not_started e)
      | None \<Rightarrow> do {
          run \<leftarrow> step_condition fx df opts s;
          (case run of
             Inl e \<Rightarrow> ret (fail_cancel_on s StatusFailed (Wrapped (step_where df s ''cancel_on'' @ '': evaluating if'') e) [])
           | Inr run \<Rightarrow>
               if run then run_race fx df seq c s collects monitors ss opts
               else ret (skipped_out (cancel_on_done s StatusSkipped None [])))
        })
   }"

end
