(* ===== verification/OnceControl.thy ===== *)
theory OnceControl
  imports Cleanup
begin

text \<open>
  The once control (engine/once.go): its body runs at most once per key. The outcome is recorded in a
  store; a later run replays the record. A claim on the key guards the body against other processes,
  and waiting for a claim is announced on the claims the path already holds.

  The store is an effect. The values it answers are those of the record after \<^verbatim>\<open>RuntimeValue\<close>, which
  turns JSON numbers into numbers of the workflow and changes nothing else.
\<close>

subsection \<open>Records\<close>

definition onceRecordVersion :: string where
  "onceRecordVersion = ''wuko-once-v1''"

definition once_record :: "vmap \<Rightarrow> vmap \<Rightarrow> check_finding list \<Rightarrow> val" where
  "once_record steps vars checks = vmap_of [(''checks'', CheckValues checks), (''version'', VStr onceRecordVersion),
     (''steps'', VMap steps), (''vars'', VMap vars)]"

definition once_result :: "vmap \<Rightarrow> vmap \<Rightarrow> check_finding list \<Rightarrow> step_result" where
  "once_result steps vars checks = \<lparr>res_checks = checks,
     res_outputs = Some (fmap_of_list [(''steps'', VMap steps), (''vars'', VMap vars)]), res_variables = vars\<rparr>"

text \<open>decodeOnceRecord\<close>

definition decode_check :: "val \<Rightarrow> check_finding option" where
  "decode_check v = (case v of
     VMap m \<Rightarrow> (case (fmlookup m ''id'', fmlookup m ''status'', fmlookup m ''message'', fmlookup m ''fix'') of
         (Some (VStr i), Some (VStr status), Some (VStr message), Some (VStr fix)) \<Rightarrow>
           if i = [] \<or> status \<notin> {''ok'', ''warn'', ''fail''} then None
           else Some \<lparr>chk_id = i, chk_status = status, chk_message = message, chk_fix = fix\<rparr>
       | _ \<Rightarrow> None)
   | _ \<Rightarrow> None)"

definition decode_checks :: "val option \<Rightarrow> check_finding list option" where
  "decode_checks v = (case v of
     None \<Rightarrow> Some []
   | Some (VList items) \<Rightarrow> those (map decode_check items)
   | Some _ \<Rightarrow> None)"

definition bad_record :: "string \<Rightarrow> string \<Rightarrow> goerr" where
  "bad_record key what = Err (''record for key '' @ go_quote key @ what)"

definition decodeOnceRecord :: "string \<Rightarrow> val \<Rightarrow> goerr + step_result" where
  "decodeOnceRecord key v = (case v of
     VMap record \<Rightarrow>
       if fmlookup record ''version'' \<noteq> Some (VStr onceRecordVersion)
       then Inl (bad_record key '' has an unsupported format'')
       else (case (fmlookup record ''steps'', fmlookup record ''vars'') of
           (Some (VMap steps), Some (VMap vars)) \<Rightarrow>
             (case decode_checks (fmlookup record ''checks'') of
                None \<Rightarrow> Inl (bad_record key '' has invalid checks'')
              | Some checks \<Rightarrow> Inr (once_result steps vars checks))
         | _ \<Rightarrow> Inl (bad_record key '' has an invalid outcome''))
   | _ \<Rightarrow> Inl (bad_record key '' has an unsupported format''))"

text \<open>readOnceRecord\<close>

definition readOnceRecord :: "'w effects \<Rightarrow> ctx \<Rightarrow> nat \<Rightarrow> string \<Rightarrow> ('w, goerr + step_result option) exec" where
  "readOnceRecord fx c store key = do {
     r \<leftarrow> effect (fx_once_get (fx_store fx) store c key);
     ret (case r of
         Inl e \<Rightarrow> Inl e
       | Inr None \<Rightarrow> Inr None
       | Inr (Some v) \<Rightarrow> map_sum id Some (decodeOnceRecord key v))
   }"

subsection \<open>Claims\<close>

text \<open>The order in which Go walks the map of held claims is not determined.\<close>

primrec shuffled :: "nat \<Rightarrow> 'w effects \<Rightarrow> nat list \<Rightarrow> ('w, nat list) exec" where
  "shuffled 0 fx xs = ret []"
| "shuffled (Suc n) fx xs = do {
     x \<leftarrow> pick_one fx xs;
     rest \<leftarrow> shuffled n fx (remove1 x xs);
     ret (x # rest)
   }"

definition held_claims :: "'w effects \<Rightarrow> options \<Rightarrow> ('w, nat list) exec" where
  "held_claims fx opts =
     (let claims = map snd (sorted_entries (o_onceClaims opts)) in shuffled (length claims) fx claims)"

text \<open>Announcing the wait on the held claims; the claims announced on, and the error that stopped it\<close>

fun announce :: "'w effects \<Rightarrow> string \<Rightarrow> string \<Rightarrow> nat list \<Rightarrow> ('w, nat list \<times> goerr option) exec" where
  "announce fx key path [] = ret ([], None)"
| "announce fx key path (a # as) = do {
     err \<leftarrow> effect (fx_add_wanted (fx_store fx) a key path);
     (case err of
        Some e \<Rightarrow> ret ([], Some e)
      | None \<Rightarrow> do { (announced, err) \<leftarrow> announce fx key path as; ret (a # announced, err) })
   }"

definition withdraw :: "'w effects \<Rightarrow> string \<Rightarrow> string \<Rightarrow> nat list \<Rightarrow> ('w, goerr option) exec" where
  "withdraw fx key path announced = do {
     es \<leftarrow> State_Monad.traverse_list (\<lambda>a. effect (fx_remove_wanted (fx_store fx) a key path)) announced;
     ret (errors_join es)
   }"

definition release_claim :: "'w effects \<Rightarrow> nat \<Rightarrow> ('w, goerr option) exec" where
  "release_claim fx claim = effect (fx_release (fx_store fx) claim)"

text \<open>Taking the claim: the answer of the store, or the error of the announcements around the wait\<close>

definition stop_wait :: "'w effects \<Rightarrow> string \<Rightarrow> string \<Rightarrow> nat list \<Rightarrow> goerr \<Rightarrow> ('w, goerr + claim_result) exec" where
  "stop_wait fx key path announced e = do {
     undone \<leftarrow> withdraw fx key path announced;
     ret (Inl (case errors_join [Some e, undone] of Some j \<Rightarrow> j | None \<Rightarrow> e))
   }"

text \<open>When the announcements cannot be withdrawn, a claim that was taken is given back.\<close>

definition end_wait :: "'w effects \<Rightarrow> string \<Rightarrow> string \<Rightarrow> nat list \<Rightarrow> claim_result \<Rightarrow> ('w, goerr + claim_result) exec" where
  "end_wait fx key path announced claimed = do {
     undone \<leftarrow> withdraw fx key path announced;
     (case undone of
        None \<Rightarrow> ret (Inr claimed)
      | Some w \<Rightarrow> (case claimed of
          Claimed claim \<Rightarrow> do {
            released \<leftarrow> release_claim fx claim;
            ret (Inl (Wrapped ''withdrawing wait announcement''
              (case errors_join [Some w, released] of Some j \<Rightarrow> j | None \<Rightarrow> w)))
          }
        | _ \<Rightarrow> ret (Inl (Wrapped ''withdrawing wait announcement'' w))))
   }"

definition claim_key :: "'w effects \<Rightarrow> ctx \<Rightarrow> nat \<Rightarrow> string \<Rightarrow> bool \<Rightarrow> options \<Rightarrow> ('w, goerr + claim_result) exec" where
  "claim_key fx c store key wait opts = do {
     let path = fx_claim_path (fx_store fx) store key;
     claims \<leftarrow> (if wait then held_claims fx opts else ret []);
     (announced, err) \<leftarrow> announce fx key path claims;
     (case err of
        Some e \<Rightarrow> stop_wait fx key path announced e
      | None \<Rightarrow> do {
          claimed \<leftarrow> effect (fx_once_claim (fx_store fx) store c key wait (map (fx_claim_location (fx_store fx)) announced));
          end_wait fx key path announced claimed
        })
   }"

subsection \<open>The control\<close>

definition once_finish :: "step \<Rightarrow> exec_status \<Rightarrow> goerr option \<Rightarrow> run_stats \<Rightarrow> step_outcome" where
  "once_finish s status err nested = finished (StepStats (sid s) ''once'' status 0 [] err []) (Some nested)"

definition fail_once :: "run_definition \<Rightarrow> step \<Rightarrow> exec_status \<Rightarrow> goerr \<Rightarrow> run_stats \<Rightarrow> step_outcome" where
  "fail_once df s status e nested =
     (let err = Wrapped (step_where df s ''once'') e in failed_with err (once_finish s status (Some err) nested))"

definition replay :: "step \<Rightarrow> step_result \<Rightarrow> step_outcome" where
  "replay s r = replayed r (once_finish s StatusSkipped None empty_stats)"

text \<open>The body, once the claim is held, and the recording of its outcome. \<open>Inl\<close> holds a failure, with
  the status under which it is recorded; the claim is still held then.\<close>

definition record_outcome :: "'w effects \<Rightarrow> ctx \<Rightarrow> nat \<Rightarrow> string \<Rightarrow> step list \<Rightarrow> wstate \<Rightarrow> run_stats
    \<Rightarrow> ('w, goerr + step_result) exec" where
  "record_outcome fx c store key ss private nested = do {
     stored \<leftarrow> effect (fx_once_set (fx_store fx) store c key
       (once_record (controlStepRecords ss (Some private) nested False) (controlWrittenVars private) (st_checkWrites private)));
     ret (case stored of Inl e \<Rightarrow> Inl (Wrapped ''recording outcome'' e)
       | Inr v \<Rightarrow> map_sum (Wrapped ''recording outcome'') id (decodeOnceRecord key v))
   }"

definition once_options :: "string \<Rightarrow> nat \<Rightarrow> options \<Rightarrow> options" where
  "once_options claimID claim opts = opts\<lparr>o_onceClaims := fmupd claimID claim (o_onceClaims opts)\<rparr>"

definition run_claimed :: "'w effects \<Rightarrow> run_definition \<Rightarrow> 'w sequence \<Rightarrow> ctx \<Rightarrow> step \<Rightarrow> step list \<Rightarrow> nat \<Rightarrow> string \<Rightarrow> string \<Rightarrow> nat
    \<Rightarrow> options \<Rightarrow> ('w, step_outcome) exec" where
  "run_claimed fx df seq c s ss store key claimID claim opts = do {
     st \<leftarrow> gets m_state;
     (err, private, nested) \<leftarrow> run_private (privateState st) (new_stats ss) (seq c ss (once_options claimID claim opts));
     (case err of
        Some e \<Rightarrow> do { release_claim fx claim; ret (fail_once df s (statusFromError (Some e)) e nested) }
      | None \<Rightarrow> do {
          recorded \<leftarrow> record_outcome fx c store key ss private nested;
          released \<leftarrow> release_claim fx claim;
          ret (case recorded of
              Inl e \<Rightarrow> fail_once df s StatusFailed e nested
            | Inr result \<Rightarrow> (case released of
                Some e \<Rightarrow> fail_once df s StatusFailed (Wrapped ''releasing claim'' e) nested
              | None \<Rightarrow> succeeded_with result (once_finish s StatusSucceeded None nested)))
        })
   }"

text \<open>With the claim: the record is read once more, as another process may have written it.\<close>

definition with_claim :: "'w effects \<Rightarrow> run_definition \<Rightarrow> 'w sequence \<Rightarrow> ctx \<Rightarrow> step \<Rightarrow> step list \<Rightarrow> nat \<Rightarrow> string \<Rightarrow> string \<Rightarrow> nat
    \<Rightarrow> options \<Rightarrow> ('w, step_outcome) exec" where
  "with_claim fx df seq c s ss store key claimID claim opts = do {
     found \<leftarrow> readOnceRecord fx c store key;
     (case found of
        Inl e \<Rightarrow> do { release_claim fx claim; ret (fail_once df s StatusFailed e empty_stats) }
      | Inr (Some result) \<Rightarrow> do {
          released \<leftarrow> release_claim fx claim;
          ret (case released of
              Some e \<Rightarrow> fail_once df s StatusFailed (Wrapped ''releasing claim'' e) empty_stats
            | None \<Rightarrow> replay s result)
        }
      | Inr None \<Rightarrow> run_claimed fx df seq c s ss store key claimID claim opts)
   }"

text \<open>Without a record: the claim is taken, unless the path already holds it.\<close>

definition claim_and_run :: "'w effects \<Rightarrow> run_definition \<Rightarrow> 'w sequence \<Rightarrow> ctx \<Rightarrow> step \<Rightarrow> once_group \<Rightarrow> step list \<Rightarrow> nat \<Rightarrow> string
    \<Rightarrow> options \<Rightarrow> ('w, step_outcome) exec" where
  "claim_and_run fx df seq c s g ss store key opts =
     (let claimID = once_scope g @ [CHR 0x00] @ key in
      if fmlookup (o_onceClaims opts) claimID \<noteq> None
      then ret (fail_once df s StatusFailed
             (Err (''recursive claim for key '' @ go_quote key @ '' in '' @ once_scope g @ '' scope'')) empty_stats)
      else do {
        claimed \<leftarrow> claim_key fx c store key (once_on_busy g = ''wait'') opts;
        (case claimed of
           Inl e \<Rightarrow> ret (fail_once df s StatusFailed e empty_stats)
         | Inr (ClaimFailed e) \<Rightarrow> ret (fail_once df s (statusFromError (Some e)) e empty_stats)
         | Inr ClaimBusy \<Rightarrow> do {
             found \<leftarrow> readOnceRecord fx c store key;
             ret (case found of
                 Inl e \<Rightarrow> fail_once df s StatusFailed e empty_stats
               | Inr (Some result) \<Rightarrow> replay s result
               | Inr None \<Rightarrow> fail_once df s StatusFailed (Err (''key '' @ go_quote key @ '' is busy'')) empty_stats)
           }
         | Inr (Claimed claim) \<Rightarrow> with_claim fx df seq c s ss store key claimID claim opts)
      })"

definition run_once :: "'w effects \<Rightarrow> run_definition \<Rightarrow> 'w sequence \<Rightarrow> ctx \<Rightarrow> step \<Rightarrow> once_group \<Rightarrow> step list \<Rightarrow> options
    \<Rightarrow> ('w, step_outcome) exec" where
  "run_once fx df seq c s g ss opts = do {
     rendered \<leftarrow> render_text fx df opts (once_key g);
     (case rendered of
        Inl e \<Rightarrow> ret (fail_once df s StatusFailed (Wrapped ''rendering key'' e) empty_stats)
      | Inr key \<Rightarrow>
          if blank key then ret (fail_once df s StatusFailed (Err ''rendered key must not be empty'') empty_stats)
          else do {
            opened \<leftarrow> effect (fx_once_open (fx_store fx) (once_scope g));
            (case opened of
               Inl e \<Rightarrow> ret (fail_once df s StatusFailed e empty_stats)
             | Inr store \<Rightarrow> do {
                 found \<leftarrow> readOnceRecord fx c store key;
                 (case found of
                    Inl e \<Rightarrow> ret (fail_once df s StatusFailed e empty_stats)
                  | Inr (Some result) \<Rightarrow> ret (replay s result)
                  | Inr None \<Rightarrow> claim_and_run fx df seq c s g ss store key opts)
               })
          })
   }"

text \<open>executeOnce\<close>

definition executeOnce :: "'w effects \<Rightarrow> run_definition \<Rightarrow> 'w sequence \<Rightarrow> ctx \<Rightarrow> step \<Rightarrow> once_group \<Rightarrow> step list \<Rightarrow> options
    \<Rightarrow> ('w, step_outcome) exec" where
  "executeOnce fx df seq c s g ss opts = do {
     done \<leftarrow> ctx_err fx c;
     (case done of Some e \<Rightarrow> ret (not_started e)
      | None \<Rightarrow> do {
          run \<leftarrow> step_condition fx df opts s;
          (case run of
             Inl e \<Rightarrow> ret (fail_once df s StatusFailed (Wrapped ''evaluating if'' e) empty_stats)
           | Inr run \<Rightarrow>
               if run then run_once fx df seq c s g ss opts
               else ret (skipped_out (once_finish s StatusSkipped None empty_stats)))
        })
   }"

end
