(* ===== verification/ConcurrentRun.thy ===== *)
theory ConcurrentRun
  imports Cleanup SchedulerProperties ConcurrentResults
begin

text \<open>
  Running a concurrent group (engine/concurrent.go runConcurrent, runConcurrentGraph and
  executeConcurrentBranch): the loop of the scheduler, driven by the world. The scheduling state and
  its operations are those of the theory \<open>Concurrent\<close>; here the group's context is polled, and the
  branch whose completion arrives next is an answer of the world. A branch reads the state it was
  launched with and works on a copy of its own, so that the model may run it when it completes.
\<close>

text \<open>executeConcurrentBranch on the machine\<close>

definition run_branch :: "'w effects \<Rightarrow> 'w sequence \<Rightarrow> ctx \<Rightarrow> options \<Rightarrow> step \<Rightarrow> wstate \<Rightarrow> ('w, branch_outcome) exec" where
  "run_branch fx seq c opts s snapshot = do {
     done \<leftarrow> ctx_err fx c;
     (if done \<noteq> None then ret no_outcome
      else do {
        r \<leftarrow> run_private (privateState snapshot) (new_stats [s]) (seq c [s] opts);
        ret (executeConcurrentBranch (\<lambda>_ _ _. r) False s snapshot)
      })
   }"

text \<open>The guard of the inner loop polls the context last.\<close>

definition poll_group :: "'w effects \<Rightarrow> ctx \<Rightarrow> concurrent_group \<Rightarrow> sched \<Rightarrow> ('w, sched) exec" where
  "poll_group fx c grp st =
     (if can_launch grp st then do {
        done \<leftarrow> ctx_err fx c;
        ret (if done = None then st else st\<lparr>b_cancelled := True\<rparr>)
      }
      else ret st)"

definition running_branches :: "sched \<Rightarrow> nat list" where
  "running_branches st = filter (\<lambda>i. b_status st ! i = Running) [0..<length (b_status st)]"

text \<open>One completion: a running branch ends, and the scheduler takes its outcome.\<close>

definition branch_read :: "wstate \<Rightarrow> sched \<Rightarrow> nat \<Rightarrow> wstate" where
  "branch_read snapshot st i = (case b_reads st ! i of Some r \<Rightarrow> r | None \<Rightarrow> snapshot)"

definition take_completion :: "'w effects \<Rightarrow> 'w sequence \<Rightarrow> ctx \<Rightarrow> concurrent_group \<Rightarrow> step list \<Rightarrow> concurrent_graph \<Rightarrow> options \<Rightarrow> wstate
    \<Rightarrow> sched \<Rightarrow> ('w, sched) exec" where
  "take_completion fx seq c grp steps g opts snapshot st = do {
     i \<leftarrow> pick_one fx (running_branches st);
     oc \<leftarrow> run_branch fx seq c opts (steps ! i) (branch_read snapshot st i);
     (if out_err oc \<noteq> None \<and> conc_fail_fast grp then effect (fx_cancel (fx_time fx) c) else ret ());
     ret (complete grp steps g i oc st)
   }"

text \<open>runConcurrentGraph; the loop ends within \<open>2 * length steps\<close> actions (\<open>graph_loop_reach\<close> of \<open>GroupRun\<close>).\<close>

primrec graph_loop :: "nat \<Rightarrow> 'w effects \<Rightarrow> 'w sequence \<Rightarrow> ctx \<Rightarrow> concurrent_group \<Rightarrow> step list \<Rightarrow> concurrent_graph \<Rightarrow> options \<Rightarrow> wstate
    \<Rightarrow> sched \<Rightarrow> ('w, sched) exec" where
  "graph_loop 0 fx seq c grp steps g opts snapshot st = give_up st"
| "graph_loop (Suc n) fx seq c grp steps g opts snapshot st =
     (if b_terminal st \<ge> length steps then ret st
      else do {
        st \<leftarrow> poll_group fx c grp st;
        (if can_launch grp st then graph_loop n fx seq c grp steps g opts snapshot (launch steps g snapshot st)
         else if b_running st = 0 then ret st
         else do {
           st \<leftarrow> take_completion fx seq c grp steps g opts snapshot st;
           graph_loop n fx seq c grp steps g opts snapshot st
         })
      })"

definition runConcurrentGraph :: "'w effects \<Rightarrow> 'w sequence \<Rightarrow> ctx \<Rightarrow> concurrent_group \<Rightarrow> step list \<Rightarrow> options \<Rightarrow> wstate
    \<Rightarrow> ('w, branch_outcome list) exec" where
  "runConcurrentGraph fx seq c grp steps opts snapshot = do {
     let g = newConcurrentGraph steps;
     st \<leftarrow> graph_loop (2 * length steps + 1) fx seq (WithCancel c) grp steps g opts snapshot (sched_init steps g);
     ret (b_outcomes st)
   }"

text \<open>runConcurrent, and its case in executeSequence: the records of all branches are merged first.\<close>

definition deadline_passed :: "'w effects \<Rightarrow> ctx \<Rightarrow> ('w, bool) exec" where
  "deadline_passed fx c = do { e \<leftarrow> ctx_err fx c; ret (e = Some DeadlineExceeded) }"

definition runConcurrent :: "'w effects \<Rightarrow> run_definition \<Rightarrow> 'w sequence \<Rightarrow> ctx \<Rightarrow> concurrent_group \<Rightarrow> step list \<Rightarrow> options
    \<Rightarrow> ('w, goerr option) exec" where
  "runConcurrent fx df seq c grp steps opts = do {
     st \<leftarrow> gets m_state;
     let groupCtx = (case conc_timeout grp of Some t \<Rightarrow> WithTimeout t c | None \<Rightarrow> c);
     outcomes \<leftarrow> runConcurrentGraph fx seq groupCtx grp steps (opts\<lparr>o_interactive := False\<rparr>) (cloneState st);
     outer \<leftarrow> ctx_err fx c;
     deadline \<leftarrow> (if outer = None then deadline_passed fx groupCtx else ret False);
     let (err, st') = finishConcurrent (df_name df) grp steps outer deadline st outcomes;
     change_state (\<lambda>_. st');
     change_stats (\<lambda>stats. foldl mergeRunStats stats (map out_stats outcomes));
     ret err
   }"

end
