(* ===== verification/Interpreter.thy ===== *)
theory Interpreter
  imports TryCatch AttemptRun FanOutRun Worktree CancelOn OnceControl ConcurrentRun
begin

text \<open>
  The interpreter of a workflow (engine/engine.go executeSequence and run): a sequence of steps is
  executed one after the other, each by the handler of its kind, its record is added to the
  statistics, its result is committed to the state, and its deferred group is registered.
\<close>

subsection \<open>Accounting and committing\<close>

text \<open>The records of a step that started. The deadline of an attempt is present in the control's
  own attempts and in the records of the pass that hit it, and is counted once.\<close>

definition account_stats :: "step \<Rightarrow> step_outcome \<Rightarrow> run_stats \<Rightarrow> run_stats" where
  "account_stats s oc st =
     (let st = recordStep st (so_stats oc)
      in case so_nested oc of None \<Rightarrow> st
         | Some nested \<Rightarrow>
            (let st = rollupNestedMetrics st nested
             in if isAttempt s
                then st\<lparr>timed_out := timed_out st - min (stepTimeoutCount (so_stats oc)) (timed_out nested)\<rparr>
                else st))"

definition account :: "step \<Rightarrow> step_outcome \<Rightarrow> ('w, unit) exec" where
  "account s oc = (if so_started oc then change_stats (account_stats s oc) else ret ())"

datatype flow = Continue | Leave | Abort goerr

text \<open>What executeSequence does with the outcome of a step\<close>

definition register_defer :: "step \<Rightarrow> options \<Rightarrow> ('w, unit) exec" where
  "register_defer s opts =
     (if deferred s \<noteq> [] then modify (\<lambda>m. m\<lparr>m_defers := defer_register (sid s) opts (m_defers m)\<rparr>) else ret ())"

definition commit :: "step \<Rightarrow> step_result \<Rightarrow> ('w, unit) exec" where
  "commit s r = change_state (\<lambda>st. commitStepResult st (sid s) r)"

definition conclude :: "step \<Rightarrow> options \<Rightarrow> step_outcome \<Rightarrow> ('w, flow) exec" where
  "conclude s opts oc = do {
     account s oc;
     (case so_err oc of
        Some e \<Rightarrow> ret (Abort e)
      | None \<Rightarrow>
          if so_skipped oc \<and> \<not> so_commitSkipped oc then ret Continue
          else do { commit s (so_result oc); register_defer s opts; ret Continue })
   }"

text \<open>After a scoped block: an error ends the sequence, and so does a return in the block.\<close>

definition after_block :: "goerr option \<Rightarrow> ('w, flow) exec" where
  "after_block err = (case err of
     Some e \<Rightarrow> ret (Abort e)
   | None \<Rightarrow> do {
       returning \<leftarrow> gets (\<lambda>m. st_returning (m_state m));
       ret (if returning then Leave else Continue)
     })"

definition conclude_worktree :: "step \<Rightarrow> step_outcome \<Rightarrow> ('w, flow) exec" where
  "conclude_worktree s oc = do {
     account s oc;
     (case so_err oc of
        Some e \<Rightarrow> ret (Abort e)
      | None \<Rightarrow> do { commit s (so_result oc); after_block None })
   }"

definition after_return :: "goerr + bool \<Rightarrow> flow" where
  "after_return r = (case r of Inl e \<Rightarrow> Abort e | Inr triggered \<Rightarrow> if triggered then Leave else Continue)"

definition after_group :: "goerr option \<Rightarrow> flow" where
  "after_group err = (case err of Some e \<Rightarrow> Abort e | None \<Rightarrow> Continue)"

subsection \<open>One step\<close>

text \<open>The body of the loop in executeSequence; an observe step is run by the background control that
  cmd/root.go registers for it.\<close>

definition run_entry :: "'w effects \<Rightarrow> run_definition \<Rightarrow> 'w sequence \<Rightarrow> ctx \<Rightarrow> step \<Rightarrow> options \<Rightarrow> ('w, flow) exec" where
  "run_entry fx df seq c s opts = (case body s of
     ExecutorBlock type config ss final \<Rightarrow> executeExecutorBlock fx df seq c type config ss final opts \<bind> after_block
   | EnvBlock ops ss \<Rightarrow> executeEnvironmentBlock fx df seq c ops ss opts \<bind> after_block
   | WorkDirBlock template ss \<Rightarrow> executeWorkingDirectoryBlock fx df seq c template ss opts \<bind> after_block
   | WorktreeBlock g ss \<Rightarrow> executeWorktreeBlock fx df seq c s g ss opts \<bind> conclude_worktree s
   | CondBlock ss \<Rightarrow> executeConditionalBlock fx df seq c s ss opts \<bind> after_block
   | ReturnStep rc \<Rightarrow> do { r \<leftarrow> executeReturn fx df c s rc opts; ret (after_return r) }
   | ConcurrentBlock grp ss \<Rightarrow> do { e \<leftarrow> runConcurrent fx df seq c grp ss opts; ret (after_group e) }
   | TryCatchCtl tries handlers \<Rightarrow> executeTryCatch fx df seq c s tries handlers opts \<bind> conclude s opts
   | CancelOnCtl collects monitors ss \<Rightarrow> executeCancelOn fx df seq c s collects monitors ss opts \<bind> conclude s opts
   | ObserveCtl _ _ \<Rightarrow> executeBackgroundControl fx df c s opts \<bind> conclude s opts
   | OnceCtl g ss \<Rightarrow> executeOnce fx df seq c s g ss opts \<bind> conclude s opts
   | BatchCtl _ _ p ss \<Rightarrow> executeControl fx df seq c s ''batch'' ss p opts \<bind> conclude s opts
   | ForeachCtl _ p ss \<Rightarrow> executeControl fx df seq c s ''foreach'' ss p opts \<bind> conclude s opts
   | MatrixCtl _ p ss \<Rightarrow> executeControl fx df seq c s ''matrix'' ss p opts \<bind> conclude s opts
   | AttemptCtl control ss \<Rightarrow> executeAttempt fx df seq c s control ss opts \<bind> conclude s opts
   | LoopCtl g ss \<Rightarrow> executeLoop fx df seq c s g ss opts \<bind> conclude s opts
   | Leaf _ _ \<Rightarrow> executeStep fx df c s opts \<bind> conclude s opts
   | Uses _ _ \<Rightarrow> executeStep fx df c s opts \<bind> conclude s opts)"

subsection \<open>Sequences\<close>

text \<open>executeSequence. A handler runs only steps nested in its own, which are smaller; the guard says
  so, and \<open>executeSequence_Cons\<close> in \<open>SequenceStep\<close> removes it again.\<close>

definition below :: "step list \<Rightarrow> 'w sequence \<Rightarrow> 'w sequence" where
  "below steps seq c ss opts =
     (if size_list size ss < size_list size steps then seq c ss opts else give_up None)"

lemma below_cong [fundef_cong]:
  assumes "steps = steps'"
    and "\<And>c ss opts. size_list size ss < size_list size steps' \<Longrightarrow> seq c ss opts = seq' c ss opts"
  shows "below steps seq = below steps' seq'"
  using assms by (simp add: fun_eq_iff below_def)

function (sequential) executeSequence :: "'w effects \<Rightarrow> run_definition \<Rightarrow> ctx \<Rightarrow> step list \<Rightarrow> options \<Rightarrow> ('w, goerr option) exec"
where
  "executeSequence fx df c [] opts = ret None"
| "executeSequence fx df c (s # rest) opts = do {
     next \<leftarrow> run_entry fx df (below (s # rest) (\<lambda>c ss opts. executeSequence fx df c ss opts)) c s opts;
     (case next of
        Abort e \<Rightarrow> ret (Some e)
      | Leave \<Rightarrow> do { change_stats (recordSkippedSteps rest); ret None }
      | Continue \<Rightarrow> executeSequence fx df c rest opts)
   }"
  by pat_completeness auto
termination
  by (relation "measure (\<lambda>(_, _, _, ss, _). size_list size ss)") (simp_all add: size_list_tail)

subsection \<open>A run\<close>

text \<open>engine/engine.go, run, after the validation (RunValidated). The initial state is the machine's.
  \<open>owner\<close> says that this run owns the supervisor of services and the exit decision; an action or a
  child workflow uses its caller's. \<open>run_main\<close> is the run up to its error.\<close>

fun nestedDeferScopeStepCount :: "step list \<Rightarrow> nat" where
  "nestedDeferScopeStepCount [] = 0"
| "nestedDeferScopeStepCount (Step _ (ExecutorBlock _ _ ss _) _ # rest) =
     stack_stepCount (newDeferStack ss :: options defer_stack) + nestedDeferScopeStepCount rest"
| "nestedDeferScopeStepCount (Step _ (EnvBlock _ ss) _ # rest) = nestedDeferScopeStepCount ss + nestedDeferScopeStepCount rest"
| "nestedDeferScopeStepCount (Step _ (WorkDirBlock _ ss) _ # rest) = nestedDeferScopeStepCount ss + nestedDeferScopeStepCount rest"
| "nestedDeferScopeStepCount (Step _ (CondBlock ss) _ # rest) = nestedDeferScopeStepCount ss + nestedDeferScopeStepCount rest"
| "nestedDeferScopeStepCount (_ # rest) = nestedDeferScopeStepCount rest"

definition run_total :: "run_definition \<Rightarrow> nat" where
  "run_total df = leafStepCount (df_steps df) + nestedDeferScopeStepCount (df_steps df)
     + stack_stepCount (newDeferStack (df_steps df) :: options defer_stack) + leafStepCount (df_finally df)"

definition own_failure :: "wstate \<Rightarrow> goerr option" where
  "own_failure st = checkFailure (ownChecks st)"

definition release_run :: "'w effects \<Rightarrow> ctx \<Rightarrow> ('w, goerr option list) exec" where
  "release_run fx c = do {
     resources \<leftarrow> gets m_cleanups;
     modify (\<lambda>m. m\<lparr>m_cleanups := []\<rparr>);
     es \<leftarrow> run_cleanups fx c resources;
     failure \<leftarrow> gets (\<lambda>m. own_failure (m_state m));
     ret (map Some es @ [failure])
   }"

definition run_main :: "'w effects \<Rightarrow> run_definition \<Rightarrow> ctx \<Rightarrow> bool \<Rightarrow> options \<Rightarrow> ('w, goerr option) exec" where
  "run_main fx df c owner opts = with_defers (newDeferStack (df_steps df)) (do {
     err \<leftarrow> executeSequence fx df c (df_steps df) opts;
     change_state (\<lambda>st. st\<lparr>st_returning := False\<rparr>);
     mainErr \<leftarrow> (if owner then join_services fx (o_services opts) err else ret err);
     failure \<leftarrow> gets (\<lambda>m. own_failure (m_state m));
     records \<leftarrow> gets (\<lambda>m. rsteps (m_stats m));
     es \<leftarrow> executeCleanupScope (executeSequence fx df) (WithoutCancel c) (df_steps df) (df_finally df) opts
       (if mainErr = None \<and> owner then failure else mainErr) records;
     es' \<leftarrow> (if owner then release_run fx (WithoutCancel c) else ret []);
     ret (errors_join (mainErr # map Some es @ es'))
   })"

definition run_finish :: "'w effects \<Rightarrow> run_definition \<Rightarrow> bool \<Rightarrow> options \<Rightarrow> ('w, goerr + wstate) exec" where
  "run_finish fx df owner opts = do {
     replaced \<leftarrow> (if owner then effect (fx_replaced (fx_host fx)) else ret False);
     err \<leftarrow> (if replaced then ret None else finishWorkflowOutputs fx df opts);
     st \<leftarrow> gets m_state;
     ret (case err of Some e \<Rightarrow> Inl e | None \<Rightarrow> Inr st)
   }"

definition run_in :: "'w effects \<Rightarrow> run_definition \<Rightarrow> ctx \<Rightarrow> bool \<Rightarrow> options \<Rightarrow> ('w, goerr + wstate) exec" where
  "run_in fx df c owner opts = do {
     change_stats (\<lambda>_. empty_stats\<lparr>total := run_total df\<rparr>);
     err \<leftarrow> run_main fx df c owner opts;
     (case err of Some e \<Rightarrow> ret (Inl e) | None \<Rightarrow> run_finish fx df owner opts)
   }"

definition run :: "'w effects \<Rightarrow> run_definition \<Rightarrow> ctx \<Rightarrow> bool \<Rightarrow> options \<Rightarrow> ('w, goerr + wstate) exec" where
  "run fx df c owner opts =
     (if owner then do {
        scope \<leftarrow> effect (fx_services_new (fx_services fx) c);
        r \<leftarrow> run_in fx df (WithCancel c) True (opts\<lparr>o_services := scope\<rparr>);
        effect (fx_services_cancel (fx_services fx) scope);
        ret r
      }
      else run_in fx df c False opts)"

text \<open>RunSteps: the steps of a definition other than its own, without its finally sequence and outputs\<close>

definition RunSteps :: "'w effects \<Rightarrow> run_definition \<Rightarrow> ctx \<Rightarrow> bool \<Rightarrow> step list \<Rightarrow> options \<Rightarrow> ('w, goerr + wstate option) exec" where
  "RunSteps fx df c owner steps opts =
     (if steps = [] then ret (Inr None)
      else do {
        r \<leftarrow> run fx (df\<lparr>df_steps := steps, df_finally := [], df_outputs := fmempty\<rparr>) c owner opts;
        ret (map_sum id Some r)
      })"

end
