(* ===== verification/Frame.thy ===== *)
theory Frame
  imports Interpreter
begin

text \<open>
  A calculus for relations between the machine before and after an operation. \<open>keeps R act\<close> says that
  \<open>act\<close> relates the two by \<open>R\<close>, whatever the machine and the answers of the world. The locale
  \<open>machine_preorder\<close> has the rules for sequential composition, which need a reflexive and transitive
  \<open>R\<close>; in \<open>world_relation\<close> it is indifferent to the world too, and there is a rule for every operation of
  the interpreter that only asks the world. \<open>machine_relation\<close> adds the operations that may not return. The frames of the
  theory \<open>FrameRelation\<close> interpret all
  three, and the relation of the theory \<open>Returning\<close> the first two.
\<close>

named_theorems keeps_intros

definition keeps :: "('s \<Rightarrow> 's \<Rightarrow> bool) \<Rightarrow> ('s, 'a) state \<Rightarrow> bool" where
  "keeps R act \<longleftrightarrow> (\<forall>m. R m (snd (run_state act m)))"

lemma keepsI: "(\<And>m. R m (snd (run_state act m))) \<Longrightarrow> keeps R act"
  by (simp add: keeps_def)

lemma keepsD: "keeps R act \<Longrightarrow> run_state act m = (a, m') \<Longrightarrow> R m m'"
  unfolding keeps_def by (metis snd_conv)

lemma keeps_mono: "keeps R act \<Longrightarrow> (\<And>m m'. R m m' \<Longrightarrow> S m m') \<Longrightarrow> keeps S act"
  by (simp add: keeps_def)

text \<open>What an operation returns, whatever the machine\<close>

definition yields :: "('a \<Rightarrow> bool) \<Rightarrow> ('s, 'a) state \<Rightarrow> bool" where
  "yields P act \<longleftrightarrow> (\<forall>m. P (fst (run_state act m)))"

lemma yieldsD: "yields P act \<Longrightarrow> run_state act m = (a, m') \<Longrightarrow> P a"
  unfolding yields_def by (metis fst_conv)

named_theorems yields_intros

lemma yields_ret [yields_intros]: "P a \<Longrightarrow> yields P (ret a)"
  by (simp add: yields_def)

lemma yields_bind [yields_intros]: "(\<And>a. yields P (k a)) \<Longrightarrow> yields P (act \<bind> k)"
  by (simp add: yields_def split: prod.split)

lemma yields_bind_value: "yields Q act \<Longrightarrow> (\<And>a. Q a \<Longrightarrow> yields P (k a)) \<Longrightarrow> yields P (act \<bind> k)"
  by (auto simp: yields_def split: prod.split) (metis fst_conv)

lemma yields_give_up [yields_intros]: "P a \<Longrightarrow> yields P (give_up a)"
  by (simp add: yields_def give_up_def)

lemma yields_if [yields_intros]:
  "(b \<Longrightarrow> yields P x) \<Longrightarrow> (\<not> b \<Longrightarrow> yields P y) \<Longrightarrow> yields P (if b then x else y)"
  by simp

lemma yields_option [yields_intros]:
  "(x = None \<Longrightarrow> yields P f) \<Longrightarrow> (\<And>a. x = Some a \<Longrightarrow> yields P (g a)) \<Longrightarrow> yields P (case x of None \<Rightarrow> f | Some a \<Rightarrow> g a)"
  by (cases x) simp_all

lemma yields_sum [yields_intros]:
  "(\<And>a. x = Inl a \<Longrightarrow> yields P (f a)) \<Longrightarrow> (\<And>a. x = Inr a \<Longrightarrow> yields P (g a)) \<Longrightarrow> yields P (case x of Inl a \<Rightarrow> f a | Inr a \<Rightarrow> g a)"
  by (cases x) simp_all

lemma yields_prod [yields_intros]: "(\<And>a b. x = (a, b) \<Longrightarrow> yields P (f a b)) \<Longrightarrow> yields P (case x of (a, b) \<Rightarrow> f a b)"
  by (cases x) simp

lemma yields_bool [yields_intros]: "yields P f \<Longrightarrow> yields P g \<Longrightarrow> yields P (case b of True \<Rightarrow> f | False \<Rightarrow> g)"
  by (cases b) simp_all

text \<open>Rules for the case distinctions of the handlers\<close>

lemma keeps_if [keeps_intros]:
  "(b \<Longrightarrow> keeps R x) \<Longrightarrow> (\<not> b \<Longrightarrow> keeps R y) \<Longrightarrow> keeps R (if b then x else y)"
  by simp

lemma keeps_option [keeps_intros]:
  "keeps R f \<Longrightarrow> (\<And>a. keeps R (g a)) \<Longrightarrow> keeps R (case x of None \<Rightarrow> f | Some a \<Rightarrow> g a)"
  by (cases x) simp_all

lemma keeps_sum [keeps_intros]:
  "(\<And>a. keeps R (f a)) \<Longrightarrow> (\<And>a. keeps R (g a)) \<Longrightarrow> keeps R (case x of Inl a \<Rightarrow> f a | Inr a \<Rightarrow> g a)"
  by (cases x) simp_all

lemma keeps_prod [keeps_intros]: "(\<And>a b. keeps R (f a b)) \<Longrightarrow> keeps R (case x of (a, b) \<Rightarrow> f a b)"
  by (cases x) simp

lemma keeps_prods [keeps_intros]:
  "(\<And>a b. keeps R (f a b c)) \<Longrightarrow> keeps R ((case x of (a, b) \<Rightarrow> f a b) c)"
  "(\<And>a b. keeps R (g a b c d)) \<Longrightarrow> keeps R ((case x of (a, b) \<Rightarrow> g a b) c d)"
  by (cases x, simp)+

lemma keeps_let [keeps_intros]: "keeps R (f a) \<Longrightarrow> keeps R (let x = a in f x)"
  by simp

lemma keeps_bool [keeps_intros]: "keeps R f \<Longrightarrow> keeps R g \<Longrightarrow> keeps R (case b of True \<Rightarrow> f | False \<Rightarrow> g)"
  by (cases b) simp_all

lemma keeps_val [keeps_intros]:
  assumes "keeps R f1" "\<And>x. keeps R (f2 x)" "\<And>x. keeps R (f3 x)" "\<And>x. keeps R (f4 x)" "\<And>x. keeps R (f5 x)"
    "\<And>x. keeps R (f6 x)" "\<And>x. keeps R (f7 x)" "\<And>x. keeps R (f8 x)" "\<And>x. keeps R (f9 x)"
  shows "keeps R (case_val f1 f2 f3 f4 f5 f6 f7 f8 f9 v)"
  using assms by (cases v) simp_all

lemma keeps_claim_result [keeps_intros]:
  assumes "\<And>x. keeps R (f1 x)" "keeps R f2" "\<And>x. keeps R (f3 x)"
  shows "keeps R (case_claim_result f1 f2 f3 v)"
  using assms by (cases v) simp_all

text \<open>Preorders on machines, and those that are indifferent to the world\<close>

locale machine_preorder =
  fixes R :: "'w mach \<Rightarrow> 'w mach \<Rightarrow> bool"
  assumes R_refl: "R m m"
    and R_trans: "R m1 m2 \<Longrightarrow> R m2 m3 \<Longrightarrow> R m1 m3"
begin

lemma ret [keeps_intros]: "keeps R (ret a)"
  by (simp add: keeps_def R_refl)

lemma bind [keeps_intros]: "keeps R act \<Longrightarrow> (\<And>a. keeps R (k a)) \<Longrightarrow> keeps R (act \<bind> k)"
  unfolding keeps_def by (simp add: run_state_bind split: prod.split) (metis R_trans snd_conv)

lemma bind_value:
  "keeps R act \<Longrightarrow> (\<And>m a m'. run_state act m = (a, m') \<Longrightarrow> keeps R (k a)) \<Longrightarrow> keeps R (act \<bind> k)"
  unfolding keeps_def by (simp add: run_state_bind split: prod.split) (metis R_trans snd_conv)

lemma gets [keeps_intros]: "keeps R (gets f)"
  by (simp add: keeps_def R_refl)

lemma traverse [keeps_intros]: "(\<And>x. keeps R (f x)) \<Longrightarrow> keeps R (State_Monad.traverse_list f xs)"
  by (induction xs) (auto intro!: bind ret)

lemma labelled [keeps_intros]: "keeps R act \<Longrightarrow> (\<And>a. keeps R (k a)) \<Longrightarrow> keeps R (labelled l act k)"
  unfolding labelled_def by (intro keeps_intros)

end

locale world_relation = machine_preorder +
  assumes R_world: "R m (m\<lparr>m_world := w\<rparr>)"
begin

lemma effect [keeps_intros]: "keeps R (effect f)"
  by (simp add: keeps_def R_world split: prod.split)

lemma ctx_err [keeps_intros]: "keeps R (ctx_err fx c)"
  by (cases c) (auto intro!: bind ret effect)


subsection \<open>Conditions, templates and outcomes of the world\<close>

lemma pick_one [keeps_intros]: "keeps R (pick_one fx xs)"
  unfolding pick_one_def by (intro keeps_intros)

lemma condition_roots [keeps_intros]: "keeps R (condition_roots fx df opts)"
  unfolding condition_roots_def by (intro keeps_intros)

lemma template_roots [keeps_intros]: "keeps R (template_roots fx df opts)"
  unfolding template_roots_def by (intro keeps_intros)

lemma evaluateConditionProgram [keeps_intros]: "keeps R (evaluateConditionProgram fx cond env)"
  unfolding evaluateConditionProgram_def by (intro keeps_intros)

lemma evaluateCondition [keeps_intros]: "keeps R (evaluateCondition fx cond env)"
  unfolding evaluateCondition_def by (intro keeps_intros)

lemma step_condition [keeps_intros]: "keeps R (step_condition fx df opts s)"
  unfolding step_condition_def by (intro keeps_intros)

lemma render_text [keeps_intros]: "keeps R (render_text fx df opts t)"
  unfolding render_text_def by (intro keeps_intros)

lemma render_items: "list_all (keeps R) acts \<Longrightarrow> keeps R (render_items i acts)"
  by (induction i acts rule: render_items.induct) (auto intro!: keeps_intros)

lemma render_fields: "list_all (keeps R \<circ> snd) acts \<Longrightarrow> keeps R (render_fields acts acc)"
  by (induction acts acc rule: render_fields.induct) (auto intro!: keeps_intros)

lemma render_value: "(\<And>t. keeps R (r t)) \<Longrightarrow> keeps R (render_value r v raw)"
proof (induction v arbitrary: raw)
  case (VList items)
  then show ?case by (auto intro!: keeps_intros render_items simp: list_all_iff)
next
  case (VMap m)
  have "keeps R (f t)" if "(k, f) \<in> set (sorted_entries (fmmap (render_value r) m))" for k f t
  proof -
    from that obtain v where "fmlookup m k = Some v" "f = render_value r v"
      by (auto simp: sorted_entries_def List.map_filter_def)
    then show ?thesis using VMap.IH [of v t] VMap.prems by (auto intro: fmran'I)
  qed
  then show ?case by (auto intro!: keeps_intros render_fields simp: list_all_iff entry_action_def)
qed (auto intro!: keeps_intros)

lemma renderValue [keeps_intros]: "keeps R (renderValue fx data v raw)"
  unfolding renderValue_def by (intro render_value keeps_intros)

lemma return_values [keeps_intros]: "keeps R (return_values fx df c env xs acc)"
  by (induction xs arbitrary: acc) (auto intro!: keeps_intros)

lemma output_values [keeps_intros]: "keeps R (output_values fx df env xs acc)"
  by (induction xs arbitrary: acc) (auto intro!: keeps_intros)

lemma executionOperationID [keeps_intros]: "keeps R (executionOperationID fx df opts i t)"
  unfolding executionOperationID_def by (intro keeps_intros)

lemma step_operation [keeps_intros]: "keeps R (step_operation fx df opts s)"
  unfolding step_operation_def by (intro keeps_intros)

lemma prepare_step [keeps_intros]: "keeps R (prepare_step fx df c s opts)"
  unfolding prepare_step_def prepare_action_def prepare_leaf_def Let_def by (cases "body s"; simp; intro keeps_intros)

lemma runContained [keeps_intros]: "keeps R (runContained fx c r req)"
  unfolding runContained_def by (intro keeps_intros)

lemma release [keeps_intros]: "keeps R (release fx c cl)"
  unfolding release_def by (intro keeps_intros)

lemma run_cleanups [keeps_intros]: "keeps R (run_cleanups fx c cs)"
  unfolding run_cleanups_def by (intro keeps_intros)

subsection \<open>Parts of the handlers that only ask the world\<close>

lemma shouldCatch [keeps_intros]: "keeps R (shouldCatch fx c e)"
  unfolding shouldCatch_def by (intro keeps_intros)

lemma effective_error [keeps_intros]: "keeps R (effective_error fx c e ca)"
  unfolding effective_error_def by (intro keeps_intros)

lemma loopDelay [keeps_intros]: "keeps R (loopDelay fx df opts g)"
  unfolding loopDelay_def by (intro keeps_intros)

lemma loop_pause [keeps_intros]: "keeps R (loop_pause fx c d)"
  unfolding loop_pause_def by (intro keeps_intros)

lemma executionContextError [keeps_intros]: "keeps R (executionContextError fx c c' n)"
  unfolding executionContextError_def by (intro keeps_intros)

lemma retry_wait [keeps_intros]: "keeps R (retry_wait fx c c' n d)"
  unfolding retry_wait_def by (intro keeps_intros)

lemma release_pass [keeps_intros]: "keeps R (release_pass fx c cs)"
  unfolding release_pass_def by (intro keeps_intros)

lemma retry_decision [keeps_intros]: "keeps R (retry_decision fx df s control ss opts attempt p n e)"
  unfolding retry_decision_def by (intro keeps_intros)

lemma after_failure [keeps_intros]: "keeps R (after_failure fx df c c' s control ss policy opts attempt p e v)"
  unfolding after_failure_def by (intro keeps_intros)

lemma resolve_policy [keeps_intros]: "keeps R (resolve_policy fx df opts control)"
  unfolding resolve_policy_def by (intro keeps_intros)

lemma attempt_setup [keeps_intros]: "keeps R (attempt_setup fx df opts s control)"
  unfolding attempt_setup_def by (intro keeps_intros)

lemma run_delay [keeps_intros]: "keeps R (run_delay fx df c s policy)"
  unfolding run_delay_def by (intro keeps_intros)

lemma evaluate [keeps_intros]: "keeps R (evaluate fx data t)"
  unfolding evaluate_def by (intro keeps_intros)

lemma EvaluateList [keeps_intros]: "keeps R (EvaluateList fx data t)"
  unfolding EvaluateList_def by (intro keeps_intros)

lemma evaluateBatchSize [keeps_intros]: "keeps R (evaluateBatchSize fx data t)"
  unfolding evaluateBatchSize_def by (intro keeps_intros)

lemma live [keeps_intros]: "keeps R act \<Longrightarrow> keeps R (live fx c act)"
  unfolding live_def by (intro keeps_intros)

lemma expand_axes [keeps_intros]: "keeps R (expand_axes fx c data axes)"
  by (induction axes) (auto intro!: keeps_intros)

lemma expandControl [keeps_intros]: "keeps R (expandControl fx c b data n)"
  unfolding expandControl_def by (intro live; cases b; simp; intro keeps_intros)

lemma collect_one [keeps_intros]: "keeps R (collect_one fx df c opts t st)"
  unfolding collect_one_def by (intro keeps_intros)

lemma collectControlResults [keeps_intros]: "keeps R (collectControlResults fx df c opts t i sts)"
  by (induction sts arbitrary: i) (auto intro!: keeps_intros)

lemma env_entry [keeps_intros]: "keeps R (env_entry fx data d)"
  unfolding env_entry_def by (intro keeps_intros)

lemma env_set [keeps_intros]: "keeps R (env_set fx i data xs env)"
  by (induction xs arbitrary: env) (auto intro!: keeps_intros simp: Let_def)

lemma render_patterns [keeps_intros]: "keeps R (render_patterns fx i data ps)"
  by (induction ps arbitrary: i) (auto intro!: keeps_intros)

lemma resolveEnvironmentUnset [keeps_intros]: "keeps R (resolveEnvironmentUnset fx data u)"
  unfolding resolveEnvironmentUnset_def by (intro keeps_intros)

lemma scopedWorkingDirectory [keeps_intros]: "keeps R (scopedWorkingDirectory fx c opts t)"
  unfolding scopedWorkingDirectory_def by (intro keeps_intros)

lemma join_services [keeps_intros]: "keeps R (join_services fx scope e)"
  unfolding join_services_def by (intro keeps_intros)

lemma close_session [keeps_intros]: "keeps R (close_session fx df t c session e)"
  unfolding close_session_def by (intro keeps_intros)

lemma runGit [keeps_intros]: "keeps R (runGit fx opts c dir args)"
  unfolding runGit_def by (intro keeps_intros)

lemma head_commit [keeps_intros]: "keeps R (head_commit fx opts c path)"
  unfolding head_commit_def by (intro keeps_intros)

lemma worktree_setup [keeps_intros]: "keeps R (worktree_setup fx df c s g opts)"
  unfolding worktree_setup_def by (intro keeps_intros)

lemma publish [keeps_intros]: "keeps R (publish fx df c s g site opts base final)"
  unfolding publish_def by (intro keeps_intros)

lemma remove_worktree [keeps_intros]: "keeps R (remove_worktree fx c site opts)"
  unfolding remove_worktree_def by (intro keeps_intros)

lemma executeBackgroundControl [keeps_intros]: "keeps R (executeBackgroundControl fx df c s opts)"
  unfolding executeBackgroundControl_def by (intro keeps_intros)

lemma collectCancelOn [keeps_intros]: "keeps R (collectCancelOn fx df opts outputs t)"
  unfolding collectCancelOn_def by (intro keeps_intros)

lemma publish_race [keeps_intros]: "keeps R (publish_race fx df s t monitors ss opts ps winner)"
  unfolding publish_race_def by (intro keeps_intros)

lemma readOnceRecord [keeps_intros]: "keeps R (readOnceRecord fx c store key)"
  unfolding readOnceRecord_def by (intro keeps_intros)

lemma shuffled [keeps_intros]: "keeps R (shuffled n fx xs)"
  by (induction n arbitrary: xs) (auto intro!: keeps_intros)

lemma held_claims [keeps_intros]: "keeps R (held_claims fx opts)"
  unfolding held_claims_def by (intro keeps_intros)

lemma announce [keeps_intros]: "keeps R (announce fx key path as)"
  by (induction as) (auto intro!: keeps_intros)

lemma withdraw [keeps_intros]: "keeps R (withdraw fx key path as)"
  unfolding withdraw_def by (intro keeps_intros)

lemma release_claim [keeps_intros]: "keeps R (release_claim fx claim)"
  unfolding release_claim_def by (intro keeps_intros)

lemma claim_key [keeps_intros]: "keeps R (claim_key fx c store key wait opts)"
  unfolding claim_key_def stop_wait_def end_wait_def by (intro keeps_intros)

lemma record_outcome [keeps_intros]: "keeps R (record_outcome fx c store key ss st nested)"
  unfolding record_outcome_def by (intro keeps_intros)

lemma poll_group [keeps_intros]: "keeps R (poll_group fx c grp st)"
  unfolding poll_group_def by (intro keeps_intros)

lemma deadline_passed [keeps_intros]: "keeps R (deadline_passed fx c)"
  unfolding deadline_passed_def by (intro keeps_intros)

end

text \<open>Operations that may not return: a Go panic, or polling beyond the bound\<close>

locale machine_relation = world_relation +
  assumes R_stuck: "R m (m\<lparr>m_stuck := True\<rparr>)"
begin

lemma give_up [keeps_intros]: "keeps R (give_up a)"
  unfolding give_up_def by (intro bind ret) (simp add: keeps_def R_stuck)

lemma finish_fan_out [keeps_intros]: "keeps R (finish_fan_out fx df c s kind t opts ocs)"
  unfolding finish_fan_out_def by (intro keeps_intros)

lemma env_operations [keeps_intros]: "keeps R (env_operations fx i ops ov)"
  by (induction ops arbitrary: i ov) (auto intro!: keeps_intros)

lemma renderEnvironmentOverlay [keeps_intros]: "keeps R (renderEnvironmentOverlay fx data base ops)"
  unfolding renderEnvironmentOverlay_def by (intro keeps_intros)

end

end
