(* ===== verification/ControlFrame.thy ===== *)
theory ControlFrame
  imports Frame
begin

text \<open>
  The controls that work on private states: try/catch, cancel_on, once, the fan-outs and the attempts.
  The locale \<open>private_body\<close> states what a relation \<open>R\<close> on the outer machine owes to a relation \<open>S\<close>
  that the bodies keep, and proves that every such control keeps \<open>R\<close>. Its first interpretation
  takes any body whatever: then the outer state and statistics stay as they were.
\<close>

locale private_body = world_relation R + inner: world_relation S
  for R S :: "'w mach \<Rightarrow> 'w mach \<Rightarrow> bool" +
  fixes seq :: "'w sequence"
  assumes R_apart: "S (m\<lparr>m_state := st, m_stats := stats\<rparr>) m' \<Longrightarrow> R m (m'\<lparr>m_state := m_state m, m_stats := m_stats m\<rparr>)"
    and R_defers: "R (m\<lparr>m_defers := newDeferStack scope\<rparr>) m' \<Longrightarrow> R m (m'\<lparr>m_defers := m_defers m\<rparr>)"
    and R_failure: "R (m\<lparr>m_failure := Some ([], None)\<rparr>) m' \<Longrightarrow> R m (m'\<lparr>m_failure := m_failure m\<rparr>)"
    and R_cleanups: "R (m\<lparr>m_cleanups := []\<rparr>) m' \<Longrightarrow> R m (m'\<lparr>m_cleanups := m_cleanups m\<rparr>)"
    and register: "keeps R (register_cleanup cl)"
    and adopt: "keeps R (adopt_cleanups cls)"
    and remember: "keeps R (record_failure i outputs)"
    and body: "keeps S (seq c ss opts)"
    and skip: "keeps S (change_stats (recordSkippedSteps ss))"
    and cleanup: "keeps S (executeCleanupScope seq c scope [] opts e records)"
begin

lemma apart: "keeps S act \<Longrightarrow> keeps R (run_private st stats act)"
  by (rule keepsI) (auto simp: run_private_def dest: keepsD intro: R_apart split: prod.split)

lemma defers: "keeps R act \<Longrightarrow> keeps R (with_defers (newDeferStack scope) act)"
  by (rule keepsI) (auto simp: with_defers_def dest: keepsD intro: R_defers split: prod.split)

lemma failure: "keeps R act \<Longrightarrow> keeps R (with_failure act)"
  by (rule keepsI) (auto simp: with_failure_def dest: keepsD intro: R_failure split: prod.split)

lemma cleanups: "keeps R act \<Longrightarrow> keeps R (with_cleanups act)"
  by (rule keepsI) (auto simp: with_cleanups_def dest: keepsD intro: R_cleanups split: prod.split)

lemmas control_intros = apart defers failure cleanups register adopt remember body skip cleanup

lemma catch_steps: "keeps S (catch_steps fx seq c opts ss)"
  by (induction ss) (auto intro!: keeps_intros control_intros)

lemma executeCatchPhase: "keeps S (executeCatchPhase fx seq c opts ss)"
  unfolding executeCatchPhase_def by (intro keeps_intros catch_steps)

lemma run_catch: "keeps R (run_catch fx seq c opts handlers e st stats)"
  unfolding run_catch_def Let_def by (intro keeps_intros control_intros executeCatchPhase)

lemma run_try: "keeps R (run_try fx df seq c s tries handlers opts)"
  unfolding run_try_def Let_def by (intro keeps_intros control_intros run_catch)

lemma executeTryCatch: "keeps R (executeTryCatch fx df seq c s tries handlers opts)"
  unfolding executeTryCatch_def Let_def by (intro keeps_intros run_try)

lemma run_participant: "keeps R (run_participant seq monitors ss opts st c i)"
  unfolding run_participant_def Let_def by (intro keeps_intros control_intros)

lemma race_from: "keeps R (race_from n fx c (run_participant seq monitors ss opts st) remaining winner)"
  by (induction n arbitrary: remaining winner) (auto intro!: keeps_intros run_participant)

lemma Race: "keeps R (Race fx c n (run_participant seq monitors ss opts st))"
  unfolding Race_def by (intro keeps_intros race_from)

lemma executeCancelOn: "keeps R (executeCancelOn fx df seq c s t monitors ss opts)"
  unfolding executeCancelOn_def run_race_def by (intro keeps_intros Race)

lemma run_claimed: "keeps R (run_claimed fx df seq c s ss store key i claim opts)"
  unfolding run_claimed_def by (intro keeps_intros control_intros)

lemma executeOnce: "keeps R (executeOnce fx df seq c s g ss opts)"
  unfolding executeOnce_def run_once_def claim_and_run_def with_claim_def Let_def
  by (intro keeps_intros run_claimed)

lemma run_one: "keeps R (run_one fx c b (iteration_body seq ss opts st) it)"
  unfolding run_one_def iteration_body_def by (intro keeps_intros control_intros)

lemma FanOut: "keeps R (FanOut fx c b (iteration_body seq ss opts st) its)"
  by (induction its) (auto intro!: keeps_intros run_one)

lemma control_Run: "keeps R (control_Run fx c its p (iteration_body seq ss opts st))"
  unfolding control_Run_def Let_def by (intro keeps_intros FanOut)

lemma run_pass: "keeps R (run_pass fx seq c c' policy ss opts)"
  unfolding run_pass_def Let_def by (intro keeps_intros control_intros)

lemma attempt_succeed: "keeps R (attempt_succeed s ss st attempt cs v)"
  unfolding attempt_succeed_def by (intro keeps_intros control_intros)

lemma after_success: "keeps R (after_success fx df c c' s control ss policy opts attempt p stat v)"
  unfolding after_success_def Let_def by (intro keeps_intros attempt_succeed)

text \<open>A leaf step registers its resources and records its failure, and changes nothing else.\<close>

lemma managedExecutor: "keeps R (managedExecutor fx i r outputs c req)"
  unfolding managedExecutor_def by (intro keeps_intros control_intros)

lemma run_step:
  "(\<And>c req. keeps R (execute c req)) \<Longrightarrow> keeps R clean \<Longrightarrow> keeps R (run_step df c s opts i execute clean)"
  unfolding run_step_def Let_def by (intro keeps_intros control_intros)

lemma prepared_step:
  assumes "run_state (prepare_step fx df c s opts) m = (Inr (execute, clean), m')"
  shows "(\<forall>c' req. keeps R (execute c' req)) \<and> keeps R clean"
proof -
  have action: "(\<forall>c' req. keeps R (execute c' req)) \<and> keeps R clean"
    if "run_state (prepare_action fx df s source opts) m = (Inr (execute, clean), m')" for source
    using that by (auto simp: prepare_action_def Let_def intro!: keeps_intros split: prod.splits sum.splits)
  have leaf: "(\<forall>c' req. keeps R (execute c' req)) \<and> keeps R clean"
    if "run_state (prepare_leaf fx df c s opts) m = (Inr (execute, clean), m')"
    using that by (auto simp: prepare_leaf_def intro!: keeps_intros managedExecutor split: prod.splits sum.splits)
  show ?thesis using assms action leaf by (auto simp: prepare_step_def split: step_body.splits)
qed

lemma prepare_and_run: "keeps R (prepare_and_run fx df c s opts)"
  unfolding prepare_and_run_def
  by (rule bind_value [OF prepare_step])
    (auto split: sum.split prod.split dest!: prepared_step intro!: keeps_intros run_step)

lemma executeStep: "keeps R (executeStep fx df c s opts)"
  unfolding executeStep_def by (intro keeps_intros prepare_and_run)

end

text \<open>The fan-outs and the attempts may not return.\<close>

locale private_control = private_body + machine_relation R
begin

lemma executeControl: "keeps R (executeControl fx df seq c s kind ss p opts)"
  unfolding executeControl_def run_fan_out_def Let_def by (intro keeps_intros control_Run)

lemma attempt_loop: "keeps R (attempt_loop n fx df seq c c' s control ss policy opts attempt previous v)"
  by (induction n arbitrary: attempt previous v)
    (auto simp: Let_def intro!: keeps_intros run_pass after_success)

lemma executeAttempt: "keeps R (executeAttempt fx df seq c s control ss opts)"
  unfolding executeAttempt_def run_attempts_def by (intro keeps_intros attempt_loop)

end

subsection \<open>Any body: the outer state and statistics stay\<close>

definition same_outer :: "'w mach \<Rightarrow> 'w mach \<Rightarrow> bool" where
  "same_outer m m' \<longleftrightarrow> m_state m' = m_state m \<and> m_stats m' = m_stats m"

interpretation apart: private_control same_outer "\<lambda>_ _. True" seq for seq
  by unfold_locales (auto simp: same_outer_def keeps_def register_cleanup_def adopt_cleanups_def record_failure_def)

end
