(* ===== verification/FrameRelation.thy ===== *)
theory FrameRelation
  imports ControlFrame
begin

text \<open>
  What a sequence of steps may change: the frame of the interpreter. Inputs, environment, loaders,
  dependencies, providers, bindings and preset variables are as before; a variable that changed is
  among the written ones, and committed outputs stay; the statistics gain records and keep their
  counters right; the deferred groups of the scope keep their owners and steps; the resources of the
  path are only added to. A cleanup phase may change the root \<^verbatim>\<open>finally\<close> meanwhile, which \<open>cleaning\<close> says.
\<close>

subsection \<open>States\<close>

definition bindings_frame :: "bool \<Rightarrow> vmap option \<Rightarrow> vmap option \<Rightarrow> bool" where
  "bindings_frame cleaning b b' \<longleftrightarrow>
     (if cleaning then (b = None \<longleftrightarrow> b' = None) \<and> (\<forall>r f f'. b = Some f \<longrightarrow> b' = Some f' \<longrightarrow> r \<noteq> ''finally'' \<longrightarrow>
          fmlookup f' r = fmlookup f r)
      else b' = b)"

definition written_grows :: "string fset option \<Rightarrow> string fset option \<Rightarrow> bool" where
  "written_grows w w' = (case (w, w') of (Some a, Some b) \<Rightarrow> a |\<subseteq>| b | (None, None) \<Rightarrow> True | _ \<Rightarrow> False)"

definition vars_frame :: "wstate \<Rightarrow> wstate \<Rightarrow> bool" where
  "vars_frame st st' \<longleftrightarrow> written_grows (st_writtenVars st) (st_writtenVars st') \<and>
     (\<forall>v w. st_writtenVars st' = Some w \<longrightarrow> v |\<notin>| w \<longrightarrow> fmlookup (st_vars st') v = fmlookup (st_vars st) v)"

definition state_frame :: "bool \<Rightarrow> wstate \<Rightarrow> wstate \<Rightarrow> bool" where
  "state_frame cleaning st st' \<longleftrightarrow>
     st_inputs st' = st_inputs st \<and> st_env st' = st_env st \<and> st_loaders st' = st_loaders st \<and>
     st_dependencies st' = st_dependencies st \<and> st_providers st' = st_providers st \<and>
     st_presetVars st' = st_presetVars st \<and> bindings_frame cleaning (st_bindings st) (st_bindings st') \<and>
     vars_frame st st' \<and> fmdom (st_steps st) |\<subseteq>| fmdom (st_steps st') \<and>
     (st_didReturn st \<longrightarrow> st_didReturn st')"

lemma bindings_frame_trans: "bindings_frame z a b \<Longrightarrow> bindings_frame z b c \<Longrightarrow> bindings_frame z a c"
  by (auto simp: bindings_frame_def split: if_splits)

lemma written_grows_trans: "written_grows a b \<Longrightarrow> written_grows b c \<Longrightarrow> written_grows a c"
  by (auto simp: written_grows_def split: option.splits)

lemma written_grows_refl [simp]: "written_grows a a"
  by (simp add: written_grows_def split: option.split)

lemma vars_frame_trans:
  assumes "vars_frame a b" "vars_frame b c" shows "vars_frame a c"
proof -
  have "fmlookup (st_vars c) v = fmlookup (st_vars a) v" if "st_writtenVars c = Some w" "v |\<notin>| w" for v w
  proof -
    have "written_grows (st_writtenVars b) (Some w)"
      using assms(2) that(1) by (metis vars_frame_def)
    then obtain w1 where "st_writtenVars b = Some w1" "w1 |\<subseteq>| w"
      by (cases "st_writtenVars b") (auto simp: written_grows_def)
    then show ?thesis using assms that by (auto simp: vars_frame_def)
  qed
  then show ?thesis using assms by (auto simp: vars_frame_def intro: written_grows_trans)
qed

lemma state_frame_refl [simp]: "state_frame z st st"
  by (simp add: state_frame_def bindings_frame_def vars_frame_def)

lemma state_frame_trans: "state_frame z a b \<Longrightarrow> state_frame z b c \<Longrightarrow> state_frame z a c"
  unfolding state_frame_def using bindings_frame_trans vars_frame_trans by (auto intro: order_trans)

lemma state_frame_weaken: "state_frame False a b \<Longrightarrow> state_frame z a b"
  by (auto simp: state_frame_def bindings_frame_def)

subsection \<open>Statistics\<close>

definition stats_frame :: "run_stats \<Rightarrow> run_stats \<Rightarrow> bool" where
  "stats_frame s s' \<longleftrightarrow> total s' = total s \<and> (\<exists>xs. rsteps s' = rsteps s @ xs) \<and> (stats_wf s \<longrightarrow> stats_wf s')"

lemma stats_frame_refl [simp]: "stats_frame s s"
  by (simp add: stats_frame_def)

lemma stats_frame_trans: "stats_frame a b \<Longrightarrow> stats_frame b c \<Longrightarrow> stats_frame a c"
  by (auto simp: stats_frame_def)

lemma total_kept [simp]:
  "total (recordStep s x) = total s" "total (rollupNestedMetrics s n) = total s"
  "total (mergeRunStats s n) = total s"
  by (simp_all add: recordStep_def rollupNestedMetrics_def mergeRunStats_def Let_def split: exec_status.split)

lemma stats_frame_record: "stats_frame s (recordStep s x)"
  by (simp add: stats_frame_def)

lemma stats_frame_rollup: "stats_frame s (rollupNestedMetrics s n)"
  by (simp add: stats_frame_def)

lemma stats_frame_timed_out: "stats_frame s (s\<lparr>timed_out := n\<rparr>)"
  by (simp add: stats_frame_def)

lemma stats_frame_merge: "stats_wf t \<Longrightarrow> stats_frame s (mergeRunStats s t)"
  by (simp add: stats_frame_def)

lemma stats_frame_merges: "list_all stats_wf ts \<Longrightarrow> stats_frame s (foldl mergeRunStats s ts)"
  by (induction ts arbitrary: s) (auto intro: stats_frame_trans stats_frame_merge)

lemma stats_frame_skipped: "stats_frame s (recordSkippedSteps ss s)"
proof -
  have "stats_frame s (foldl recordStep s xs)" for xs
    by (induction xs arbitrary: s) (auto intro: stats_frame_trans stats_frame_record)
  then show ?thesis using recordSkippedSteps_skips [of s ss] by (auto simp: skips_def)
qed

lemma stats_frame_account: "stats_frame s (account_stats x oc s)"
  by (cases "so_nested oc") (auto simp: account_stats_def Let_def stats_frame_def)

subsection \<open>The machine\<close>

definition groups_frame :: "'o defer_stack \<Rightarrow> 'o defer_stack \<Rightarrow> bool" where
  "groups_frame d d' \<longleftrightarrow> ds_byOwner d' = ds_byOwner d \<and>
     map (\<lambda>g. (grp_owner g, grp_steps g)) (ds_groups d') = map (\<lambda>g. (grp_owner g, grp_steps g)) (ds_groups d)"

definition frame :: "bool \<Rightarrow> 'w mach \<Rightarrow> 'w mach \<Rightarrow> bool" where
  "frame cleaning m m' \<longleftrightarrow>
     state_frame cleaning (m_state m) (m_state m') \<and> stats_frame (m_stats m) (m_stats m') \<and>
     groups_frame (m_defers m) (m_defers m') \<and> (m_failure m' = None \<longleftrightarrow> m_failure m = None) \<and>
     (\<exists>cs. m_cleanups m' = m_cleanups m @ cs) \<and> (m_stuck m \<longrightarrow> m_stuck m')"

lemma frame_weaken: "frame False m m' \<Longrightarrow> frame z m m'"
  by (auto simp: frame_def intro: state_frame_weaken)

lemma groups_frame_refl [simp]: "groups_frame d d"
  by (simp add: groups_frame_def)

lemma groups_frame_trans: "groups_frame a b \<Longrightarrow> groups_frame b c \<Longrightarrow> groups_frame a c"
  by (simp add: groups_frame_def)

lemma groups_frame_register: "groups_frame d (defer_register i opts d)"
  by (simp add: groups_frame_def defer_register_def map_list_update_same split: option.split)

interpretation frame: machine_relation "frame z" for z
proof unfold_locales
  show "frame z m m" for m :: "'a mach" by (simp add: frame_def)
  show "frame z m1 m3" if "frame z m1 m2" "frame z m2 m3" for m1 m2 m3 :: "'a mach"
    unfolding frame_def
  proof (intro conjI)
    note f = that [unfolded frame_def]
    show "state_frame z (m_state m1) (m_state m3)" using f state_frame_trans by blast
    show "stats_frame (m_stats m1) (m_stats m3)" using f stats_frame_trans by blast
    show "groups_frame (m_defers m1) (m_defers m3)" using f groups_frame_trans by blast
    show "\<exists>cs. m_cleanups m3 = m_cleanups m1 @ cs" using f by (metis append_assoc)
  qed (use that in \<open>simp_all add: frame_def\<close>)
  show "frame z m (m\<lparr>m_world := w\<rparr>)" "frame z m (m\<lparr>m_stuck := True\<rparr>)" for m :: "'a mach" and w
    by (simp_all add: frame_def)
qed

subsection \<open>Changing the machine\<close>

lemma keeps_state: "(\<And>st. state_frame z st (f st)) \<Longrightarrow> keeps (frame z) (change_state f)"
  by (simp add: keeps_def frame_def)

lemma keeps_stats: "(\<And>s. stats_frame s (f s)) \<Longrightarrow> keeps (frame z) (change_stats f)"
  by (simp add: keeps_def frame_def)

lemma state_frame_commit: "state_frame z st (commitStepResult st i r)"
  by (auto simp: state_frame_def commitStepResult_def commitChecks_def Let_def bindings_frame_def vars_frame_def
      written_grows_def fmlookup_dom_iff split: option.split)

lemma state_frame_returned:
  "state_frame z st (st\<lparr>st_outputs := outputs, st_returning := b, st_didReturn := True\<rparr>)"
  "state_frame z st (st\<lparr>st_returning := b\<rparr>)"
  by (simp_all add: state_frame_def bindings_frame_def vars_frame_def)

lemma state_frame_finally: "state_frame True st (set_finally_errors es st)"
  by (auto simp: state_frame_def set_finally_errors_def bindings_frame_def vars_frame_def
      split: option.split val.split)

lemma keeps_skipped [keeps_intros]: "keeps (frame z) (change_stats (recordSkippedSteps ss))"
  by (rule keeps_stats) (rule stats_frame_skipped)

lemma keeps_account [keeps_intros]: "keeps (frame z) (account s oc)"
  unfolding account_def by (intro keeps_intros keeps_stats stats_frame_account)

lemma keeps_commit [keeps_intros]: "keeps (frame z) (commit s r)"
  unfolding commit_def by (intro keeps_state state_frame_commit)

lemma keeps_register_defer [keeps_intros]: "keeps (frame z) (register_defer s opts)"
  unfolding register_defer_def
  by (intro keeps_intros) (simp add: keeps_def frame_def groups_frame_register)

lemma keeps_conclude [keeps_intros]: "keeps (frame z) (conclude s opts oc)"
  unfolding conclude_def by (intro keeps_intros)

lemma keeps_after_block [keeps_intros]: "keeps (frame z) (after_block e)"
  unfolding after_block_def by (intro keeps_intros)

lemma keeps_conclude_worktree [keeps_intros]: "keeps (frame z) (conclude_worktree s oc)"
  unfolding conclude_worktree_def by (intro keeps_intros)

lemma keeps_return [keeps_intros]: "keeps (frame z) (executeReturn fx df c s rc opts)"
  unfolding executeReturn_def by (intro keeps_intros keeps_state state_frame_returned)

lemma frame_apart:
  "frame y (m\<lparr>m_state := st, m_stats := stats\<rparr>) m' \<Longrightarrow> frame z m (m'\<lparr>m_state := m_state m, m_stats := m_stats m\<rparr>)"
  by (simp add: frame_def)

lemma frame_env:
  "frame z (m\<lparr>m_state := (m_state m)\<lparr>st_env := e\<rparr>\<rparr>) m' \<Longrightarrow>
   frame z m (m'\<lparr>m_state := (m_state m')\<lparr>st_env := st_env (m_state m)\<rparr>\<rparr>)"
  by (auto simp: frame_def state_frame_def vars_frame_def)

lemma frame_env_same: "frame z m m' \<Longrightarrow> frame z m (m'\<lparr>m_state := (m_state m')\<lparr>st_env := st_env (m_state m)\<rparr>\<rparr>)"
  by (auto simp: frame_def state_frame_def vars_frame_def)

lemma keeps_counted: "keeps (frame z) act \<Longrightarrow> keeps (frame z) (run_counted stats act)"
  by (rule keepsI) (auto simp: run_counted_def frame_def dest!: keepsD split: prod.split)

end
