(* ===== verification/SequenceFrame.thy ===== *)
theory SequenceFrame
  imports FrameRelation
begin

text \<open>
  Every handler keeps the frame when the sequences it runs do, and so executeSequence keeps it. The
  locale \<open>frame_body\<close> holds the contract of a body; its laws are proved for the guarded
  executeSequence within the induction, and it is interpreted on executeSequence itself.
\<close>

locale frame_body =
  fixes seq :: "'w sequence"
  assumes body: "keeps (frame False) (seq c ss opts)"
begin

subsection \<open>Cleanup\<close>

lemma body_cleaning: "keeps (frame z) (seq c ss opts)"
  by (rule keeps_mono [OF body]) (rule frame_weaken)

lemma cleanup_steps: "keeps (frame True) (cleanup_steps seq c opts errs ss)"
  by (induction ss arbitrary: errs)
    (auto intro!: keeps_intros body_cleaning keeps_state state_frame_finally)

lemma executeCleanupSteps: "keeps (frame True) (executeCleanupSteps seq c ss opts)"
  unfolding executeCleanupSteps_def by (intro keeps_intros cleanup_steps)

lemma run_group: "keeps (frame True) (run_group seq c ss captured)"
proof (cases captured)
  case None
  then show ?thesis by (auto simp: run_group_def intro!: keeps_intros)
next
  case (Some opts)
  then show ?thesis
    by (intro keepsI) (auto simp: run_group_def split: prod.split option.split
      intro: frame_env frame_env_same keepsD [OF executeCleanupSteps])
qed

lemma run_groups: "keeps (frame True) (run_groups seq c gs)"
  by (induction gs rule: list.induct) (auto intro!: keeps_intros run_group)

lemma frame_finally:
  assumes "frame True (m\<lparr>m_state := bind_root ''finally'' v (m_state m)\<rparr>) m'"
  shows "frame False m (m'\<lparr>m_state := restore_root ''finally'' (st_bindings (m_state m)) (m_state m')\<rparr>)"
proof -
  let ?st = "m_state m" and ?st' = "m_state m'"
  obtain f' where f': "st_bindings ?st' = Some f'"
    using assms by (auto simp: frame_def state_frame_def bindings_frame_def bind_root_def)
  have same: "fmlookup f' r = fmlookup (case st_bindings ?st of None \<Rightarrow> fmempty | Some b \<Rightarrow> b) r" if "r \<noteq> ''finally''" for r
    using assms f' that by (auto simp: frame_def state_frame_def bindings_frame_def bind_root_def)
  have "st_bindings (restore_root ''finally'' (st_bindings ?st) ?st') = st_bindings ?st"
  proof (cases "st_bindings ?st")
    case None
    then have "fmdrop ''finally'' f' = fmempty" using same by (intro fmap_ext) auto
    then show ?thesis using None f' by (simp add: restore_root_def)
  next
    case (Some b)
    then have "(case fmlookup b ''finally'' of Some v \<Rightarrow> fmupd ''finally'' v f' | None \<Rightarrow> fmdrop ''finally'' f') = b"
      using same by (intro fmap_ext) (auto split: option.split)
    then show ?thesis using Some f' by (simp add: restore_root_def)
  qed
  then show ?thesis
    using assms by (auto simp: frame_def state_frame_def bindings_frame_def vars_frame_def bind_root_def restore_root_def Let_def)
qed

lemma executeDeferred: "keeps (frame True) (executeDeferred seq c scope)"
  unfolding executeDeferred_def by (rule run_groups)

lemma executeCleanupScope: "keeps (frame False) (executeCleanupScope seq c scope final opts e records)"
  by (rule keepsI)
    (auto simp: executeCleanupScope_def split: prod.split
      intro!: frame.R_refl frame_finally frame.R_trans [OF keepsD [OF executeDeferred] keepsD [OF executeCleanupSteps]])

end

sublocale frame_body \<subseteq> controls: private_control "frame False" "frame False" seq
proof unfold_locales
  fix m m' :: "'a mach" and scope :: "step list"
  show "frame False m (m'\<lparr>m_state := m_state m, m_stats := m_stats m\<rparr>)"
    if "frame False (m\<lparr>m_state := st, m_stats := stats\<rparr>) m'" for st stats
    using that by (rule frame_apart)
  show "frame False m (m'\<lparr>m_defers := m_defers m\<rparr>)" if "frame False (m\<lparr>m_defers := newDeferStack scope\<rparr>) m'"
    using that by (simp add: frame_def)
  show "frame False m (m'\<lparr>m_failure := m_failure m\<rparr>)" if "frame False (m\<lparr>m_failure := Some ([], None)\<rparr>) m'"
    using that by (simp add: frame_def)
  show "frame False m (m'\<lparr>m_cleanups := m_cleanups m\<rparr>)" if "frame False (m\<lparr>m_cleanups := []\<rparr>) m'"
    using that by (simp add: frame_def)
  show "keeps (frame False) (register_cleanup cl)" "keeps (frame False) (adopt_cleanups cls)" for cl cls
    by (simp_all add: keeps_def register_cleanup_def adopt_cleanups_def frame_def)
  show "keeps (frame False) (record_failure i outputs)" for i outputs
    by (simp add: keeps_def record_failure_def frame_def)
qed (rule body keeps_skipped executeCleanupScope)+

context frame_body
begin

subsection \<open>Loops and scoped blocks\<close>

lemma loop_run: "keeps (frame False) (loop_run n fx df seq c s g ss opts iterations nested)"
  by (induction n arbitrary: iterations nested)
    (auto simp: Let_def intro!: keeps_intros keeps_counted body)

lemma executeLoop: "keeps (frame False) (executeLoop fx df seq c s g ss opts)"
  unfolding executeLoop_def Let_def by (intro loop_run)

lemma validated_steps: "keeps (frame False) (validated_steps fx seq c label ss opts)"
  unfolding validated_steps_def by (intro keeps_intros body)

lemma executeEnvironmentBlock: "keeps (frame False) (executeEnvironmentBlock fx df seq c ops ss opts)"
proof -
  have block: "frame False m (m3\<lparr>m_state := (m_state m3)\<lparr>st_env := st_env (m_state m)\<rparr>\<rparr>)"
    if "frame False m m1" "run_state (validated_steps fx seq c label ss o') (m1\<lparr>m_state := (m_state m1)\<lparr>st_env := env\<rparr>\<rparr>) = (e, m3)"
    for m m1 m3 :: "'w mach" and label o' env e
  proof -
    have "st_env (m_state m1) = st_env (m_state m)" using that(1) by (simp add: frame_def state_frame_def)
    then show ?thesis
      using frame.R_trans [OF that(1) frame_env [OF keepsD [OF validated_steps that(2)]]] by simp
  qed
  have "keeps (frame False) (do {
      data \<leftarrow> template_roots fx df opts;
      previous \<leftarrow> gets (\<lambda>m. st_env (m_state m));
      r \<leftarrow> renderEnvironmentOverlay fx data previous ops;
      (case r of
         Inl e \<Rightarrow> ret (Some (Wrapped (workflow_where df ''env block'') e))
       | Inr env \<Rightarrow> do {
           change_state (\<lambda>st. st\<lparr>st_env := env\<rparr>);
           err \<leftarrow> validated_steps fx seq c (workflow_where df ''env block'') ss
                    (opts\<lparr>o_scopedEnv := Some env, o_deferContextValidation := False\<rparr>);
           change_state (\<lambda>st. st\<lparr>st_env := previous\<rparr>);
           ret err
         })
    })"
    by (rule keepsI) (auto simp: template_roots_def split: prod.split sum.split
        intro: block keepsD [OF frame.renderEnvironmentOverlay])
  then show ?thesis unfolding executeEnvironmentBlock_def
    by (intro frame.bind frame.ctx_err) (auto intro: frame.ret split: option.split)
qed

lemma executeWorkingDirectoryBlock: "keeps (frame False) (executeWorkingDirectoryBlock fx df seq c t ss opts)"
  unfolding executeWorkingDirectoryBlock_def by (intro keeps_intros validated_steps)

lemma executeConditionalBlock: "keeps (frame False) (executeConditionalBlock fx df seq c s ss opts)"
  unfolding executeConditionalBlock_def by (intro keeps_intros body)

lemma run_scope: "keeps (frame False) (run_scope fx seq c scope ss final opts)"
  unfolding run_scope_def
  by (intro controls.defers keeps_intros body executeCleanupScope keeps_state state_frame_returned)

lemma executeExecutorBlock: "keeps (frame False) (executeExecutorBlock fx df seq c t config ss final opts)"
  unfolding executeExecutorBlock_def run_session_def by (intro keeps_intros run_scope)

lemma worktree_body: "keeps (frame False) (worktree_body fx df seq c s g site ss opts)"
  unfolding worktree_body_def worktree_services_def Let_def by (intro keeps_intros run_scope)

lemma executeWorktreeBlock: "keeps (frame False) (executeWorktreeBlock fx df seq c s g ss opts)"
  unfolding executeWorktreeBlock_def run_worktree_def by (intro keeps_intros keeps_counted worktree_body)

end

subsection \<open>Concurrent groups\<close>

text \<open>What holds of the outcome of every branch that ran, of a skipped one and of one that never ran,
  holds of every outcome of the group.\<close>

lemma list_all_update: "list_all P xs \<Longrightarrow> P x \<Longrightarrow> list_all P (xs[i := x])"
  by (auto simp: list_all_iff dest: set_update_memE)

lemma skip_loop_outcomes:
  assumes "skip_loop steps deps queue gone status outcomes = (status', outcomes', gone')"
    and "list_all P outcomes" and "\<And>s. P (skipped_outcome s)"
  shows "list_all P outcomes'"
  using assms
  by (induction steps deps queue gone status outcomes rule: skip_loop.induct)
    (auto simp: list_all_update split: if_splits)

lemma admit_outcomes [simp]: "b_outcomes (admit ds st) = b_outcomes st"
  by (simp add: admit_def split: prod.split)

lemma fold_admit_outcomes [simp]: "b_outcomes (fold (\<lambda>j. admit (f j)) js st) = b_outcomes st"
  by (induction js arbitrary: st) simp_all

lemma complete_outcomes:
  assumes "list_all P (b_outcomes st)" "P oc" "\<And>s. P (skipped_outcome s)"
  shows "list_all P (b_outcomes (complete grp steps g i oc st))"
proof -
  have "list_all P ((b_outcomes st)[i := oc])" using assms by (simp add: list_all_update)
  then show ?thesis
    using skip_loop_outcomes [of steps "dependents g" "dependents g ! i" "[]" "(b_status st)[i := Finished]"
        "(b_outcomes st)[i := oc]" _ _ _ P] assms(3)
    by (auto simp: complete_def Let_def skipConcurrentDescendants_def split: prod.split)
qed

lemma launch_outcomes [simp]: "b_outcomes (launch steps g snapshot st) = b_outcomes st"
  by (simp add: launch_def Let_def)

lemma poll_outcomes: "yields (\<lambda>st'. b_outcomes st' = b_outcomes st) (poll_group fx c grp st)"
  unfolding poll_group_def by (intro yields_intros) auto

lemma graph_outcomes:
  assumes "\<And>s snap. yields P (run_branch fx seq c opts s snap)" and "\<And>s. P (skipped_outcome s)"
    and "list_all P (b_outcomes st)"
  shows "yields (\<lambda>st. list_all P (b_outcomes st)) (graph_loop n fx seq c grp steps g opts snapshot st)"
  using assms(3)
proof (induction n arbitrary: st)
  case (Suc n)
  have taken: "yields (\<lambda>st'. list_all P (b_outcomes st')) (take_completion fx seq c grp steps g opts snapshot st')"
    if "b_outcomes st' = b_outcomes st" for st'
    unfolding take_completion_def
    by (intro yields_bind yields_bind_value [OF assms(1)] yields_ret complete_outcomes) (simp_all add: that Suc.prems assms(2))
  show ?case
    unfolding graph_loop.simps
    by (intro yields_if yields_ret yields_bind_value [OF poll_outcomes] yields_bind_value [OF taken] Suc.IH)
      (simp_all add: Suc.prems)
qed (simp add: yields_give_up)

lemma private_yields:
  assumes "keeps S act"
  shows "yields (\<lambda>(a, st', stats'). \<exists>m m'. m_state m = st \<and> m_stats m = stats \<and> S m m' \<and>
      m_state m' = st' \<and> m_stats m' = stats' \<and> run_state act m = (a, m')) (run_private st stats act)"
  unfolding yields_def
proof
  fix m
  obtain a m' where run: "run_state act (m\<lparr>m_state := st, m_stats := stats\<rparr>) = (a, m')" by fastforce
  have S: "S (m\<lparr>m_state := st, m_stats := stats\<rparr>) m'" by (rule keepsD [OF assms run])
  have "fst (run_state (run_private st stats act) m) = (a, m_state m', m_stats m')"
    using run by (simp add: run_private_def)
  moreover have "\<exists>n. m_state n = st \<and> m_stats n = stats \<and> S n m' \<and> run_state act n = (a, m')"
    by (rule exI [of _ "m\<lparr>m_state := st, m_stats := stats\<rparr>"]) (use run S in simp)
  ultimately show "case fst (run_state (run_private st stats act) m) of (a, st', stats') \<Rightarrow>
      \<exists>m m'. m_state m = st \<and> m_stats m = stats \<and> S m m' \<and> m_state m' = st' \<and> m_stats m' = stats' \<and>
        run_state act m = (a, m')" by auto
qed

lemma stats_wf_skipped_outcome: "stats_wf (out_stats (skipped_outcome s))"
  using stats_frame_skipped [of "new_stats [s]" "[s]"]
  by (simp add: skipped_outcome_def stats_frame_def no_outcome_def)

context frame_body
begin

lemma branch_stats: "yields (\<lambda>oc. stats_wf (out_stats oc)) (run_branch fx seq c opts s snap)"
  unfolding run_branch_def
  by (intro yields_bind yields_if yields_bind_value [OF private_yields [OF body]] yields_ret)
    (auto simp: no_outcome_def executeConcurrentBranch_def frame_def stats_frame_def)

lemma run_branch: "keeps (frame False) (run_branch fx seq c opts s snap)"
  unfolding run_branch_def by (intro keeps_intros controls.apart body)

lemma graph_loop: "keeps (frame False) (graph_loop n fx seq c grp steps g opts snapshot st)"
  by (induction n arbitrary: st) (auto simp: take_completion_def intro!: keeps_intros run_branch)

lemma runConcurrentGraph: "keeps (frame False) (runConcurrentGraph fx seq c grp steps opts snapshot)"
  unfolding runConcurrentGraph_def Let_def by (intro keeps_intros graph_loop)

lemma graph_stats: "yields (list_all (stats_wf \<circ> out_stats)) (runConcurrentGraph fx seq c grp steps opts snapshot)"
  unfolding runConcurrentGraph_def Let_def comp_def
  by (intro yields_bind_value [OF graph_outcomes [of "\<lambda>oc. stats_wf (out_stats oc)"]] branch_stats
      stats_wf_skipped_outcome yields_ret)
    (simp_all add: sched_init_def Let_def list_all_iff no_outcome_def)

end

lemma frame_set_state: "frame z m m' \<Longrightarrow> state_frame z (m_state m) st \<Longrightarrow> frame z m (m'\<lparr>m_state := st\<rparr>)"
  by (simp add: frame_def)

lemma state_frame_commit_branch: "state_frame z st (commit_branch st b)"
  by (auto simp: state_frame_def commit_branch_def commitChecks_def Let_def bindings_frame_def vars_frame_def
      written_grows_def fmlookup_dom_iff split: option.split)

lemma state_frame_commits: "state_frame z st (foldl commit_branch st bs)"
  by (induction bs arbitrary: st) (auto intro: state_frame_trans state_frame_commit_branch)

lemma state_frame_finish:
  "finishConcurrent name grp steps parent deadline st outcomes = (e, st') \<Longrightarrow> state_frame z st st'"
  by (auto simp: finishConcurrent_def commitConcurrentBranches_def state_frame_commits
      split: option.splits sum.splits)

context frame_body
begin

lemma runConcurrent: "keeps (frame False) (runConcurrent fx df seq c grp steps opts)"
proof (rule keepsI)
  fix m :: "'w mach"
  let ?c = "case conc_timeout grp of Some t \<Rightarrow> WithTimeout t c | None \<Rightarrow> c"
  let ?graph = "runConcurrentGraph fx seq ?c grp steps (opts\<lparr>o_interactive := False\<rparr>) (cloneState (m_state m))"
  let ?polls = "do { outer \<leftarrow> ctx_err fx c;
     deadline \<leftarrow> (if outer = None then deadline_passed fx ?c else ret False); ret (outer, deadline) }"
  obtain outcomes m1 where graph: "run_state ?graph m = (outcomes, m1)" by fastforce
  obtain outer m2 where outer: "run_state (ctx_err fx c) m1 = (outer, m2)" by fastforce
  obtain deadline m3 where deadline:
    "run_state (if outer = None then deadline_passed fx ?c else ret False) m2 = (deadline, m3)" by fastforce
  obtain e st where finish: "finishConcurrent (df_name df) grp steps outer deadline (m_state m) outcomes = (e, st)"
    by fastforce
  have "keeps (frame False) (if outer = None then deadline_passed fx ?c else ret False)"
    by (intro keeps_intros)
  then have "frame False m m3"
    using keepsD [OF runConcurrentGraph graph] keepsD [OF frame.ctx_err outer] deadline
    by (meson frame.R_trans keepsD)
  then have "frame False m (m3\<lparr>m_state := st\<rparr>)"
    by (rule frame_set_state) (rule state_frame_finish [OF finish])
  then have "frame False m (m3\<lparr>m_state := st, m_stats := foldl mergeRunStats (m_stats m3) (map out_stats outcomes)\<rparr>)"
    using yieldsD [OF graph_stats graph] stats_frame_trans [OF _ stats_frame_merges]
    by (simp add: frame_def list.pred_map)
  then show "frame False m (snd (run_state (runConcurrent fx df seq c grp steps opts) m))"
    using graph outer deadline finish by (simp add: runConcurrent_def Let_def)
qed

subsection \<open>Sequences\<close>

lemma run_entry: "keeps (frame False) (run_entry fx df seq c s opts)"
  unfolding run_entry_def
  by (cases "body s"; simp only: step_body.case;
      intro keeps_intros executeExecutorBlock executeEnvironmentBlock executeWorkingDirectoryBlock
        executeWorktreeBlock executeConditionalBlock runConcurrent controls.executeTryCatch
        controls.executeCancelOn controls.executeOnce controls.executeControl controls.executeAttempt
        controls.executeStep executeLoop)

end

lemma below_body:
  assumes "\<And>c ss opts. size_list size ss < size_list size steps \<Longrightarrow> keeps (frame False) (seq c ss opts)"
  shows "frame_body (below steps seq)"
  by unfold_locales (auto simp: below_def assms intro!: frame.give_up)

lemma executeSequence_keeps: "keeps (frame False) (executeSequence fx df c ss opts)"
proof (induction fx df c ss opts rule: executeSequence.induct)
  case (1 fx df c opts)
  show ?case by (simp add: frame.ret)
next
  case (2 fx df c s rest opts)
  have "frame_body (below (s # rest) (executeSequence fx df))"
    by (rule below_body) (rule "2.IH"(1))
  then have entry: "keeps (frame False) (run_entry fx df (below (s # rest) (executeSequence fx df)) c s opts)"
    by (rule frame_body.run_entry)
  show ?case
    by (auto intro!: keeps_intros entry "2.IH" split: flow.split)
qed

interpretation executed: frame_body "executeSequence fx df" for fx df
  by unfold_locales (rule executeSequence_keeps)

end
