(* ===== verification/IdleWorld.thy ===== *)
theory IdleWorld
  imports Interpreter
begin

text \<open>
  A world in which nothing goes wrong, on which the properties of the interpreter are applied to
  concrete inputs: contexts are live, a template renders to itself, a condition holds, a leaf step
  succeeds with no outputs, and stores, executors and git answer with success. Single answers are
  changed by record updates where a witness needs it.
\<close>

definition answer :: "'a \<Rightarrow> ('w, 'a) query" where
  "answer a w = (a, w)"

definition idle_time :: "'w time_fx" where
  "idle_time = \<lparr>fx_poll = (\<lambda>c. answer Live), fx_cancel = (\<lambda>c. answer ()), fx_wait = (\<lambda>c d. answer Live),
     fx_uniform = answer 0, fx_pick = (\<lambda>candidates. answer (hd candidates))\<rparr>"

definition idle_language :: "'w language_fx" where
  "idle_language = \<lparr>fx_compile = (\<lambda>t. None), fx_compile_until = (\<lambda>t. None),
     fx_program = (\<lambda>t env. answer (Inr (VBool True))), fx_eval = (\<lambda>t env. answer (Inr (VStr t))),
     fx_evaluate = (\<lambda>t env. answer (Inr (VStr t))), fx_render = (\<lambda>t data. answer (Inr t)),
     fx_config = (\<lambda>kind raw data env. answer (Inr raw)), fx_show_float = (\<lambda>q. ''0''), fx_os = ''linux'',
     fx_arch = ''amd64'', fx_digest = (\<lambda>t. t), fx_random = answer (Inr ''operation'')\<rparr>"

definition idle_leaf_fx :: "'w leaf_fx" where
  "idle_leaf_fx = \<lparr>fx_build = (\<lambda>c kind raw. answer (Inr \<lparr>rn_handle = 0, rn_cleaner = False\<rparr>)),
     fx_schema = (\<lambda>c kind raw. answer (Inr (OutputSchema OutputUnknown True fmempty None))),
     fx_run = (\<lambda>r c req. answer (Returned empty_result None)), fx_cleanup = (\<lambda>cl c. answer None),
     fx_action_prepare = (\<lambda>source raw data. answer (Inr 0)),
     fx_action_run = (\<lambda>h c req. answer (empty_result, None)), fx_action_cleanup = (\<lambda>h. answer ()),
     fx_validate = (\<lambda>c ss opts st. answer None)\<rparr>"

definition idle_services :: "'w services_fx" where
  "idle_services = \<lparr>fx_services_new = (\<lambda>c. answer 1), fx_services_seal = (\<lambda>n. answer ()),
     fx_services_stop = (\<lambda>n. answer ()), fx_services_wait = (\<lambda>n. answer None),
     fx_services_ended = (\<lambda>n. answer False), fx_services_cancel = (\<lambda>n. answer ()),
     fx_launch = (\<lambda>c s dir env data. answer (Inr \<lparr>bp_handle = 0, bp_result = empty_result\<rparr>)),
     fx_close_program = (\<lambda>h. answer ()), fx_start_background = (\<lambda>s opts st h. answer None)\<rparr>"

definition idle_host :: "'w host_fx" where
  "idle_host = \<lparr>fx_filesystem = (\<lambda>n. n), fx_stat_dir = (\<lambda>fs c dir. answer (Inr True)),
     fx_executor_build = (\<lambda>c kind raw. answer (Inr \<lparr>ep_handle = 0, ep_filesystem = False\<rparr>)),
     fx_executor_open = (\<lambda>h c dir env. answer (Inr 1)), fx_executor_close = (\<lambda>h c. answer None),
     fx_worktree_path = (\<lambda>base path. answer (Inr path)),
     fx_git = (\<lambda>opts env c dir args. answer (Inr ''/repo'')), fx_on_return = (\<lambda>t. answer ()),
     fx_replaced = answer False\<rparr>"

definition idle_store :: "'w store_fx" where
  "idle_store = \<lparr>fx_once_open = (\<lambda>scope. answer (Inr 0)), fx_once_get = (\<lambda>h c key. answer (Inr None)),
     fx_once_set = (\<lambda>h c key v. answer (Inr v)), fx_once_claim = (\<lambda>h c key wait held. answer (Claimed 7)),
     fx_claim_path = (\<lambda>h key. key), fx_claim_location = (\<lambda>h. ''claim''),
     fx_add_wanted = (\<lambda>h key path. answer None), fx_remove_wanted = (\<lambda>h key path. answer None),
     fx_release = (\<lambda>h. answer None)\<rparr>"

definition idle_fx :: "'w effects" where
  "idle_fx = \<lparr>fx_time = idle_time, fx_language = idle_language, fx_leaf = idle_leaf_fx,
     fx_services = idle_services, fx_host = idle_host, fx_store = idle_store, fx_polls = 10\<rparr>"

lemmas idle_defs = idle_fx_def idle_time_def idle_language_def idle_leaf_fx_def idle_services_def idle_host_def
  idle_store_def answer_def

definition idle_df :: run_definition where
  "idle_df = \<lparr>df_name = ''demo'', df_dir = ''/work'', df_timezone = ''UTC'', df_steps = [], df_finally = [],
     df_outputs = fmempty\<rparr>"

definition idle_opts :: options where
  "idle_opts = \<lparr>o_runDir = ''/work'', o_interactive = False, o_insideExecutor = False, o_executorFileSystem = False,
     o_executor = 0, o_scopedEnv = None, o_attempt = 0, o_maxAttempts = 0, o_operationID = [],
     o_operationPrefix = [], o_previousPass = fmempty, o_onceClaims = fmempty, o_services = 0,
     o_deferContextValidation = False\<rparr>"

definition idle_mach :: "'w \<Rightarrow> 'w mach" where
  "idle_mach w = \<lparr>m_world = w, m_state = empty_wstate, m_stats = empty_stats, m_defers = empty_stack,
     m_failure = None, m_cleanups = [], m_stuck = False\<rparr>"

definition idle_private :: "unit mach" where
  "idle_private = (idle_mach ())\<lparr>m_state := privateState empty_wstate\<rparr>"

definition idle_step :: "string \<Rightarrow> step_body \<Rightarrow> step" where
  "idle_step name b = Step \<lparr>step_id = name, needs = [], after = [], if_cond = []\<rparr> b []"

definition idle_leaf :: step where
  "idle_leaf = idle_step ''leaf'' (Leaf ''print'' fmempty)"

end
