(* ===== verification/RunProperties.thy ===== *)
theory RunProperties
  imports SequenceFrame IdleWorld
begin

text \<open>
  What a sequence and a run keep: the isolation of the workflow state, the completeness of the written
  variables, the agreement of the counters with the records, and the isolation of the controls that
  work on private states.
\<close>

subsection \<open>Statistics of a run\<close>

text \<open>The relation that keeps the statistics alone, for the operations of a run outside sequences\<close>

definition stats_kept :: "'w mach \<Rightarrow> 'w mach \<Rightarrow> bool" where
  "stats_kept m m' \<longleftrightarrow> stats_frame (m_stats m) (m_stats m')"

interpretation stats: machine_relation stats_kept
  by unfold_locales (auto simp: stats_kept_def intro: stats_frame_trans)

lemma stats_kept_frame: "keeps (frame z) act \<Longrightarrow> keeps stats_kept act"
  by (erule keeps_mono) (simp add: frame_def stats_kept_def)

lemma stats_kept_modify: "(\<And>m. m_stats (f m) = m_stats m) \<Longrightarrow> keeps stats_kept (modify f)"
  by (simp add: keeps_def stats_kept_def)

lemma stats_kept_defers: "keeps stats_kept act \<Longrightarrow> keeps stats_kept (with_defers d act)"
  by (rule keepsI) (auto simp: with_defers_def stats_kept_def dest!: keepsD split: prod.split)

lemma stats_kept_outputs: "keeps stats_kept (finishWorkflowOutputs fx df opts)"
  unfolding finishWorkflowOutputs_def by (intro keeps_intros stats_kept_modify) simp

lemma stats_kept_run_main: "keeps stats_kept (run_main fx df c owner opts)"
  unfolding run_main_def release_run_def
  by (intro stats_kept_defers keeps_intros stats_kept_frame [OF executeSequence_keeps]
      stats_kept_frame [OF executed.executeCleanupScope] stats_kept_modify) simp_all

lemma stats_kept_run_finish: "keeps stats_kept (run_finish fx df owner opts)"
  unfolding run_finish_def by (intro keeps_intros stats_kept_outputs)

lemma run_in_stats:
  assumes "run_state (run_in fx df c owner opts) m = (r, m')"
  shows "total (m_stats m') = run_total df \<and> stats_wf (m_stats m')"
proof -
  let ?tail = "run_main fx df c owner opts \<bind> (\<lambda>err. case err of Some e \<Rightarrow> ret (Inl e) | None \<Rightarrow> run_finish fx df owner opts)"
  have "keeps stats_kept ?tail"
    by (intro keeps_intros stats_kept_run_main stats_kept_run_finish)
  moreover have "run_state ?tail (m\<lparr>m_stats := empty_stats\<lparr>total := run_total df\<rparr>\<rparr>) = (r, m')"
    using assms by (simp add: run_in_def)
  ultimately have "stats_kept (m\<lparr>m_stats := empty_stats\<lparr>total := run_total df\<rparr>\<rparr>) m'"
    by (rule keepsD)
  moreover have "stats_wf (empty_stats\<lparr>total := run_total df\<rparr>)"
    using stats_wf_empty(1) by (simp add: stats_wf_def count_status_def)
  ultimately show ?thesis by (simp add: stats_kept_def stats_frame_def)
qed

subsection \<open>Properties\<close>


text \<open>C21: The written variables of a private state are complete: after a sequence, a variable that is
  not among them has the value it had before. Committing the written variables of a branch or a
  control therefore publishes every change the body made.\<close>

theorem sequence_written_vars:
  assumes "st_writtenVars (m_state m) = Some w"
  shows "\<exists>w'. st_writtenVars (m_state (snd (run_state (executeSequence fx df c ss opts) m))) = Some w' \<and> w |\<subseteq>| w' \<and>
    (\<forall>v. v |\<notin>| w' \<longrightarrow> fmlookup (st_vars (m_state (snd (run_state (executeSequence fx df c ss opts) m)))) v
           = fmlookup (st_vars (m_state m)) v)"
proof -
  let ?st = "m_state (snd (run_state (executeSequence fx df c ss opts) m))"
  have frame: "vars_frame (m_state m) ?st"
    using executeSequence_keeps [of fx df c ss opts, unfolded keeps_def, rule_format, of m]
    by (simp add: frame_def state_frame_def)
  then obtain w' where "st_writtenVars ?st = Some w'" "w |\<subseteq>| w'"
    using assms by (cases "st_writtenVars ?st") (auto simp: vars_frame_def written_grows_def)
  then show ?thesis using frame by (auto simp: vars_frame_def)
qed

theorem sequence_written_vars_witness:
  "\<exists>w'. st_writtenVars (m_state (snd (run_state (executeSequence idle_fx idle_df RunCtx [idle_leaf] idle_opts)
       idle_private))) = Some w' \<and> {||} |\<subseteq>| w' \<and>
    (\<forall>v. v |\<notin>| w' \<longrightarrow> fmlookup (st_vars (m_state (snd (run_state (executeSequence idle_fx idle_df RunCtx [idle_leaf] idle_opts)
       idle_private)))) v = None)"
  using sequence_written_vars [of idle_private "{||}" idle_fx idle_df RunCtx "[idle_leaf]" idle_opts]
  by (simp add: idle_private_def idle_mach_def privateState_def cloneState_def empty_wstate_def)

text \<open>C22: At the end of a run, successful or not, the statistics hold the total announced at its start,
  and the counters of succeeded, failed, skipped and cancelled steps are those of the records, so
  that together they count every record once.\<close>

theorem run_counters:
  "let stats = m_stats (snd (run_state (run fx df c owner opts) m)) in
   total stats = run_total df \<and> stats_wf stats \<and>
   succeeded stats + failed stats + skipped stats + canceled stats = length (rsteps stats)"
proof -
  have "total stats = run_total df \<and> stats_wf stats"
    if "stats = m_stats (snd (run_state (run fx df c owner opts) m))" for stats
    using that
    by (cases owner) (auto simp: run_def split: prod.splits dest: run_in_stats simp: run_in_stats [OF surjective_pairing])
  then show ?thesis by (auto simp: Let_def stats_wf_total)
qed


end
