(* ===== verification/GroupRun.thy ===== *)
theory GroupRun
  imports ConcurrentRun
begin

text \<open>
  The run of a concurrent group refines the scheduler: whatever the world answers, the loop of
  \<open>runConcurrentGraph\<close> takes only steps of the relation \<open>sched_step\<close> and stops, within its bound, in a state
  in which the scheduler is through. The properties of reachable scheduler states hold of every run.
\<close>

lemma pick_one_in:
  "run_state (pick_one fx xs) m = (i, m') \<Longrightarrow> xs \<noteq> [] \<Longrightarrow> i \<in> set xs"
  by (auto simp: pick_one_def split: prod.splits)

subsection \<open>One round of the loop\<close>

lemma running_exists:
  assumes "sched_inv grp n g st" and "b_running st \<noteq> 0" shows "running_branches st \<noteq> []"
proof -
  have "filter (\<lambda>s. s = Running) (b_status st) \<noteq> []"
    using assms by (auto simp: sched_inv_def totals_ok_def count_status_list_def)
  then obtain i where "i < length (b_status st)" "b_status st ! i = Running"
    by (auto simp: filter_empty_conv in_set_conv_nth)
  then have "i \<in> set (running_branches st)" by (simp add: running_branches_def)
  then show ?thesis by (metis empty_iff list.set(1))
qed

lemma poll_group_result:
  assumes "run_state (poll_group fx c grp st) m = (st', m')"
  shows "st' = st \<or> st' = st\<lparr>b_cancelled := True\<rparr>"
  using assms by (auto simp: poll_group_def split: if_splits prod.splits)

lemma take_completion_result:
  assumes "run_state (take_completion fx seq c grp steps g opts snapshot st) m = (st', m')" and "running_branches st \<noteq> []"
  obtains i oc where "i < length (b_status st)" "b_status st ! i = Running" "st' = complete grp steps g i oc st"
proof -
  obtain i m1 where pick: "run_state (pick_one fx (running_branches st)) m = (i, m1)"
    and rest: "run_state (do { oc \<leftarrow> run_branch fx seq c opts (steps ! i) (branch_read snapshot st i);
        (if out_err oc \<noteq> None \<and> conc_fail_fast grp then effect (fx_cancel (fx_time fx) c) else ret ());
        ret (complete grp steps g i oc st) }) m1 = (st', m')"
    using assms(1) unfolding take_completion_def by (rule run_bindE)
  have "i < length (b_status st)" "b_status st ! i = Running"
    using pick_one_in [OF pick assms(2)] by (simp_all add: running_branches_def)
  moreover have "\<exists>oc. st' = complete grp steps g i oc st"
    using rest by (auto split: prod.splits)
  ultimately show thesis using that by blast
qed

lemma work_context [simp]: "sched_work (st\<lparr>b_cancelled := z\<rparr>) = sched_work st"
  by (simp add: sched_work_def frame_simps)

lemma complete_progress:
  assumes reach: "group_reach grp steps snapshot st"
    and step: "sched_step grp steps (newConcurrentGraph steps) snapshot st (complete grp steps (newConcurrentGraph steps) i oc st)"
    and i: "i < length (b_status st)" "b_status st ! i = Running"
  shows "sched_work (complete grp steps (newConcurrentGraph steps) i oc st) < sched_work st"
proof (rule work_complete)
  show "sched_inv grp (length steps) (newConcurrentGraph steps) st" by (rule reach_inv [OF reach])
  show "i < length steps" "b_status st ! i = Running"
    using i reach_inv [OF reach] by (simp_all add: sched_inv_def lengths_ok_def)
  show "length (b_status (complete grp steps (newConcurrentGraph steps) i oc st)) = length steps"
    using reach_inv [OF sched_next [OF reach step]] by (simp add: sched_inv_def lengths_ok_def)
qed

lemma poll_round:
  assumes "run_state (poll_group fx c grp st) m = (st1, m1)" and "group_reach grp steps snapshot st" and "b_terminal st < length steps"
  shows "group_reach grp steps snapshot st1 \<and> b_terminal st1 < length steps \<and> sched_work st1 = sched_work st"
  using poll_group_result [OF assms(1)] assms(2,3) by (auto intro: sched_next sched_context)

lemma launch_round:
  assumes "group_reach grp steps snapshot st" "b_terminal st < length steps" "can_launch grp st"
  shows "group_reach grp steps snapshot (launch steps (newConcurrentGraph steps) snapshot st) \<and>
    sched_work (launch steps (newConcurrentGraph steps) snapshot st) < sched_work st"
  using sched_next [OF assms(1) sched_launch [OF assms(2,3)]] work_launch [OF reach_inv [OF assms(1)] assms(3)] by blast

lemma take_round:
  assumes take: "run_state (take_completion fx seq c grp steps (newConcurrentGraph steps) opts snapshot' st) m = (st2, m2)"
    and reach: "group_reach grp steps snapshot st" and "b_terminal st < length steps" "\<not> can_launch grp st" "b_running st \<noteq> 0"
  shows "group_reach grp steps snapshot st2 \<and> sched_work st2 < sched_work st"
proof -
  obtain i oc where i: "i < length (b_status st)" "b_status st ! i = Running"
    and st2: "st2 = complete grp steps (newConcurrentGraph steps) i oc st"
    by (rule take_completion_result [OF take running_exists [OF reach_inv [OF reach] assms(5)]])
  have step: "sched_step grp steps (newConcurrentGraph steps) snapshot st st2"
    unfolding st2 by (rule sched_complete [OF assms(3,4) i])
  then show ?thesis
    using sched_next [OF reach step] complete_progress [OF reach _ i] by (simp add: st2)
qed

subsection \<open>The loop\<close>

lemma graph_loop_reach:
  assumes "group_reach grp steps snapshot st" and "sched_work st < n"
    and "run_state (graph_loop n fx seq c grp steps (newConcurrentGraph steps) opts snapshot st) m = (st', m')"
  shows "group_reach grp steps snapshot st' \<and> \<not> sched_open grp steps st'"
  using assms
proof (induction n arbitrary: st m)
  case (Suc n)
  let ?g = "newConcurrentGraph steps"
  show ?case
  proof (cases "length steps \<le> b_terminal st")
    case True
    then show ?thesis using Suc.prems by (auto simp: sched_open_def)
  next
    case False
    obtain st1 m1 where poll: "run_state (poll_group fx c grp st) m = (st1, m1)"
      and rest: "run_state (if can_launch grp st1 then graph_loop n fx seq c grp steps ?g opts snapshot (launch steps ?g snapshot st1)
         else if b_running st1 = 0 then ret st1
         else do {
           st \<leftarrow> take_completion fx seq c grp steps ?g opts snapshot st1;
           graph_loop n fx seq c grp steps ?g opts snapshot st
         }) m1 = (st', m')"
      using Suc.prems(3) False by (auto split: prod.splits)
    have st1: "group_reach grp steps snapshot st1" "b_terminal st1 < length steps" "sched_work st1 \<le> n"
      using poll_round [OF poll Suc.prems(1)] False Suc.prems(2) by auto
    consider (launch) "can_launch grp st1" | (idle) "\<not> can_launch grp st1" "b_running st1 = 0"
      | (wait) "\<not> can_launch grp st1" "b_running st1 \<noteq> 0" by blast
    then show ?thesis
    proof cases
      case launch
      then show ?thesis using launch_round [OF st1(1,2)] st1(3) rest by (intro Suc.IH) auto
    next
      case idle
      then show ?thesis using rest st1(1) by (auto simp: sched_open_def)
    next
      case wait
      obtain st2 m2 where take: "run_state (take_completion fx seq c grp steps ?g opts snapshot st1) m1 = (st2, m2)"
        and more: "run_state (graph_loop n fx seq c grp steps ?g opts snapshot st2) m2 = (st', m')"
        using rest wait by (auto split: prod.splits)
      then show ?thesis using take_round [OF take st1(1,2) wait] st1(3) by (intro Suc.IH [OF _ _ more]) auto
    qed
  qed
qed simp

lemma initial_work: "sched_work (sched_init steps g) = 2 * length steps"
  by (simp add: sched_work_def sched_init_def Let_def count_status_list_def filter_replicate_empty)

lemma runConcurrentGraph_reach:
  assumes "run_state (runConcurrentGraph fx seq c grp steps opts snapshot) m = (outcomes, m')"
  shows "\<exists>st. group_reach grp steps snapshot st \<and> \<not> sched_open grp steps st \<and> b_outcomes st = outcomes"
proof -
  obtain st m1 where loop: "run_state (graph_loop (2 * length steps + 1) fx seq (WithCancel c) grp steps
      (newConcurrentGraph steps) opts snapshot (sched_init steps (newConcurrentGraph steps))) m = (st, m1)"
    and "outcomes = b_outcomes st"
    using assms by (auto simp: runConcurrentGraph_def Let_def simp del: graph_loop.simps split: prod.splits)
  then show ?thesis
    using graph_loop_reach [OF sched_start _ loop] by (auto simp: initial_work)
qed

text \<open>C24: Running a concurrent group refines the scheduler. Whatever the branches do and the world answers, the
  outcomes that runConcurrentGraph returns are those of a scheduler state that the step relation
  reaches from the initial state and in which the loop is through, with no work left that the loop
  of the code would still take.\<close>

theorem group_run_refines:
  "\<exists>st. sched_reach grp steps (newConcurrentGraph steps) snapshot st \<and> \<not> sched_open grp steps st \<and>
     b_outcomes st = fst (run_state (runConcurrentGraph fx seq c grp steps opts snapshot) m)"
  using runConcurrentGraph_reach [of fx seq c grp steps opts snapshot m] by (metis prod.collapse)

end
