(* ===== verification/SequenceStep.thy ===== *)
theory SequenceStep
  imports Interpreter GroupRun
begin

text \<open>
  The recursion of executeSequence without the guard that its termination proof needs: a handler runs
  sequences of steps that are nested in its own step only, so that the guard never holds one back. The
  locale \<open>agreeing\<close> compares a handler under two bodies that agree on all smaller sequences.
\<close>

subsection \<open>Sizes\<close>

lemma size_singleton: "s \<in> set ss \<Longrightarrow> size_list size [s] \<le> size_list size (ss :: step list)"
  by (induction ss) auto

lemma size_monitor [simp]: "size (MonitorDeclaration m) = size m"
  by (cases m) (simp add: MonitorDeclaration_def)

definition groups_smaller :: "nat \<Rightarrow> 'o defer_stack \<Rightarrow> bool" where
  "groups_smaller n st \<longleftrightarrow> (\<forall>g \<in> set (ds_groups st). size_list size (grp_steps g) < n)"

lemma groups_smaller_push: "groups_smaller n st \<Longrightarrow> size_list size (deferred s) < n \<Longrightarrow> groups_smaller n (push_group s st)"
  by (simp add: groups_smaller_def push_group_def)

lemma groups_smaller_collect:
  "groups_smaller n st \<Longrightarrow> size_list size scope \<le> n \<Longrightarrow> groups_smaller n (defer_collect scope st)"
proof (induction scope st rule: defer_collect.induct)
  case (2 s rest st)
  have rest: "size_list size rest \<le> n" and blocks: "size_list size (block_steps s) \<le> n"
    and own: "size_list size (deferred s) < n"
    using "2.prems"(2) size_block_steps [of s] by simp_all
  have "groups_smaller n (if isExecutorBlock s \<or> isWorktreeBlock s then st
      else if isEnvironmentBlock s \<or> isWorkingDirectoryBlock s \<or> isConditionalBlock s
      then defer_collect (block_steps s) st
      else if deferred s = [] then st else push_group s st)"
    using "2.IH"(1) [OF _ _ "2.prems"(1) blocks] groups_smaller_push [OF "2.prems"(1) own] "2.prems"(1)
    by simp
  then show ?case unfolding defer_collect.simps by (rule "2.IH"(2) [OF _ rest])
qed simp

lemma size_deferred_group:
  assumes "(i, ss) \<in> set (deferred_groups scope)" shows "size_list size ss < size_list size scope"
proof -
  have "groups_smaller (size_list size scope) (newDeferStack scope :: options defer_stack)"
    unfolding newDeferStack_def by (rule groups_smaller_collect) (simp_all add: groups_smaller_def empty_stack_def)
  then show ?thesis
    using assms by (auto simp: deferred_groups_def groups_smaller_def indexed_def dest!: set_zip_rightD)
qed

subsection \<open>Handlers under bodies that agree\<close>

lemmas branch_congs = if_cong option.case_cong sum.case_cong bool.case_cong prod.case_cong val.case_cong
  claim_result.case_cong

locale agreeing =
  fixes ok :: "step list \<Rightarrow> bool" and seq seq' :: "'w sequence"
  assumes agree: "ok ss \<Longrightarrow> seq c ss opts = seq' c ss opts"
    and ok_Nil: "ok []"
    and ok_one: "ok ss \<Longrightarrow> s \<in> set ss \<Longrightarrow> ok [s]"
    and ok_monitor: "ok ss \<Longrightarrow> s \<in> set ss \<Longrightarrow> ok [MonitorDeclaration s]"
    and ok_group: "ok scope \<Longrightarrow> (i, ss) \<in> set (deferred_groups scope) \<Longrightarrow> ok ss"
begin

lemma cleanup_steps:
  "\<forall>s \<in> set ss. ok [s] \<Longrightarrow> cleanup_steps seq c opts errs ss = cleanup_steps seq' c opts errs ss"
  by (induction ss arbitrary: errs) (simp_all add: agree Let_def cong: branch_congs)

lemma executeCleanupSteps: "ok ss \<Longrightarrow> executeCleanupSteps seq c ss opts = executeCleanupSteps seq' c ss opts"
  by (simp add: executeCleanupSteps_def cleanup_steps ok_one Let_def cong: branch_congs)

lemma run_groups:
  "\<forall>(i, ss) \<in> set gs. ok ss \<Longrightarrow> run_groups seq c gs = run_groups seq' c gs"
  by (induction gs rule: list.induct) (auto simp: run_group_def executeCleanupSteps Let_def cong: branch_congs)

lemma executeCleanupScope:
  assumes "ok scope" "ok final"
  shows "executeCleanupScope seq c scope final opts e records = executeCleanupScope seq' c scope final opts e records"
proof -
  have "run_groups seq c (deferred_groups scope) = run_groups seq' c (deferred_groups scope)" for c
    using assms(1) by (intro run_groups) (auto intro: ok_group)
  then show ?thesis using assms(2) by (simp add: executeCleanupScope_def executeDeferred_def executeCleanupSteps Let_def cong: branch_congs)
qed

lemma catch_steps: "\<forall>s \<in> set ss. ok [s] \<Longrightarrow> catch_steps fx seq c opts ss = catch_steps fx seq' c opts ss"
  by (induction ss) (simp_all add: agree Let_def cong: branch_congs)

lemma executeTryCatch:
  assumes "ok tries" "ok handlers" "ok (tries @ handlers)"
  shows "executeTryCatch fx df seq c s tries handlers opts = executeTryCatch fx df seq' c s tries handlers opts"
proof -
  have "run_catch fx seq c opts handlers e st stats = run_catch fx seq' c opts handlers e st stats" for e st stats
    using assms by (simp add: run_catch_def executeCatchPhase_def catch_steps ok_one Let_def cong: branch_congs)
  moreover have "executeCleanupScope seq c (tries @ handlers) [] opts e records =
      executeCleanupScope seq' c (tries @ handlers) [] opts e records" for c e records
    using assms ok_Nil by (intro executeCleanupScope)
  moreover have "seq c tries opts = seq' c tries opts" using assms by (intro agree)
  ultimately show ?thesis by (simp add: executeTryCatch_def run_try_def Let_def cong: branch_congs)
qed

lemma validated_steps: "ok ss \<Longrightarrow> validated_steps fx seq c l ss opts = validated_steps fx seq' c l ss opts"
  by (simp add: validated_steps_def agree Let_def cong: branch_congs)

lemma executeEnvironmentBlock:
  "ok ss \<Longrightarrow> executeEnvironmentBlock fx df seq c ops ss opts = executeEnvironmentBlock fx df seq' c ops ss opts"
  by (simp add: executeEnvironmentBlock_def validated_steps Let_def cong: branch_congs)

lemma executeWorkingDirectoryBlock:
  "ok ss \<Longrightarrow>
   executeWorkingDirectoryBlock fx df seq c t ss opts = executeWorkingDirectoryBlock fx df seq' c t ss opts"
  by (simp add: executeWorkingDirectoryBlock_def validated_steps Let_def cong: branch_congs)

lemma executeConditionalBlock:
  "ok ss \<Longrightarrow> executeConditionalBlock fx df seq c s ss opts = executeConditionalBlock fx df seq' c s ss opts"
  by (simp add: executeConditionalBlock_def agree Let_def cong: branch_congs)

lemma run_scope:
  "ok ss \<Longrightarrow> ok final \<Longrightarrow>
   run_scope fx seq c scope ss final opts = run_scope fx seq' c scope ss final opts"
  by (simp add: run_scope_def agree executeCleanupScope Let_def cong: branch_congs)

lemma executeExecutorBlock:
  "ok ss \<Longrightarrow> ok final \<Longrightarrow>
   executeExecutorBlock fx df seq c type config ss final opts = executeExecutorBlock fx df seq' c type config ss final opts"
  by (simp add: executeExecutorBlock_def run_session_def run_scope Let_def cong: branch_congs)

lemma executeWorktreeBlock:
  "ok ss \<Longrightarrow>
   executeWorktreeBlock fx df seq c s g ss opts = executeWorktreeBlock fx df seq' c s g ss opts"
  by (simp add: executeWorktreeBlock_def run_worktree_def worktree_body_def worktree_services_def run_scope ok_Nil Let_def cong: branch_congs)

lemma iteration_body: "ok ss \<Longrightarrow> iteration_body seq ss opts st = iteration_body seq' ss opts st"
  by (simp add: fun_eq_iff iteration_body_def agree Let_def cong: branch_congs)

lemma executeControl:
  "ok ss \<Longrightarrow> executeControl fx df seq c s kind ss p opts = executeControl fx df seq' c s kind ss p opts"
  by (simp add: executeControl_def run_fan_out_def iteration_body Let_def cong: branch_congs)

lemma executeOnce:
  "ok ss \<Longrightarrow> executeOnce fx df seq c s g ss opts = executeOnce fx df seq' c s g ss opts"
  by (simp add: executeOnce_def run_once_def claim_and_run_def with_claim_def run_claimed_def agree Let_def cong: branch_congs)

lemma loop_run:
  "ok ss \<Longrightarrow>
   loop_run k fx df seq c s g ss opts iterations nested = loop_run k fx df seq' c s g ss opts iterations nested"
  by (induction k arbitrary: iterations nested) (simp_all add: agree Let_def cong: branch_congs)

lemma executeLoop:
  "ok ss \<Longrightarrow> executeLoop fx df seq c s g ss opts = executeLoop fx df seq' c s g ss opts"
  by (simp add: executeLoop_def loop_run Let_def cong: branch_congs)

lemma attempt_loop:
  "ok ss \<Longrightarrow>
   attempt_loop k fx df seq c c' s control ss policy opts attempt previous v =
   attempt_loop k fx df seq' c c' s control ss policy opts attempt previous v"
  by (induction k arbitrary: attempt previous v) (simp_all add: run_pass_def agree Let_def cong: branch_congs)

lemma executeAttempt:
  "ok ss \<Longrightarrow> executeAttempt fx df seq c s control ss opts = executeAttempt fx df seq' c s control ss opts"
  by (simp add: executeAttempt_def run_attempts_def attempt_loop Let_def cong: branch_congs)

text \<open>The two handlers in which the world chooses who goes on\<close>

lemma run_participant:
  assumes "ok ss" "ok monitors" "i < length monitors + 1"
  shows "run_participant seq monitors ss opts st c i = run_participant seq' monitors ss opts st c i"
proof -
  have "ok (fst (race_declarations monitors ss ! i))"
    using assms ok_monitor [OF assms(2), of "monitors ! (i - 1)"]
    by (cases i) (simp_all add: race_declarations_def)
  then show ?thesis by (auto simp: run_participant_def agree Let_def split: prod.split)
qed

lemma race_from:
  assumes "ok ss" "ok monitors"
  shows "distinct remaining \<Longrightarrow> k = length remaining \<Longrightarrow> \<forall>i \<in> set remaining. i < length monitors + 1 \<Longrightarrow>
    race_from k fx c (run_participant seq monitors ss opts st) remaining winner =
    race_from k fx c (run_participant seq' monitors ss opts st) remaining winner"
proof (induction k arbitrary: remaining winner)
  case (Suc k)
  have same: "run_participant seq monitors ss opts st c i = run_participant seq' monitors ss opts st c i"
    and rest: "race_from k fx c (run_participant seq monitors ss opts st) (removeAll i remaining) w =
      race_from k fx c (run_participant seq' monitors ss opts st) (removeAll i remaining) w"
    if "run_state (pick_one fx remaining) m = (i, m')" for i w m and m' :: "'w mach"
  proof -
    have i: "i \<in> set remaining" using Suc.prems(2) by (intro pick_one_in [OF that]) auto
    then show "run_participant seq monitors ss opts st c i = run_participant seq' monitors ss opts st c i"
      using assms Suc.prems(3) by (intro run_participant) auto
    show "race_from k fx c (run_participant seq monitors ss opts st) (removeAll i remaining) w =
      race_from k fx c (run_participant seq' monitors ss opts st) (removeAll i remaining) w"
    proof (rule Suc.IH)
      show "k = length (removeAll i remaining)"
        using i Suc.prems(1,2) by (simp add: distinct_remove1_removeAll [symmetric] length_remove1)
    qed (use Suc.prems in \<open>simp_all add: distinct_removeAll\<close>)
  qed
  show ?case unfolding race_from.simps by (rule bind_agree) (simp add: same rest)
qed simp

lemma executeCancelOn:
  assumes "ok ss" "ok monitors"
  shows "executeCancelOn fx df seq c s t monitors ss opts = executeCancelOn fx df seq' c s t monitors ss opts"
proof -
  have "race_from (length monitors + 1) fx c' (run_participant seq monitors ss opts st) [0..<length monitors + 1] None =
      race_from (length monitors + 1) fx c' (run_participant seq' monitors ss opts st) [0..<length monitors + 1] None" for c' st
    using assms by (rule race_from) auto
  then have "Race fx c (length monitors + 1) (run_participant seq monitors ss opts st) =
      Race fx c (length monitors + 1) (run_participant seq' monitors ss opts st)" for st
    unfolding Race_def by simp
  then show ?thesis unfolding executeCancelOn_def run_race_def by (simp only: cong: branch_congs)
qed

lemma take_completion:
  assumes "ok steps" and reach: "group_reach grp steps snapshot st" and "b_running st \<noteq> 0"
  shows "take_completion fx seq c grp steps g opts snapshot st = take_completion fx seq' c grp steps g opts snapshot st"
  unfolding take_completion_def
proof (rule bind_agree)
  fix m i and m' :: "'w mach"
  assume pick: "run_state (pick_one fx (running_branches st)) m = (i, m')"
  note inv = reach_inv [OF reach]
  have "i < length steps"
    using pick_one_in [OF pick running_exists [OF inv assms(3)]] inv
    by (simp add: running_branches_def sched_inv_def lengths_ok_def)
  then have "seq c [steps ! i] opts = seq' c [steps ! i] opts"
    using ok_one [OF assms(1)] by (intro agree) simp
  then have "run_branch fx seq c opts (steps ! i) r = run_branch fx seq' c opts (steps ! i) r" for r
    by (simp add: run_branch_def cong: if_cong)
  then show "run_branch fx seq c opts (steps ! i) (branch_read snapshot st i) \<bind>
      (\<lambda>oc. (if out_err oc \<noteq> None \<and> conc_fail_fast grp then effect (fx_cancel (fx_time fx) c) else ret ()) \<bind>
        (\<lambda>_. ret (complete grp steps g i oc st))) =
    run_branch fx seq' c opts (steps ! i) (branch_read snapshot st i) \<bind>
      (\<lambda>oc. (if out_err oc \<noteq> None \<and> conc_fail_fast grp then effect (fx_cancel (fx_time fx) c) else ret ()) \<bind>
        (\<lambda>_. ret (complete grp steps g i oc st)))"
    by simp
qed

lemma graph_loop:
  assumes "ok steps"
  shows "group_reach grp steps snapshot st \<Longrightarrow>
    graph_loop k fx seq c grp steps (newConcurrentGraph steps) opts snapshot st =
    graph_loop k fx seq' c grp steps (newConcurrentGraph steps) opts snapshot st"
proof (induction k arbitrary: st)
  case (Suc k)
  let ?g = "newConcurrentGraph steps"
  have round: "(if can_launch grp st1 then graph_loop k fx seq c grp steps ?g opts snapshot (launch steps ?g snapshot st1)
       else if b_running st1 = 0 then ret st1
       else take_completion fx seq c grp steps ?g opts snapshot st1 \<bind> graph_loop k fx seq c grp steps ?g opts snapshot) =
     (if can_launch grp st1 then graph_loop k fx seq' c grp steps ?g opts snapshot (launch steps ?g snapshot st1)
       else if b_running st1 = 0 then ret st1
       else take_completion fx seq' c grp steps ?g opts snapshot st1 \<bind> graph_loop k fx seq' c grp steps ?g opts snapshot)"
    if poll: "run_state (poll_group fx c grp st) m = (st1, m1)" and unfinished: "b_terminal st < length steps" for m st1 m1
  proof -
    have st1: "group_reach grp steps snapshot st1" "b_terminal st1 < length steps"
      using poll_round [OF poll Suc.prems unfinished] by auto
    have "graph_loop k fx seq c grp steps ?g opts snapshot st2 = graph_loop k fx seq' c grp steps ?g opts snapshot st2"
      if "\<not> can_launch grp st1" "b_running st1 \<noteq> 0"
        and take: "run_state (take_completion fx seq' c grp steps ?g opts snapshot st1) m = (st2, m2)" for m st2 m2
      using take_round [OF take st1 that(1,2)] by (intro Suc.IH) simp
    then have "take_completion fx seq' c grp steps ?g opts snapshot st1 \<bind> graph_loop k fx seq c grp steps ?g opts snapshot =
        take_completion fx seq' c grp steps ?g opts snapshot st1 \<bind> graph_loop k fx seq' c grp steps ?g opts snapshot"
      if "\<not> can_launch grp st1" "b_running st1 \<noteq> 0" using that by (intro bind_agree)
    moreover have "graph_loop k fx seq c grp steps ?g opts snapshot (launch steps ?g snapshot st1) =
        graph_loop k fx seq' c grp steps ?g opts snapshot (launch steps ?g snapshot st1)" if "can_launch grp st1"
      using launch_round [OF st1 that] by (intro Suc.IH) simp
    ultimately show ?thesis using take_completion [OF assms st1(1)] by simp
  qed
  show ?case
    unfolding graph_loop.simps
    by (rule if_cong [OF refl refl], rule bind_agree, rule round) (simp_all add: not_le)
qed simp

lemma runConcurrent:
  "ok steps \<Longrightarrow> runConcurrent fx df seq c grp steps opts = runConcurrent fx df seq' c grp steps opts"
  by (simp add: runConcurrent_def runConcurrentGraph_def graph_loop [OF _ sched_start] Let_def del: graph_loop.simps)

lemma run_entry:
  assumes "list_all (ok \<circ> snd) (childSequences s)"
    and "\<And>tries handlers. body s = TryCatchCtl tries handlers \<Longrightarrow> ok (tries @ handlers)"
  shows "run_entry fx df seq c s opts = run_entry fx df seq' c s opts"
proof (cases "body s")
  case (TryCatchCtl tries handlers)
  then have "ok tries" "ok handlers" "ok (tries @ handlers)"
    using assms by (simp_all add: childSequences_def)
  then show ?thesis using TryCatchCtl by (simp add: run_entry_def executeTryCatch)
qed (use assms(1) in \<open>simp_all add: run_entry_def childSequences_def with_deferred_def
      executeExecutorBlock executeEnvironmentBlock executeWorkingDirectoryBlock executeWorktreeBlock executeConditionalBlock
      runConcurrent executeCancelOn executeOnce executeControl executeAttempt executeLoop split: if_splits\<close>)

end

subsection \<open>The equation of executeSequence\<close>

lemma smaller_one: "size_list size (ss :: step list) < k \<Longrightarrow> s \<in> set ss \<Longrightarrow> size_list size [s] < (k :: nat)"
  using size_singleton [of s ss] by simp

lemma smaller_monitor: "size_list size ss < k \<Longrightarrow> s \<in> set ss \<Longrightarrow> size_list size [MonitorDeclaration s] < (k :: nat)"
  using size_singleton [of s ss] by simp

lemma smaller_group: "size_list size scope < k \<Longrightarrow> (i, ss) \<in> set (deferred_groups scope) \<Longrightarrow> size_list size ss < (k :: nat)"
  by (drule size_deferred_group) simp

interpretation below: agreeing "\<lambda>ss. size_list size ss < size_list size (s # rest)" "below (s # rest) seq" seq for s rest seq
  by unfold_locales (erule (1) smaller_one smaller_monitor smaller_group | simp add: below_def)+

lemma nested_children:
  "list_all ((\<lambda>ss. size_list size ss < size_list size (s # rest)) \<circ> snd) (childSequences s)"
  using size_child_sequence [of _ _ s] by (force simp: list_all_iff)

lemma try_scope:
  "body s = TryCatchCtl tries handlers \<Longrightarrow> size_list size (tries @ handlers) < size_list size (s # rest)"
  by (cases s) (simp add: size_list_append_steps)

lemma executeSequence_Cons:
  "executeSequence fx df c (s # rest) opts = do {
     next \<leftarrow> run_entry fx df (executeSequence fx df) c s opts;
     (case next of
        Abort e \<Rightarrow> ret (Some e)
      | Leave \<Rightarrow> do { change_stats (recordSkippedSteps rest); ret None }
      | Continue \<Rightarrow> executeSequence fx df c rest opts)
   }"
  by (simp only: executeSequence.simps below.run_entry [OF nested_children try_scope])

declare executeSequence.simps(2) [simp del]


end
