(* ===== verification/Returning.thy ===== *)
theory Returning
  imports RunProperties SequenceStep
begin

text \<open>
  Sequences that return. The interpreter marks a run that does not return as stuck: an attempt that
  polls beyond the bound of the world, a loop or a group that uses up its bound, and the Go panics
  on values that a valid document excludes. For documents without polling attempts the marks are
  never set: the bounds are enough, and the run returns.
\<close>

definition calm :: "'w mach \<Rightarrow> 'w mach \<Rightarrow> bool" where
  "calm m m' \<longleftrightarrow> (m_stuck m' \<longrightarrow> m_stuck m)"

interpretation calm: world_relation calm
  by unfold_locales (simp_all add: calm_def)

lemma calm_modify [keeps_intros]:
  "keeps calm (change_state f)" "keeps calm (change_stats g)" "keeps calm (modify (\<lambda>m. m\<lparr>m_defers := h m\<rparr>))"
  by (simp_all add: keeps_def calm_def)

lemma calm_defers: "keeps calm act \<Longrightarrow> keeps calm (with_defers d act)"
  by (rule keepsI) (auto simp: with_defers_def calm_def dest!: keepsD split: prod.split)

lemma calm_counted: "keeps calm act \<Longrightarrow> keeps calm (run_counted stats act)"
  by (rule keepsI) (auto simp: run_counted_def calm_def dest!: keepsD split: prod.split)

subsection \<open>Documents whose runs return\<close>

text \<open>\<open>steady\<close> says that no context of the run ends: then every iteration of a fan-out is started.\<close>

definition contexts_live :: "'w effects \<Rightarrow> bool" where
  "contexts_live fx \<longleftrightarrow> (\<forall>c w. fst (fx_poll (fx_time fx) c w) = Live)"

definition operation_present :: "env_operation \<Rightarrow> bool" where
  "operation_present operation \<longleftrightarrow> op_set operation \<noteq> None \<or> op_unset operation \<noteq> None"

definition bounded_step :: "bool \<Rightarrow> step \<Rightarrow> bool" where
  "bounded_step steady s = (case body s of
     AttemptCtl control _ \<Rightarrow> att_until control = []
   | LoopCtl g _ \<Rightarrow> 1 \<le> loop_max_iterations g
   | EnvBlock ops _ \<Rightarrow> list_all operation_present ops
   | BatchCtl _ _ _ _ \<Rightarrow> steady
   | ForeachCtl _ _ _ \<Rightarrow> steady
   | MatrixCtl _ _ _ \<Rightarrow> steady
   | _ \<Rightarrow> True)"

function (sequential) bounded :: "bool \<Rightarrow> step list \<Rightarrow> bool" where
  "bounded steady [] = True"
| "bounded steady (s # rest) =
     (bounded_step steady s \<and> list_all (\<lambda>c. bounded steady (snd c)) (childSequences s) \<and> bounded steady (deferred s) \<and>
      bounded steady rest)"
  by pat_completeness auto
termination
proof (relation "measure (\<lambda>(_, ss). size_list size ss)", goal_cases)
  case (2 steady s rest c)
  then show ?case using size_child_sequence [of "fst c" "snd c" s] by simp
next
  case (3 steady s rest)
  then show ?case using size_block_steps(3) [of s] by simp
qed simp_all

lemma bounded_all: "bounded steady ss \<longleftrightarrow> (\<forall>s \<in> set ss. bounded steady [s])"
  by (induction ss) auto

lemma bounded_append [simp]: "bounded steady (xs @ ys) \<longleftrightarrow> bounded steady xs \<and> bounded steady ys"
  by (induction xs) auto

lemma bounded_monitor: "bounded steady [s] \<Longrightarrow> bounded steady [MonitorDeclaration s]"
proof -
  have "childSequences (MonitorDeclaration s) = childSequences s"
    by (cases "body s") (simp_all add: childSequences_def MonitorDeclaration_def with_deferred_def)
  then show "bounded steady [s] \<Longrightarrow> bounded steady [MonitorDeclaration s]"
    by (simp add: bounded_step_def) (simp add: MonitorDeclaration_def)
qed

lemma bounded_block: "bounded steady [s] \<Longrightarrow> bounded steady (block_steps s)"
  by (cases "body s") (auto simp: block_steps_def childSequences_def with_deferred_def split: if_splits)

definition groups_bounded :: "bool \<Rightarrow> 'o defer_stack \<Rightarrow> bool" where
  "groups_bounded steady st \<longleftrightarrow> (\<forall>g \<in> set (ds_groups st). bounded steady (grp_steps g))"

lemma groups_bounded_collect:
  "groups_bounded steady st \<Longrightarrow> bounded steady scope \<Longrightarrow> groups_bounded steady (defer_collect scope st)"
proof (induction scope st rule: defer_collect.induct)
  case (2 s rest st)
  have "groups_bounded steady (if isExecutorBlock s \<or> isWorktreeBlock s then st
      else if isEnvironmentBlock s \<or> isWorkingDirectoryBlock s \<or> isConditionalBlock s
      then defer_collect (block_steps s) st
      else if deferred s = [] then st else push_group s st)"
    using "2.IH"(1) [OF _ _ "2.prems"(1) bounded_block] "2.prems"
    by (auto simp: groups_bounded_def push_group_def)
  then show ?case unfolding defer_collect.simps by (rule "2.IH"(2)) (use "2.prems"(2) in simp)
qed simp

lemma bounded_group:
  "bounded steady scope \<Longrightarrow> (i, ss) \<in> set (deferred_groups scope) \<Longrightarrow> bounded steady ss"
  using groups_bounded_collect [of steady "empty_stack :: options defer_stack" scope]
  by (auto simp: deferred_groups_def groups_bounded_def newDeferStack_def empty_stack_def indexed_def dest!: set_zip_rightD)

text \<open>A body that does nothing on other sequences\<close>

definition restricted :: "(step list \<Rightarrow> bool) \<Rightarrow> 'w sequence \<Rightarrow> 'w sequence" where
  "restricted ok seq c ss opts = (if ok ss then seq c ss opts else ret None)"

interpretation bounded: agreeing "bounded steady" seq "restricted (bounded steady) seq" for steady seq
proof unfold_locales
  fix ss :: "step list" and s :: step
  assume "bounded steady ss" and "s \<in> set ss"
  then show "bounded steady [s]" using bounded_all by blast
  then show "bounded steady [MonitorDeclaration s]" by (rule bounded_monitor)
qed (auto simp: restricted_def intro: bounded_group)

interpretation nested: agreeing "\<lambda>ss. size_list size ss < size_list size (s # rest)" seq
    "restricted (\<lambda>ss. size_list size ss < size_list size (s # rest)) seq" for s rest seq
  by unfold_locales (erule (1) smaller_one smaller_monitor smaller_group | simp add: restricted_def)+

subsection \<open>Handlers over a body that returns\<close>

locale calm_body =
  fixes seq :: "'w sequence"
  assumes body: "keeps calm (seq c ss opts)"
begin

lemma cleanup_steps: "keeps calm (cleanup_steps seq c opts errs ss)"
  by (induction ss arbitrary: errs) (auto intro!: keeps_intros body)

lemma executeCleanupSteps: "keeps calm (executeCleanupSteps seq c ss opts)"
  unfolding executeCleanupSteps_def by (intro keeps_intros cleanup_steps)

lemma run_group: "keeps calm (run_group seq c ss captured)"
  unfolding run_group_def by (intro keeps_intros executeCleanupSteps)

lemma run_groups: "keeps calm (run_groups seq c gs)"
  by (induction gs rule: list.induct) (auto intro!: keeps_intros run_group)

lemma executeCleanupScope: "keeps calm (executeCleanupScope seq c scope final opts e records)"
  unfolding executeCleanupScope_def executeDeferred_def by (intro keeps_intros executeCleanupSteps run_groups)

end

sublocale calm_body \<subseteq> controls: private_body calm calm seq
  by unfold_locales
    (auto simp: calm_def keeps_def register_cleanup_def adopt_cleanups_def record_failure_def
      intro: body [unfolded keeps_def calm_def, rule_format] executeCleanupScope [unfolded keeps_def calm_def, rule_format])

context calm_body
begin

subsection \<open>Blocks, scopes and loops\<close>

lemma env_operations: "list_all operation_present ops \<Longrightarrow> keeps calm (env_operations fx i ops ov)"
  by (induction ops arbitrary: i ov)
    (auto simp: Let_def operation_present_def split: option.split intro!: keeps_intros)

lemma validated_steps: "keeps calm (validated_steps fx seq c l ss opts)"
  unfolding validated_steps_def by (intro keeps_intros body)

lemma executeEnvironmentBlock:
  "list_all operation_present ops \<Longrightarrow> keeps calm (executeEnvironmentBlock fx df seq c ops ss opts)"
  unfolding executeEnvironmentBlock_def renderEnvironmentOverlay_def
  by (intro keeps_intros env_operations validated_steps)

lemma executeWorkingDirectoryBlock: "keeps calm (executeWorkingDirectoryBlock fx df seq c t ss opts)"
  unfolding executeWorkingDirectoryBlock_def by (intro keeps_intros validated_steps)

lemma executeConditionalBlock: "keeps calm (executeConditionalBlock fx df seq c s ss opts)"
  unfolding executeConditionalBlock_def by (intro keeps_intros body)

lemma run_scope: "keeps calm (run_scope fx seq c scope ss final opts)"
  unfolding run_scope_def by (intro calm_defers keeps_intros body executeCleanupScope)

lemma executeExecutorBlock: "keeps calm (executeExecutorBlock fx df seq c type config ss final opts)"
  unfolding executeExecutorBlock_def run_session_def by (intro keeps_intros run_scope)

lemma worktree_body: "keeps calm (worktree_body fx df seq c s g site ss opts)"
  unfolding worktree_body_def worktree_services_def Let_def by (intro keeps_intros run_scope)

lemma executeWorktreeBlock: "keeps calm (executeWorktreeBlock fx df seq c s g ss opts)"
  unfolding executeWorktreeBlock_def run_worktree_def by (intro keeps_intros calm_counted worktree_body)

text \<open>A loop makes at most \<open>max_iterations\<close> iterations.\<close>

lemma loop_run:
  "loop_max_iterations g - int iterations \<le> int n \<Longrightarrow> int iterations < loop_max_iterations g \<Longrightarrow>
   keeps calm (loop_run n fx df seq c s g ss opts iterations nested)"
proof (induction n arbitrary: iterations nested)
  case (Suc n)
  have again: "keeps calm (loop_run n fx df seq c s g ss opts (Suc iterations) stats)"
    if "int (Suc iterations) \<noteq> loop_max_iterations g" for stats
    using Suc.prems that by (intro Suc.IH) simp_all
  show ?case
    unfolding loop_run.simps Let_def by (intro keeps_intros calm_counted body again)
qed simp

lemma executeLoop: "1 \<le> loop_max_iterations g \<Longrightarrow> keeps calm (executeLoop fx df seq c s g ss opts)"
  unfolding executeLoop_def Let_def by (intro loop_run) simp_all

text \<open>A concurrent group ends within its bound.\<close>

lemma run_branch: "keeps calm (run_branch fx seq c opts s snap)"
  unfolding run_branch_def by (intro keeps_intros controls.apart body)

lemma take_completion: "keeps calm (take_completion fx seq c grp steps g opts snapshot st)"
  unfolding take_completion_def by (intro keeps_intros run_branch)

lemma graph_loop:
  "group_reach grp steps snapshot st \<Longrightarrow> sched_work st < n \<Longrightarrow>
   keeps calm (graph_loop n fx seq c grp steps (newConcurrentGraph steps) opts snapshot st)"
proof (induction n arbitrary: st)
  case (Suc n)
  let ?g = "newConcurrentGraph steps"
  have round: "keeps calm (if can_launch grp st1 then graph_loop n fx seq c grp steps ?g opts snapshot (launch steps ?g snapshot st1)
      else if b_running st1 = 0 then ret st1
      else take_completion fx seq c grp steps ?g opts snapshot st1 \<bind> graph_loop n fx seq c grp steps ?g opts snapshot)"
    if poll: "run_state (poll_group fx c grp st) m = (st1, m1)" and unfinished: "b_terminal st < length steps" for m st1 m1
  proof -
    have st1: "group_reach grp steps snapshot st1" "b_terminal st1 < length steps" "sched_work st1 \<le> n"
      using poll_round [OF poll Suc.prems(1) unfinished] Suc.prems(2) by auto
    have "keeps calm (graph_loop n fx seq c grp steps ?g opts snapshot (launch steps ?g snapshot st1))" if "can_launch grp st1"
      using launch_round [OF st1(1,2) that] st1(3) by (intro Suc.IH) auto
    moreover have "keeps calm (graph_loop n fx seq c grp steps ?g opts snapshot st2)"
      if "\<not> can_launch grp st1" "b_running st1 \<noteq> 0"
        and "run_state (take_completion fx seq c grp steps ?g opts snapshot st1) m = (st2, m2)" for m st2 m2
      using take_round [OF that(3) st1(1,2) that(1,2)] st1(3) by (intro Suc.IH) auto
    ultimately show ?thesis
      by (intro keeps_if calm.ret calm.bind_value [OF take_completion]) auto
  qed
  show ?case
    unfolding graph_loop.simps
    by (rule keeps_if, rule calm.ret, rule calm.bind_value [OF calm.poll_group]) (erule round, simp add: not_le)
qed simp

lemma runConcurrent: "keeps calm (runConcurrent fx df seq c grp steps opts)"
  unfolding runConcurrent_def runConcurrentGraph_def Let_def
  by (intro keeps_intros graph_loop sched_start) (simp_all add: initial_work)

end

subsection \<open>Fan-outs whose iterations all start\<close>

lemma live_ctx_err:
  assumes "contexts_live fx" shows "yields (\<lambda>e. e = None) (ctx_err fx c)"
proof (cases c)
  case (WithoutCancel x4)
  then show ?thesis by (simp add: yields_ret)
qed (use assms in \<open>auto simp: yields_def contexts_live_def ctx_state_error_def split: prod.split ctx_state.split dest: spec\<close>,
    (metis ctx_state.distinct(1,3) fst_conv)+)

lemma live_run_one: "contexts_live fx \<Longrightarrow> yields (\<lambda>oc. fo_state oc \<noteq> None) (run_one fx c z iterate it)"
  unfolding run_one_def by (rule yields_bind_value [OF live_ctx_err]) (auto intro!: yields_intros)

lemma live_FanOut: "contexts_live fx \<Longrightarrow> yields (list_all (\<lambda>oc. fo_state oc \<noteq> None)) (FanOut fx c z iterate its)"
proof (induction its)
  case (Cons it its)
  show ?case unfolding FanOut.simps
    by (rule yields_bind_value [OF live_ctx_err [OF Cons.prems]])
      (auto intro!: yields_bind_value [OF live_run_one [OF Cons.prems]] yields_bind_value [OF Cons.IH [OF Cons.prems]]
        yields_ret)
qed (simp add: yields_ret)

lemma live_control_Run:
  assumes "contexts_live fx"
  shows "yields (\<lambda>(ocs, e). e = None \<longrightarrow> list_all (\<lambda>oc. fo_state oc \<noteq> None) ocs) (control_Run fx c its p iterate)"
  unfolding control_Run_def Let_def
  by (intro yields_option yields_ret yields_bind_value [OF live_FanOut [OF assms]]) (auto intro!: yields_intros)

lemma those_present: "list_all (\<lambda>x. f x \<noteq> None) xs \<Longrightarrow> those (map f xs) \<noteq> None"
  by (induction xs) auto

lemma calm_bind_yields:
  "keeps calm act \<Longrightarrow> yields Q act \<Longrightarrow> (\<And>a. Q a \<Longrightarrow> keeps calm (k a)) \<Longrightarrow> keeps calm (act \<bind> k)"
  by (rule calm.bind_value) (auto dest: yieldsD)

context calm_body
begin

lemma FanOut: "keeps calm (FanOut fx c z (iteration_body seq ss opts st) its)"
  by (rule controls.FanOut)

lemma finish_fan_out:
  "list_all (\<lambda>oc. fo_state oc \<noteq> None) ocs \<Longrightarrow> keeps calm (finish_fan_out fx df c s kind t opts ocs)"
  using those_present [of fo_state ocs]
  by (cases "those (map fo_state ocs)") (auto simp: finish_fan_out_def Let_def intro!: keeps_intros)

lemma run_fan_out:
  assumes "contexts_live fx"
  shows "keeps calm (run_fan_out fx df seq c s kind ss p opts)"
proof -
  have "keeps calm (case r of (ocs, err) \<Rightarrow> (case err of Some e \<Rightarrow> ret (f ocs e)
      | None \<Rightarrow> finish_fan_out fx df c s kind t opts ocs))"
    if "case r of (ocs, err) \<Rightarrow> err = None \<longrightarrow> list_all (\<lambda>oc. fo_state oc \<noteq> None) ocs"
    for r t and f :: "fan_outcome list \<Rightarrow> goerr \<Rightarrow> step_outcome"
    using that by (cases r; cases "snd r") (simp_all add: calm.ret finish_fan_out)
  then show ?thesis
    unfolding run_fan_out_def Let_def
    by (intro calm.bind [OF calm.gets] calm.bind [OF calm.expandControl] keeps_sum calm.ret
        calm_bind_yields [OF controls.control_Run live_control_Run [OF assms]])
qed

lemma executeControl: "contexts_live fx \<Longrightarrow> keeps calm (executeControl fx df seq c s kind ss p opts)"
  unfolding executeControl_def by (intro keeps_intros run_fan_out)

subsection \<open>Attempts without a readiness condition\<close>

lemma after_success_ends:
  "att_until control = [] \<Longrightarrow> yields isl (after_success fx df c c' s control ss policy opts attempt p stat v)"
  unfolding after_success_def by (auto intro!: yields_intros)

lemma after_failure_counts:
  "yields (\<lambda>r. \<not> isl r \<longrightarrow> attempt \<noteq> ra_max_attempts policy)
     (after_failure fx df c c' s control ss policy opts attempt p e v)"
  unfolding after_failure_def by (intro yields_intros) (auto split: option.split)

lemma attempt_loop:
  assumes "att_until control = []"
  shows "attempt \<le> ra_max_attempts policy \<Longrightarrow> ra_max_attempts policy - attempt < int n \<Longrightarrow>
    keeps calm (attempt_loop n fx df seq c c' s control ss policy opts attempt previous v)"
proof (induction n arbitrary: attempt previous v)
  case (Suc n)
  have failed: "keeps calm (after_failure fx df c c' s control ss policy opts attempt p e v \<bind>
      (\<lambda>next. case next of Inl oc \<Rightarrow> ret oc
        | Inr v \<Rightarrow> attempt_loop n fx df seq c c' s control ss policy opts (attempt + 1) prev v))" for p e v prev
    by (rule calm_bind_yields [OF calm.after_failure after_failure_counts])
      (use Suc.prems in \<open>auto intro!: calm.ret Suc.IH split: sum.split\<close>)
  have succeeded: "keeps calm (after_success fx df c c' s control ss policy opts attempt p stat v \<bind>
      (\<lambda>next. case next of Inl oc \<Rightarrow> ret oc
        | Inr v \<Rightarrow> attempt_loop n fx df seq c c' s control ss policy opts attempt prev v))" for p stat v prev
    by (rule calm_bind_yields [OF controls.after_success after_success_ends [OF assms]])
      (auto intro!: calm.ret split: sum.split)
  show ?case
    unfolding attempt_loop.simps Let_def
    by (intro keeps_intros controls.run_pass succeeded failed)
qed simp

lemma executeAttempt:
  assumes "att_until control = []"
  shows "keeps calm (executeAttempt fx df seq c s control ss opts)"
proof -
  have policy: "keeps calm (if IsDelay control then run_delay fx df c s policy else run_attempts fx df seq c s control ss policy opts)"
    if "ResolvedAttempt_validate policy control True = None" for policy
  proof (rule keeps_if)
    assume "\<not> IsDelay control"
    then have "1 \<le> ra_max_attempts policy"
      using that by (auto simp: ResolvedAttempt_validate_def Let_def split: if_splits)
    then show "keeps calm (run_attempts fx df seq c s control ss policy opts)"
      unfolding run_attempts_def by (intro keeps_intros attempt_loop assms) simp_all
  qed (intro keeps_intros)
  have "yields (\<lambda>r. case r of Inl _ \<Rightarrow> True | Inr policy \<Rightarrow> ResolvedAttempt_validate policy control True = None)
      (resolve_policy fx df opts control)"
    by (auto simp: yields_def resolve_policy_def dest: resolve_validated split: sum.split)
  moreover have "keeps calm (case r of Inl e \<Rightarrow> ret (attempt_fail df s e no_attempts)
      | Inr policy \<Rightarrow> if IsDelay control then run_delay fx df c s policy
          else run_attempts fx df seq c s control ss policy opts)"
    if "case r of Inl _ \<Rightarrow> True | Inr policy \<Rightarrow> ResolvedAttempt_validate policy control True = None" for r
    using that by (cases r) (simp_all only: sum.case calm.ret policy)
  ultimately have "keeps calm (resolve_policy fx df opts control \<bind> (\<lambda>policy. case policy of
      Inl e \<Rightarrow> ret (attempt_fail df s e no_attempts)
    | Inr policy \<Rightarrow> if IsDelay control then run_delay fx df c s policy
        else run_attempts fx df seq c s control ss policy opts))"
    by (rule calm_bind_yields [OF calm.resolve_policy])
  then show ?thesis
    unfolding executeAttempt_def
    by (intro calm.bind [OF calm.ctx_err] calm.bind [OF calm.step_condition] keeps_option keeps_sum keeps_if calm.ret)
qed

subsection \<open>One step\<close>

lemma account: "keeps calm (account s oc)"
  unfolding account_def by (intro keeps_intros)

lemma conclude: "keeps calm (conclude s opts oc)"
  unfolding conclude_def commit_def register_defer_def by (intro keeps_intros account)

lemma after_block: "keeps calm (after_block e)"
  unfolding after_block_def by (intro keeps_intros)

lemma conclude_worktree: "keeps calm (conclude_worktree s oc)"
  unfolding conclude_worktree_def commit_def by (intro keeps_intros account after_block)

lemma executeReturn: "keeps calm (executeReturn fx df c s rc opts)"
  unfolding executeReturn_def by (intro keeps_intros)

lemma run_entry:
  assumes "bounded_step steady s" and "steady \<Longrightarrow> contexts_live fx"
  shows "keeps calm (run_entry fx df seq c s opts)"
  unfolding run_entry_def using assms
  by (cases "body s"; simp only: step_body.case bounded_step_def;
      intro calm.bind calm.ret conclude conclude_worktree after_block executeExecutorBlock executeEnvironmentBlock
        executeWorkingDirectoryBlock executeWorktreeBlock executeConditionalBlock executeReturn runConcurrent
        controls.executeTryCatch controls.executeCancelOn calm.executeBackgroundControl controls.executeOnce
        executeControl executeAttempt executeLoop controls.executeStep)
    simp_all

end

subsection \<open>Sequences and runs\<close>

lemma sequence_calm:
  "bounded steady ss \<Longrightarrow> (steady \<Longrightarrow> contexts_live fx) \<Longrightarrow> keeps calm (executeSequence fx df c ss opts)"
proof (induction fx df c ss opts rule: executeSequence.induct)
  case (1 fx df c opts)
  show ?case by (simp add: calm.ret)
next
  case (2 fx df c s rest opts)
  let ?inner = "restricted (\<lambda>ss. size_list size ss < size_list size (s # rest)) (executeSequence fx df)"
  let ?seq = "restricted (bounded steady) ?inner"
  have bounded: "list_all (bounded steady \<circ> snd) (childSequences s)" "\<And>tries handlers. body s = TryCatchCtl tries handlers \<Longrightarrow>
      bounded steady (tries @ handlers)"
    using "2.prems"(1) by (simp_all add: comp_def) (simp add: childSequences_def)
  have "calm_body ?seq"
    using "2.IH"(1) "2.prems"(2) by unfold_locales (auto simp: restricted_def calm.ret)
  then have "keeps calm (run_entry fx df ?seq c s opts)"
    by (rule calm_body.run_entry [where steady = steady]) (use "2.prems" in simp_all)
  moreover have "run_entry fx df (executeSequence fx df) c s opts = run_entry fx df ?seq c s opts"
    by (rule trans [OF nested.run_entry [OF nested_children try_scope] bounded.run_entry [OF bounded]])
  ultimately have "keeps calm (run_entry fx df (executeSequence fx df) c s opts)" by simp
  then show ?case
    unfolding executeSequence_Cons using "2.IH"(2) "2.prems"
    by (auto intro!: calm.bind keeps_intros split: flow.split)
qed

interpretation returning: calm_body "restricted (bounded False) (executeSequence fx df)" for fx df
  using sequence_calm [of False] by unfold_locales (auto simp: restricted_def calm.ret)

text \<open>The same of a whole run, with its cleanup and its outputs\<close>

lemma cleanup_calm:
  assumes "bounded steady scope" "bounded steady final" "steady \<Longrightarrow> contexts_live fx"
  shows "keeps calm (executeCleanupScope (executeSequence fx df) c scope final opts e records)"
proof -
  have "calm_body (restricted (bounded steady) (executeSequence fx df))"
    using sequence_calm [OF _ assms(3)] by unfold_locales (auto simp: restricted_def calm.ret)
  then show ?thesis
    by (subst bounded.executeCleanupScope [OF assms(1,2)]) (rule calm_body.executeCleanupScope)
qed

lemma run_in_calm:
  assumes "bounded steady (df_steps df)" "bounded steady (df_finally df)" "steady \<Longrightarrow> contexts_live fx"
  shows "keeps calm (run_in fx df c owner opts)"
proof -
  have "keeps calm (release_run fx c)" for c
    unfolding release_run_def by (intro keeps_intros) (simp_all add: keeps_def calm_def)
  moreover have "keeps calm (run_finish fx df owner opts)"
    unfolding run_finish_def finishWorkflowOutputs_def by (intro keeps_intros)
  ultimately show ?thesis
    unfolding run_in_def run_main_def
    by (intro calm_defers keeps_intros sequence_calm [OF assms(1,3)] cleanup_calm [OF assms])
qed

subsection \<open>Property\<close>

text \<open>C25: A run of a workflow without polling attempts returns: when every loop has a positive bound,
  every environment operation is present and, where there are fan-outs, no context of the run ends
  early, the machine is not stuck after the run. The bounds of the attempts, loops and
  concurrent groups are never used up, and the recursion of executeSequence always goes on.\<close>

theorem run_returns:
  assumes "bounded steady (df_steps df)" and "bounded steady (df_finally df)" and "steady \<Longrightarrow> contexts_live fx"
    and "\<not> m_stuck m"
  shows "\<not> m_stuck (snd (run_state (run fx df c owner opts) m))"
proof -
  have "keeps calm (run fx df c owner opts)"
    unfolding run_def by (intro keeps_intros run_in_calm [OF assms(1-3)])
  then show ?thesis using assms(4) unfolding keeps_def calm_def by blast
qed

definition returning_df :: run_definition where
  "returning_df = idle_df\<lparr>df_steps := [
     idle_step ''loop'' (LoopCtl \<lparr>loop_until = ''true'', loop_delay_literal = 0, loop_delay_expression = [],
       loop_max_iterations = 3, loop_timeout = None\<rparr> [idle_leaf]),
     idle_step ''attempt'' (AttemptCtl (demo_attempt []) [idle_leaf]),
     idle_step ''group'' (ConcurrentBlock \<lparr>conc_max_concurrency = 2, conc_timeout = None, conc_fail_fast = True\<rparr>
       [idle_step ''a'' (Leaf ''print'' fmempty), idle_step ''b'' (Leaf ''print'' fmempty)])],
   df_finally := [idle_leaf]\<rparr>"

theorem run_returns_witness:
  "\<not> m_stuck (snd (run_state (run idle_fx returning_df RunCtx True idle_opts) (idle_mach ())))"
  by (rule run_returns [where steady = False])
    (simp_all add: returning_df_def idle_df_def idle_step_def idle_leaf_def bounded_step_def childSequences_def
      with_deferred_def demo_attempt_def idle_mach_def)

end
