(* ===== verification/OnceProperties.thy ===== *)
theory OnceProperties
  imports RunProperties "HOL-Library.Multiset"
begin

text \<open>
  What the once control promises: a recorded outcome reads back as it was written, a key with a record
  is replayed without running the body, and every claim that is taken is given back.
\<close>

subsection \<open>Records read back\<close>

definition valid_finding :: "check_finding \<Rightarrow> bool" where
  "valid_finding f \<longleftrightarrow> chk_id f \<noteq> [] \<and> chk_status f \<in> {''ok'', ''warn'', ''fail''}"

lemma decode_check_value: "valid_finding f \<Longrightarrow> decode_check (check_value f) = Some f"
  by (cases f) (simp add: decode_check_def check_value_def vmap_of_def valid_finding_def)

lemma decode_CheckValues: "list_all valid_finding fs \<Longrightarrow> decode_checks (Some (CheckValues fs)) = Some fs"
  by (induction fs) (simp_all add: decode_checks_def CheckValues_def decode_check_value)

lemma decode_record:
  "list_all valid_finding checks \<Longrightarrow>
   decodeOnceRecord key (once_record steps vars checks) = Inr (once_result steps vars checks)"
  by (simp add: decodeOnceRecord_def once_record_def vmap_of_def decode_CheckValues)



subsection \<open>Replay\<close>

text \<open>C28: A key with a record is replayed: the body does not run, nothing but the world changes, and the control
  publishes the recorded outputs, variables and findings, with the status skipped.\<close>

theorem once_replays:
  assumes "run_state (render_text fx df opts (once_key g)) m = (Inr key, m1)" and "\<not> blank key"
    and "fx_once_open (fx_store fx) (once_scope g) (m_world m1) = (Inr store, w1)"
    and "fx_once_get (fx_store fx) store c key w1 = (Inr (Some (once_record steps vars checks)), w2)"
    and "list_all valid_finding checks"
  shows "run_state (run_once fx df seq c s g ss opts) m =
    (replay s \<lparr>res_checks = checks, res_outputs = Some (fmap_of_list [(''steps'', VMap steps), (''vars'', VMap vars)]),
       res_variables = vars\<rparr>, m1\<lparr>m_world := w2\<rparr>)"
  using assms decode_record [OF assms(5)] by (simp add: run_once_def readOnceRecord_def once_result_def)

text \<open>A store that holds one record for every key\<close>

definition recorded_store :: "unit store_fx" where
  "recorded_store = idle_store\<lparr>fx_once_get := (\<lambda>h c key. answer (Inr (Some (once_record fmempty fmempty []))))\<rparr>"

theorem once_replays_witness:
  "run_state (run_once (idle_fx\<lparr>fx_store := recorded_store\<rparr>) idle_df (\<lambda>c ss opts. ret None) RunCtx idle_leaf
      \<lparr>once_key = ''k'', once_scope = ''workspace'', once_on_busy = ''fail''\<rparr> [idle_leaf] idle_opts) (idle_mach ()) =
    (replay idle_leaf \<lparr>res_checks = [], res_outputs = Some (fmap_of_list [(''steps'', VMap fmempty), (''vars'', VMap fmempty)]),
       res_variables = fmempty\<rparr>, idle_mach ())"
proof -
  have "run_state (run_once (idle_fx\<lparr>fx_store := recorded_store\<rparr>) idle_df (\<lambda>c ss opts. ret None) RunCtx idle_leaf
      \<lparr>once_key = ''k'', once_scope = ''workspace'', once_on_busy = ''fail''\<rparr> [idle_leaf] idle_opts) (idle_mach ()) =
    (replay idle_leaf \<lparr>res_checks = [], res_outputs = Some (fmap_of_list [(''steps'', VMap fmempty), (''vars'', VMap fmempty)]),
       res_variables = fmempty\<rparr>, (idle_mach ())\<lparr>m_world := ()\<rparr>)"
  proof (rule once_replays [where key = "''k''" and store = 0 and checks = "[]"])
    show "\<not> blank ''k''" by code_simp
  qed (simp_all add: recorded_store_def idle_defs render_text_def template_roots_def)
  then show ?thesis by (simp add: idle_mach_def)
qed

subsection \<open>Claims\<close>

text \<open>The store as the control relies on it: of its operations only taking a claim adds to the claims that are
  held, and only releasing one takes it away. \<open>held\<close> reads the claims off the world.\<close>

definition claims_tracked :: "'w effects \<Rightarrow> ('w \<Rightarrow> nat multiset) \<Rightarrow> bool" where
  "claims_tracked fx held \<longleftrightarrow>
     (\<forall>scope w. held (snd (fx_once_open (fx_store fx) scope w)) = held w) \<and>
     (\<forall>store c key w. held (snd (fx_once_get (fx_store fx) store c key w)) = held w) \<and>
     (\<forall>store c key v w. held (snd (fx_once_set (fx_store fx) store c key v w)) = held w) \<and>
     (\<forall>a key path w. held (snd (fx_add_wanted (fx_store fx) a key path w)) = held w) \<and>
     (\<forall>a key path w. held (snd (fx_remove_wanted (fx_store fx) a key path w)) = held w) \<and>
     (\<forall>xs w. held (snd (fx_pick (fx_time fx) xs w)) = held w) \<and>
     (\<forall>t data w. held (snd (fx_render (fx_language fx) t data w)) = held w) \<and>
     (\<forall>store c key wait ls w. case fx_once_claim (fx_store fx) store c key wait ls w of
        (Claimed k, w') \<Rightarrow> held w' = add_mset k (held w) | (_, w') \<Rightarrow> held w' = held w) \<and>
     (\<forall>k w. held (snd (fx_release (fx_store fx) k w)) = held w - {#k#})"

text \<open>The claims held before and after\<close>

definition same_claims :: "('w \<Rightarrow> nat multiset) \<Rightarrow> 'w mach \<Rightarrow> 'w mach \<Rightarrow> bool" where
  "same_claims held m m' \<longleftrightarrow> held (m_world m') = held (m_world m)"

interpretation claims: machine_preorder "same_claims held" for held
  by unfold_locales (simp_all add: same_claims_def)

text \<open>An operation that runs with one claim and gives it back\<close>

definition frees :: "('w \<Rightarrow> nat multiset) \<Rightarrow> nat \<Rightarrow> ('w, 'a) exec \<Rightarrow> bool" where
  "frees held k act \<longleftrightarrow> keeps (\<lambda>m m'. held (m_world m') = held (m_world m) - {#k#}) act"

lemma frees_after: "keeps (same_claims held) act \<Longrightarrow> (\<And>a. frees held k (f a)) \<Longrightarrow> frees held k (act \<bind> f)"
  by (auto simp: frees_def keeps_def same_claims_def split: prod.split) (metis snd_conv)

lemma frees_then: "frees held k act \<Longrightarrow> (\<And>a. keeps (same_claims held) (f a)) \<Longrightarrow> frees held k (act \<bind> f)"
  by (auto simp: frees_def keeps_def same_claims_def split: prod.split) (metis snd_conv)

lemma frees_cases:
  "(\<And>a. frees held k (f a)) \<Longrightarrow> (\<And>a. frees held k (g a)) \<Longrightarrow> frees held k (case x of Inl a \<Rightarrow> f a | Inr a \<Rightarrow> g a)"
  "frees held k h \<Longrightarrow> (\<And>a. frees held k (f a)) \<Longrightarrow> frees held k (case y of None \<Rightarrow> h | Some a \<Rightarrow> f a)"
  "(\<And>a b. frees held k (j a b)) \<Longrightarrow> frees held k (case z of (a, b) \<Rightarrow> j a b)"
  by (simp_all split: sum.split option.split prod.split)

lemma same_claims_private:
  "keeps (same_claims held) act \<Longrightarrow> keeps (same_claims held) (run_private st stats act)"
  by (rule keepsI) (auto simp: run_private_def same_claims_def dest!: keepsD split: prod.split)

lemma tracked_effect:
  "(\<And>w. held (snd (f w)) = held w) \<Longrightarrow> keeps (same_claims held) (effect f)"
  by (auto simp: keeps_def same_claims_def split: prod.split) (metis snd_conv)

subsection \<open>The control gives back its claim\<close>

lemma tracked_store:
  "claims_tracked fx held \<Longrightarrow> keeps (same_claims held) (effect (fx_once_open (fx_store fx) scope))"
  "claims_tracked fx held \<Longrightarrow> keeps (same_claims held) (effect (fx_once_get (fx_store fx) store c key))"
  "claims_tracked fx held \<Longrightarrow> keeps (same_claims held) (effect (fx_once_set (fx_store fx) store c key v))"
  "claims_tracked fx held \<Longrightarrow> keeps (same_claims held) (effect (fx_add_wanted (fx_store fx) a key path))"
  "claims_tracked fx held \<Longrightarrow> keeps (same_claims held) (effect (fx_remove_wanted (fx_store fx) a key path))"
  "claims_tracked fx held \<Longrightarrow> keeps (same_claims held) (effect (fx_pick (fx_time fx) xs))"
  "claims_tracked fx held \<Longrightarrow> keeps (same_claims held) (effect (fx_render (fx_language fx) t data))"
  unfolding claims_tracked_def by (auto intro!: tracked_effect)

lemma tracked_release: "claims_tracked fx held \<Longrightarrow> frees held k (release_claim fx k)"
  by (auto simp: claims_tracked_def frees_def keeps_def release_claim_def split: prod.split) (metis snd_conv)

lemma tracked_readOnceRecord: "claims_tracked fx held \<Longrightarrow> keeps (same_claims held) (readOnceRecord fx c store key)"
  unfolding readOnceRecord_def by (intro keeps_intros tracked_store)

lemma tracked_record_outcome: "claims_tracked fx held \<Longrightarrow> keeps (same_claims held) (record_outcome fx c store key ss st nested)"
  unfolding record_outcome_def by (intro keeps_intros tracked_store)

lemma tracked_run_claimed:
  "claims_tracked fx held \<Longrightarrow> (\<And>c ss opts. keeps (same_claims held) (seq c ss opts)) \<Longrightarrow> frees held k (run_claimed fx df seq c s ss store key i k opts)"
  unfolding run_claimed_def
  by (intro frees_after [OF claims.gets] frees_after [OF same_claims_private] frees_cases
      frees_then [OF tracked_release] frees_after [OF tracked_record_outcome] claims.ret)

lemma tracked_with_claim:
  "claims_tracked fx held \<Longrightarrow> (\<And>c ss opts. keeps (same_claims held) (seq c ss opts)) \<Longrightarrow> frees held k (with_claim fx df seq c s ss store key i k opts)"
  unfolding with_claim_def
  by (intro frees_after [OF tracked_readOnceRecord] frees_cases frees_then [OF tracked_release] tracked_run_claimed claims.ret)

lemma tracked_shuffled: "claims_tracked fx held \<Longrightarrow> keeps (same_claims held) (shuffled n fx xs)"
  by (induction n arbitrary: xs) (auto simp: pick_one_def intro!: keeps_intros tracked_store)

lemma tracked_announce: "claims_tracked fx held \<Longrightarrow> keeps (same_claims held) (announce fx key path as)"
  by (induction as) (auto intro!: keeps_intros tracked_store)

lemma tracked_withdraw: "claims_tracked fx held \<Longrightarrow> keeps (same_claims held) (withdraw fx key path as)"
  unfolding withdraw_def by (intro keeps_intros tracked_store)

text \<open>Taking a claim: it is held when it is the answer, and otherwise nothing is.\<close>

definition taken :: "(goerr + claim_result) \<Rightarrow> nat multiset" where
  "taken r = (case r of Inr (Claimed k) \<Rightarrow> {#k#} | _ \<Rightarrow> {#})"

lemma claim_effect:
  assumes "claims_tracked fx held"
    and "run_state (effect (fx_once_claim (fx_store fx) store c key wait ls)) m = (r, m')"
  shows "held (m_world m') = held (m_world m) + taken (Inr r)"
proof -
  have "case fx_once_claim (fx_store fx) store c key wait ls (m_world m) of
      (Claimed k, w') \<Rightarrow> held w' = add_mset k (held (m_world m)) | (_, w') \<Rightarrow> held w' = held (m_world m)"
    using assms(1) by (simp add: claims_tracked_def)
  then show ?thesis using assms(2) by (auto simp: taken_def split: claim_result.splits prod.splits)
qed

lemma end_wait_claims:
  assumes tracked: "claims_tracked fx held" and "run_state (end_wait fx key path announced claimed) m = (r, m')"
  shows "taken r = taken (Inr claimed) \<and> held (m_world m') = held (m_world m) \<or>
    taken r = {#} \<and> held (m_world m') = held (m_world m) - taken (Inr claimed)"
proof -
  obtain undone m1 where withdrawn: "run_state (withdraw fx key path announced) m = (undone, m1)" by fastforce
  have same: "held (m_world m1) = held (m_world m)"
    using keepsD [OF tracked_withdraw [OF tracked] withdrawn] by (simp add: same_claims_def)
  have freed: "held (m_world m2) = held (m_world m1) - {#k#}" if "run_state (release_claim fx k) m1 = (a, m2)" for k a m2
    using keepsD [OF tracked_release [OF tracked, unfolded frees_def] that] .
  show ?thesis
    using assms(2) withdrawn same freed unfolding end_wait_def
    by (cases undone; cases claimed) (auto simp: taken_def split: prod.splits)
qed

lemma stop_wait_claims:
  assumes tracked: "claims_tracked fx held" and "run_state (stop_wait fx key path announced e) m = (r, m')"
  shows "taken r = {#} \<and> held (m_world m') = held (m_world m)"
  using assms(2) keepsD [OF tracked_withdraw [OF tracked]]
  by (auto simp: stop_wait_def taken_def same_claims_def split: prod.splits)

lemma claim_key_claims:
  assumes tracked: "claims_tracked fx held" and "run_state (claim_key fx c store key wait opts) m = (r, m')"
  shows "held (m_world m') = held (m_world m) + taken r"
proof -
  let ?path = "fx_claim_path (fx_store fx) store key"
  have waits: "keeps (same_claims held) (if wait then held_claims fx opts else ret [])"
    unfolding held_claims_def Let_def by (intro keeps_intros tracked_shuffled [OF tracked])
  obtain claims m0 told m1 where listed: "run_state (if wait then held_claims fx opts else ret []) m = (claims, m0)"
    and announced: "run_state (announce fx key ?path claims) m0 = (told, m1)"
    and rest: "run_state (case told of (announced, err) \<Rightarrow> (case err of
        Some e \<Rightarrow> stop_wait fx key ?path announced e
      | None \<Rightarrow> effect (fx_once_claim (fx_store fx) store c key wait (map (fx_claim_location (fx_store fx)) announced)) \<bind>
          end_wait fx key ?path announced)) m1 = (r, m')"
    using assms(2) unfolding claim_key_def Let_def by (elim run_bindE)
  have same: "held (m_world m1) = held (m_world m)"
    using keepsD [OF waits listed] keepsD [OF tracked_announce [OF tracked] announced] by (simp add: same_claims_def)
  obtain as err where told: "told = (as, err)" by fastforce
  show ?thesis
  proof (cases err)
    case None
    obtain claimed m2 where claim: "run_state (effect (fx_once_claim (fx_store fx) store c key wait
        (map (fx_claim_location (fx_store fx)) as))) m1 = (claimed, m2)"
      and "run_state (end_wait fx key ?path as claimed) m2 = (r, m')"
      using rest unfolding told None prod.case option.case by (rule run_bindE)
    then show ?thesis using claim_effect [OF tracked claim] end_wait_claims [OF tracked] same by fastforce
  next
    case (Some e)
    then show ?thesis using rest stop_wait_claims [OF tracked] same unfolding told by simp
  qed
qed

lemma tracked_claim_and_run:
  assumes tracked: "claims_tracked fx held" and body: "\<And>c ss opts. keeps (same_claims held) (seq c ss opts)"
  shows "keeps (same_claims held) (claim_and_run fx df seq c s g ss store key opts)"
proof (rule keepsI)
  fix m
  obtain r m1 where claim: "run_state (claim_key fx c store key (once_on_busy g = ''wait'') opts) m = (r, m1)" by fastforce
  have frees: "held (m_world m') = held (m_world m2) - {#k#}"
    if "run_state (with_claim fx df seq c s ss store key i k opts) m2 = (a, m')" for i k m2 a m'
    using keepsD [OF tracked_with_claim [OF tracked body, unfolded frees_def] that] .
  have reads: "held (m_world m') = held (m_world m2)" if "run_state (readOnceRecord fx c store key) m2 = (a, m')" for m2 a m'
    using keepsD [OF tracked_readOnceRecord [OF tracked] that] by (simp add: same_claims_def)
  show "same_claims held m (snd (run_state (claim_and_run fx df seq c s g ss store key opts) m))"
    using claim claim_key_claims [OF tracked claim] frees [OF surjective_pairing]
    by (auto simp: claim_and_run_def Let_def same_claims_def taken_def split: prod.split sum.splits claim_result.splits
        dest: frees reads)
qed

lemma tracked_run_once:
  "claims_tracked fx held \<Longrightarrow> (\<And>c ss opts. keeps (same_claims held) (seq c ss opts)) \<Longrightarrow>
   keeps (same_claims held) (run_once fx df seq c s g ss opts)"
  unfolding run_once_def render_text_def template_roots_def
  by (intro keeps_intros tracked_store tracked_readOnceRecord tracked_claim_and_run)

text \<open>C29: A once control gives back the claim it takes: on every path, errors and replays included, the claims
  that are held after it are those held before, when its body keeps the claims that are held.\<close>

theorem once_releases:
  assumes "claims_tracked fx held"
    and "\<And>c ss opts m. held (m_world (snd (run_state (seq c ss opts) m))) = held (m_world m)"
  shows "held (m_world (snd (run_state (run_once fx df seq c s g ss opts) m))) = held (m_world m)"
proof -
  have "keeps (same_claims held) (seq c ss opts)" for c ss opts
    using assms(2) by (simp add: keeps_def same_claims_def)
  then show ?thesis
    using tracked_run_once [OF assms(1), of seq df c s g ss opts] by (simp add: keeps_def same_claims_def)
qed

text \<open>A world that is the collection of the claims that are held\<close>

definition claims_fx :: "nat multiset effects" where
  "claims_fx = idle_fx\<lparr>fx_store := idle_store\<lparr>
     fx_once_claim := (\<lambda>h c key wait ls w. (Claimed 7, add_mset 7 w)), fx_release := (\<lambda>k w. (None, w - {#k#}))\<rparr>\<rparr>"

theorem once_releases_witness:
  "m_world (snd (run_state (run_once claims_fx idle_df (\<lambda>c ss opts. ret None) RunCtx idle_leaf
     \<lparr>once_key = ''k'', once_scope = ''workspace'', once_on_busy = ''wait''\<rparr> [idle_leaf] idle_opts) (idle_mach {#3#})))
   = {#3#}"
  using once_releases [of claims_fx "\<lambda>w. w" "\<lambda>c ss opts. ret None" idle_df RunCtx idle_leaf
      "\<lparr>once_key = ''k'', once_scope = ''workspace'', once_on_busy = ''wait''\<rparr>" "[idle_leaf]" idle_opts "idle_mach {#3#}"]
  by (simp add: claims_tracked_def claims_fx_def idle_defs idle_mach_def)

end
