(* ===== verification/Supervisor.thy ===== *)
theory Supervisor
  imports Values
begin

text \<open>
  The supervisor of the background services of a scope (engine/background.go): a state machine shared
  by the goroutines of the jobs, the steps that start services and the life cycle of the scope. A
  statement under the mutex is one step; the steps of a job after its program returned are apart,
  and so are the two statements of \<^verbatim>\<open>stop\<close>, so that every interleaving is a path of \<open>sv_step\<close>.

  \<open>sv_cause\<close> is \<^verbatim>\<open>context.Cause\<close> of the scope's context: the first cause wins, and it is present
  exactly when the context is done. The wait group is at zero when every job has left.
\<close>

datatype background_phase = BackgroundAccepting | BackgroundSealed | BackgroundStopping | BackgroundJoined

text \<open>Where the goroutine of a job is: in its program, after it, before and after the first statement of
  \<^verbatim>\<open>stop\<close>, or through.\<close>

datatype job_stage = Working | Ended | Stopping goerr | Cancelling goerr | Left

record background_job =
  job_id :: string
  job_kind :: string
  job_err :: "goerr option"
  job_stage :: job_stage
  job_cancelled :: bool
  keep_alive :: bool
  fail_fast :: bool
  exit_on_end :: bool

record supervisor =
  sv_phase :: background_phase
  sv_jobs :: "background_job list"
  sv_cause :: "goerr option"
  sv_stops :: "goerr list"

definition newBackgroundSupervisor :: "goerr option \<Rightarrow> supervisor" where
  "newBackgroundSupervisor parent =
     \<lparr>sv_phase = BackgroundAccepting, sv_jobs = [], sv_cause = parent, sv_stops = []\<rparr>"

text \<open>count\<close>

definition running_jobs :: "supervisor \<Rightarrow> nat" where
  "running_jobs sv = length (filter (\<lambda>job. job_stage job = Working) (sv_jobs sv))"

text \<open>StartService, up to the start of the goroutine; \<open>given\<close>: the runner is not nil\<close>

definition StartService :: "bool \<Rightarrow> string \<Rightarrow> string \<Rightarrow> bool \<Rightarrow> bool \<Rightarrow> bool \<Rightarrow> supervisor \<Rightarrow> goerr + supervisor" where
  "StartService given i kind keep fast exits sv =
     (if \<not> given then Inl (Err (''background job '' @ go_quote i @ '' requires a runner''))
      else if sv_phase sv \<noteq> BackgroundAccepting
      then Inl (Err (''background job '' @ go_quote i @ '' cannot start after foreground execution finished: ''
             @ ''services cannot be started from a finally or defer step''))
      else case sv_cause sv of
          Some cause \<Rightarrow> Inl (Wrapped (''background job '' @ go_quote i @ '' cannot start after cancellation'') cause)
        | None \<Rightarrow> Inr (sv\<lparr>sv_jobs := sv_jobs sv @ [\<lparr>job_id = i, job_kind = kind, job_err = None,
            job_stage = Working, job_cancelled = False, keep_alive = keep, fail_fast = fast, exit_on_end = exits\<rparr>]\<rparr>))"

text \<open>What the goroutine of a job does when its program returned: the cause it stops the scope with, if any\<close>

definition job_verdict :: "supervisor \<Rightarrow> background_job \<Rightarrow> goerr option" where
  "job_verdict sv job = (case job_err job of
     Some e \<Rightarrow> if err_is e ServiceAborted then None
       else if \<not> cancellationOnly e \<and> fail_fast job then Some e else None
   | None \<Rightarrow> if exit_on_end job \<and> \<not> job_cancelled job \<and> sv_cause sv = None then Some BackgroundEnded else None)"

text \<open>The two statements of stop\<close>

definition begin_stop :: "supervisor \<Rightarrow> supervisor" where
  "begin_stop sv = sv\<lparr>sv_phase := (if sv_phase sv \<in> {BackgroundAccepting, BackgroundSealed} then BackgroundStopping
     else sv_phase sv)\<rparr>"

definition cancel_scope :: "goerr \<Rightarrow> supervisor \<Rightarrow> supervisor" where
  "cancel_scope cause sv = sv\<lparr>sv_cause := (case sv_cause sv of None \<Rightarrow> Some cause | Some c \<Rightarrow> Some c)\<rparr>"

text \<open>seal: the phase first, and then every job that does not keep the scope alive is cancelled.\<close>

definition seal :: "supervisor \<Rightarrow> supervisor" where
  "seal sv = sv\<lparr>sv_phase := (if sv_phase sv = BackgroundAccepting then BackgroundSealed else sv_phase sv)\<rparr>"

definition update_job :: "nat \<Rightarrow> (background_job \<Rightarrow> background_job) \<Rightarrow> supervisor \<Rightarrow> supervisor" where
  "update_job j f sv = sv\<lparr>sv_jobs := (sv_jobs sv)[j := f (sv_jobs sv ! j)]\<rparr>"

text \<open>wait, once the wait group is at zero\<close>

definition real_failure :: "goerr option \<Rightarrow> bool" where
  "real_failure e = (case e of None \<Rightarrow> False | Some e \<Rightarrow> \<not> cancellationOnly e \<and> \<not> err_is e ServiceAborted)"

definition job_errors :: "supervisor \<Rightarrow> goerr list" where
  "job_errors sv = List.map_filter (\<lambda>job. if real_failure (job_err job)
     then map_option (Wrapped (''background '' @ job_kind job @ '' '' @ go_quote (job_id job))) (job_err job)
     else None) (sv_jobs sv)"

definition foreign_cause :: "goerr \<Rightarrow> bool" where
  "foreign_cause cause \<longleftrightarrow> \<not> err_is cause BackgroundStopped \<and> \<not> err_is cause BackgroundEnded \<and> \<not> cancellationOnly cause"

definition wait_result :: "supervisor \<Rightarrow> goerr option" where
  "wait_result sv =
     (let errs = job_errors sv;
          errs = (case sv_cause sv of None \<Rightarrow> errs
            | Some cause \<Rightarrow> if foreign_cause cause \<and> \<not> list_ex (\<lambda>e. err_is e cause) errs then cause # errs else errs)
      in case sv_cause sv of
           Some cause \<Rightarrow> if cancellationOnly cause \<and> errs = [] then Some cause else errors_join (map Some errs)
         | None \<Rightarrow> errors_join (map Some errs))"

definition endedScope :: "supervisor \<Rightarrow> bool" where
  "endedScope sv = (case sv_cause sv of None \<Rightarrow> False | Some cause \<Rightarrow> err_is cause BackgroundEnded)"

subsection \<open>Steps\<close>

inductive sv_step :: "supervisor \<Rightarrow> supervisor \<Rightarrow> bool" where
  start: "StartService given i kind keep fast exits sv = Inr sv' \<Longrightarrow> sv_step sv sv'"
| finish: "j < length (sv_jobs sv) \<Longrightarrow> job_stage (sv_jobs sv ! j) = Working \<Longrightarrow>
    sv_step sv (update_job j (\<lambda>job. job\<lparr>job_err := e, job_stage := Ended\<rparr>) sv)"
| judge: "j < length (sv_jobs sv) \<Longrightarrow> job_stage (sv_jobs sv ! j) = Ended \<Longrightarrow>
    sv_step sv (update_job j (\<lambda>job. job\<lparr>job_stage :=
      (case job_verdict sv job of None \<Rightarrow> Left | Some cause \<Rightarrow> Stopping cause)\<rparr>) sv)"
| job_stop: "j < length (sv_jobs sv) \<Longrightarrow> job_stage (sv_jobs sv ! j) = Stopping cause \<Longrightarrow>
    sv_step sv (update_job j (\<lambda>job. job\<lparr>job_stage := Cancelling cause\<rparr>) (begin_stop sv))"
| job_cancel: "j < length (sv_jobs sv) \<Longrightarrow> job_stage (sv_jobs sv ! j) = Cancelling cause \<Longrightarrow>
    sv_step sv (update_job j (\<lambda>job. job\<lparr>job_stage := Left\<rparr>) (cancel_scope cause sv))"
| sealing: "sv_step sv (seal sv)"
| sealed: "sv_phase sv \<noteq> BackgroundAccepting \<Longrightarrow> j < length (sv_jobs sv) \<Longrightarrow> \<not> keep_alive (sv_jobs sv ! j) \<Longrightarrow>
    sv_step sv (update_job j (\<lambda>job. job\<lparr>job_cancelled := True\<rparr>) sv)"
| stopping: "sv_step sv ((begin_stop sv)\<lparr>sv_stops := BackgroundStopped # sv_stops sv\<rparr>)"
| stopped: "sv_stops sv = cause # rest \<Longrightarrow> sv_step sv ((cancel_scope cause sv)\<lparr>sv_stops := rest\<rparr>)"
| outer: "sv_step sv (cancel_scope cause sv)"
| join: "\<forall>job \<in> set (sv_jobs sv). job_stage job = Left \<Longrightarrow> sv_step sv (sv\<lparr>sv_phase := BackgroundJoined\<rparr>)"

inductive sv_reach :: "supervisor \<Rightarrow> bool" where
  new: "sv_reach (newBackgroundSupervisor parent)"
| step: "sv_reach sv \<Longrightarrow> sv_step sv sv' \<Longrightarrow> sv_reach sv'"

inductive_cases sv_stepE: "sv_step sv sv'"

subsection \<open>What holds of every reachable supervisor\<close>

definition accepts :: "supervisor \<Rightarrow> bool" where
  "accepts sv \<longleftrightarrow> sv_phase sv = BackgroundAccepting \<and> sv_cause sv = None"

lemma refused: "\<not> accepts sv \<Longrightarrow> isl (StartService given i kind keep fast exits sv)"
  by (auto simp: accepts_def StartService_def split: option.split)

lemmas supervisor_ops = begin_stop_def cancel_scope_def seal_def update_job_def accepts_def

lemma step_closed:
  assumes "sv_step sv sv'" and "\<not> accepts sv"
  shows "\<not> accepts sv' \<and> length (sv_jobs sv') = length (sv_jobs sv)"
  using assms
proof cases
  case (start given i kind keep fast exits)
  then show ?thesis using refused [OF assms(2)] by (metis sum.disc(2))
qed (auto simp: supervisor_ops split: option.splits)

text \<open>A fail-fast job is through only when its failure stopped the scope, and every job in the second
  statement of stop has left the accepting phases behind.\<close>

definition halting :: "supervisor \<Rightarrow> bool" where
  "halting sv \<longleftrightarrow> sv_phase sv \<in> {BackgroundStopping, BackgroundJoined}"

definition job_inv :: "supervisor \<Rightarrow> background_job \<Rightarrow> bool" where
  "job_inv sv job \<longleftrightarrow>
     (job_stage job = Working \<longrightarrow> job_err job = None) \<and>
     ((\<exists>cause. job_stage job = Cancelling cause) \<longrightarrow> halting sv) \<and>
     (job_stage job = Left \<and> fail_fast job \<and> real_failure (job_err job) \<longrightarrow> halting sv \<and> sv_cause sv \<noteq> None)"

definition sv_inv :: "supervisor \<Rightarrow> bool" where
  "sv_inv sv \<longleftrightarrow> (\<forall>job \<in> set (sv_jobs sv). job_inv sv job)"

lemma job_inv_mono:
  "job_inv sv job \<Longrightarrow> (halting sv \<Longrightarrow> halting sv') \<Longrightarrow> (sv_cause sv \<noteq> None \<Longrightarrow> sv_cause sv' \<noteq> None) \<Longrightarrow> job_inv sv' job"
  unfolding job_inv_def by blast

lemma sv_inv_mono:
  assumes "sv_inv sv" and "sv_jobs sv' = sv_jobs sv" and "halting sv \<Longrightarrow> halting sv'"
    and "sv_cause sv \<noteq> None \<Longrightarrow> sv_cause sv' \<noteq> None"
  shows "sv_inv sv'"
  using assms(1,2) job_inv_mono [OF _ assms(3,4)] unfolding sv_inv_def by metis

lemma job_inv_update [simp]: "job_inv (update_job j f sv) = job_inv sv"
  by (simp add: fun_eq_iff job_inv_def update_job_def halting_def)

lemma sv_inv_update:
  assumes "sv_inv sv" "job_inv sv (f (sv_jobs sv ! j))" shows "sv_inv (update_job j f sv)"
  unfolding sv_inv_def job_inv_update
  using assms set_update_subset_insert [of "sv_jobs sv" j] by (auto simp: sv_inv_def update_job_def)

lemma begin_stop_inv: "sv_inv sv \<Longrightarrow> sv_inv (begin_stop sv)" "halting (begin_stop sv)"
  by (erule sv_inv_mono; simp add: begin_stop_def halting_def)
    (cases "sv_phase sv"; simp add: begin_stop_def halting_def)

lemma cancel_scope_inv: "sv_inv sv \<Longrightarrow> sv_inv (cancel_scope cause sv)" "sv_cause (cancel_scope cause sv) \<noteq> None"
    "halting (cancel_scope cause sv) = halting sv"
  by (erule sv_inv_mono; simp add: cancel_scope_def halting_def split: option.split)
    (simp_all add: cancel_scope_def halting_def split: option.split)

lemma verdict_real: "job_verdict sv job = None \<Longrightarrow> fail_fast job \<Longrightarrow> \<not> real_failure (job_err job)"
  by (auto simp: job_verdict_def real_failure_def split: option.splits if_splits)

lemma sv_inv_step:
  assumes "sv_step sv sv'" and inv: "sv_inv sv"
  shows "sv_inv sv'"
  using assms(1)
proof cases
  case (start given i kind keep fast exits)
  then obtain new where sv': "sv' = sv\<lparr>sv_jobs := sv_jobs sv @ [new]\<rparr>" and new: "job_stage new = Working" "job_err new = None"
    by (auto simp: StartService_def split: if_splits option.splits)
  have "job_inv sv' job" if "job_inv sv job" for job
    using that by (rule job_inv_mono) (simp_all add: sv' halting_def)
  moreover have "job_inv sv' new" by (simp add: job_inv_def new)
  ultimately show ?thesis using inv unfolding sv_inv_def by (auto simp: sv')
next
  case (finish j e)
  then have "job_inv sv (sv_jobs sv ! j)" using inv by (simp add: sv_inv_def)
  then show ?thesis unfolding finish(1) by (intro sv_inv_update inv) (simp add: job_inv_def)
next
  case (judge j)
  then have "job_inv sv (sv_jobs sv ! j)" using inv by (simp add: sv_inv_def)
  then show ?thesis unfolding judge(1)
    by (intro sv_inv_update inv) (auto simp: job_inv_def split: option.split dest: verdict_real)
next
  case (job_stop j cause)
  then have "job_inv sv (sv_jobs sv ! j)" using inv by (simp add: sv_inv_def)
  then show ?thesis unfolding job_stop(1)
    by (intro sv_inv_update begin_stop_inv inv) (use begin_stop_inv(2) in \<open>simp add: job_inv_def begin_stop_def\<close>)
next
  case (job_cancel j cause)
  then have "job_inv sv (sv_jobs sv ! j)" and "halting sv" using inv by (auto simp: sv_inv_def job_inv_def)
  then show ?thesis unfolding job_cancel(1)
    by (intro sv_inv_update cancel_scope_inv inv)
      (use cancel_scope_inv(2,3) in \<open>auto simp: job_inv_def\<close>)
next
  case (sealed j)
  then have "job_inv sv (sv_jobs sv ! j)" using inv by (simp add: sv_inv_def)
  then show ?thesis unfolding sealed(1) by (intro sv_inv_update inv) (simp add: job_inv_def)
next
  case sealing
  then show ?thesis by (intro sv_inv_mono [OF inv]) (auto simp: seal_def halting_def)
next
  case stopping
  then show ?thesis by (intro sv_inv_mono [OF begin_stop_inv(1) [OF inv]]) (simp_all add: halting_def)
next
  case (stopped cause rest)
  then show ?thesis by (intro sv_inv_mono [OF cancel_scope_inv(1) [OF inv]]) (simp_all add: halting_def)
next
  case (outer cause)
  then show ?thesis by (simp add: cancel_scope_inv inv)
next
  case join
  then show ?thesis by (intro sv_inv_mono [OF inv]) (simp_all add: halting_def)
qed

lemma reach_sv_inv: "sv_reach sv \<Longrightarrow> sv_inv sv"
proof (induction rule: sv_reach.induct)
  case (step sv sv')
  then show ?case by (auto intro: sv_inv_step)
qed (simp add: newBackgroundSupervisor_def sv_inv_def)

lemma err_is_refl [simp]: "err_is e e"
  by (subst err_is.simps) simp

lemma err_is_joined: "c \<in> set es \<Longrightarrow> err_is c target \<Longrightarrow> err_is (Joined es) target"
  by (subst err_is.simps) (auto simp: error_children_def)

lemma err_is_wrapped: "err_is e target \<Longrightarrow> err_is (Wrapped t e) target"
  by (subst err_is.simps) (auto simp: error_children_def)

subsection \<open>Properties\<close>

text \<open>C30: A supervisor that is sealed, stopping or cancelled stays closed: along every interleaving no further job
  is added, and every attempt to start a service is refused.\<close>

theorem supervisor_closed:
  assumes "sv_step\<^sup>*\<^sup>* sv sv'" and "sv_phase sv \<noteq> BackgroundAccepting \<or> sv_cause sv \<noteq> None"
  shows "length (sv_jobs sv') = length (sv_jobs sv) \<and> isl (StartService given i kind keep fast exits sv')"
proof -
  have "\<not> accepts sv' \<and> length (sv_jobs sv') = length (sv_jobs sv)"
    using assms(1)
  proof (induction rule: rtranclp_induct)
    case base
    then show ?case using assms(2) by (auto simp: accepts_def)
  next
    case (step sv1 sv2)
    then show ?case using step_closed by fastforce
  qed
  then show ?thesis using refused by blast
qed

text \<open>A job that fails while the scope is being sealed\<close>

definition demo_supervisor :: supervisor where
  "demo_supervisor = \<lparr>sv_phase = BackgroundSealed, sv_jobs = [\<lparr>job_id = ''db'', job_kind = ''process'', job_err = None,
     job_stage = Working, job_cancelled = False, keep_alive = True, fail_fast = True, exit_on_end = False\<rparr>],
     sv_cause = None, sv_stops = []\<rparr>"

definition demo_crash :: goerr where
  "demo_crash = Err ''crash''"

definition demo_failed :: supervisor where
  "demo_failed = update_job 0 (\<lambda>job. job\<lparr>job_err := Some demo_crash, job_stage := Ended\<rparr>) demo_supervisor"

lemma demo_finish: "sv_step demo_supervisor demo_failed"
  unfolding demo_failed_def by (rule finish) (simp_all add: demo_supervisor_def)

theorem supervisor_closed_witness:
  "length (sv_jobs demo_failed) = length (sv_jobs demo_supervisor) \<and> isl (StartService True ''x'' ''process'' True True False demo_failed)"
  by (rule supervisor_closed [OF r_into_rtranclp [of sv_step, OF demo_finish]]) (simp add: demo_supervisor_def)

text \<open>C31: The failure of a service is never lost. In every reachable supervisor, whatever the interleaving, a job that
  failed with an error of its own makes wait report an error that contains the job's and does not
  pass for a cancellation; and once a fail-fast job has left, its scope is stopped and its context
  cancelled.\<close>

theorem supervisor_failures:
  assumes reach: "sv_reach sv" and job: "job \<in> set (sv_jobs sv)" "job_err job = Some e"
    and real: "\<not> cancellationOnly e" "\<not> err_is e ServiceAborted"
  shows "(\<exists>r. wait_result sv = Some r \<and> err_is r e \<and> \<not> cancellationOnly r) \<and>
    (fail_fast job \<and> job_stage job = Left \<longrightarrow>
       sv_phase sv \<in> {BackgroundStopping, BackgroundJoined} \<and> sv_cause sv \<noteq> None)"
proof
  let ?w = "Wrapped (''background '' @ job_kind job @ '' '' @ go_quote (job_id job)) e"
  have mem: "?w \<in> set (job_errors sv)"
    using job real by (auto simp: job_errors_def List.map_filter_def real_failure_def intro!: image_eqI [of _ _ job])
  have joined: "errors_join (map Some es) = Some (Joined es)" if "es \<noteq> []" for es
    using that by (simp add: errors_join_def List.map_filter_def Let_def comp_def)
  define es where "es = (case sv_cause sv of None \<Rightarrow> job_errors sv
    | Some cause \<Rightarrow> if foreign_cause cause \<and> \<not> list_ex (\<lambda>e. err_is e cause) (job_errors sv)
        then cause # job_errors sv else job_errors sv)"
  have es: "?w \<in> set es" using mem by (simp add: es_def split: option.split)
  then have result: "wait_result sv = errors_join (map Some es)"
    unfolding wait_result_def es_def [symmetric] Let_def by (auto split: option.split)
  have "es \<noteq> []" using es by auto
  then have wait: "wait_result sv = Some (Joined es)" using joined result by simp
  have contains: "err_is (Joined es) e" using es by (rule err_is_joined) (rule err_is_wrapped, simp)
  have "\<not> cancellationOnly (Joined es)"
  proof
    assume "cancellationOnly (Joined es)"
    then have "cancellationOnly ?w" using es by (metis cancellationOnly.simps(1))
    then show False using real by simp
  qed
  with wait contains show "\<exists>r. wait_result sv = Some r \<and> err_is r e \<and> \<not> cancellationOnly r"
    by (intro exI [of _ "Joined es"] conjI)
  show "fail_fast job \<and> job_stage job = Left \<longrightarrow>
      sv_phase sv \<in> {BackgroundStopping, BackgroundJoined} \<and> sv_cause sv \<noteq> None"
    using reach_sv_inv [OF reach] job real by (auto simp: sv_inv_def job_inv_def halting_def real_failure_def)
qed

text \<open>The demonstration to its end: the service is started, the scope sealed, the service fails, and its goroutine
  stops the scope.\<close>

definition demo_end :: supervisor where
  "demo_end = update_job 0 (\<lambda>job. job\<lparr>job_stage := Left\<rparr>) (cancel_scope demo_crash
     (update_job 0 (\<lambda>job. job\<lparr>job_stage := Cancelling demo_crash\<rparr>) (begin_stop
       (update_job 0 (\<lambda>job. job\<lparr>job_stage := (case job_verdict demo_failed job of None \<Rightarrow> Left | Some cause \<Rightarrow> Stopping cause)\<rparr>)
         demo_failed))))"

lemma demo_judged: "job_verdict demo_failed (sv_jobs demo_failed ! 0) = Some demo_crash"
  by code_simp

lemma demo_reach: "sv_reach demo_end"
proof -
  have "sv_reach (seal (newBackgroundSupervisor None\<lparr>sv_jobs := sv_jobs demo_supervisor\<rparr>))"
    by (rule sv_reach.step [OF sv_reach.step [OF sv_reach.new [of None] start [of True "''db''" "''process''" True True False]] sealing])
      (simp add: StartService_def newBackgroundSupervisor_def demo_supervisor_def)
  moreover have "seal (newBackgroundSupervisor None\<lparr>sv_jobs := sv_jobs demo_supervisor\<rparr>) = demo_supervisor"
    by (simp add: seal_def newBackgroundSupervisor_def demo_supervisor_def)
  ultimately have "sv_reach demo_failed" using sv_reach.step [OF _ demo_finish] by simp
  then show ?thesis
    unfolding demo_end_def
    by (rule sv_reach.step [OF sv_reach.step [OF sv_reach.step [OF _ judge] job_stop] job_cancel])
      (use demo_judged in \<open>simp_all add: demo_failed_def demo_supervisor_def update_job_def begin_stop_def\<close>)
qed

theorem supervisor_failures_witness:
  "(\<exists>r. wait_result demo_end = Some r \<and> err_is r demo_crash \<and> \<not> cancellationOnly r) \<and>
   sv_phase demo_end \<in> {BackgroundStopping, BackgroundJoined} \<and> sv_cause demo_end \<noteq> None"
proof -
  have "sv_jobs demo_end ! 0 \<in> set (sv_jobs demo_end)" "job_err (sv_jobs demo_end ! 0) = Some demo_crash"
    "fail_fast (sv_jobs demo_end ! 0)" "job_stage (sv_jobs demo_end ! 0) = Left"
    by (simp_all add: demo_end_def demo_failed_def demo_supervisor_def update_job_def begin_stop_def cancel_scope_def)
  moreover have "\<not> cancellationOnly demo_crash" "\<not> err_is demo_crash ServiceAborted"
    by code_simp+
  ultimately show ?thesis using supervisor_failures [OF demo_reach] by blast
qed

end
