(* ===== verification/DependencyReferences.thy ===== *)
theory DependencyReferences
  imports WorkflowDefinition
begin

text \<open>
  The outputs of dependencies that a workflow refers to (workflow/dependency.go), and the binding
  grammar of the built-in steps (workflow/bindings.go) that says where in a configuration an
  expression may stand.

  The parsers of expressions (github.com/expr-lang/expr) and of templates (text/template/parse) are
  the record \<open>parsers\<close>: a text is a tree, or does not parse. The trees have the nodes the code tells
  apart; every other node is \<open>OtherNode\<close> or \<open>OtherTemplate\<close>. Where the code ranges over a map, the
  model takes the keys in order, which only chooses among several errors.
\<close>

subsection \<open>Bindings\<close>

text \<open>under and exactly\<close>

definition under :: "string list \<Rightarrow> string list \<Rightarrow> bool" where
  "under names path \<longleftrightarrow> hd path \<in> set names"

definition exactly :: "string list \<Rightarrow> string list \<Rightarrow> bool" where
  "exactly names path \<longleftrightarrow> length path = 1 \<and> hd path \<in> set names"

definition nowhere :: "string list \<Rightarrow> bool" where
  "nowhere path \<longleftrightarrow> False"

record binding_rules =
  br_owned :: "string list \<Rightarrow> bool"
  br_static :: "string list \<Rightarrow> bool"

definition dashboard_rules :: binding_rules where
  "dashboard_rules = \<lparr>
     br_owned = (\<lambda>path. list_ex (\<lambda>component. component \<in> {''refresh'', ''actions'', ''template'', ''confirm''}) path),
     br_static = (\<lambda>path. if length path = 1 then hd path = ''groups''
       else hd path = ''groups'' \<and> last path = ''id'' \<and>
         (length path = 3 \<or> length path = 5 \<and> path ! 2 = ''widgets''))\<rparr>"

definition markdown_edit_rules :: binding_rules where
  "markdown_edit_rules = \<lparr>
     br_owned = (\<lambda>path. hd path = ''edits'' \<or> hd path = ''from'' \<and> length path > 1 \<and> path ! 1 = ''expr''),
     br_static = exactly [''edits'']\<rparr>"

definition tui_form_rules :: binding_rules where
  "tui_form_rules = \<lparr>
     br_owned = (\<lambda>path. hd path = ''fields'' \<and> length path \<ge> 3 \<and>
       path ! 2 \<in> {''value'', ''default'', ''validation'', ''from''}),
     br_static = (\<lambda>path. length path = 1 \<and> hd path = ''fields'' \<or>
       length path = 3 \<and> hd path = ''fields'' \<and> (path ! 2 = ''id'' \<or> path ! 2 = ''type''))\<rparr>"

text \<open>The steps without rules of their own, and those that own or fix some fields\<close>

definition plain_types :: "string list" where
  "plain_types =
     [''cache'', ''changed'', ''check'', ''decode'', ''devenv_task'', ''extract'', ''file'', ''git_branch'', ''git_branch_name'',
      ''git_clean'', ''git_commit'', ''git_conventional_commit'', ''git_log'', ''git_merge'', ''git_merge_base'',
      ''git_on_branch'', ''git_rebase'', ''git_remote_branch'', ''git_revision'', ''git_squash'', ''git_worktree'',
      ''github_actions'', ''github_pr'', ''github_release'', ''http'', ''import_vars'', ''jsonpath'', ''key_value'',
      ''log_wait'', ''multiplexer'', ''print'', ''require_tool'', ''scaffold'', ''semver'', ''tcp_probe'', ''temp'', ''time'',
      ''tui_choice'', ''tui_confirm'', ''tui_date'', ''tui_input'', ''tui_password'', ''tui_path'', ''tui_review'',
      ''tui_table'', ''watch'']"

definition builtinBindingRules :: "(string \<times> binding_rules) list" where
  "builtinBindingRules =
     [(''assert'', \<lparr>br_owned = under [''message''], br_static = nowhere\<rparr>),
      (''dashboard'', dashboard_rules),
      (''docker'', \<lparr>br_owned = nowhere, br_static = exactly [''cleanup'']\<rparr>),
      (''edit'', \<lparr>br_owned = under [''from''], br_static = nowhere\<rparr>),
      (''git_diff'', \<lparr>br_owned = under [''files'', ''size_exempt''], br_static = nowhere\<rparr>),
      (''git_diff_check'', \<lparr>br_owned = under [''files'', ''size_exempt''], br_static = nowhere\<rparr>),
      (''git_files'', \<lparr>br_owned = under [''files'', ''size_exempt''], br_static = nowhere\<rparr>),
      (''glob'', \<lparr>br_owned = under [''patterns''], br_static = nowhere\<rparr>),
      (''lua'', \<lparr>br_owned = under [''source'', ''args''], br_static = nowhere\<rparr>),
      (''markdown_edit'', markdown_edit_rules),
      (''process'', \<lparr>br_owned = under [''argv'', ''env''], br_static = nowhere\<rparr>),
      (''process_call'', \<lparr>br_owned = under [''pool''], br_static = nowhere\<rparr>),
      (''run_workflow'', \<lparr>br_owned = under [''vars''], br_static = exactly [''workflow'', ''target'']\<rparr>),
      (''set'', \<lparr>br_owned = under [''variables''], br_static = nowhere\<rparr>),
      (''shell'', \<lparr>br_owned = under [''argv'', ''sdk_args'', ''files'', ''interactions'', ''env''],
         br_static = exactly [''replace'', ''sdk'']\<rparr>),
      (''template'', \<lparr>br_owned = under [''source'', ''data''], br_static = nowhere\<rparr>),
      (''text_check'', \<lparr>br_owned = under [''files'', ''size_exempt''], br_static = nowhere\<rparr>),
      (''text_fix'', \<lparr>br_owned = under [''files'', ''size_exempt''], br_static = nowhere\<rparr>),
      (''transform'', \<lparr>br_owned = under [''from'', ''operations''], br_static = nowhere\<rparr>),
      (''tui_form'', tui_form_rules)]
     @ map (\<lambda>t. (t, \<lparr>br_owned = nowhere, br_static = nowhere\<rparr>)) plain_types"

definition BuiltinStepBindings :: "string \<Rightarrow> bool" where
  "BuiltinStepBindings stepType \<longleftrightarrow> map_of builtinBindingRules stepType \<noteq> None"

text \<open>An expression, or the value of a literal\<close>

datatype binding = BindExpr string | BindLiteral val

definition ParseBinding :: "val \<Rightarrow> binding option" where
  "ParseBinding v = (case v of
     VMap m \<Rightarrow> if fcard (fmdom m) \<noteq> 1 then None
       else (case fmlookup m ''literal'' of
           Some l \<Rightarrow> Some (BindLiteral l)
         | None \<Rightarrow> (case fmlookup m ''expr'' of
             Some (VStr text) \<Rightarrow> Some (BindExpr text)
           | Some _ \<Rightarrow> Some (BindExpr [])
           | None \<Rightarrow> None))
   | _ \<Rightarrow> None)"

definition OwnedBinding :: "string \<Rightarrow> string list \<Rightarrow> val \<Rightarrow> binding option" where
  "OwnedBinding stepType path v =
     (if stepType \<noteq> ''assert'' \<or> length path \<noteq> 1 \<or> hd path \<noteq> ''message'' then None else ParseBinding v)"

definition has_suffix :: "string \<Rightarrow> string \<Rightarrow> bool" where
  "has_suffix suffix s \<longleftrightarrow> has_prefix (rev suffix) (rev s)"

definition StepOwnsBindings :: "string \<Rightarrow> string list \<Rightarrow> bool" where
  "StepOwnsBindings stepType path \<longleftrightarrow> path \<noteq> [] \<and>
     (hd path = ''expr'' \<or> has_suffix ''_expr'' (hd path) \<or>
      (case map_of builtinBindingRules stepType of None \<Rightarrow> False | Some rules \<Rightarrow> br_owned rules path))"

definition StaticStepBindingField :: "string \<Rightarrow> string list \<Rightarrow> bool" where
  "StaticStepBindingField stepType path \<longleftrightarrow> path \<noteq> [] \<and>
     (length path = 1 \<and> (hd path = ''variable'' \<or> hd path = ''operation'') \<or>
      (case map_of builtinBindingRules stepType of None \<Rightarrow> False | Some rules \<Rightarrow> br_static rules path))"

subsection \<open>Walking a configuration\<close>

text \<open>HasStepBindings: the walk of a subtree at a path\<close>

definition stands_at :: "string \<Rightarrow> string list \<Rightarrow> val \<Rightarrow> bool \<Rightarrow> bool" where
  "stands_at stepType path v below =
     (if StepOwnsBindings stepType path then OwnedBinding stepType path v \<noteq> None
      else ParseBinding v \<noteq> None \<and> path \<noteq> [] \<or> below)"

primrec bindings_below :: "string \<Rightarrow> val \<Rightarrow> string list \<Rightarrow> bool" where
  "bindings_below t VNil path = stands_at t path VNil False"
| "bindings_below t (VBool b) path = stands_at t path (VBool b) False"
| "bindings_below t (VInt i) path = stands_at t path (VInt i) False"
| "bindings_below t (VFloat q) path = stands_at t path (VFloat q) False"
| "bindings_below t (VStr s) path = stands_at t path (VStr s) False"
| "bindings_below t (VList items) path = stands_at t path (VList items)
     (list_ex (\<lambda>b. b (path @ [''*''])) (map (bindings_below t) items))"
| "bindings_below t (VMap m) path = stands_at t path (VMap m)
     (list_ex (\<lambda>(name, b). b (path @ [name])) (sorted_entries (fmmap (bindings_below t) m)))"
| "bindings_below t (VDuration d) path = stands_at t path (VDuration d) False"
| "bindings_below t (VOther x) path = stands_at t path (VOther x) False"

definition HasStepBindings :: "string \<Rightarrow> vmap \<Rightarrow> bool" where
  "HasStepBindings stepType raw = bindings_below stepType (VMap raw) []"

text \<open>The calls \<^verbatim>\<open>transformStepConfig\<close> makes of a visitor that never fails, in their order\<close>

datatype visit_call =
    VisitOwned val "string list"
  | VisitBinding binding "string list"
  | VisitText string "string list"

definition calls_at :: "string \<Rightarrow> string list \<Rightarrow> val \<Rightarrow> visit_call list \<Rightarrow> visit_call list" where
  "calls_at stepType path v below =
     (if StepOwnsBindings stepType path then [VisitOwned v path]
      else case ParseBinding v of
          Some b \<Rightarrow> if path \<noteq> [] then [VisitBinding b path] else below
        | None \<Rightarrow> below)"

primrec config_calls :: "string \<Rightarrow> val \<Rightarrow> string list \<Rightarrow> visit_call list" where
  "config_calls t VNil path = calls_at t path VNil []"
| "config_calls t (VBool b) path = calls_at t path (VBool b) []"
| "config_calls t (VInt i) path = calls_at t path (VInt i) []"
| "config_calls t (VFloat q) path = calls_at t path (VFloat q) []"
| "config_calls t (VStr s) path = calls_at t path (VStr s) [VisitText s path]"
| "config_calls t (VList items) path = calls_at t path (VList items)
     (concat (map (\<lambda>(i, calls). calls (path @ [nat_text i])) (indexed (map (config_calls t) items))))"
| "config_calls t (VMap m) path = calls_at t path (VMap m)
     (concat (map (\<lambda>(name, calls). calls (path @ [name])) (sorted_entries (fmmap (config_calls t) m))))"
| "config_calls t (VDuration d) path = calls_at t path (VDuration d) []"
| "config_calls t (VOther x) path = calls_at t path (VOther x) []"

subsection \<open>References of a text\<close>

text \<open>An alias and an output of the dependency it names\<close>

type_synonym dependency_reference = "string \<times> string"

datatype expr_node =
    IdentifierNode string
  | MemberNode expr_node expr_node
  | ChainNode expr_node
  | StringNode string
  | OtherNode "expr_node list"

datatype template_node =
    NilNode
  | ListNode "template_node list"
  | ActionNode template_node
  | PipeNode "template_node list"
  | CommandNode "template_node list"
  | FieldNode "string list"
  | FieldChain template_node
  | IfNode template_node template_node template_node
  | RangeNode template_node template_node template_node
  | WithNode template_node template_node template_node
  | TemplateNode template_node
  | OtherTemplate

text \<open>Parsing a template yields the trees of its definitions by name.\<close>

record parsers =
  parse_expression :: "string \<Rightarrow> expr_node option"
  parse_template :: "string \<Rightarrow> template_node gomap option"

definition member_reference :: "string list \<Rightarrow> dependency_reference list" where
  "member_reference path = (case path of
     root # alias # output # _ \<Rightarrow> if root = ''dependencies'' then [(alias, output)] else []
   | _ \<Rightarrow> [])"

fun expressionMemberPath :: "expr_node \<Rightarrow> string list option" where
  "expressionMemberPath (IdentifierNode v) = Some [v]"
| "expressionMemberPath (MemberNode n (StringNode p)) = map_option (\<lambda>path. path @ [p]) (expressionMemberPath n)"
| "expressionMemberPath (MemberNode n _) = None"
| "expressionMemberPath (ChainNode n) = expressionMemberPath n"
| "expressionMemberPath _ = None"

text \<open>ast.Walk visits the children of a node and then the node.\<close>

fun walk_nodes :: "expr_node \<Rightarrow> expr_node list" where
  "walk_nodes (MemberNode n p) = walk_nodes n @ walk_nodes p @ [MemberNode n p]"
| "walk_nodes (ChainNode n) = walk_nodes n @ [ChainNode n]"
| "walk_nodes (OtherNode ns) = concat (map walk_nodes ns) @ [OtherNode ns]"
| "walk_nodes n = [n]"

definition expressionDependencyReferences :: "parsers \<Rightarrow> string \<Rightarrow> dependency_reference list" where
  "expressionDependencyReferences sx expression =
     (if blank expression then []
      else case parse_expression sx expression of
          None \<Rightarrow> []
        | Some tree \<Rightarrow> concat (map (\<lambda>node. case expressionMemberPath node of
            None \<Rightarrow> [] | Some path \<Rightarrow> member_reference path) (walk_nodes tree)))"

fun collectTemplateDependencyReferences :: "template_node \<Rightarrow> dependency_reference list" where
  "collectTemplateDependencyReferences NilNode = []"
| "collectTemplateDependencyReferences (ListNode ns) = concat (map collectTemplateDependencyReferences ns)"
| "collectTemplateDependencyReferences (ActionNode p) = collectTemplateDependencyReferences p"
| "collectTemplateDependencyReferences (PipeNode cs) = concat (map collectTemplateDependencyReferences cs)"
| "collectTemplateDependencyReferences (CommandNode args) = concat (map collectTemplateDependencyReferences args)"
| "collectTemplateDependencyReferences (FieldNode ident) = member_reference ident"
| "collectTemplateDependencyReferences (FieldChain n) = collectTemplateDependencyReferences n"
| "collectTemplateDependencyReferences (IfNode p l e) = collectTemplateDependencyReferences p
     @ collectTemplateDependencyReferences l @ collectTemplateDependencyReferences e"
| "collectTemplateDependencyReferences (RangeNode p l e) = collectTemplateDependencyReferences p
     @ collectTemplateDependencyReferences l @ collectTemplateDependencyReferences e"
| "collectTemplateDependencyReferences (WithNode p l e) = collectTemplateDependencyReferences p
     @ collectTemplateDependencyReferences l @ collectTemplateDependencyReferences e"
| "collectTemplateDependencyReferences (TemplateNode p) = collectTemplateDependencyReferences p"
| "collectTemplateDependencyReferences OtherTemplate = []"

definition templateDependencyReferences :: "parsers \<Rightarrow> string \<Rightarrow> dependency_reference list" where
  "templateDependencyReferences sx text =
     (if \<not> contains_open text then []
      else case parse_template sx text of
          None \<Rightarrow> []
        | Some trees \<Rightarrow> concat (map (\<lambda>(_, tree). collectTemplateDependencyReferences tree) (sorted_entries trees)))"

subsection \<open>References of a value\<close>

primrec templateValueDependencyReferences :: "parsers \<Rightarrow> val \<Rightarrow> dependency_reference list" where
  "templateValueDependencyReferences sx VNil = []"
| "templateValueDependencyReferences sx (VBool b) = []"
| "templateValueDependencyReferences sx (VInt i) = []"
| "templateValueDependencyReferences sx (VFloat q) = []"
| "templateValueDependencyReferences sx (VStr s) = templateDependencyReferences sx s"
| "templateValueDependencyReferences sx (VList items) = concat (map (templateValueDependencyReferences sx) items)"
| "templateValueDependencyReferences sx (VMap m) =
     concat (map snd (sorted_entries (fmmap (templateValueDependencyReferences sx) m)))"
| "templateValueDependencyReferences sx (VDuration d) = []"
| "templateValueDependencyReferences sx (VOther x) = []"

definition bindingDependencyReferences :: "parsers \<Rightarrow> binding \<Rightarrow> dependency_reference list" where
  "bindingDependencyReferences sx b = (case b of
     BindLiteral _ \<Rightarrow> []
   | BindExpr e \<Rightarrow> templateDependencyReferences sx e @ expressionDependencyReferences sx e)"

definition configBindingDependencyReferences :: "parsers \<Rightarrow> string \<Rightarrow> val \<Rightarrow> dependency_reference list" where
  "configBindingDependencyReferences sx stepType v = concat (map (\<lambda>call. case call of
       VisitOwned v path \<Rightarrow> (case OwnedBinding stepType path v of
           Some b \<Rightarrow> bindingDependencyReferences sx b
         | None \<Rightarrow> templateValueDependencyReferences sx v)
     | VisitBinding b _ \<Rightarrow> bindingDependencyReferences sx b
     | VisitText text _ \<Rightarrow> templateDependencyReferences sx text)
   (config_calls stepType v []))"

text \<open>A value that is a map with the string key, and the entry itself\<close>

definition as_map :: "val option \<Rightarrow> vmap option" where
  "as_map v = (case v of Some (VMap m) \<Rightarrow> Some m | _ \<Rightarrow> None)"

definition as_string :: "val option \<Rightarrow> string option" where
  "as_string v = (case v of Some (VStr s) \<Rightarrow> Some s | _ \<Rightarrow> None)"

definition as_list :: "val option \<Rightarrow> val list option" where
  "as_list v = (case v of Some (VList vs) \<Rightarrow> Some vs | _ \<Rightarrow> None)"

definition expression_of :: "parsers \<Rightarrow> val option \<Rightarrow> dependency_reference list" where
  "expression_of sx v = (case as_string v of None \<Rightarrow> [] | Some e \<Rightarrow> expressionDependencyReferences sx e)"

definition typedBindingDependencyReferences :: "parsers \<Rightarrow> vmap \<Rightarrow> dependency_reference list" where
  "typedBindingDependencyReferences sx bindings = concat (map (\<lambda>(_, v). case v of
       VMap m \<Rightarrow> if fcard (fmdom m) \<noteq> 1 then [] else expression_of sx (fmlookup m ''expr'')
     | _ \<Rightarrow> []) (sorted_entries bindings))"

text \<open>The literal Lua source of a form's validation is no template.\<close>

definition formTemplateConfiguration :: "vmap \<Rightarrow> vmap" where
  "formTemplateConfiguration raw = (case as_list (fmlookup raw ''fields'') of
     None \<Rightarrow> raw
   | Some items \<Rightarrow> fmupd ''fields'' (VList (map (\<lambda>item. case item of
         VMap field \<Rightarrow> VMap (case as_map (fmlookup field ''validation'') of
             Some rules \<Rightarrow> fmupd ''validation'' (VMap (fmdrop ''lua'' rules)) field
           | None \<Rightarrow> field)
       | _ \<Rightarrow> item) items)) raw)"

subsection \<open>References of a workflow\<close>

text \<open>The loader resolves an action for every declaration with a \<^verbatim>\<open>uses\<close> source (workflow/action.go).\<close>

definition has_action :: "decl \<Rightarrow> bool" where
  "has_action d \<longleftrightarrow> \<not> ActionSource_Empty (d_uses d)"

definition raw_config :: "decl \<Rightarrow> vmap" where
  "raw_config d = (case d_with d of None \<Rightarrow> fmempty | Some m \<Rightarrow> m)"

definition attempt_references :: "parsers \<Rightarrow> attempt_control \<Rightarrow> dependency_reference list" where
  "attempt_references sx a =
     concat (map (\<lambda>option. expressionDependencyReferences sx (opt_expression option))
       [att_duration a, att_timeout a, att_initial_delay a, att_max_delay a, att_interval a, att_max_elapsed a])
     @ expressionDependencyReferences sx (opt_expression (att_max_attempts a))
     @ expressionDependencyReferences sx (opt_expression (att_backoff a))
     @ expressionDependencyReferences sx (opt_expression (att_jitter a))
     @ expressionDependencyReferences sx (att_until a)
     @ expressionDependencyReferences sx (att_when a)
     @ templateDependencyReferences sx (att_operation_id a)"

definition source_references :: "parsers \<Rightarrow> action_source \<Rightarrow> dependency_reference list" where
  "source_references sx u = concat (map (templateDependencyReferences sx)
     [src_url u, src_github u, src_plugin u, src_token u, src_command u])"

definition worktree_references :: "parsers \<Rightarrow> worktree_group \<Rightarrow> dependency_reference list" where
  "worktree_references sx g = templateDependencyReferences sx (wt_revision g)
     @ templateDependencyReferences sx (wt_path g)
     @ (case wt_publish_branch g of None \<Rightarrow> [] | Some b \<Rightarrow> templateDependencyReferences sx b)"

definition configuration_references :: "parsers \<Rightarrow> decl \<Rightarrow> dependency_reference list" where
  "configuration_references sx d =
     (let configuration = (if d_type d = ''tui_form'' then formTemplateConfiguration (raw_config d) else raw_config d)
      in if BuiltinStepBindings (d_type d) \<and> \<not> has_action d
         then configBindingDependencyReferences sx (d_type d) (VMap configuration)
         else templateValueDependencyReferences sx (VMap configuration))"

definition fan_references :: "parsers \<Rightarrow> decl \<Rightarrow> dependency_reference list" where
  "fan_references sx d = (let refs = expressionDependencyReferences sx in
     (case d_batch d of None \<Rightarrow> []
      | Some (items, sz, g, _) \<Rightarrow> refs items @ refs (size_expression sz) @ refs (fan_collect g)) @
     (case d_foreach d of None \<Rightarrow> [] | Some (items, g, _) \<Rightarrow> refs items @ refs (fan_collect g)) @
     (case d_matrix d of None \<Rightarrow> []
      | Some (axes, g, _) \<Rightarrow> concat (map (\<lambda>axis. refs (axis_expression axis)) axes) @ refs (fan_collect g)))"

text \<open>The fields of a form, and the types whose configuration holds expressions\<close>

definition form_field_references :: "parsers \<Rightarrow> val \<Rightarrow> dependency_reference list" where
  "form_field_references sx item =
     (let field = (case item of VMap m \<Rightarrow> m | _ \<Rightarrow> fmempty)
      in (case as_string (fmlookup field ''from'') of None \<Rightarrow> []
          | Some from_path \<Rightarrow> if from_path = [] then [] else member_reference (split_at (CHR ''.'') from_path)) @
         (case as_map (fmlookup field ''validation'') of None \<Rightarrow> []
          | Some validation \<Rightarrow> expression_of sx (fmlookup validation ''expr'')) @
         concat (map (\<lambda>key. case as_map (fmlookup field key) of None \<Rightarrow> []
           | Some b \<Rightarrow> expression_of sx (fmlookup b ''expr'')) [''value'', ''default'']))"

definition typed_references :: "parsers \<Rightarrow> string \<Rightarrow> vmap \<Rightarrow> dependency_reference list" where
  "typed_references sx stepType raw =
     (if stepType = ''assert'' \<or> stepType = ''set'' then
        expression_of sx (fmlookup raw ''expr'') @
        (case as_map (fmlookup raw ''variables'') of None \<Rightarrow> [] | Some m \<Rightarrow> typedBindingDependencyReferences sx m)
      else if stepType = ''tui_form'' then
        (case as_list (fmlookup raw ''fields'') of None \<Rightarrow> []
         | Some items \<Rightarrow> concat (map (form_field_references sx) items))
      else if stepType = ''tui_choice'' then
        concat (map (\<lambda>name. expression_of sx (fmlookup raw name))
          [''label_expr'', ''value_expr'', ''description_expr'', ''disabled_expr'', ''reason_expr'', ''default_expr''])
      else if stepType = ''shell'' \<or> stepType = ''process'' then
        (case as_map (fmlookup raw ''argv'') of None \<Rightarrow> [] | Some m \<Rightarrow> expression_of sx (fmlookup m ''expr''))
      else if stepType = ''lua'' then
        (case as_map (fmlookup raw ''args'') of None \<Rightarrow> [] | Some m \<Rightarrow> typedBindingDependencyReferences sx m)
      else if stepType = ''template'' then
        (case as_map (fmlookup raw ''data'') of None \<Rightarrow> [] | Some m \<Rightarrow> typedBindingDependencyReferences sx m)
      else [])"

definition own_references :: "parsers \<Rightarrow> decl \<Rightarrow> dependency_reference list" where
  "own_references sx d =
     expressionDependencyReferences sx (d_if d)
     @ templateDependencyReferences sx (f_working_directory (d_fields d))
     @ (case d_worktree d of None \<Rightarrow> [] | Some (g, _) \<Rightarrow> worktree_references sx g)
     @ source_references sx (d_uses d)
     @ (case d_once d of None \<Rightarrow> [] | Some (g, _) \<Rightarrow> templateDependencyReferences sx (once_key g))
     @ (case d_attempt d of None \<Rightarrow> [] | Some (a, _) \<Rightarrow> attempt_references sx a)
     @ concat (map (templateDependencyReferences sx) (src_args (d_uses d)))
     @ configuration_references sx d
     @ (case d_return d of None \<Rightarrow> [] | Some r \<Rightarrow> (case ret_outputs r of None \<Rightarrow> []
         | Some outputs \<Rightarrow> concat (map (\<lambda>(_, e). expressionDependencyReferences sx e) (sorted_entries outputs))))
     @ fan_references sx d
     @ typed_references sx (d_type d) (raw_config d)
     @ (if has_action d then typedBindingDependencyReferences sx (raw_config d) else [])"

function (sequential) stepDependencyReferences :: "parsers \<Rightarrow> decl list \<Rightarrow> dependency_reference list" where
  "stepDependencyReferences sx [] = []"
| "stepDependencyReferences sx (d # ds) = own_references sx d
     @ concat (map (\<lambda>(role, child). stepDependencyReferences sx child) (childSequenceRefs d))
     @ stepDependencyReferences sx ds"
  by pat_completeness auto
termination
proof (relation "measure (\<lambda>(_, steps). weight steps)", goal_cases)
  case (2 sx d ds x role child)
  then have "weight child < size d" by (metis child_sequence_weight)
  then show ?case by simp
next
  case (3 sx d ds)
  then show ?case by (cases d) simp
qed simp

definition definitionDependencyReferences :: "parsers \<Rightarrow> 'a workflow_definition_scheme \<Rightarrow> dependency_reference list" where
  "definitionDependencyReferences sx w =
     concat (map (\<lambda>(_, out). expressionDependencyReferences sx (out_value out)) (sorted_entries (w_outputs w)))
     @ stepDependencyReferences sx (w_steps w) @ stepDependencyReferences sx (w_finally w)"

end
