(* ===== verification/DependencyPlan.thy ===== *)
theory DependencyPlan
  imports DependencyReferences
begin

text \<open>
  The dependency plan of a workflow (workflow/dependency.go, ResolveDependencyPlan): a depth-first
  walk that resolves, checks and deduplicates the workflows a root depends on, and lists them with
  the prerequisites first.

  A node is a pointer in the code; here it is the identity of its workflow, which the table of
  nodes maps to the definition and the identities its aliases stand for. The walk of the code has no bound of its
  own, for a resolver may come up with ever new workflows: \<open>visit_workflow\<close> has a bound on its depth, \<open>None\<close>
  is a walk that went deeper, and \<open>resolution_returns\<close> says that a bound above the number of workflows in
  reach is never used up.
\<close>

subsection \<open>Workflows and nodes\<close>

text \<open>workflow/plugin_resolution.go, ResolvedPluginSource\<close>

record plugin_source =
  plug_source :: string
  plug_identity :: string
  plug_sha256 :: string
  plug_with :: "vmap option"

record loaded_definition = workflow_definition +
  w_path :: string
  w_resolved_plugins :: "plugin_source gomap"

definition dependencyIdentity :: "loaded_definition \<Rightarrow> string" where
  "dependencyIdentity w = (if w_path w \<noteq> [] then w_path w else ''name'' @ [CHR 0x00] @ w_name w)"

record dependency_node =
  dn_definition :: loaded_definition
  dn_dependencies :: "string gomap"

record dependency_plan =
  dp_root :: string
  dp_order :: "string list"
  dp_nodes :: "dependency_node gomap"

text \<open>workflow.OutputPlaceholder\<close>

definition OutputPlaceholder :: "string \<Rightarrow> val" where
  "OutputPlaceholder kind =
     (if kind = ''string'' then VStr []
      else if kind = ''boolean'' then VBool False
      else if kind = ''number'' then VInt 0
      else if kind = ''array'' then VList []
      else if kind = ''object'' then VMap fmempty
      else VNil)"

definition PlaceholderDependencies :: "dependency_node gomap \<Rightarrow> dependency_node \<Rightarrow> vmap gomap" where
  "PlaceholderDependencies known node = fmmap (\<lambda>child. case fmlookup known child of
       None \<Rightarrow> fmempty
     | Some dependency \<Rightarrow> fmmap (\<lambda>out. OutputPlaceholder (out_type out)) (w_outputs (dn_definition dependency)))
   (dn_dependencies node)"

subsection \<open>Resolution\<close>

text \<open>What the walk asks of its surroundings: the resolver, which may be nil and may answer a nil
  workflow; \<^verbatim>\<open>ctx.Err()\<close> at each poll; and the parsers of expressions and templates.\<close>

record dependency_env =
  de_resolver :: "(string \<Rightarrow> goerr + loaded_definition option) option"
  de_err :: "nat \<Rightarrow> goerr option"
  de_parsers :: parsers

definition de_resolve :: "dependency_env \<Rightarrow> string \<Rightarrow> goerr + loaded_definition option" where
  "de_resolve env name = (case de_resolver env of None \<Rightarrow> Inr None | Some f \<Rightarrow> f name)"

definition declares :: "dependency_node gomap \<Rightarrow> string \<Rightarrow> string \<Rightarrow> bool" where
  "declares known child output = (case fmlookup known child of
     None \<Rightarrow> False
   | Some dependency \<Rightarrow> output |\<in>| fmdom (w_outputs (dn_definition dependency)))"

fun reference_errors :: "dependency_node gomap \<Rightarrow> dependency_node \<Rightarrow> dependency_reference list \<Rightarrow> goerr option" where
  "reference_errors known node [] = None"
| "reference_errors known node ((alias, output) # refs) =
     (case fmlookup (dn_dependencies node) alias of
        None \<Rightarrow> Some (Err (''dependency output references unknown alias '' @ go_quote alias))
      | Some child \<Rightarrow>
          if declares known child output then reference_errors known node refs
          else Some (Err (''dependency '' @ go_quote alias @ '' does not declare output '' @ go_quote output)))"

definition validateDependencyReferences :: "parsers \<Rightarrow> dependency_node gomap \<Rightarrow> dependency_node \<Rightarrow> goerr option" where
  "validateDependencyReferences ps known node =
     reference_errors known node (definitionDependencyReferences ps (dn_definition node))"

fun join_arrow :: "string list \<Rightarrow> string" where
  "join_arrow [] = []"
| "join_arrow [c] = c"
| "join_arrow (c # cs) = c @ '' -> '' @ join_arrow cs"

text \<open>The variables the walk closes over\<close>

record resolution =
  rs_nodes :: "dependency_node gomap"
  rs_visiting :: "nat gomap"
  rs_chain :: "string list"
  rs_order :: "string list"
  rs_polls :: nat

text \<open>Entering a workflow, and leaving it with all its dependencies resolved\<close>

definition enter :: "loaded_definition \<Rightarrow> resolution \<Rightarrow> resolution" where
  "enter w st = st\<lparr>rs_visiting := fmupd (dependencyIdentity w) (length (rs_chain st)) (rs_visiting st),
     rs_chain := rs_chain st @ [w_name w]\<rparr>"

definition leave :: "dependency_env \<Rightarrow> loaded_definition \<Rightarrow> string gomap \<Rightarrow> resolution \<Rightarrow> goerr + (string \<times> resolution)" where
  "leave env w deps st =
     (let node = \<lparr>dn_definition = w, dn_dependencies = deps\<rparr>; identity = dependencyIdentity w
      in case validateDependencyReferences (de_parsers env) (rs_nodes st) node of
          Some e \<Rightarrow> Inl (Wrapped (''workflow '' @ go_quote (w_name w)) e)
        | None \<Rightarrow> Inr (identity, st\<lparr>rs_chain := butlast (rs_chain st),
            rs_visiting := fmdrop identity (rs_visiting st),
            rs_nodes := fmupd identity node (rs_nodes st),
            rs_order := rs_order st @ [identity]\<rparr>))"

fun visit_workflow :: "nat \<Rightarrow> dependency_env \<Rightarrow> loaded_definition option \<Rightarrow> resolution \<Rightarrow> (goerr + (string \<times> resolution)) option"
  and visit_aliases :: "nat \<Rightarrow> dependency_env \<Rightarrow> loaded_definition \<Rightarrow> (string \<times> string) list \<Rightarrow> string gomap \<Rightarrow> resolution
    \<Rightarrow> (goerr + (string gomap \<times> resolution)) option" where
  "visit_workflow 0 env d st = None"
| "visit_workflow (Suc depth) env d st =
     (let poll = rs_polls st; st = st\<lparr>rs_polls := Suc poll\<rparr> in
      case de_err env poll of
        Some e \<Rightarrow> Some (Inl e)
      | None \<Rightarrow> (case d of
          None \<Rightarrow> Some (Inl (Err ''dependency resolver returned a nil workflow''))
        | Some w \<Rightarrow> (case fmlookup (rs_visiting st) (dependencyIdentity w) of
            Some index \<Rightarrow> Some (Inl (Err (''workflow dependency cycle: ''
              @ join_arrow (drop index (rs_chain st) @ [w_name w]))))
          | None \<Rightarrow> (if dependencyIdentity w |\<in>| fmdom (rs_nodes st) then Some (Inr (dependencyIdentity w, st))
              else case visit_aliases depth env w (sorted_entries (w_depends_on w)) fmempty (enter w st) of
                None \<Rightarrow> None
              | Some (Inl e) \<Rightarrow> Some (Inl e)
              | Some (Inr (deps, st)) \<Rightarrow> Some (leave env w deps st)))))"
| "visit_aliases depth env w [] deps st = Some (Inr (deps, st))"
| "visit_aliases depth env w ((alias, name) # rest) deps st =
     (case de_resolve env name of
        Inl e \<Rightarrow> Some (Inl (Wrapped (''workflow '' @ go_quote (w_name w) @ '' dependency '' @ go_quote alias
          @ '' ('' @ name @ '')'') e))
      | Inr d \<Rightarrow> (case visit_workflow depth env d st of
          None \<Rightarrow> None
        | Some (Inl e) \<Rightarrow> Some (Inl e)
        | Some (Inr (child, st)) \<Rightarrow> visit_aliases depth env w rest (fmupd alias child deps) st))"

definition initial_resolution :: resolution where
  "initial_resolution = \<lparr>rs_nodes = fmempty, rs_visiting = fmempty, rs_chain = [], rs_order = [], rs_polls = 0\<rparr>"

definition ResolveDependencyPlan :: "nat \<Rightarrow> dependency_env \<Rightarrow> loaded_definition option \<Rightarrow> (goerr + dependency_plan) option" where
  "ResolveDependencyPlan depth env root = (case root of
     None \<Rightarrow> Some (Inl (Err ''root workflow is required''))
   | Some w \<Rightarrow>
       if Option.is_none (de_resolver env) \<and> w_depends_on w \<noteq> fmempty then Some (Inl (Err ''dependency resolver is required''))
       else (case visit_workflow depth env root initial_resolution of
           None \<Rightarrow> None
         | Some (Inl e) \<Rightarrow> Some (Inl e)
         | Some (Inr (identity, st)) \<Rightarrow>
             Some (Inr \<lparr>dp_root = identity, dp_order = rs_order st, dp_nodes = rs_nodes st\<rparr>)))"

end
