(* ===== verification/DependencyProperties.thy ===== *)
theory DependencyProperties
  imports DependencyPlan
begin

text \<open>
  What a dependency plan promises: its order is a topological order of the workflows in reach of
  the root, each of them once, with the references checked; and the resolution yields a plan
  exactly when no workflow in reach depends on itself.
\<close>

subsection \<open>The graph of the workflows\<close>

definition depends :: "dependency_env \<Rightarrow> loaded_definition \<Rightarrow> loaded_definition \<Rightarrow> bool" where
  "depends env w w' \<longleftrightarrow> (\<exists>alias name. fmlookup (w_depends_on w) alias = Some name \<and> de_resolve env name = Inr (Some w'))"

abbreviation references_of :: "dependency_env \<Rightarrow> loaded_definition \<Rightarrow> dependency_reference set" where
  "references_of env w \<equiv> set (definitionDependencyReferences (de_parsers env) w)"

text \<open>A node whose dependencies are among the earlier ones\<close>

definition stands_for :: "dependency_env \<Rightarrow> loaded_definition \<Rightarrow> string \<Rightarrow> string \<Rightarrow> bool" where
  "stands_for env w alias child \<longleftrightarrow> (\<exists>name w'. fmlookup (w_depends_on w) alias = Some name \<and>
     de_resolve env name = Inr (Some w') \<and> dependencyIdentity w' = child)"

definition node_ok :: "dependency_env \<Rightarrow> dependency_node gomap \<Rightarrow> string set \<Rightarrow> dependency_node \<Rightarrow> bool" where
  "node_ok env known earlier node \<longleftrightarrow>
     fmdom (dn_dependencies node) = fmdom (w_depends_on (dn_definition node)) \<and>
     (\<forall>alias child. fmlookup (dn_dependencies node) alias = Some child \<longrightarrow>
        child \<in> earlier \<and> stands_for env (dn_definition node) alias child) \<and>
     (\<forall>(alias, output) \<in> references_of env (dn_definition node).
        \<exists>child. fmlookup (dn_dependencies node) alias = Some child \<and> declares known child output)"

definition plan_ok :: "dependency_env \<Rightarrow> loaded_definition \<Rightarrow> dependency_node gomap \<Rightarrow> string list \<Rightarrow> bool" where
  "plan_ok env root known order \<longleftrightarrow> distinct order \<and> set order = fset (fmdom known) \<and>
     (\<forall>before i later. order = before @ i # later \<longrightarrow> (\<exists>node. fmlookup known i = Some node \<and>
        dependencyIdentity (dn_definition node) = i \<and> (depends env)\<^sup>*\<^sup>* root (dn_definition node) \<and>
        node_ok env known (set before) node))"

lemma fmsubset_iff: "m \<subseteq>\<^sub>f m' \<longleftrightarrow> (\<forall>k v. fmlookup m k = Some v \<longrightarrow> fmlookup m' k = Some v)"
  by (auto simp: fmsubset.rep_eq map_le_def dom_def fmlookup_dom'_iff)

lemma declares_mono: "declares known child output \<Longrightarrow> known \<subseteq>\<^sub>f known' \<Longrightarrow> declares known' child output"
  by (auto simp: declares_def fmsubset_iff split: option.splits)

lemma node_ok_mono: "node_ok env known earlier node \<Longrightarrow> known \<subseteq>\<^sub>f known' \<Longrightarrow> earlier \<subseteq> earlier' \<Longrightarrow> node_ok env known' earlier' node"
  unfolding node_ok_def by (fast intro: declares_mono)

lemma reference_errors_None:
  "reference_errors known node refs = None \<longleftrightarrow> (\<forall>(alias, output) \<in> set refs.
     \<exists>child. fmlookup (dn_dependencies node) alias = Some child \<and> declares known child output)"
  by (induction known node refs rule: reference_errors.induct) (auto split: option.split)

lemma plan_ok_snoc:
  assumes ok: "plan_ok env root known order" and fresh: "i \<notin> set order" and i: "dependencyIdentity (dn_definition node) = i"
    and reach: "(depends env)\<^sup>*\<^sup>* root (dn_definition node)" and node: "node_ok env known (set order) node"
  shows "plan_ok env root (fmupd i node known) (order @ [i])"
proof -
  have "fmlookup known i = None" using ok fresh by (auto simp: plan_ok_def fmdom_notD)
  then have grow: "known \<subseteq>\<^sub>f fmupd i node known" by (auto simp: fmsubset_iff)
  have "\<exists>n. fmlookup (fmupd i node known) j = Some n \<and> dependencyIdentity (dn_definition n) = j \<and>
      (depends env)\<^sup>*\<^sup>* root (dn_definition n) \<and> node_ok env (fmupd i node known) (set before) n"
    if split: "order @ [i] = before @ j # later" for before j later
  proof (cases later rule: rev_exhaust)
    case Nil
    then have "before = order" "j = i" using split by auto
    then show ?thesis using i reach node_ok_mono [OF node grow subset_refl] by simp
  next
    case (snoc later' k)
    then have "order = before @ j # later'" using split by auto
    then obtain n where n: "fmlookup known j = Some n" "dependencyIdentity (dn_definition n) = j"
        "(depends env)\<^sup>*\<^sup>* root (dn_definition n)" "node_ok env known (set before) n"
      using ok unfolding plan_ok_def by blast
    then have "j \<noteq> i" using \<open>fmlookup known i = None\<close> by auto
    then show ?thesis using n node_ok_mono [OF n(4) grow subset_refl] by auto
  qed
  then show ?thesis using ok fresh unfolding plan_ok_def by auto
qed

subsection \<open>The walk keeps a plan\<close>

definition grows :: "resolution \<Rightarrow> resolution \<Rightarrow> bool" where
  "grows st st' \<longleftrightarrow> rs_visiting st' = rs_visiting st \<and> rs_chain st' = rs_chain st \<and> rs_nodes st \<subseteq>\<^sub>f rs_nodes st' \<and>
     (\<exists>new. rs_order st' = rs_order st @ new \<and> set new \<inter> fset (fmdom (rs_visiting st)) = {})"

lemma grows_refl: "grows st st"
  by (simp add: grows_def fmsubset_iff)

lemma grows_trans: "grows st1 st2 \<Longrightarrow> grows st2 st3 \<Longrightarrow> grows st1 st3"
  unfolding grows_def by (fastforce simp: fmsubset_iff)

abbreviation resolution_ok :: "dependency_env \<Rightarrow> loaded_definition \<Rightarrow> resolution \<Rightarrow> bool" where
  "resolution_ok env root st \<equiv> plan_ok env root (rs_nodes st) (rs_order st)"

definition resolved :: "dependency_env \<Rightarrow> loaded_definition \<Rightarrow> string gomap \<Rightarrow> resolution \<Rightarrow> bool" where
  "resolved env w deps st \<longleftrightarrow> (\<forall>alias child. fmlookup deps alias = Some child \<longrightarrow>
     child \<in> set (rs_order st) \<and> stands_for env w alias child)"

lemma resolved_grows: "resolved env w deps st \<Longrightarrow> grows st st' \<Longrightarrow> resolved env w deps st'"
  unfolding resolved_def grows_def by fastforce

lemma leave_sound:
  assumes left: "leave env w deps st = Inr (i, st')" and grown: "grows (enter w st0) st"
    and ok: "resolution_ok env root st" and reach: "(depends env)\<^sup>*\<^sup>* root w"
    and deps: "resolved env w deps st" "fmdom deps = fmdom (w_depends_on w)"
    and fresh: "dependencyIdentity w |\<notin>| fmdom (rs_visiting st0)" "dependencyIdentity w |\<notin>| fmdom (rs_nodes st0)"
    and start: "resolution_ok env root st0"
  shows "resolution_ok env root st' \<and> grows st0 st' \<and> i = dependencyIdentity w \<and> i \<in> set (rs_order st')"
proof -
  let ?i = "dependencyIdentity w" and ?node = "\<lparr>dn_definition = w, dn_dependencies = deps\<rparr>"
  have refs: "validateDependencyReferences (de_parsers env) (rs_nodes st) ?node = None"
    and st': "i = ?i" "st' = st\<lparr>rs_chain := butlast (rs_chain st), rs_visiting := fmdrop ?i (rs_visiting st),
      rs_nodes := fmupd ?i ?node (rs_nodes st), rs_order := rs_order st @ [?i]\<rparr>"
    using left by (auto simp: leave_def Let_def split: option.splits)
  obtain new where new: "rs_order st = rs_order st0 @ new"
      "set new \<inter> fset (finsert ?i (fmdom (rs_visiting st0))) = {}"
    and same: "rs_visiting st = fmupd ?i (length (rs_chain st0)) (rs_visiting st0)" "rs_chain st = rs_chain st0 @ [w_name w]"
      "rs_nodes st0 \<subseteq>\<^sub>f rs_nodes st"
    using grown by (auto simp: grows_def enter_def)
  have unused: "?i \<notin> set (rs_order st)" using new fresh(2) start by (auto simp: plan_ok_def)
  have node: "node_ok env (rs_nodes st) (set (rs_order st)) ?node"
    using deps refs by (auto simp: node_ok_def resolved_def validateDependencyReferences_def reference_errors_None)
  have "resolution_ok env root st'" unfolding st'(2)
    using plan_ok_snoc [OF ok unused, of ?node] reach node by simp
  moreover have "grows st0 st'"
  proof -
    have "fmdrop ?i (rs_visiting st) = rs_visiting st0" using fresh(1) same(1)
      by (intro fmap_ext) (auto simp: fmdom_notD)
    moreover have "fmlookup (rs_nodes st) ?i = None"
      using unused ok by (auto simp: plan_ok_def fmdom_notD)
    then have "rs_nodes st0 \<subseteq>\<^sub>f fmupd ?i ?node (rs_nodes st)"
      using same(3) by (auto simp: fmsubset_iff)
    moreover have "set (new @ [?i]) \<inter> fset (fmdom (rs_visiting st0)) = {}" using new fresh(1) by auto
    ultimately show ?thesis using new(1) same(2)
      by (auto simp: grows_def st'(2))
  qed
  ultimately show ?thesis by (simp add: st')
qed

text \<open>The entries a loop of aliases has left are those of the workflow.\<close>

lemma visit_sound:
  "visit_workflow depth env d st = Some (Inr (i, st')) \<Longrightarrow> resolution_ok env root st \<Longrightarrow>
     (\<And>w. d = Some w \<Longrightarrow> (depends env)\<^sup>*\<^sup>* root w) \<Longrightarrow>
     resolution_ok env root st' \<and> grows st st' \<and> (\<exists>w. d = Some w \<and> i = dependencyIdentity w) \<and> i \<in> set (rs_order st')"
  and visit_aliases_sound:
  "visit_aliases depth env w xs deps st = Some (Inr (deps', st')) \<Longrightarrow> resolution_ok env root st \<Longrightarrow>
     (depends env)\<^sup>*\<^sup>* root w \<Longrightarrow> resolved env w deps st \<Longrightarrow>
     (\<And>alias name. (alias, name) \<in> set xs \<Longrightarrow> fmlookup (w_depends_on w) alias = Some name) \<Longrightarrow>
     resolution_ok env root st' \<and> grows st st' \<and> resolved env w deps' st' \<and>
     fmdom deps' = fmdom deps |\<union>| fset_of_list (map fst xs)"
proof (induction depth env d st and depth env w xs deps st arbitrary: i st' and deps' st' rule: visit_workflow_visit_aliases.induct)
  case (1 env d st)
  then show ?case by simp
next
  case (2 depth env d st)
  let ?st = "st\<lparr>rs_polls := Suc (rs_polls st)\<rparr>"
  have polled: "grows st ?st" "resolution_ok env root ?st" using 2(3) by (simp_all add: grows_def fmsubset_iff)
  obtain w where d: "d = Some w" using 2(2) by (cases d) (auto simp: Let_def split: option.splits)
  have live: "de_err env (rs_polls st) = None" and new: "fmlookup (rs_visiting st) (dependencyIdentity w) = None"
    using 2(2) d by (auto simp: Let_def split: option.splits)
  show ?case
  proof (cases "dependencyIdentity w |\<in>| fmdom (rs_nodes st)")
    case True
    then have "i = dependencyIdentity w" "st' = ?st" using 2(2) d live new by (simp_all add: Let_def)
    then show ?thesis using polled True d 2(3) by (auto simp: plan_ok_def)
  next
    case False
    then obtain deps st1 where inner: "visit_aliases depth env w (sorted_entries (w_depends_on w)) fmempty (enter w ?st)
        = Some (Inr (deps, st1))" and left: "leave env w deps st1 = Inr (i, st')"
      using 2(2) d live new by (auto simp: Let_def split: option.splits sum.splits prod.splits)
    have reach: "(depends env)\<^sup>*\<^sup>* root w" using 2(4) d by simp
    have start: "resolution_ok env root (enter w ?st)" using 2(3) by (simp add: enter_def)
    have "resolution_ok env root st1 \<and> grows (enter w ?st) st1 \<and> resolved env w deps st1 \<and>
        fmdom deps = fset_of_list (map fst (sorted_entries (w_depends_on w)))"
      using 2(1) [OF refl refl live d _ _ inner start reach] new False
      by (simp add: resolved_def sorted_entries_lookup)
    moreover have "fset_of_list (map fst (sorted_entries (w_depends_on w))) = fmdom (w_depends_on w)"
      using sorted_entries_lookup by (force simp: fset_eq_iff fset_of_list_elem fmlookup_dom_iff)
    ultimately have "resolution_ok env root st' \<and> grows ?st st' \<and> i = dependencyIdentity w \<and> i \<in> set (rs_order st')"
      using False new polled(2) by (intro leave_sound [OF left _ _ reach]) (auto simp: fmdom_notI)
    then show ?thesis using d grows_trans [OF polled(1)] by auto
  qed
next
  case (3 depth env w deps st)
  then show ?case by (simp add: grows_refl)
next
  case (4 depth env w key name rest deps st)
  obtain d child st1 where d: "de_resolve env name = Inr d" and here: "visit_workflow depth env d st = Some (Inr (child, st1))"
    and rest: "visit_aliases depth env w rest (fmupd key child deps) st1 = Some (Inr (deps', st'))"
    using 4(3) by (auto split: sum.splits option.splits prod.splits)
  have declared: "fmlookup (w_depends_on w) key = Some name" using 4(7) by simp
  have reach: "(depends env)\<^sup>*\<^sup>* root w'" if "d = Some w'" for w'
  proof -
    have "depends env w w'" using d declared that by (auto simp: depends_def)
    with 4(5) show ?thesis by (rule rtranclp.rtrancl_into_rtrancl)
  qed
  have one: "resolution_ok env root st1" "grows st st1" "\<exists>w'. d = Some w' \<and> child = dependencyIdentity w'"
      "child \<in> set (rs_order st1)"
    using 4(1) [OF d here 4(4) reach] by blast+
  then have "resolved env w (fmupd key child deps) st1"
    using resolved_grows [OF 4(6) one(2)] d declared by (auto simp: resolved_def stands_for_def)
  then have more: "resolution_ok env root st' \<and> grows st1 st' \<and> resolved env w deps' st' \<and>
      fmdom deps' = fmdom (fmupd key child deps) |\<union>| fset_of_list (map fst rest)"
    using 4(7) by (intro 4(2) [OF d here refl refl rest one(1) 4(5)]) auto
  then show ?case using grows_trans [OF one(2)] by auto
qed

subsection \<open>The walk returns\<close>

text \<open>Surroundings in which nothing but a cycle can go wrong: the context is live, names resolve, a path holds one
  workflow, and the references name declared outputs.\<close>

definition well_declared :: "dependency_env \<Rightarrow> loaded_definition \<Rightarrow> bool" where
  "well_declared env root \<longleftrightarrow> (\<forall>n. de_err env n = None) \<and>
     (\<forall>w alias name. (depends env)\<^sup>*\<^sup>* root w \<and> fmlookup (w_depends_on w) alias = Some name \<longrightarrow>
        (\<exists>w'. de_resolve env name = Inr (Some w'))) \<and>
     (\<forall>v w. (depends env)\<^sup>*\<^sup>* root v \<and> (depends env)\<^sup>*\<^sup>* root w \<and> dependencyIdentity v = dependencyIdentity w \<longrightarrow> v = w) \<and>
     (\<forall>w alias output. (depends env)\<^sup>*\<^sup>* root w \<and> (alias, output) \<in> references_of env w \<longrightarrow>
        (\<exists>name w'. fmlookup (w_depends_on w) alias = Some name \<and> de_resolve env name = Inr (Some w') \<and>
           output |\<in>| fmdom (w_outputs w')))"

lemma well_declared_live: "well_declared env root \<Longrightarrow> de_err env n = None"
  by (simp add: well_declared_def)

definition cyclic :: "dependency_env \<Rightarrow> loaded_definition \<Rightarrow> bool" where
  "cyclic env root \<longleftrightarrow> (\<exists>w. (depends env)\<^sup>*\<^sup>* root w \<and> (depends env)\<^sup>+\<^sup>+ w w)"

definition cycle_error :: "goerr \<Rightarrow> bool" where
  "cycle_error e \<longleftrightarrow> (\<exists>t. e = Err (''workflow dependency cycle: '' @ t))"

text \<open>What a walk with enough depth may answer\<close>

definition answers :: "dependency_env \<Rightarrow> loaded_definition \<Rightarrow> (goerr + 'a) option \<Rightarrow> bool" where
  "answers env root r \<longleftrightarrow> r \<noteq> None \<and> (well_declared env root \<longrightarrow> (\<forall>e. r = Some (Inl e) \<longrightarrow> cycle_error e \<and> cyclic env root))"

lemma leave_answers:
  assumes ok: "resolution_ok env root st" and reach: "(depends env)\<^sup>*\<^sup>* root w"
    and deps: "resolved env w deps st" "fmdom deps = fmdom (w_depends_on w)"
  shows "answers env root (Some (leave env w deps st))"
proof -
  let ?node = "\<lparr>dn_definition = w, dn_dependencies = deps\<rparr>"
  have "validateDependencyReferences (de_parsers env) (rs_nodes st) ?node = None" if good: "well_declared env root"
    unfolding validateDependencyReferences_def reference_errors_None
  proof (intro ballI, clarify)
    fix key out
    assume "(key, out) \<in> set (definitionDependencyReferences (de_parsers env) (dn_definition ?node))"
    then obtain name w' where name: "fmlookup (w_depends_on w) key = Some name" "de_resolve env name = Inr (Some w')"
        "out |\<in>| fmdom (w_outputs w')"
      using good reach unfolding well_declared_def by (metis dependency_node.select_convs(1))
    obtain child where child: "fmlookup deps key = Some child"
      using deps(2) name(1) by (metis fmlookup_dom_Some)
    then have "child \<in> set (rs_order st)" "stands_for env w key child" using deps(1) by (simp_all add: resolved_def)
    then have "child \<in> set (rs_order st)" "dependencyIdentity w' = child" using name by (auto simp: stands_for_def)
    moreover from this obtain before later where "rs_order st = before @ child # later" by (meson split_list)
    ultimately obtain n where n: "fmlookup (rs_nodes st) child = Some n" "dependencyIdentity (dn_definition n) = child"
        "(depends env)\<^sup>*\<^sup>* root (dn_definition n)"
      using ok unfolding plan_ok_def by blast
    have "depends env w w'" using name by (auto simp: depends_def)
    then have "(depends env)\<^sup>*\<^sup>* root w'" using reach by simp
    then have "dn_definition n = w'" using good n \<open>dependencyIdentity w' = child\<close> unfolding well_declared_def by metis
    then show "\<exists>child. fmlookup (dn_dependencies ?node) key = Some child \<and> declares (rs_nodes st) child out"
      using child n name by (auto simp: declares_def)
  qed
  then show ?thesis by (auto simp: answers_def leave_def Let_def split: option.split)
qed

text \<open>The workflows being visited lie in \<open>U\<close>, are ancestors of the one to be visited, and the depth left covers what is
  not being visited.\<close>

definition room :: "string set \<Rightarrow> nat \<Rightarrow> resolution \<Rightarrow> bool" where
  "room U depth st \<longleftrightarrow> fset (fmdom (rs_visiting st)) \<subseteq> U \<and> card U < depth + card (fset (fmdom (rs_visiting st)))"

definition ancestors :: "dependency_env \<Rightarrow> loaded_definition \<Rightarrow> (loaded_definition \<Rightarrow> bool) \<Rightarrow> resolution \<Rightarrow> bool" where
  "ancestors env root P st \<longleftrightarrow> (\<forall>i. i |\<in>| fmdom (rs_visiting st) \<longrightarrow>
     (\<exists>v. dependencyIdentity v = i \<and> (depends env)\<^sup>*\<^sup>* root v \<and> P v))"

lemma room_enter:
  assumes "room U (Suc depth) st" "finite U" "dependencyIdentity w \<in> U" "dependencyIdentity w |\<notin>| fmdom (rs_visiting st)"
  shows "room U depth (enter w st)"
  using assms by (auto simp: room_def enter_def card_insert_if)

lemma no_room: "room U 0 st \<Longrightarrow> finite U \<Longrightarrow> False"
  using card_mono [of U "fset (fmdom (rs_visiting st))"] by (simp add: room_def)

lemma ancestors_enter:
  "ancestors env root (\<lambda>v. (depends env)\<^sup>+\<^sup>+ v w) st \<Longrightarrow> (depends env)\<^sup>*\<^sup>* root w \<Longrightarrow>
   ancestors env root (\<lambda>v. (depends env)\<^sup>*\<^sup>* v w) (enter w st)"
  by (auto simp: ancestors_def enter_def) (meson tranclp_into_rtranclp)

lemma ancestors_child:
  "ancestors env root (\<lambda>v. (depends env)\<^sup>*\<^sup>* v w) st \<Longrightarrow> depends env w w' \<Longrightarrow>
   ancestors env root (\<lambda>v. (depends env)\<^sup>+\<^sup>+ v w') st"
  unfolding ancestors_def by (meson rtranclp_into_tranclp1)

lemma same_visiting:
  "rs_visiting st' = rs_visiting st \<Longrightarrow> room U depth st' = room U depth st"
  "rs_visiting st' = rs_visiting st \<Longrightarrow> ancestors env root P st' = ancestors env root P st"
  by (simp_all add: room_def ancestors_def)

lemma closing_cycle:
  assumes "ancestors env root (\<lambda>v. (depends env)\<^sup>+\<^sup>+ v w) st" "(depends env)\<^sup>*\<^sup>* root w"
    and "dependencyIdentity w |\<in>| fmdom (rs_visiting st)" "well_declared env root"
  shows "cyclic env root"
proof -
  obtain v where v: "dependencyIdentity v = dependencyIdentity w" "(depends env)\<^sup>*\<^sup>* root v" "(depends env)\<^sup>+\<^sup>+ v w"
    using assms(1,3) unfolding ancestors_def by blast
  then have "v = w" using assms(2,4) unfolding well_declared_def by blast
  then show ?thesis using v assms(2) unfolding cyclic_def by blast
qed

lemma visit_answers:
  "finite U \<Longrightarrow> (\<And>w. (depends env)\<^sup>*\<^sup>* root w \<Longrightarrow> dependencyIdentity w \<in> U) \<Longrightarrow> resolution_ok env root st \<Longrightarrow>
     room U depth st \<Longrightarrow> (well_declared env root \<Longrightarrow> d \<noteq> None) \<Longrightarrow>
     (\<And>w. d = Some w \<Longrightarrow> (depends env)\<^sup>*\<^sup>* root w) \<Longrightarrow>
     (\<And>w. d = Some w \<Longrightarrow> ancestors env root (\<lambda>v. (depends env)\<^sup>+\<^sup>+ v w) st) \<Longrightarrow>
     answers env root (visit_workflow depth env d st)"
  and visit_aliases_answers:
  "finite U \<Longrightarrow> (\<And>w. (depends env)\<^sup>*\<^sup>* root w \<Longrightarrow> dependencyIdentity w \<in> U) \<Longrightarrow> resolution_ok env root st \<Longrightarrow>
     room U depth st \<Longrightarrow> (depends env)\<^sup>*\<^sup>* root w \<Longrightarrow> ancestors env root (\<lambda>v. (depends env)\<^sup>*\<^sup>* v w) st \<Longrightarrow>
     (\<And>alias name. (alias, name) \<in> set xs \<Longrightarrow> fmlookup (w_depends_on w) alias = Some name) \<Longrightarrow>
     answers env root (visit_aliases depth env w xs deps st)"
proof (induction depth env d st and depth env w xs deps st rule: visit_workflow_visit_aliases.induct)
  case (1 env d st)
  then show ?case using no_room by blast
next
  case (2 depth env d st)
  let ?st = "st\<lparr>rs_polls := Suc (rs_polls st)\<rparr>"
  show ?case
  proof (cases "de_err env (rs_polls st) \<noteq> None \<or> d = None")
    case True
    then have "\<not> well_declared env root \<and> visit_workflow (Suc depth) env d st \<noteq> None"
      using 2(6) well_declared_live by (auto simp: Let_def split: option.split)
    then show ?thesis by (simp add: answers_def)
  next
    case False
    then obtain w where live: "de_err env (rs_polls st) = None" and d: "d = Some w" by auto
    note reach = 2(7) [OF d] and above = 2(8) [OF d]
    consider (cycle) i where "fmlookup (rs_visiting st) (dependencyIdentity w) = Some i"
      | (known) "fmlookup (rs_visiting st) (dependencyIdentity w) = None" "dependencyIdentity w |\<in>| fmdom (rs_nodes st)"
      | (new) "fmlookup (rs_visiting st) (dependencyIdentity w) = None" "dependencyIdentity w |\<notin>| fmdom (rs_nodes st)"
      by (cases "fmlookup (rs_visiting st) (dependencyIdentity w)") auto
    then show ?thesis
    proof cases
      case cycle
      then show ?thesis using live d closing_cycle [OF above reach]
        by (auto simp: answers_def cycle_error_def fmlookup_dom_iff)
    next
      case known
      then show ?thesis using live d by (simp add: answers_def)
    next
      case new
      let ?r = "visit_aliases depth env w (sorted_entries (w_depends_on w)) fmempty (enter w ?st)"
      have start: "resolution_ok env root (enter w ?st)" using 2(4) by (simp add: enter_def)
      have inner: "answers env root ?r"
      proof (rule 2(1) [OF refl refl live d _ _ 2(2,3) start])
        show "room U depth (enter w ?st)" using new reach 2(2,3,5)
          by (intro room_enter) (auto simp: room_def fmdom_notI)
        show "ancestors env root (\<lambda>v. (depends env)\<^sup>*\<^sup>* v w) (enter w ?st)"
          using above reach by (intro ancestors_enter) (simp_all add: ancestors_def)
      qed (use new reach in \<open>simp_all add: sorted_entries_lookup\<close>)
      show ?thesis
      proof (cases ?r)
        case None
        then show ?thesis using inner by (simp add: answers_def)
      next
        case (Some r)
        show ?thesis
        proof (cases r)
          case (Inl e)
          then show ?thesis using inner Some live d new by (simp add: answers_def)
        next
          case (Inr p)
          obtain deps st1 where p: "p = (deps, st1)" by (cases p)
          have "resolution_ok env root st1 \<and> resolved env w deps st1 \<and>
              fmdom deps = fset_of_list (map fst (sorted_entries (w_depends_on w)))"
            using visit_aliases_sound [OF Some [unfolded Inr p] start reach]
            by (simp add: resolved_def sorted_entries_lookup)
          moreover have "fset_of_list (map fst (sorted_entries (w_depends_on w))) = fmdom (w_depends_on w)"
            using sorted_entries_lookup by (force simp: fset_eq_iff fset_of_list_elem fmlookup_dom_iff)
          ultimately have "answers env root (Some (leave env w deps st1))" using reach by (intro leave_answers) auto
          then show ?thesis using Some Inr p live d new by simp
        qed
      qed
    qed
  qed
next
  case (3 depth env w deps st)
  then show ?case by (simp add: answers_def)
next
  case (4 depth env w key name rest deps st)
  have declared: "fmlookup (w_depends_on w) key = Some name" using 4(9) by simp
  show ?case
  proof (cases "de_resolve env name")
    case (Inl e)
    then have "\<not> well_declared env root" using declared 4(7) unfolding well_declared_def by fastforce
    then show ?thesis using Inl by (simp add: answers_def)
  next
    case (Inr d)
    have edge: "depends env w w'" if "d = Some w'" for w' using Inr declared that by (auto simp: depends_def)
    have reach: "(depends env)\<^sup>*\<^sup>* root w'" if "d = Some w'" for w' using edge [OF that] 4(7) by simp
    have one: "answers env root (visit_workflow depth env d st)"
    proof (rule 4(1) [OF Inr 4(3,4,5,6)])
      show "d \<noteq> None" if "well_declared env root"
        using that Inr declared 4(7) unfolding well_declared_def by (metis sum.inject(2) option.distinct(1))
    qed (use reach ancestors_child [OF 4(8) edge] in auto)
    show ?thesis
    proof (cases "\<exists>child st1. visit_workflow depth env d st = Some (Inr (child, st1))")
      case False
      then show ?thesis using one Inr by (auto simp: answers_def split: option.splits sum.splits)
    next
      case True
      then obtain child st1 where here: "visit_workflow depth env d st = Some (Inr (child, st1))" by blast
      have st1: "resolution_ok env root st1" "grows st st1" using visit_sound [OF here 4(5) reach] by blast+
      then have same: "rs_visiting st1 = rs_visiting st" by (simp add: grows_def)
      have "answers env root (visit_aliases depth env w rest (fmupd key child deps) st1)"
        by (rule 4(2) [OF Inr here refl refl 4(3,4) st1(1) _ 4(7)])
          (use 4(6,8,9) same_visiting [OF same] in auto)
      then show ?thesis using Inr here by simp
    qed
  qed
qed

subsection \<open>A plan has no cycle\<close>

definition position :: "string list \<Rightarrow> string \<Rightarrow> nat" where
  "position order i = length (takeWhile (\<lambda>j. j \<noteq> i) order)"

lemma position_split: "distinct (before @ i # later) \<Longrightarrow> position (before @ i # later) i = length before"
  by (induction before) (auto simp: position_def)

lemma position_before: "j \<in> set before \<Longrightarrow> position (before @ later) j < length before"
  by (induction before) (auto simp: position_def)

lemma plan_member:
  assumes ok: "plan_ok env root known order" and good: "well_declared env root"
    and w: "(depends env)\<^sup>*\<^sup>* root w" "dependencyIdentity w \<in> set order" and edge: "depends env w w'"
  shows "dependencyIdentity w' \<in> set order \<and>
    position order (dependencyIdentity w') < position order (dependencyIdentity w)"
proof -
  obtain before later where split: "order = before @ dependencyIdentity w # later" using w(2) by (meson split_list)
  then obtain node where node: "dependencyIdentity (dn_definition node) = dependencyIdentity w"
      "(depends env)\<^sup>*\<^sup>* root (dn_definition node)" "node_ok env known (set before) node"
    using ok unfolding plan_ok_def by blast
  then have same: "dn_definition node = w" using good w(1) unfolding well_declared_def by blast
  obtain key name where name: "fmlookup (w_depends_on w) key = Some name" "de_resolve env name = Inr (Some w')"
    using edge by (auto simp: depends_def)
  then have "key |\<in>| fmdom (dn_dependencies node)" using node(3) same by (auto simp: node_ok_def fmlookup_dom_iff)
  then obtain child where "fmlookup (dn_dependencies node) key = Some child" by (auto simp: fmlookup_dom_iff)
  then have "child \<in> set before" "stands_for env w key child" using node(3) same by (auto simp: node_ok_def)
  then have "dependencyIdentity w' \<in> set before" using name by (auto simp: stands_for_def)
  then show ?thesis using position_before [of _ before] position_split [of before] ok unfolding split plan_ok_def by auto
qed

lemma plan_acyclic:
  assumes ok: "plan_ok env root known order" and good: "well_declared env root" and "dependencyIdentity root \<in> set order"
  shows "\<not> cyclic env root"
proof
  assume "cyclic env root"
  then obtain w where w: "(depends env)\<^sup>*\<^sup>* root w" "(depends env)\<^sup>+\<^sup>+ w w" by (auto simp: cyclic_def)
  have inside: "dependencyIdentity v \<in> set order" if "(depends env)\<^sup>*\<^sup>* root v" for v
    using that
  proof (induction rule: rtranclp_induct)
    case (step v v')
    then show ?case using plan_member [OF ok good] by blast
  qed (rule assms(3))
  have "position order (dependencyIdentity v) < position order (dependencyIdentity w)" if "(depends env)\<^sup>+\<^sup>+ w v" for v
    using that
  proof (induction rule: tranclp_induct)
    case (base v)
    then show ?case using plan_member [OF ok good w(1) inside [OF w(1)]] by blast
  next
    case (step v v')
    then have "(depends env)\<^sup>*\<^sup>* root v" using w(1) by (meson rtranclp_trans tranclp_into_rtranclp)
    then show ?case using plan_member [OF ok good _ inside step.hyps(2)] step.IH by fastforce
  qed
  then show False using w(2) by blast
qed

lemma ResolveDependencyPlan_visit:
  assumes "ResolveDependencyPlan depth env (Some root) = Some (Inr plan)"
  obtains st where "visit_workflow depth env (Some root) initial_resolution = Some (Inr (dp_root plan, st))"
    "dp_order plan = rs_order st" "dp_nodes plan = rs_nodes st"
  using assms that by (auto simp: ResolveDependencyPlan_def split: if_splits option.splits sum.splits prod.splits)

lemma initial_ok: "resolution_ok env root initial_resolution"
  by (simp add: plan_ok_def initial_resolution_def)

lemma visit_first:
  "visit_workflow depth env (Some w) initial_resolution = Some (Inr (i, st)) \<Longrightarrow>
   (\<exists>node. fmlookup (rs_nodes st) i = Some node \<and> dn_definition node = w) \<and> rs_order st \<noteq> [] \<and> last (rs_order st) = i"
  by (cases depth) (auto simp: initial_resolution_def Let_def leave_def split: option.splits sum.splits)

lemma dependency_plan_facts:
  assumes "ResolveDependencyPlan depth env (Some root) = Some (Inr plan)"
  shows "plan_ok env root (dp_nodes plan) (dp_order plan) \<and> dp_order plan \<noteq> [] \<and> last (dp_order plan) = dp_root plan \<and>
    (\<exists>node. fmlookup (dp_nodes plan) (dp_root plan) = Some node \<and> dn_definition node = root)"
proof -
  obtain st where st: "visit_workflow depth env (Some root) initial_resolution = Some (Inr (dp_root plan, st))"
      "dp_order plan = rs_order st" "dp_nodes plan = rs_nodes st"
    using assms by (rule ResolveDependencyPlan_visit)
  have "resolution_ok env root st" using visit_sound [OF st(1) initial_ok] by simp
  then show ?thesis using visit_first [OF st(1)] st by simp
qed

subsection \<open>Properties\<close>

text \<open>A workflow that publishes the output of another\<close>

definition demo_workflow :: "string \<Rightarrow> string gomap \<Rightarrow> workflow_output gomap \<Rightarrow> loaded_definition" where
  "demo_workflow name deps outputs = \<lparr>w_version = 1, w_package_version = [], w_name = name, w_description = [],
     w_depends_on = deps, w_plugins = {||}, w_outputs = outputs, w_form = None, w_cron = [], w_timezone = [],
     w_vars = fmempty, w_env = fmempty, w_steps = [], w_finally = [], w_targets = None, w_install = [], w_uninstall = [],
     w_secrets = [], w_path = name, w_resolved_plugins = fmempty\<rparr>"

definition demo_lib :: loaded_definition where
  "demo_lib = demo_workflow ''lib'' fmempty (fmupd ''v'' \<lparr>out_type = ''string'', out_value = ''vars.v''\<rparr> fmempty)"

definition demo_app :: loaded_definition where
  "demo_app = demo_workflow ''app'' (fmupd ''l'' ''lib'' fmempty)
     (fmupd ''o'' \<lparr>out_type = ''string'', out_value = ''dependencies.l.v''\<rparr> fmempty)"

definition demo_parsers :: parsers where
  "demo_parsers = \<lparr>parse_expression = (\<lambda>t. if t = ''dependencies.l.v''
     then Some (MemberNode (MemberNode (IdentifierNode ''dependencies'') (StringNode ''l'')) (StringNode ''v''))
     else None), parse_template = (\<lambda>_. None)\<rparr>"

definition demo_env :: dependency_env where
  "demo_env = \<lparr>de_resolver = Some (\<lambda>name. if name = ''lib'' then Inr (Some demo_lib) else Inl (Err ''not found'')),
     de_err = (\<lambda>_. None), de_parsers = demo_parsers\<rparr>"

definition demo_plan :: dependency_plan where
  "demo_plan = \<lparr>dp_root = ''app'', dp_order = [''lib'', ''app''], dp_nodes =
     fmupd ''app'' \<lparr>dn_definition = demo_app, dn_dependencies = fmupd ''l'' ''lib'' fmempty\<rparr>
       (fmupd ''lib'' \<lparr>dn_definition = demo_lib, dn_dependencies = fmempty\<rparr> fmempty)\<rparr>"

lemma demo_lib_refs: "definitionDependencyReferences demo_parsers demo_lib = []"
  by code_simp

lemma demo_app_refs: "definitionDependencyReferences demo_parsers demo_app = [(''l'', ''v'')]"
  by code_simp

lemma demo_entries: "sorted_entries (w_depends_on demo_app) = [(''l'', ''lib'')]" "sorted_entries (w_depends_on demo_lib) = []"
  by code_simp+

lemma demo_identities [simp]: "dependencyIdentity demo_app = ''app''" "dependencyIdentity demo_lib = ''lib''"
    "w_depends_on demo_lib = fmempty" "fmdom (w_outputs demo_lib) = {|''v''|}"
    "w_depends_on demo_app = fmupd ''l'' ''lib'' fmempty"
  by (simp_all add: demo_app_def demo_lib_def demo_workflow_def dependencyIdentity_def)

lemma demo_resolver [simp]: "de_resolve demo_env ''lib'' = Inr (Some demo_lib)" "de_err demo_env n = None"
    "Option.is_none (de_resolver demo_env) = False" "de_parsers demo_env = demo_parsers"
  by (simp_all add: demo_env_def de_resolve_def)

lemma demo_leave_lib:
  "leave demo_env demo_lib fmempty st = Inr (''lib'', st\<lparr>rs_chain := butlast (rs_chain st), rs_visiting := fmdrop ''lib'' (rs_visiting st),
     rs_nodes := fmupd ''lib'' \<lparr>dn_definition = demo_lib, dn_dependencies = fmempty\<rparr> (rs_nodes st),
     rs_order := rs_order st @ [''lib'']\<rparr>)"
  by (simp add: leave_def validateDependencyReferences_def demo_lib_refs Let_def)

lemma demo_leave_app:
  "fmlookup (rs_nodes st) ''lib'' = Some \<lparr>dn_definition = demo_lib, dn_dependencies = fmempty\<rparr> \<Longrightarrow>
   leave demo_env demo_app (fmupd ''l'' ''lib'' fmempty) st = Inr (''app'', st\<lparr>rs_chain := butlast (rs_chain st),
     rs_visiting := fmdrop ''app'' (rs_visiting st),
     rs_nodes := fmupd ''app'' \<lparr>dn_definition = demo_app, dn_dependencies = fmupd ''l'' ''lib'' fmempty\<rparr> (rs_nodes st),
     rs_order := rs_order st @ [''app'']\<rparr>)"
  by (simp add: leave_def validateDependencyReferences_def demo_app_refs declares_def Let_def)

lemma demo_resolves: "ResolveDependencyPlan (Suc (Suc (Suc 0))) demo_env (Some demo_app) = Some (Inr demo_plan)"
  using demo_entries [unfolded demo_identities]
  by (simp add: ResolveDependencyPlan_def initial_resolution_def enter_def demo_leave_lib demo_leave_app demo_plan_def
      Let_def)

lemma demo_plan_reach: "(depends demo_env)\<^sup>*\<^sup>* demo_app w \<Longrightarrow> w = demo_app \<or> w = demo_lib"
proof (induction rule: rtranclp_induct)
  case (step v w)
  then show ?case by (auto simp: depends_def demo_env_def de_resolve_def split: if_splits)
qed simp

text \<open>C32: The plan of a workflow lists each workflow in reach once and the root last; every alias a workflow declares stands
  for a workflow its name resolved to, which comes earlier; and every output its expressions and templates
  refer to is declared by the workflow the alias stands for.\<close>

theorem dependency_plan:
  assumes "ResolveDependencyPlan depth env (Some root) = Some (Inr plan)"
  shows "plan_ok env root (dp_nodes plan) (dp_order plan) \<and> dp_order plan \<noteq> [] \<and> last (dp_order plan) = dp_root plan \<and>
    (\<exists>node. fmlookup (dp_nodes plan) (dp_root plan) = Some node \<and> dn_definition node = root)"
  by (rule dependency_plan_facts [OF assms])

theorem dependency_plan_witness:
  "plan_ok demo_env demo_app (dp_nodes demo_plan) [''lib'', ''app''] \<and>
   (\<exists>node. fmlookup (dp_nodes demo_plan) ''app'' = Some node \<and> dn_definition node = demo_app)"
  using dependency_plan [OF demo_resolves] by (simp add: demo_plan_def)

text \<open>C33: With a bound above the number of workflows in reach the resolution returns, and when nothing else is wrong
  with the workflows it yields a plan exactly when none of them depends on itself; otherwise it reports a cycle.\<close>

theorem dependency_cycles:
  assumes "finite U" and "\<forall>w. (depends env)\<^sup>*\<^sup>* root w \<longrightarrow> dependencyIdentity w \<in> U" and "card U < depth"
  shows "ResolveDependencyPlan depth env (Some root) \<noteq> None \<and> (well_declared env root \<longrightarrow>
    (if cyclic env root then \<exists>e. ResolveDependencyPlan depth env (Some root) = Some (Inl e) \<and> cycle_error e
     else \<exists>plan. ResolveDependencyPlan depth env (Some root) = Some (Inr plan)))"
proof -
  let ?visit_workflow = "visit_workflow depth env (Some root) initial_resolution"
  have "answers env root ?visit_workflow"
    by (rule visit_answers [of U]) (use assms initial_ok in \<open>auto simp: room_def ancestors_def initial_resolution_def\<close>)
  moreover have "de_resolver env \<noteq> None \<or> w_depends_on root = fmempty" if good: "well_declared env root"
  proof (rule ccontr)
    assume none: "\<not> ?thesis"
    then obtain key name where "fmlookup (w_depends_on root) key = Some name"
      by (metis fmap_ext fmempty_lookup not_None_eq)
    then show False using good none unfolding well_declared_def by (auto simp: de_resolve_def)
  qed
  moreover have "\<not> cyclic env root" if "well_declared env root" "?visit_workflow = Some (Inr (i, st))" for i st
  proof -
    have "resolution_ok env root st \<and> (\<exists>w. Some root = Some w \<and> i = dependencyIdentity w) \<and> i \<in> set (rs_order st)"
      using visit_sound [OF that(2) initial_ok] by blast
    then show ?thesis using plan_acyclic that(1) by blast
  qed
  ultimately show ?thesis
    by (cases ?visit_workflow) (auto simp: answers_def ResolveDependencyPlan_def Option.is_none_def split: sum.split prod.split)
qed

lemma demo_well_declared: "well_declared demo_env demo_app"
  unfolding well_declared_def
proof (intro conjI allI impI; (elim conjE)?)
  show "v = w" if "(depends demo_env)\<^sup>*\<^sup>* demo_app v" "(depends demo_env)\<^sup>*\<^sup>* demo_app w"
      "dependencyIdentity v = dependencyIdentity w" for v w
    using that(3) demo_plan_reach [OF that(1)] demo_plan_reach [OF that(2)] by auto
  show "\<exists>w'. de_resolve demo_env name = Inr (Some w')"
    if "(depends demo_env)\<^sup>*\<^sup>* demo_app w" "fmlookup (w_depends_on w) key = Some name" for w key name
    using that(2) demo_plan_reach [OF that(1)] by (auto split: if_splits)
  show "\<exists>name w'. fmlookup (w_depends_on w) key = Some name \<and> de_resolve demo_env name = Inr (Some w') \<and>
      out |\<in>| fmdom (w_outputs w')"
    if "(depends demo_env)\<^sup>*\<^sup>* demo_app w" "(key, out) \<in> references_of demo_env w" for w key out
    using that(2) demo_plan_reach [OF that(1)] by (auto simp: demo_app_refs demo_lib_refs)
qed simp

lemma demo_leaf: "\<not> (depends demo_env)\<^sup>+\<^sup>+ demo_lib w"
proof
  assume "(depends demo_env)\<^sup>+\<^sup>+ demo_lib w"
  then obtain v where "depends demo_env demo_lib v" by (metis tranclpD)
  then show False by (simp add: depends_def)
qed

lemma demo_acyclic: "\<not> cyclic demo_env demo_app"
proof
  assume "cyclic demo_env demo_app"
  then obtain w where w: "(depends demo_env)\<^sup>*\<^sup>* demo_app w" "(depends demo_env)\<^sup>+\<^sup>+ w w" by (auto simp: cyclic_def)
  then have "(depends demo_env)\<^sup>+\<^sup>+ demo_app demo_app" using demo_plan_reach demo_leaf by metis
  then obtain v where v: "depends demo_env demo_app v" "(depends demo_env)\<^sup>*\<^sup>* v demo_app" by (metis tranclpD)
  have "v = demo_lib" using v(1) by (auto simp: depends_def split: if_splits)
  moreover have "demo_lib \<noteq> demo_app"
  proof
    assume "demo_lib = demo_app"
    then have "dependencyIdentity demo_lib = dependencyIdentity demo_app" by simp
    then show False by simp
  qed
  ultimately show False using v(2) demo_leaf by (metis rtranclpD)
qed

theorem dependency_cycles_witness:
  "\<exists>plan. ResolveDependencyPlan 3 demo_env (Some demo_app) = Some (Inr plan)"
proof -
  have "\<forall>w. (depends demo_env)\<^sup>*\<^sup>* demo_app w \<longrightarrow> dependencyIdentity w \<in> {''app'', ''lib''}"
    by (auto dest: demo_plan_reach)
  then show ?thesis
    using dependency_cycles [of "{''app'', ''lib''}" demo_env demo_app 3] demo_well_declared demo_acyclic by simp
qed

end
