(* ===== verification/DependencyRun.thy ===== *)
theory DependencyRun
  imports DependencyProperties EngineState
begin

text \<open>
  What the commands do with a dependency plan (cmd/dependency.go): names are resolved among the
  discovered workflows (workflow/discovery.go), the plugins of the plan must agree
  (workflow/plugin.go), and its workflows run in order, each with the outputs of its dependencies.

  The loader and the engine are parameters: loading a path gives one definition, since the resolver
  keeps what it loaded, and running a workflow with the outputs of its dependencies changes a
  state of its own, \<open>'s\<close>. net/url is the record \<open>urls\<close>.
\<close>

subsection \<open>Resolving names\<close>

record workflow_source =
  ws_name :: string
  ws_path :: string
  ws_target :: string

record selection =
  sel_sources :: "workflow_source list"
  sel_invalid :: "goerr gomap"

definition SelectSource :: "workflow_source list \<Rightarrow> string \<Rightarrow> goerr + workflow_source" where
  "SelectSource sources name =
     (if \<not> ValidWorkflowSelector name then Inl (Err (''invalid workflow name '' @ go_quote name))
      else case find (\<lambda>source. ws_name source = name) sources of
          Some source \<Rightarrow> Inr source
        | None \<Rightarrow> (let suggestion = Suggest name (map ws_name sources)
            in Inl (Err (if suggestion \<noteq> []
                 then ''workflow '' @ go_quote name @ '' not found; did you mean '' @ go_quote suggestion
                   @ ''? Run '' @ [CHR 0x27] @ ''wuko list'' @ [CHR 0x27] @ '' to see available workflows''
                 else ''workflow '' @ go_quote name @ '' not found; run '' @ [CHR 0x27] @ ''wuko list'' @ [CHR 0x27]
                   @ '' to see available workflows''))))"

definition selection_Select :: "selection \<Rightarrow> string \<Rightarrow> goerr + workflow_source" where
  "selection_Select sel name = (case SelectSource (sel_sources sel) name of
     Inl e \<Rightarrow> Inl e
   | Inr source \<Rightarrow> (case fmlookup (sel_invalid sel) (ws_path source) of
       Some e \<Rightarrow> Inl e
     | None \<Rightarrow> Inr source))"

definition plan_resolver :: "selection \<Rightarrow> (string \<Rightarrow> goerr + loaded_definition) \<Rightarrow> string \<Rightarrow> goerr + loaded_definition option" where
  "plan_resolver sel load name =
     (if \<not> ValidWorkflowName name then Inl (Err (''invalid workflow name '' @ go_quote name))
      else case selection_Select sel name of
          Inl e \<Rightarrow> Inl e
        | Inr source \<Rightarrow>
            if ws_target source \<noteq> [] then
              Inl (Err (''workflow '' @ go_quote name @ '' declares targets and cannot be used as a dependency''))
            else map_sum id Some (load (ws_path source)))"

text \<open>resolveDependencyPlanWith: discovery runs only for a root that has dependencies.\<close>

definition resolveDependencyPlanWith :: "nat \<Rightarrow> (nat \<Rightarrow> goerr option) \<Rightarrow> parsers \<Rightarrow> (string \<Rightarrow> goerr + loaded_definition)
    \<Rightarrow> goerr + selection \<Rightarrow> loaded_definition \<Rightarrow> (goerr + dependency_plan) option" where
  "resolveDependencyPlanWith depth err ps load discovered root =
     (if w_depends_on root = fmempty
      then ResolveDependencyPlan depth \<lparr>de_resolver = None, de_err = err, de_parsers = ps\<rparr> (Some root)
      else case discovered of
          Inl e \<Rightarrow> Some (Inl e)
        | Inr sel \<Rightarrow> ResolveDependencyPlan depth
            \<lparr>de_resolver = Some (plan_resolver sel load), de_err = err, de_parsers = ps\<rparr> (Some root))"

subsection \<open>Plugins of a plan\<close>

text \<open>The parts of a parsed URL the code reads, and how a URL is parsed and printed\<close>

record parsed_url =
  url_scheme :: string
  url_host :: string
  url_has_user :: bool
  url_fragment :: string
  url_path :: string

record urls =
  url_parse :: "string \<Rightarrow> parsed_url option"
  url_text :: "parsed_url \<Rightarrow> string"

text \<open>The text before and after the first occurrence of a character\<close>

fun cut_at :: "char \<Rightarrow> string \<Rightarrow> (string \<times> string) option" where
  "cut_at x [] = None"
| "cut_at x (c # cs) = (if c = x then Some ([], cs) else map_option (\<lambda>(a, b). (c # a, b)) (cut_at x cs))"

definition path_base :: "string \<Rightarrow> string" where
  "path_base s = (let t = rev (dropWhile (\<lambda>c. c = CHR ''/'') (rev s)) in
     if s = [] then ''.'' else if t = [] then ''/'' else last (split_slash t))"

definition file_ext :: "string \<Rightarrow> string" where
  "file_ext s = (let t = last (split_slash s) in
     case cut_at (CHR ''.'') (rev t) of None \<Rightarrow> [] | Some (suffix, _) \<Rightarrow> CHR ''.'' # rev suffix)"

definition github_source :: "string \<Rightarrow> goerr + string" where
  "github_source v =
     (let malformed = Inl (Err ''GitHub plugin source requires owner/repository@ref'') in
      case cut_at (CHR ''@'') v of
        None \<Rightarrow> malformed
      | Some (repository, tail) \<Rightarrow>
          if repository = [] \<or> tail = [] \<or> length (split_slash repository) \<noteq> 2 then malformed
          else case cut_at (CHR '':'') tail of
              None \<Rightarrow> Inr (''github:'' @ v @ '':plugin.json'')
            | Some (ref, manifest) \<Rightarrow>
                if ref = [] \<or> manifest = [] \<or> is_abs manifest \<or> clean_path manifest \<noteq> manifest \<or> has_prefix ''../'' manifest
                then Inl (Err ''invalid GitHub plugin manifest path'')
                else Inr (''github:'' @ v))"

definition local_source :: "string \<Rightarrow> goerr + string" where
  "local_source v =
     (if v = [] \<or> CHR '':'' \<in> set v
      then Inl (Err ''plugin source must be a local bundle, HTTPS, or github:owner/repository@ref[:path]'')
      else let place = clean_path v
           in Inr (if file_ext place \<noteq> ''.json'' then join_path place ''plugin.json'' else place))"

definition https_source :: "urls \<Rightarrow> string \<Rightarrow> goerr + string" where
  "https_source us v =
     (let malformed = Inl (Err ''workflow plugin source must be HTTPS or github:owner/repository@ref[:path]'') in
      case url_parse us v of
        None \<Rightarrow> malformed
      | Some u \<Rightarrow>
          if url_scheme u \<noteq> ''https'' \<or> url_host u = [] \<or> url_has_user u \<or> url_fragment u \<noteq> [] then malformed
          else (let p = url_path u;
                    trimmed = (if has_suffix ''/'' p then butlast p else p)
            in Inr (url_text us (if p = [] \<or> has_suffix ''/'' p \<or> CHR ''.'' \<notin> set (path_base p)
                 then u\<lparr>url_path := trimmed @ ''/plugin.json''\<rparr> else u))))"

definition CanonicalSource :: "urls \<Rightarrow> string \<Rightarrow> goerr + string" where
  "CanonicalSource us source = (case strip_prefix ''github:'' source of
     Some v \<Rightarrow> github_source v
   | None \<Rightarrow> if has_prefix ''https://'' source then https_source us source else local_source source)"

fun plugin_conflicts :: "urls \<Rightarrow> (string \<times> plugin_source) list \<Rightarrow> plugin_source gomap \<Rightarrow> goerr + plugin_source gomap" where
  "plugin_conflicts us [] declared = Inr declared"
| "plugin_conflicts us ((namespace, source) # rest) declared =
     (case CanonicalSource us (plug_source source) of
        Inl e \<Rightarrow> Inl (Wrapped (''plugin '' @ go_quote namespace) e)
      | Inr canonical \<Rightarrow>
          (let source = source\<lparr>plug_source := (if plug_identity source \<noteq> [] then plug_identity source else canonical)\<rparr>
           in if (case fmlookup declared namespace of None \<Rightarrow> False | Some previous \<Rightarrow> previous \<noteq> source)
              then Inl (Err (''plugin '' @ go_quote namespace @ '' has conflicting declarations in dependency plan''))
              else plugin_conflicts us rest (fmupd namespace source declared)))"

definition plan_definitions :: "dependency_plan \<Rightarrow> loaded_definition list" where
  "plan_definitions plan = List.map_filter (\<lambda>i. map_option dn_definition (fmlookup (dp_nodes plan) i)) (dp_order plan)"

definition validatePluginDeclarations :: "urls \<Rightarrow> dependency_plan \<Rightarrow> goerr option" where
  "validatePluginDeclarations us plan =
     (case plugin_conflicts us (concat (map (\<lambda>w. sorted_entries (w_resolved_plugins w)) (plan_definitions plan))) fmempty of
        Inl e \<Rightarrow> Some e | Inr _ \<Rightarrow> None)"

subsection \<open>Running a plan\<close>

type_synonym 's runner = "loaded_definition \<Rightarrow> vmap gomap \<Rightarrow> 's \<Rightarrow> (goerr + wstate) \<times> 's"

definition declared_outputs :: "loaded_definition \<Rightarrow> wstate \<Rightarrow> vmap" where
  "declared_outputs w st = fmap_of_list (map (\<lambda>name.
     (name, case fmlookup (st_outputs st) name of None \<Rightarrow> VNil | Some v \<Rightarrow> v)) (sorted_keys (w_outputs w)))"

definition dependencyValues :: "dependency_plan \<Rightarrow> dependency_node \<Rightarrow> wstate gomap \<Rightarrow> bool \<Rightarrow> vmap gomap" where
  "dependencyValues plan node states placeholders =
     (if placeholders then PlaceholderDependencies (dp_nodes plan) node
      else fmmap (\<lambda>child. case fmlookup states child of
          None \<Rightarrow> fmempty
        | Some st \<Rightarrow> (case fmlookup (dp_nodes plan) child of
            None \<Rightarrow> fmempty | Some dependency \<Rightarrow> declared_outputs (dn_definition dependency) st)) (dn_dependencies node))"

fun execute_nodes :: "'s runner \<Rightarrow> bool \<Rightarrow> bool \<Rightarrow> dependency_plan \<Rightarrow> string list \<Rightarrow> wstate gomap \<Rightarrow> 's
    \<Rightarrow> (goerr + wstate gomap) \<times> 's" where
  "execute_nodes run dry labelRoot plan [] states s = (Inr states, s)"
| "execute_nodes run dry labelRoot plan (i # is) states s = (case fmlookup (dp_nodes plan) i of
     None \<Rightarrow> execute_nodes run dry labelRoot plan is states s
   | Some node \<Rightarrow> (case run (dn_definition node) (dependencyValues plan node states dry) s of
       (Inl e, s) \<Rightarrow> (Inl (if i = dp_root plan \<and> \<not> labelRoot then e
          else Wrapped (''workflow '' @ go_quote (w_name (dn_definition node))) e), s)
     | (Inr st, s) \<Rightarrow> execute_nodes run dry labelRoot plan is (fmupd i st states) s))"

definition executePlan :: "urls \<Rightarrow> 's runner \<Rightarrow> bool \<Rightarrow> bool \<Rightarrow> dependency_plan \<Rightarrow> 's \<Rightarrow> (goerr + wstate option) \<times> 's" where
  "executePlan us run dry labelRoot plan s = (case validatePluginDeclarations us plan of
     Some e \<Rightarrow> (Inl e, s)
   | None \<Rightarrow> (case execute_nodes run dry labelRoot plan (dp_order plan) fmempty s of
       (Inl e, s) \<Rightarrow> (Inl e, s)
     | (Inr states, s) \<Rightarrow> (Inr (fmlookup states (dp_root plan)), s)))"

subsection \<open>Properties\<close>

text \<open>A run of a workflow that may depend on all that ran before; the log has the workflows started, each with the
  outputs it was given.\<close>

type_synonym run_log = "(loaded_definition \<times> vmap gomap) list"

definition recorded :: "(run_log \<Rightarrow> loaded_definition \<Rightarrow> vmap gomap \<Rightarrow> goerr + wstate) \<Rightarrow> run_log runner" where
  "recorded f w deps log = (f log w deps, log @ [(w, deps)])"

definition succeeded_with :: "(run_log \<Rightarrow> loaded_definition \<Rightarrow> vmap gomap \<Rightarrow> goerr + wstate) \<Rightarrow> run_log \<Rightarrow> nat \<Rightarrow> wstate \<Rightarrow> bool" where
  "succeeded_with f log j st \<longleftrightarrow> f (take j log) (fst (log ! j)) (snd (log ! j)) = Inr st"

definition started_ok :: "(run_log \<Rightarrow> loaded_definition \<Rightarrow> vmap gomap \<Rightarrow> goerr + wstate) \<Rightarrow> dependency_plan \<Rightarrow> run_log \<Rightarrow> nat \<Rightarrow> bool" where
  "started_ok f plan log k \<longleftrightarrow> (\<exists>node. fmlookup (dp_nodes plan) (dp_order plan ! k) = Some node \<and>
     fst (log ! k) = dn_definition node \<and> fmdom (snd (log ! k)) = fmdom (w_depends_on (dn_definition node)) \<and>
     (\<forall>alias child. fmlookup (dn_dependencies node) alias = Some child \<longrightarrow>
        (\<exists>j st. j < k \<and> dp_order plan ! j = child \<and> succeeded_with f log j st \<and>
           fmlookup (snd (log ! k)) alias = Some (declared_outputs (fst (log ! j)) st))))"

definition ran :: "(run_log \<Rightarrow> loaded_definition \<Rightarrow> vmap gomap \<Rightarrow> goerr + wstate) \<Rightarrow> dependency_plan \<Rightarrow> run_log \<Rightarrow> wstate gomap \<Rightarrow> bool" where
  "ran f plan log states \<longleftrightarrow> (\<forall>j < length log. started_ok f plan log j \<and>
     (\<exists>st. succeeded_with f log j st \<and> fmlookup states (dp_order plan ! j) = Some st))"

lemma succeeded_append: "j < length log \<Longrightarrow> succeeded_with f (log @ xs) j st = succeeded_with f log j st"
  by (simp add: succeeded_with_def nth_append)

lemma started_append: "k < length log \<Longrightarrow> started_ok f plan log k \<Longrightarrow> started_ok f plan (log @ xs) k"
  unfolding started_ok_def by (fastforce simp: nth_append succeeded_append)

text \<open>The next workflow of the order is started with the outputs of finished runs.\<close>

lemma next_started:
  assumes ok: "plan_ok env root (dp_nodes plan) (dp_order plan)" and order: "dp_order plan = before @ i # later"
    and log: "length log = length before" and done_so_far: "ran f plan log states"
    and node: "fmlookup (dp_nodes plan) i = Some node"
  shows "started_ok f plan (log @ [(dn_definition node, dependencyValues plan node states False)]) (length log)"
proof -
  let ?entry = "(dn_definition node, dependencyValues plan node states False)"
  have good: "node_ok env (dp_nodes plan) (set before) node" using ok order node unfolding plan_ok_def by fastforce
  have "\<exists>j st. j < length log \<and> dp_order plan ! j = child \<and> succeeded_with f (log @ [?entry]) j st \<and>
      fmlookup (snd ?entry) key = Some (declared_outputs (fst ((log @ [?entry]) ! j)) st)"
    if child: "fmlookup (dn_dependencies node) key = Some child" for key child
  proof -
    have "child \<in> set before" using good child by (auto simp: node_ok_def)
    then obtain j where j: "j < length log" "dp_order plan ! j = child"
      using log order by (metis in_set_conv_nth nth_append)
    then obtain st dep where st: "succeeded_with f log j st" "fmlookup states child = Some st"
        "fmlookup (dp_nodes plan) child = Some dep" "fst (log ! j) = dn_definition dep"
      using done_so_far unfolding ran_def started_ok_def by blast
    then have "fmlookup (snd ?entry) key = Some (declared_outputs (fst (log ! j)) st)"
      using child by (simp add: dependencyValues_def)
    then show ?thesis using j st(1) by (auto simp: succeeded_append nth_append)
  qed
  moreover have "fmdom (snd ?entry) = fmdom (w_depends_on (dn_definition node))"
    using good by (simp add: dependencyValues_def node_ok_def)
  ultimately show ?thesis using order log node
    by (auto simp: started_ok_def nth_append)
qed

lemma execute_started:
  assumes ok: "plan_ok env root (dp_nodes plan) (dp_order plan)"
  shows "execute_nodes (recorded f) False labelRoot plan is states log = (r, log') \<Longrightarrow> dp_order plan = before @ is \<Longrightarrow>
    length log = length before \<Longrightarrow> ran f plan log states \<Longrightarrow>
    (\<forall>k < length log'. started_ok f plan log' k) \<and> length log' \<le> length (dp_order plan) \<and>
    (isl r \<or> length log' = length (dp_order plan) \<and> ran f plan log' (projr r))"
proof (induction "is" arbitrary: before states log)
  case Nil
  then show ?case by (auto simp: ran_def)
next
  case (Cons i "is")
  obtain node where node: "fmlookup (dp_nodes plan) i = Some node"
    using ok Cons.prems(2) unfolding plan_ok_def by blast
  let ?deps = "dependencyValues plan node states False"
  let ?log = "log @ [(dn_definition node, ?deps)]"
  have here: "started_ok f plan ?log (length log)"
    by (rule next_started [OF ok Cons.prems(2,3,4) node])
  have all: "\<forall>k < length ?log. started_ok f plan ?log k"
    using here Cons.prems(4) started_append [of _ log f plan] by (auto simp: ran_def less_Suc_eq)
  show ?case
  proof (cases "f log (dn_definition node) ?deps")
    case (Inl e)
    then have "r = Inl (if i = dp_root plan \<and> \<not> labelRoot then e
        else Wrapped (''workflow '' @ go_quote (w_name (dn_definition node))) e)" "log' = ?log"
      using Cons.prems(1) node by (auto simp: recorded_def)
    then show ?thesis using all Cons.prems(2,3) by simp
  next
    case (Inr st)
    have fresh: "dp_order plan ! j \<noteq> i" if "j < length log" for j
      using ok that Cons.prems(2,3) by (auto simp: plan_ok_def nth_append)
    have now: "dp_order plan ! length log = i" using Cons.prems(2,3) by simp
    have ran: "ran f plan ?log (fmupd i st states)"
      unfolding ran_def
    proof (intro allI impI conjI)
      fix j
      assume j: "j < length ?log"
      then show "started_ok f plan ?log j" using all by blast
      show "\<exists>u. succeeded_with f ?log j u \<and> fmlookup (fmupd i st states) (dp_order plan ! j) = Some u"
      proof (cases "j < length log")
        case True
        then show ?thesis using Cons.prems(4) fresh [OF True] by (auto simp: ran_def succeeded_append)
      next
        case False
        then have "j = length log" using j by simp
        then show ?thesis using Inr now by (simp add: succeeded_with_def)
      qed
    qed
    show ?thesis
      using Cons.IH [of "fmupd i st states" ?log "before @ [i]"] Cons.prems Inr node ran by (simp add: recorded_def)
  qed
qed

text \<open>C34: Executing a resolved plan starts its workflows in order, each at most once and all of them unless one fails or
  the plugins disagree; every workflow is given, under each alias it declares, the declared outputs of the finished and
  successful run of the workflow the alias stands for.\<close>

theorem plan_execution:
  assumes "ResolveDependencyPlan depth env (Some root) = Some (Inr plan)"
    and "executePlan us (recorded f) False labelRoot plan [] = (r, log)"
  shows "(\<forall>k < length log. started_ok f plan log k) \<and> length log \<le> length (dp_order plan) \<and>
    (\<forall>final. r = Inr final \<longrightarrow> length log = length (dp_order plan) \<and>
       (\<exists>st. final = Some st \<and> succeeded_with f log (length log - 1) st))"
proof -
  have plan: "plan_ok env root (dp_nodes plan) (dp_order plan)" "dp_order plan \<noteq> []" "last (dp_order plan) = dp_root plan"
    using dependency_plan_facts [OF assms(1)] by blast+
  obtain r' log' where run: "execute_nodes (recorded f) False labelRoot plan (dp_order plan) fmempty [] = (r', log')"
    by (cases "execute_nodes (recorded f) False labelRoot plan (dp_order plan) fmempty ([] :: run_log)")
  have all: "(\<forall>k < length log'. started_ok f plan log' k) \<and> length log' \<le> length (dp_order plan) \<and>
      (isl r' \<or> length log' = length (dp_order plan) \<and> ran f plan log' (projr r'))"
    by (rule execute_started [OF plan(1) run, of "[]"]) (simp_all add: ran_def)
  show ?thesis
  proof (cases "validatePluginDeclarations us plan")
    case (Some e)
    then show ?thesis using assms(2) by (auto simp: executePlan_def)
  next
    case None
    then have r: "log = log'" "r = map_sum id (\<lambda>states. fmlookup states (dp_root plan)) r'"
      using assms(2) run by (auto simp: executePlan_def split: sum.splits)
    have "\<exists>st. final = Some st \<and> succeeded_with f log (length log - 1) st" if final: "r = Inr final" for final
    proof -
      obtain states where states: "r' = Inr states" "final = fmlookup states (dp_root plan)"
        using final r(2) by (cases r') simp_all
      then have "ran f plan log states" "length log = length (dp_order plan)" using all r(1) by auto
      moreover have "dp_order plan ! (length (dp_order plan) - 1) = dp_root plan" using plan by (simp add: last_conv_nth)
      ultimately show ?thesis using plan(2) states(2) unfolding ran_def by (metis diff_less length_greater_0_conv option.sel zero_less_one)
    qed
    moreover have "length log = length (dp_order plan)" if "r = Inr final" for final
      using that r all by (cases r') auto
    ultimately show ?thesis using all r(1) by blast
  qed
qed

text \<open>The library publishes a text, and the application what it was given.\<close>

definition demo_run :: "run_log \<Rightarrow> loaded_definition \<Rightarrow> vmap gomap \<Rightarrow> goerr + wstate" where
  "demo_run log w deps = Inr (empty_wstate\<lparr>st_outputs := (case fmlookup deps ''l'' of
     None \<Rightarrow> fmupd ''v'' (VStr ''text'') fmempty | Some given \<Rightarrow> given)\<rparr>)"

definition demo_urls :: urls where
  "demo_urls = \<lparr>url_parse = (\<lambda>_. None), url_text = url_path\<rparr>"

lemma demo_executes: "\<exists>final. fst (executePlan demo_urls (recorded demo_run) False True demo_plan []) = Inr final"
proof -
  have "plan_definitions demo_plan = [demo_lib, demo_app]"
    by (simp add: plan_definitions_def demo_plan_def List.map_filter_def)
  moreover have "w_resolved_plugins demo_lib = fmempty" "w_resolved_plugins demo_app = fmempty"
    by (simp_all add: demo_lib_def demo_app_def demo_workflow_def)
  moreover have "sorted_entries (fmempty :: plugin_source gomap) = []" by code_simp
  ultimately have "validatePluginDeclarations demo_urls demo_plan = None"
    by (simp add: validatePluginDeclarations_def)
  then show ?thesis by (simp add: executePlan_def recorded_def demo_run_def demo_plan_def)
qed

theorem plan_execution_witness:
  "started_ok demo_run demo_plan (snd (executePlan demo_urls (recorded demo_run) False True demo_plan [])) 0 \<and>
   started_ok demo_run demo_plan (snd (executePlan demo_urls (recorded demo_run) False True demo_plan [])) 1"
proof -
  let ?r = "executePlan demo_urls (recorded demo_run) False True demo_plan []"
  note facts = plan_execution [OF demo_resolves prod.collapse [of ?r, symmetric]]
  moreover have "length (dp_order demo_plan) = 2" by (simp add: demo_plan_def)
  ultimately show ?thesis using demo_executes by fastforce
qed

end
