(* ===== verification/Observe.thy ===== *)
theory Observe
  imports Declarations
begin

text \<open>
  The loop behind an observe control (observe/scheduler.go) and the batches of its sources
  (observe/source.go, observe/filesystem.go). The select of the loop is \<open>handle\<close>, one step per
  alternative that is ready: the context ended, the pump delivered, the debounce timer fired, the
  body is through. What the body answers, what the source yields and when the timer fires is
  free, so a list of events is an interleaving of the pump, the timer and the body with the loop.

  A source coalesces what it yields in batches of its own; the locale \<open>coalescing\<close> is what the loop
  relies on.
\<close>

subsection \<open>Batches\<close>

record ('b, 'e) batch_ops =
  bo_new :: 'b
  bo_add :: "'e \<Rightarrow> 'b \<Rightarrow> 'b"
  bo_merge :: "'b \<Rightarrow> 'b \<Rightarrow> 'b"
  bo_empty :: "'b \<Rightarrow> bool"
  bo_binding :: "'b \<Rightarrow> vmap"

text \<open>The batch of a list of events\<close>

definition batch_of :: "('b, 'e) batch_ops \<Rightarrow> 'e list \<Rightarrow> 'b" where
  "batch_of ops es = fold (bo_add ops) es (bo_new ops)"

text \<open>latestBatch: a poll replaces the one before.\<close>

definition latest_add :: "vmap \<Rightarrow> vmap option \<Rightarrow> vmap option" where
  "latest_add poll batch = Some poll"

definition latest_merge :: "vmap option \<Rightarrow> vmap option \<Rightarrow> vmap option" where
  "latest_merge batch other = (case other of None \<Rightarrow> batch | Some poll \<Rightarrow> Some poll)"

definition latest_ops :: "string \<Rightarrow> (vmap option, vmap) batch_ops" where
  "latest_ops root = \<lparr>bo_new = None, bo_add = latest_add, bo_merge = latest_merge,
     bo_empty = (\<lambda>batch. batch = None),
     bo_binding = (\<lambda>batch. fmupd root (VMap (case batch of None \<Rightarrow> fmempty | Some poll \<Rightarrow> poll)) fmempty)\<rparr>"

text \<open>fswatch.Change, and filesystemBatch: the operations seen on each path\<close>

record file_change =
  change_path :: string
  change_operations :: "string list"

type_synonym changes = "string fset gomap"

definition changes_add :: "file_change \<Rightarrow> changes \<Rightarrow> changes" where
  "changes_add change batch =
     (if change_path change = [] then batch
      else fmupd (change_path change)
        ((case fmlookup batch (change_path change) of None \<Rightarrow> {||} | Some operations \<Rightarrow> operations)
          |\<union>| fset_of_list (change_operations change)) batch)"

definition changes_merge :: "changes \<Rightarrow> changes \<Rightarrow> changes" where
  "changes_merge batch other = batch ++\<^sub>f fmmap_keys (\<lambda>path operations.
     (case fmlookup batch path of None \<Rightarrow> {||} | Some merged \<Rightarrow> merged) |\<union>| operations) other"

text \<open>fswatch.EventNames gives the order of the operations in a binding.\<close>

definition event_names :: "string list" where
  "event_names = [''create'', ''modify'', ''rename'', ''remove'']"

definition changes_binding :: "changes \<Rightarrow> vmap" where
  "changes_binding batch = fmupd ''filesystem'' (vmap_of
     [(''paths'', VList (map VStr (sorted_keys batch))),
      (''changes'', VList (map (\<lambda>(path, operations). vmap_of
        [(''path'', VStr path),
         (''operations'', VList (map VStr (filter (\<lambda>name. name |\<in>| operations) event_names)))])
        (sorted_entries batch)))]) fmempty"

definition changes_ops :: "(changes, file_change) batch_ops" where
  "changes_ops = \<lparr>bo_new = fmempty, bo_add = changes_add, bo_merge = changes_merge,
     bo_empty = (\<lambda>batch. fmdom batch = {||}), bo_binding = changes_binding\<rparr>"

text \<open>What the loop relies on: merging is appending, and a batch is empty when nothing that counts was added.\<close>

locale coalescing =
  fixes ops :: "('b, 'e) batch_ops" and void :: "'e \<Rightarrow> bool"
  assumes merge_append: "bo_merge ops (batch_of ops es) (batch_of ops es') = batch_of ops (es @ es')"
    and empty_void: "bo_empty ops (batch_of ops es) \<longleftrightarrow> list_all void es"

lemma batch_of_Nil [simp]: "batch_of ops [] = bo_new ops"
  by (simp add: batch_of_def)

lemma batch_of_snoc [simp]: "batch_of ops (es @ [e]) = bo_add ops e (batch_of ops es)"
  by (simp add: batch_of_def)

lemma ops_simps [simp]:
  "bo_new (latest_ops root) = None" "bo_add (latest_ops root) = latest_add" "bo_merge (latest_ops root) = latest_merge"
  "bo_empty (latest_ops root) b \<longleftrightarrow> b = None"
  "bo_new changes_ops = fmempty" "bo_add changes_ops = changes_add" "bo_merge changes_ops = changes_merge"
  "bo_empty changes_ops c \<longleftrightarrow> fmdom c = {||}"
  by (simp_all add: latest_ops_def changes_ops_def)

text \<open>A poll that replaces another is the last one.\<close>

lemma latest_batch: "batch_of (latest_ops root) es = (if es = [] then None else Some (last es))"
  by (induction es rule: rev_induct) (simp_all add: latest_add_def)

interpretation latest: coalescing "latest_ops root" "\<lambda>_. False"
  by unfold_locales (auto simp: latest_batch latest_merge_def list_all_iff)

text \<open>A batch of changes has the operations of all changes of a path.\<close>

lemma changes_batch: "fmlookup (batch_of changes_ops es) path =
    (if path \<noteq> [] \<and> (\<exists>e \<in> set es. change_path e = path)
     then Some (fset_of_list (concat (map change_operations (filter (\<lambda>e. change_path e = path) es)))) else None)"
proof (induction es rule: rev_induct)
  case Nil
  then show ?case by simp
next
  case (snoc e es)
  then show ?case by (auto simp: changes_add_def funion_commute)
qed

interpretation changes: coalescing changes_ops "\<lambda>e. change_path e = []"
proof
  fix es es' :: "file_change list"
  show "bo_merge changes_ops (batch_of changes_ops es) (batch_of changes_ops es') = batch_of changes_ops (es @ es')"
    by (intro fmap_ext) (auto simp: changes_merge_def changes_batch fmlookup_dom_iff)
  have "bo_empty changes_ops b \<longleftrightarrow> (\<forall>path. fmlookup b path = None)" for b :: changes
    by (auto simp: fset_eq_iff)
  then show "bo_empty changes_ops (batch_of changes_ops es) \<longleftrightarrow> list_all (\<lambda>e. change_path e = []) es"
    by (auto simp: changes_batch list_all_iff)
qed

subsection \<open>The pump\<close>

record observe_config =
  oc_source_type :: string
  oc_debounce :: int
  oc_on_change :: string
  oc_on_error :: string
  oc_failure_pace :: int

definition toleratesSourceErrors :: "observe_config \<Rightarrow> bool" where
  "toleratesSourceErrors cfg \<longleftrightarrow> oc_on_error cfg = ''continue''"

text \<open>Durations are nanoseconds.\<close>

definition failurePace :: "observe_config \<Rightarrow> int" where
  "failurePace cfg = (if oc_failure_pace cfg \<le> 0 then 50000000 else oc_failure_pace cfg)"

definition failureWindowPaces :: nat where
  "failureWindowPaces = 200"

text \<open>What the pump hands to the loop, and one round of the pump: the number of instant failures so far, how long the
  source took and what it answered; the pump ends with a fatal error.\<close>

datatype 'e observation = Event 'e | SourceError goerr bool

definition pump_round :: "observe_config \<Rightarrow> nat \<Rightarrow> int \<Rightarrow> goerr + 'e \<Rightarrow> nat \<times> 'e observation" where
  "pump_round cfg churn elapsed answer = (case answer of
     Inr e \<Rightarrow> (0, Event e)
   | Inl e \<Rightarrow>
       if elapsed \<ge> failurePace cfg then (0, SourceError e (\<not> toleratesSourceErrors cfg))
       else if churn \<ge> failureWindowPaces then
         (churn, SourceError (Wrapped (''source failed '' @ nat_text churn @ '' times without doing any work'') e) True)
       else (Suc churn, SourceError e (\<not> toleratesSourceErrors cfg)))"

fun pump :: "observe_config \<Rightarrow> nat \<Rightarrow> (int \<times> (goerr + 'e)) list \<Rightarrow> 'e observation list" where
  "pump cfg churn [] = []"
| "pump cfg churn ((elapsed, answer) # rest) = (case pump_round cfg churn elapsed answer of
     (churn', SourceError e True) \<Rightarrow> [SourceError e True]
   | (churn', obs) \<Rightarrow> obs # pump cfg churn' rest)"

text \<open>A source that does nothing but fail at once is given up after the window, whatever the policy.\<close>

lemma pump_gives_up:
  "\<forall>(elapsed, answer) \<in> set rounds. elapsed < failurePace cfg \<and> isl answer \<Longrightarrow> churn \<le> failureWindowPaces \<Longrightarrow>
   length (pump cfg churn rounds) \<le> Suc (failureWindowPaces - churn)"
proof (induction cfg churn rounds rule: pump.induct)
  case (2 cfg churn elapsed answer rest)
  then obtain e where e: "answer = Inl e" "elapsed < failurePace cfg" by (cases answer) auto
  show ?case
  proof (cases "churn < failureWindowPaces \<and> toleratesSourceErrors cfg")
    case True
    then have round_result: "pump_round cfg churn elapsed answer = (Suc churn, SourceError e False)"
      using e by (simp add: pump_round_def)
    have "length (pump cfg (Suc churn) rest) \<le> Suc (failureWindowPaces - Suc churn)"
      using 2(2) [OF round_result [symmetric] refl] 2(3) True by auto
    then show ?thesis using round_result True by simp linarith
  next
    case False
    then show ?thesis using e by (auto simp: pump_round_def)
  qed
qed simp

subsection \<open>The loop\<close>

text \<open>What Run reports\<close>

datatype observe_report =
    IterationStarted nat
  | IterationFinished nat "goerr option"
  | TriggerHandled string
  | SourceFailure goerr

text \<open>
  The variables of Run: the number of iterations, the running body (its iteration, and whether its
  context was cancelled), the two batches, whether the debounce timer is armed, and what Run
  returned. \<open>ob_bodies\<close> and \<open>ob_reports\<close> are the calls of RunIteration, each with its batch and
  the binding it got, and of Report.
\<close>

record 'b observer =
  ob_iterations :: nat
  ob_body :: "(nat \<times> bool) option"
  ob_pending :: 'b
  ob_queued :: 'b
  ob_armed :: bool
  ob_returned :: "goerr option"
  ob_bodies :: "('b \<times> vmap) list"
  ob_reports :: "observe_report list"

definition report_to :: "observe_report \<Rightarrow> 'b observer \<Rightarrow> 'b observer" where
  "report_to r st = st\<lparr>ob_reports := ob_reports st @ [r]\<rparr>"

definition startBody :: "('b, 'e) batch_ops \<Rightarrow> observe_config \<Rightarrow> bool \<Rightarrow> 'b \<Rightarrow> 'b observer \<Rightarrow> 'b observer" where
  "startBody ops cfg initial batch st =
     (let iteration = Suc (ob_iterations st);
          binding = fmupd ''source'' (VStr (oc_source_type cfg)) (fmupd ''iteration'' (VInt (int iteration))
            (fmupd ''initial'' (VBool initial) (bo_binding ops batch)))
      in report_to (IterationStarted iteration) (st\<lparr>ob_iterations := iteration, ob_body := Some (iteration, False),
           ob_bodies := ob_bodies st @ [(batch, binding)]\<rparr>))"

definition finishIteration :: "nat \<Rightarrow> goerr option \<Rightarrow> 'b observer \<Rightarrow> 'b observer" where
  "finishIteration iteration err st = report_to (IterationFinished iteration err) st"

text \<open>stopBody waits for a running body, which answers \<open>err\<close>.\<close>

definition stopBody :: "goerr option \<Rightarrow> 'b observer \<Rightarrow> 'b observer" where
  "stopBody err st = (case ob_body st of
     None \<Rightarrow> st
   | Some (iteration, _) \<Rightarrow> (finishIteration iteration err st)\<lparr>ob_body := None\<rparr>)"

definition return_with :: "goerr \<Rightarrow> goerr option \<Rightarrow> 'b observer \<Rightarrow> 'b observer" where
  "return_with e err st = (stopBody err st)\<lparr>ob_returned := Some e\<rparr>"

text \<open>The alternatives of the select. A source error carries whether it is fatal, whether the context has ended, and
  the answer of the body should the loop end.\<close>

datatype 'e alternative =
    ContextDone goerr "goerr option"
  | Observed 'e
  | ObservedError goerr bool bool "goerr option"
  | TimerFired
  | BodyDone "goerr option"

definition handle_event :: "('b, 'e) batch_ops \<Rightarrow> observe_config \<Rightarrow> 'e \<Rightarrow> 'b observer \<Rightarrow> 'b observer" where
  "handle_event ops cfg e st =
     (if oc_on_change cfg = ''skip'' \<and> ob_body st \<noteq> None then report_to (TriggerHandled ''skip'') st
      else st\<lparr>ob_pending := bo_add ops e (ob_pending st), ob_armed := True\<rparr>)"

definition handle_error :: "observe_config \<Rightarrow> goerr \<Rightarrow> bool \<Rightarrow> bool \<Rightarrow> goerr option \<Rightarrow> 'b observer \<Rightarrow> 'b observer" where
  "handle_error cfg e fatal ended err st =
     (if ended then st
      else if toleratesSourceErrors cfg \<and> \<not> fatal then report_to (SourceFailure e) st
      else return_with e err st)"

definition handle_timer :: "('b, 'e) batch_ops \<Rightarrow> observe_config \<Rightarrow> 'b observer \<Rightarrow> 'b observer" where
  "handle_timer ops cfg st =
     (let batch = ob_pending st; queued = bo_merge ops (ob_queued st) batch;
          st = st\<lparr>ob_armed := False, ob_pending := bo_new ops\<rparr>
      in case ob_body st of
          None \<Rightarrow> startBody ops cfg False queued (st\<lparr>ob_queued := bo_new ops\<rparr>)
        | Some (iteration, _) \<Rightarrow>
            (let st = st\<lparr>ob_queued := queued\<rparr> in
             if oc_on_change cfg = ''restart''
             then (report_to (TriggerHandled ''restart'') st)\<lparr>ob_body := Some (iteration, True)\<rparr>
             else report_to (TriggerHandled ''queue'') st))"

definition handle_body :: "('b, 'e) batch_ops \<Rightarrow> observe_config \<Rightarrow> nat \<Rightarrow> goerr option \<Rightarrow> 'b observer \<Rightarrow> 'b observer" where
  "handle_body ops cfg iteration err st =
     (let st = finishIteration iteration err (st\<lparr>ob_body := None\<rparr>)
      in if \<not> bo_empty ops (ob_queued st) \<and> \<not> ob_armed st
         then startBody ops cfg False (ob_queued st) (st\<lparr>ob_queued := bo_new ops\<rparr>)
         else st)"

text \<open>One round of the loop; an alternative that is not ready is no round.\<close>

fun handle :: "('b, 'e) batch_ops \<Rightarrow> observe_config \<Rightarrow> 'e alternative \<Rightarrow> 'b observer \<Rightarrow> 'b observer option" where
  "handle ops cfg alt st =
     (if ob_returned st \<noteq> None then None
      else case alt of
          ContextDone e err \<Rightarrow> Some (return_with e err st)
        | Observed e \<Rightarrow> Some (handle_event ops cfg e st)
        | ObservedError e fatal ended err \<Rightarrow> Some (handle_error cfg e fatal ended err st)
        | TimerFired \<Rightarrow> if ob_armed st then Some (handle_timer ops cfg st) else None
        | BodyDone err \<Rightarrow> (case ob_body st of
            None \<Rightarrow> None | Some (iteration, _) \<Rightarrow> Some (handle_body ops cfg iteration err st)))"

declare handle.simps [simp del]

text \<open>Run up to the loop: the first body gets what the source has initially.\<close>

definition observe_start :: "('b, 'e) batch_ops \<Rightarrow> observe_config \<Rightarrow> 'e option \<Rightarrow> 'b observer" where
  "observe_start ops cfg initial =
     (let batch = (case initial of None \<Rightarrow> bo_new ops | Some e \<Rightarrow> bo_add ops e (bo_new ops))
      in startBody ops cfg True batch \<lparr>ob_iterations = 0, ob_body = None, ob_pending = bo_new ops,
           ob_queued = bo_new ops, ob_armed = False, ob_returned = None, ob_bodies = [], ob_reports = []\<rparr>)"

fun observe_run :: "('b, 'e) batch_ops \<Rightarrow> observe_config \<Rightarrow> 'e alternative list \<Rightarrow> 'b observer \<Rightarrow> 'b observer option" where
  "observe_run ops cfg [] st = Some st"
| "observe_run ops cfg (alt # alts) st = (case handle ops cfg alt st of
     None \<Rightarrow> None | Some st \<Rightarrow> observe_run ops cfg alts st)"

subsection \<open>Nothing is lost\<close>

text \<open>The events the loop takes in along a run: those it does not skip\<close>

fun taken :: "('b, 'e) batch_ops \<Rightarrow> observe_config \<Rightarrow> 'e alternative list \<Rightarrow> 'b observer \<Rightarrow> 'e list" where
  "taken ops cfg [] st = []"
| "taken ops cfg (alt # alts) st =
     (case alt of Observed e \<Rightarrow> if oc_on_change cfg = ''skip'' \<and> ob_body st \<noteq> None then [] else [e] | _ \<Rightarrow> [])
     @ (case handle ops cfg alt st of None \<Rightarrow> [] | Some st \<Rightarrow> taken ops cfg alts st)"

text \<open>The reports of iterations: one after the other, and the last one open while a body runs\<close>

fun iteration_report :: "observe_report \<Rightarrow> (nat \<times> bool) option" where
  "iteration_report (IterationStarted n) = Some (n, True)"
| "iteration_report (IterationFinished n err) = Some (n, False)"
| "iteration_report _ = None"

definition iteration_log :: "'b observer \<Rightarrow> (nat \<times> bool) list" where
  "iteration_log st = List.map_filter iteration_report (ob_reports st)"

definition whole_iterations :: "nat \<Rightarrow> (nat \<times> bool) list" where
  "whole_iterations n = concat (map (\<lambda>i. [(i, True), (i, False)]) [1 ..< Suc n])"

lemma whole_iterations_Suc: "whole_iterations (Suc n) = whole_iterations n @ [(Suc n, True), (Suc n, False)]"
  by (simp add: whole_iterations_def)

lemma iteration_log_report [simp]:
  "iteration_log (report_to r st) = iteration_log st @ (case iteration_report r of None \<Rightarrow> [] | Some x \<Rightarrow> [x])"
  by (simp add: iteration_log_def report_to_def List.map_filter_def split: option.split)

lemma iteration_log_update [simp]:
  "iteration_log (st\<lparr>ob_body := b\<rparr>) = iteration_log st" "iteration_log (st\<lparr>ob_queued := q\<rparr>) = iteration_log st"
  "iteration_log (st\<lparr>ob_pending := q\<rparr>) = iteration_log st" "iteration_log (st\<lparr>ob_armed := t\<rparr>) = iteration_log st"
  "iteration_log (st\<lparr>ob_returned := r\<rparr>) = iteration_log st" "iteration_log (st\<lparr>ob_iterations := n\<rparr>) = iteration_log st"
  "iteration_log (st\<lparr>ob_bodies := bs\<rparr>) = iteration_log st"
  by (simp_all add: iteration_log_def)

lemma report_to_simps [simp]:
  "ob_body (report_to r st) = ob_body st" "ob_iterations (report_to r st) = ob_iterations st"
  "ob_queued (report_to r st) = ob_queued st" "ob_pending (report_to r st) = ob_pending st"
  "ob_armed (report_to r st) = ob_armed st" "ob_returned (report_to r st) = ob_returned st"
  "ob_bodies (report_to r st) = ob_bodies st"
  by (simp_all add: report_to_def)

definition bracketed :: "'b observer \<Rightarrow> bool" where
  "bracketed st \<longleftrightarrow> (case ob_body st of
     None \<Rightarrow> iteration_log st = whole_iterations (ob_iterations st)
   | Some (n, _) \<Rightarrow> n = ob_iterations st \<and> n > 0 \<and> iteration_log st = whole_iterations (n - 1) @ [(n, True)])"

definition holds_events :: "('b, 'e) batch_ops \<Rightarrow> ('e \<Rightarrow> bool) \<Rightarrow> 'b observer \<Rightarrow> 'e list \<Rightarrow> bool" where
  "holds_events ops void st es \<longleftrightarrow> (\<exists>delivered queued pending.
     map fst (ob_bodies st) = map (batch_of ops) delivered \<and> ob_queued st = batch_of ops queued \<and>
     ob_pending st = batch_of ops pending \<and> concat delivered @ queued @ pending = es \<and>
     (\<not> ob_armed st \<longrightarrow> pending = []) \<and>
     (\<not> ob_armed st \<and> ob_body st = None \<and> ob_returned st = None \<longrightarrow> list_all void queued))"

definition observer_ok :: "('b, 'e) batch_ops \<Rightarrow> ('e \<Rightarrow> bool) \<Rightarrow> 'b observer \<Rightarrow> 'e list \<Rightarrow> bool" where
  "observer_ok ops void st es \<longleftrightarrow> holds_events ops void st es \<and> bracketed st \<and> length (ob_bodies st) = ob_iterations st
     \<and> (ob_returned st \<noteq> None \<longrightarrow> ob_body st = None)"

lemma holds_eventsI:
  assumes "map fst (ob_bodies st) = map (batch_of ops) delivered" "ob_queued st = batch_of ops queued"
    "ob_pending st = batch_of ops pending" "concat delivered @ queued @ pending = es" "\<not> ob_armed st \<Longrightarrow> pending = []"
    "\<not> ob_armed st \<Longrightarrow> ob_body st = None \<Longrightarrow> ob_returned st = None \<Longrightarrow> list_all void queued"
  shows "holds_events ops void st es"
  unfolding holds_events_def using assms by (intro exI [of _ delivered] exI [of _ queued] exI [of _ pending]) simp

lemma bracketed_start:
  "bracketed st \<Longrightarrow> ob_body st = None \<Longrightarrow> bracketed (startBody ops cfg initial batch st)"
  by (simp add: bracketed_def startBody_def Let_def)

lemma bracketed_finish:
  assumes "bracketed st" "ob_body st = Some (n, c)"
  shows "bracketed ((finishIteration n err st)\<lparr>ob_body := None\<rparr>)"
  using assms whole_iterations_Suc [of "n - 1"] by (simp add: bracketed_def finishIteration_def)

lemma bracketed_report: "bracketed st \<Longrightarrow> iteration_report r = None \<Longrightarrow> bracketed (report_to r st)"
  by (simp add: bracketed_def cong: option.case_cong prod.case_cong)

lemma bracketed_cong:
  "ob_body st' = ob_body st \<Longrightarrow> ob_iterations st' = ob_iterations st \<Longrightarrow> ob_reports st' = ob_reports st \<Longrightarrow> bracketed st' = bracketed st"
  by (simp add: bracketed_def iteration_log_def cong: option.case_cong prod.case_cong)

context coalescing
begin

lemma started_ok:
  assumes "map fst (ob_bodies st) = map (batch_of ops) delivered" "batch = batch_of ops es'" "ob_queued st = bo_new ops"
    "ob_pending st = batch_of ops pending" "concat delivered @ es' @ pending = es" "\<not> ob_armed st \<Longrightarrow> pending = []"
    "bracketed st" "length (ob_bodies st) = ob_iterations st" "ob_body st = None" "ob_returned st = None"
  shows "observer_ok ops void (startBody ops cfg initial batch st) es"
  unfolding observer_ok_def
proof (intro conjI)
  show "holds_events ops void (startBody ops cfg initial batch st) es"
    by (rule holds_eventsI [of _ _ "delivered @ [es']" "[]" pending]) (use assms in \<open>simp_all add: startBody_def Let_def\<close>)
qed (use assms in \<open>simp_all add: bracketed_start, simp_all add: startBody_def Let_def\<close>)

lemma stop_ok:
  assumes "observer_ok ops void st es"
  shows "observer_ok ops void (return_with e err st) es"
proof (cases "ob_body st")
  case None
  then show ?thesis using assms
    by (auto simp: observer_ok_def holds_events_def return_with_def stopBody_def bracketed_def)
next
  case (Some p)
  then obtain n c where body: "ob_body st = Some (n, c)" by (cases p) auto
  have "bracketed (return_with e err st)"
    using bracketed_finish [OF _ body, of err] assms body
    by (simp add: observer_ok_def return_with_def stopBody_def bracketed_def)
  then show ?thesis using assms body
    by (auto simp: observer_ok_def holds_events_def return_with_def stopBody_def finishIteration_def)
qed

lemma report_ok: "observer_ok ops void st es \<Longrightarrow> iteration_report r = None \<Longrightarrow> observer_ok ops void (report_to r st) es"
  by (simp add: observer_ok_def holds_events_def bracketed_report)

lemma event_ok:
  assumes "observer_ok ops void st es" "ob_returned st = None"
  shows "observer_ok ops void (st\<lparr>ob_pending := bo_add ops e (ob_pending st), ob_armed := True\<rparr>) (es @ [e])"
proof -
  obtain delivered queued pending where held: "map fst (ob_bodies st) = map (batch_of ops) delivered"
      "ob_queued st = batch_of ops queued" "ob_pending st = batch_of ops pending" "concat delivered @ queued @ pending = es"
    using assms(1) unfolding observer_ok_def holds_events_def by blast
  let ?st = "st\<lparr>ob_pending := bo_add ops e (ob_pending st), ob_armed := True\<rparr>"
  have "holds_events ops void ?st (es @ [e])"
    by (rule holds_eventsI [of _ _ delivered queued "pending @ [e]"]) (use held in auto)
  moreover have "bracketed ?st = bracketed st" by (rule bracketed_cong) simp_all
  ultimately show ?thesis using assms by (simp add: observer_ok_def)
qed

lemma timer_ok:
  assumes ok: "observer_ok ops void st es" "ob_returned st = None"
  shows "observer_ok ops void (handle_timer ops cfg st) es"
proof -
  obtain delivered queued pending where held: "map fst (ob_bodies st) = map (batch_of ops) delivered"
      "ob_queued st = batch_of ops queued" "ob_pending st = batch_of ops pending" "concat delivered @ queued @ pending = es"
    using ok(1) unfolding observer_ok_def holds_events_def by blast
  have merged: "bo_merge ops (ob_queued st) (ob_pending st) = batch_of ops (queued @ pending)"
    using held merge_append by simp
  show ?thesis
  proof (cases "ob_body st")
    case None
    let ?st = "st\<lparr>ob_armed := False, ob_pending := bo_new ops, ob_queued := bo_new ops\<rparr>"
    have "bracketed ?st = bracketed st" by (rule bracketed_cong) simp_all
    then show ?thesis using ok held None merged
      by (simp add: handle_timer_def Let_def)
        (rule started_ok [of _ delivered _ "queued @ pending" "[]"], auto simp: observer_ok_def)
  next
    case (Some p)
    then obtain n c where body: "ob_body st = Some (n, c)" by (cases p) auto
    have br: "bracketed st'" if "ob_body st' = Some (n, c')" "ob_iterations st' = ob_iterations st"
        "iteration_log st' = iteration_log st" for st' :: "'b observer" and c'
      using ok(1) body that by (simp add: observer_ok_def bracketed_def)
    have hold: "holds_events ops void st' es" if "ob_bodies st' = ob_bodies st" "ob_queued st' = batch_of ops (queued @ pending)"
        "ob_pending st' = bo_new ops" "ob_body st' \<noteq> None" for st' :: "'b observer"
      by (rule holds_eventsI [of _ _ delivered "queued @ pending" "[]"]) (use held that in auto)
    show ?thesis using ok body merged
      by (auto simp: handle_timer_def Let_def observer_ok_def intro!: br hold)
  qed
qed

lemma body_ok:
  assumes ok: "observer_ok ops void st es" "ob_returned st = None" and body: "ob_body st = Some (n, c)"
  shows "observer_ok ops void (handle_body ops cfg n err st) es"
proof -
  obtain delivered queued pending where held: "map fst (ob_bodies st) = map (batch_of ops) delivered"
      "ob_queued st = batch_of ops queued" "ob_pending st = batch_of ops pending" "concat delivered @ queued @ pending = es"
      "\<not> ob_armed st \<Longrightarrow> pending = []"
    using ok(1) unfolding observer_ok_def holds_events_def by blast
  let ?st = "finishIteration n err (st\<lparr>ob_body := None\<rparr>)"
  have "bracketed ((finishIteration n err st)\<lparr>ob_body := None\<rparr>)"
    using bracketed_finish [OF _ body] ok by (simp add: observer_ok_def)
  moreover have "(finishIteration n err st)\<lparr>ob_body := None\<rparr> = ?st" by (simp add: finishIteration_def report_to_def)
  ultimately have br: "bracketed ?st" by simp
  have br': "bracketed (?st\<lparr>ob_queued := bo_new ops\<rparr>)"
    using br bracketed_cong [of "?st\<lparr>ob_queued := bo_new ops\<rparr>" ?st] by simp
  show ?thesis
  proof (cases "\<not> bo_empty ops (ob_queued st) \<and> \<not> ob_armed st")
    case True
    have "observer_ok ops void (startBody ops cfg False (ob_queued st) (?st\<lparr>ob_queued := bo_new ops\<rparr>)) es"
      by (rule started_ok [of _ delivered _ queued pending])
        (use ok held True br' in \<open>simp_all add: observer_ok_def, simp_all add: finishIteration_def\<close>)
    then show ?thesis using True by (simp add: handle_body_def Let_def) (simp add: finishIteration_def)
  next
    case False
    have "holds_events ops void ?st es"
      by (rule holds_eventsI [of _ _ delivered queued pending])
        (use held False empty_void in \<open>auto simp: finishIteration_def\<close>)
    moreover have "length (ob_bodies ?st) = ob_iterations ?st" "ob_returned ?st = None" "ob_body ?st = None"
      using ok by (simp_all add: observer_ok_def finishIteration_def)
    ultimately have "observer_ok ops void ?st es" using br by (simp add: observer_ok_def)
    then show ?thesis using False by (auto simp: handle_body_def Let_def finishIteration_def)
  qed
qed

lemma handle_ok:
  assumes "observer_ok ops void st es" and "handle ops cfg alt st = Some st'"
  shows "observer_ok ops void st' (es @ (case alt of
     Observed e \<Rightarrow> if oc_on_change cfg = ''skip'' \<and> ob_body st \<noteq> None then [] else [e] | _ \<Rightarrow> []))"
proof -
  have live: "ob_returned st = None" using assms(2) by (auto simp: handle.simps split: if_splits)
  show ?thesis
  proof (cases alt)
    case (Observed e)
    then show ?thesis using assms live
      by (auto simp: handle.simps handle_event_def intro!: event_ok report_ok)
  qed (use assms live in \<open>auto simp: handle.simps handle_error_def split: if_splits option.splits prod.splits
      intro: stop_ok report_ok timer_ok body_ok\<close>)
qed

lemma run_ok:
  "observe_run ops cfg alts st = Some st' \<Longrightarrow> observer_ok ops void st es \<Longrightarrow>
   observer_ok ops void st' (es @ taken ops cfg alts st)"
proof (induction alts arbitrary: st es)
  case (Cons alt alts)
  then obtain st1 where st1: "handle ops cfg alt st = Some st1" "observe_run ops cfg alts st1 = Some st'"
    by (auto split: option.splits)
  show ?case using Cons.IH [OF st1(2) handle_ok [OF Cons.prems(2) st1(1)]] st1(1) by simp
qed simp

lemma start_ok: "observer_ok ops void (observe_start ops cfg initial) (case initial of None \<Rightarrow> [] | Some e \<Rightarrow> [e])"
  unfolding observe_start_def Let_def
  by (rule started_ok [of _ "[]" _ "case initial of None \<Rightarrow> [] | Some e \<Rightarrow> [e]" "[]"])
    (auto simp: batch_of_def bracketed_def iteration_log_def whole_iterations_def List.map_filter_def split: option.split)

end


subsection \<open>Properties\<close>

text \<open>C35: Whatever the interleaving of the file system, the debounce timer and the body: every change the loop takes in
  is delivered, in order and once. The batches of the bodies started, then what is queued, then what is pending are
  exactly the changes taken, and when no body runs and the timer is not armed nothing that counts is left waiting.
  Bodies run one at a time, numbered from 1, and each is reported as started and finished before the next.\<close>

theorem observe_conserves:
  assumes "observe_run changes_ops cfg alts (observe_start changes_ops cfg None) = Some st"
  shows "(\<exists>delivered queued pending.
      map fst (ob_bodies st) = map (batch_of changes_ops) delivered \<and> length delivered = ob_iterations st \<and>
      ob_queued st = batch_of changes_ops queued \<and> ob_pending st = batch_of changes_ops pending \<and>
      concat delivered @ queued @ pending = taken changes_ops cfg alts (observe_start changes_ops cfg None) \<and>
      (ob_body st = None \<and> \<not> ob_armed st \<and> ob_returned st = None \<longrightarrow>
         pending = [] \<and> list_all (\<lambda>e. change_path e = []) queued)) \<and>
    bracketed st \<and> (ob_returned st \<noteq> None \<longrightarrow> ob_body st = None)"
proof -
  let ?es = "taken changes_ops cfg alts (observe_start changes_ops cfg None)"
  have ok: "observer_ok changes_ops (\<lambda>e. change_path e = []) st ?es"
    using changes.run_ok [OF assms changes.start_ok] by simp
  then obtain delivered queued pending where "map fst (ob_bodies st) = map (batch_of changes_ops) delivered"
      "ob_queued st = batch_of changes_ops queued" "ob_pending st = batch_of changes_ops pending"
      "concat delivered @ queued @ pending = ?es" "\<not> ob_armed st \<longrightarrow> pending = []"
      "\<not> ob_armed st \<and> ob_body st = None \<and> ob_returned st = None \<longrightarrow> list_all (\<lambda>e. change_path e = []) queued"
    unfolding observer_ok_def holds_events_def by blast
  moreover from this have "length delivered = ob_iterations st" using ok unfolding observer_ok_def by (metis length_map)
  ultimately show ?thesis using ok unfolding observer_ok_def by blast
qed

text \<open>The same for a source that polls: what counts is the last poll.\<close>

lemma observe_conserves_polls:
  assumes "observe_run (latest_ops root) cfg alts (observe_start (latest_ops root) cfg initial) = Some st"
  shows "observer_ok (latest_ops root) (\<lambda>_. False) st
    ((case initial of None \<Rightarrow> [] | Some e \<Rightarrow> [e]) @ taken (latest_ops root) cfg alts (observe_start (latest_ops root) cfg initial))"
  by (rule latest.run_ok [OF assms latest.start_ok])

text \<open>A change arrives while the first body runs, and is delivered to the second.\<close>

definition demo_observe :: observe_config where
  "demo_observe = \<lparr>oc_source_type = ''filesystem'', oc_debounce = 0, oc_on_change = ''queue'', oc_on_error = ''fail'',
     oc_failure_pace = 0\<rparr>"

definition demo_change :: file_change where
  "demo_change = \<lparr>change_path = ''a.go'', change_operations = [''modify'']\<rparr>"

definition demo_alternatives :: "file_change alternative list" where
  "demo_alternatives = [Observed demo_change, TimerFired, BodyDone None]"

lemma demo_changes [simp]: "fmdom (changes_merge fmempty (changes_add demo_change fmempty)) \<noteq> {||}"
  by (simp add: changes_merge_def changes_add_def demo_change_def)

lemma demo_observed:
  "map_option (\<lambda>st. (ob_iterations st, ob_body st, ob_armed st))
     (observe_run changes_ops demo_observe demo_alternatives (observe_start changes_ops demo_observe None))
   = Some (2, Some (2, False), False)"
  by (simp add: demo_alternatives_def observe_start_def startBody_def handle.simps handle_event_def handle_timer_def
      handle_body_def finishIteration_def Let_def demo_observe_def)

theorem observe_conserves_witness:
  "\<exists>st. ob_iterations st = 2 \<and> ob_body st = Some (2, False) \<and> bracketed st \<and>
     (\<exists>delivered queued pending. map fst (ob_bodies st) = map (batch_of changes_ops) delivered \<and> length delivered = 2 \<and>
        concat delivered @ queued @ pending = [demo_change])"
proof -
  obtain st where st: "observe_run changes_ops demo_observe demo_alternatives (observe_start changes_ops demo_observe None) = Some st"
    and now: "ob_iterations st = 2" "ob_body st = Some (2, False)"
    using demo_observed by auto
  have "taken changes_ops demo_observe demo_alternatives (observe_start changes_ops demo_observe None) = [demo_change]"
    by (simp add: demo_alternatives_def demo_observe_def split: option.split)
  then show ?thesis using observe_conserves [OF st] now by metis
qed

end
