(* ===== verification/FileWatch.thy ===== *)
theory FileWatch
  imports Observe PathMatch
begin

text \<open>
  The file system watch behind an observe control (fswatch/fswatch.go): which paths match the
  patterns of a declaration, which directories are watched, and the events that are passed on.

  \<open>glob\<close> is doublestar.Match on one component of a path, true when it matches without an error, and
  \<open>valid\<close> is doublestar.ValidatePattern. Paths are absolute and clean, as lists of components:
  filepath.Rel on them drops the components of the root. A tree of the file system is what
  Lstat and ReadDir show; reading a directory that exists does not fail.
\<close>

subsection \<open>Declarations\<close>

definition templated :: "string \<Rightarrow> bool" where
  "templated s \<longleftrightarrow> contains_open s"

definition is_letter :: "char \<Rightarrow> bool" where
  "is_letter c \<longleftrightarrow> is_lower c \<or> is_upper c"

definition windowsAbsolute :: "string \<Rightarrow> bool" where
  "windowsAbsolute s \<longleftrightarrow> take 2 s = [CHR 0x5C, CHR 0x5C] \<or>
     (length s \<ge> 3 \<and> is_letter (s ! 0) \<and> s ! 1 = CHR '':'' \<and> (s ! 2 = CHR ''/'' \<or> s ! 2 = CHR 0x5C))"

definition validatePattern :: "(string \<Rightarrow> bool) \<Rightarrow> string \<Rightarrow> goerr option" where
  "validatePattern valid pattern =
     (if pattern = [] then Some (Err ''pattern must not be empty'')
      else if templated pattern then None
      else if is_abs pattern \<or> windowsAbsolute pattern then Some (Err ''pattern must be relative to root'')
      else if ''..'' \<in> set (split_slash pattern) then Some (Err ''pattern must not contain a parent directory component'')
      else if \<not> valid pattern then Some (Err (''invalid pattern '' @ go_quote pattern))
      else None)"

record watch_config =
  wc_root :: string
  wc_patterns :: "string list"
  wc_ignore :: "string list"
  wc_events :: "string list"

definition unresolved :: goerr where
  "unresolved = Err ''watch configuration contains an unresolved template''"

fun first_problem :: "goerr option list \<Rightarrow> goerr option" where
  "first_problem [] = None"
| "first_problem (e # es) = (case e of Some e \<Rightarrow> Some e | None \<Rightarrow> first_problem es)"

definition check_patterns :: "(string \<Rightarrow> bool) \<Rightarrow> bool \<Rightarrow> string \<Rightarrow> string list \<Rightarrow> goerr option" where
  "check_patterns valid resolved what ps = first_problem (map (\<lambda>(index, pattern).
     if resolved \<and> templated pattern then Some unresolved
     else map_option (Wrapped (what @ ''['' @ nat_text index @ '']'')) (validatePattern valid pattern)) (indexed ps))"

text \<open>normalizeEvents: the supported events in their order, then the templates\<close>

definition normalizeEvents :: "string list \<Rightarrow> bool \<Rightarrow> goerr + string list" where
  "normalizeEvents events resolved =
     (case first_problem (map (\<lambda>(index, event).
         if templated event then (if resolved then Some unresolved else None)
         else if event \<notin> set event_names
           then Some (Err (''events['' @ nat_text index @ ''] must be create, modify, rename, or remove''))
           else None) (indexed events)) of
        Some e \<Rightarrow> Inl e
      | None \<Rightarrow> Inr (filter (\<lambda>name. name \<in> set events) event_names @ filter templated events))"

definition Normalize :: "(string \<Rightarrow> bool) \<Rightarrow> watch_config \<Rightarrow> bool \<Rightarrow> bool \<Rightarrow> bool \<Rightarrow> goerr + watch_config" where
  "Normalize valid cfg hasRoot hasEvents resolved =
     (let cfg = (if hasRoot then cfg else cfg\<lparr>wc_root := ''.''\<rparr>) in
      case first_problem
        [if hasRoot \<and> blank (wc_root cfg) then Some (Err ''root must not be empty'') else None,
         if resolved \<and> templated (wc_root cfg) then Some unresolved else None,
         if wc_patterns cfg = [] then Some (Err ''patterns must contain at least one pattern'') else None,
         check_patterns valid resolved ''patterns'' (wc_patterns cfg),
         check_patterns valid resolved ''ignore'' (wc_ignore cfg),
         if hasEvents \<and> wc_events cfg = [] then Some (Err ''events must contain at least one event'') else None] of
        Some e \<Rightarrow> Inl e
      | None \<Rightarrow> map_sum id (\<lambda>events. cfg\<lparr>wc_events := events\<rparr>)
          (normalizeEvents (if hasEvents then wc_events cfg else event_names) resolved))"

definition patternComponents :: "string list \<Rightarrow> string list list" where
  "patternComponents ps = map (\<lambda>p. split_slash (clean_path p)) ps"

subsection \<open>Matching\<close>

type_synonym components = "string list"

definition hidden_from :: "string \<Rightarrow> string \<Rightarrow> bool" where
  "hidden_from pattern name \<longleftrightarrow> take 1 name = ''.'' \<and> (take 1 pattern = ''*'' \<or> take 1 pattern = ''?'')"

text \<open>One component that is not \<^verbatim>\<open>**\<close>\<close>

definition component_match :: "(string \<Rightarrow> string \<Rightarrow> bool) \<Rightarrow> string \<Rightarrow> string \<Rightarrow> bool" where
  "component_match glob pattern name \<longleftrightarrow> \<not> hidden_from pattern name \<and> glob pattern name"

fun matchComponents :: "(string \<Rightarrow> string \<Rightarrow> bool) \<Rightarrow> components \<Rightarrow> components \<Rightarrow> bool" where
  "matchComponents glob [] name = (name = [])"
| "matchComponents glob (p # ps) [] = (p = ''**'' \<and> matchComponents glob ps [])"
| "matchComponents glob (p # ps) (n # ns) =
     (if p = ''**'' then matchComponents glob ps (n # ns) \<or> (take 1 n \<noteq> ''.'' \<and> matchComponents glob (p # ps) ns)
      else component_match glob p n \<and> matchComponents glob ps ns)"

fun canDescend :: "(string \<Rightarrow> string \<Rightarrow> bool) \<Rightarrow> components \<Rightarrow> components \<Rightarrow> bool" where
  "canDescend glob pattern [] = True"
| "canDescend glob [] (d # ds) = False"
| "canDescend glob (p # ps) (d # ds) =
     (if p = ''**'' then canDescend glob ps (d # ds) \<or> (take 1 d \<noteq> ''.'' \<and> canDescend glob (p # ps) ds)
      else component_match glob p d \<and> canDescend glob ps ds)"

definition ignored :: "(string \<Rightarrow> string \<Rightarrow> bool) \<Rightarrow> components list \<Rightarrow> components \<Rightarrow> bool" where
  "ignored glob ignore name =
     list_ex (\<lambda>depth. list_ex (\<lambda>pattern. matchComponents glob pattern (take depth name)) ignore) [1 ..< Suc (length name)]"

definition relativeComponents :: "components \<Rightarrow> components \<Rightarrow> components option" where
  "relativeComponents root name = (if take (length root) name = root then Some (drop (length root) name) else None)"

definition descendable :: "(string \<Rightarrow> string \<Rightarrow> bool) \<Rightarrow> components list \<Rightarrow> components list \<Rightarrow> components \<Rightarrow> components \<Rightarrow> bool" where
  "descendable glob ps ignore root directory = (case relativeComponents root directory of
     None \<Rightarrow> False
   | Some name \<Rightarrow> \<not> ignored glob ignore name \<and> (name = [] \<or> list_ex (\<lambda>p. canDescend glob p name) ps))"

definition matchingPath :: "(string \<Rightarrow> string \<Rightarrow> bool) \<Rightarrow> components \<Rightarrow> components list \<Rightarrow> components list \<Rightarrow> components \<Rightarrow> string option" where
  "matchingPath glob root ps ignore name = (case relativeComponents root name of
     None \<Rightarrow> None
   | Some relative \<Rightarrow>
       if relative = [] \<or> ignored glob ignore relative then None
       else if list_ex (\<lambda>p. matchComponents glob p relative) ps then Some (join_slash relative) else None)"

subsection \<open>Watched directories\<close>

datatype fs_entry = FsFile string | FsLink string | FsDir string "fs_entry list"

text \<open>What adding a watch answers\<close>

datatype add_result = AddOk | AddMissing goerr | AddFailed goerr

record watch_env =
  we_glob :: "string \<Rightarrow> string \<Rightarrow> bool"
  we_err :: "components \<Rightarrow> goerr option"
  we_add :: "components \<Rightarrow> add_result"

text \<open>The directories added, the entries found, and the error that ended the walk\<close>

type_synonym walk_result = "components list \<times> components list \<times> goerr option"

fun add_entry :: "watch_env \<Rightarrow> components list \<Rightarrow> components list \<Rightarrow> components \<Rightarrow> bool \<Rightarrow> bool \<Rightarrow> components \<Rightarrow> fs_entry \<Rightarrow> walk_result"
  and add_entries :: "watch_env \<Rightarrow> components list \<Rightarrow> components list \<Rightarrow> components \<Rightarrow> bool \<Rightarrow> components \<Rightarrow> fs_entry list \<Rightarrow> walk_result" where
  "add_entry env ps ignore root allowMissing start current entry =
     (case we_err env current of
        Some e \<Rightarrow> ([], [], Some e)
      | None \<Rightarrow> (let found = (if start then [] else [current]) in
          case entry of
            FsDir name children \<Rightarrow>
              if \<not> descendable (we_glob env) ps ignore root current then ([], found, None)
              else (case we_add env current of
                  AddFailed e \<Rightarrow> ([], found, Some (Wrapped (''adding directory /'' @ join_slash current) e))
                | AddMissing e \<Rightarrow> if allowMissing then ([], found, None)
                    else ([], found, Some (Wrapped (''adding directory /'' @ join_slash current) e))
                | AddOk \<Rightarrow> (case add_entries env ps ignore root allowMissing current children of
                    (added, found', err) \<Rightarrow> (current # added, found @ found', err)))
          | _ \<Rightarrow> ([], found, None)))"
| "add_entries env ps ignore root allowMissing directory [] = ([], [], None)"
| "add_entries env ps ignore root allowMissing directory (entry # rest) =
     (let name = (case entry of FsFile n \<Rightarrow> n | FsLink n \<Rightarrow> n | FsDir n _ \<Rightarrow> n) in
      case add_entry env ps ignore root allowMissing False (directory @ [name]) entry of
        (added, found, Some e) \<Rightarrow> (added, found, Some e)
      | (added, found, None) \<Rightarrow> (case add_entries env ps ignore root allowMissing directory rest of
          (added', found', err) \<Rightarrow> (added @ added', found @ found', err)))"

definition addTree :: "watch_env \<Rightarrow> components list \<Rightarrow> components list \<Rightarrow> components \<Rightarrow> components \<Rightarrow> bool \<Rightarrow> fs_entry \<Rightarrow> walk_result" where
  "addTree env ps ignore root start allowMissing entry = add_entry env ps ignore root allowMissing True start entry"

text \<open>addCreatedTree: what is at the path now, if anything\<close>

definition addCreatedTree :: "watch_env \<Rightarrow> components list \<Rightarrow> components list \<Rightarrow> components \<Rightarrow> components \<Rightarrow> fs_entry option \<Rightarrow> walk_result" where
  "addCreatedTree env ps ignore root created there =
     (if \<not> descendable (we_glob env) ps ignore root created then ([], [], None)
      else case there of
          Some (FsDir name children) \<Rightarrow> addTree env ps ignore root created True (FsDir name children)
        | _ \<Rightarrow> ([], [], None))"

subsection \<open>Events\<close>

datatype fs_op = OpCreate | OpWrite | OpRename | OpRemove | OpChmod

record fs_event =
  fe_name :: components
  fe_ops :: "fs_op list"

definition supported_events :: "(string \<times> fs_op) list" where
  "supported_events = [(''create'', OpCreate), (''modify'', OpWrite), (''rename'', OpRename), (''remove'', OpRemove)]"

definition matchingOperations :: "fs_event \<Rightarrow> string fset \<Rightarrow> string list" where
  "matchingOperations event selected =
     map fst (filter (\<lambda>(name, op). name |\<in>| selected \<and> op \<in> set (fe_ops event)) supported_events)"

text \<open>Observer: the watch of a declaration\<close>

record watch =
  wa_root :: components
  wa_patterns :: "components list"
  wa_ignore :: "components list"
  wa_selected :: "string fset"

definition observer_change :: "(string \<Rightarrow> string \<Rightarrow> bool) \<Rightarrow> watch \<Rightarrow> fs_event \<Rightarrow> file_change option" where
  "observer_change glob w event =
     (case matchingPath glob (wa_root w) (wa_patterns w) (wa_ignore w) (fe_name event) of
        None \<Rightarrow> None
      | Some relative \<Rightarrow> (let operations = matchingOperations event (wa_selected w) in
          if operations = [] then None else Some \<lparr>change_path = relative, change_operations = operations\<rparr>))"

text \<open>
  What Next waits for: the end of the context, an event with what is found at its path, or an error of the
  watcher with what is found at the root; a channel that closed is no input. Next answers the first change, or an error; the events still
  queued and the inputs not read are left for the next call.
\<close>

datatype watch_input =
    ContextEnded goerr
  | WatchEvent fs_event "fs_entry option"
  | WatchOverflow fs_entry
  | WatchError goerr

function (sequential) observer_next :: "watch_env \<Rightarrow> watch \<Rightarrow> fs_event list \<Rightarrow> watch_input list
    \<Rightarrow> ((goerr + file_change) \<times> fs_event list \<times> watch_input list) option" where
  "observer_next env w (event # queued) inputs = (case observer_change (we_glob env) w event of
     Some change \<Rightarrow> Some (Inr change, queued, inputs)
   | None \<Rightarrow> observer_next env w queued inputs)"
| "observer_next env w [] [] = None"
| "observer_next env w [] (ContextEnded e # inputs) = Some (Inl e, [], inputs)"
| "observer_next env w [] (WatchError e # inputs) = Some (Inl (Wrapped ''watching filesystem'' e), [], inputs)"
| "observer_next env w [] (WatchOverflow tree # inputs) =
     (case addTree env (wa_patterns w) (wa_ignore w) (wa_root w) (wa_root w) True tree of
        (_, _, Some e) \<Rightarrow> Some (Inl (Wrapped ''re-registering watch root after event overflow'' e), [], inputs)
      | (_, _, None) \<Rightarrow> observer_next env w [] inputs)"
| "observer_next env w [] (WatchEvent event there # inputs) =
     (case (if OpCreate \<in> set (fe_ops event)
            then addCreatedTree env (wa_patterns w) (wa_ignore w) (wa_root w) (fe_name event) there else ([], [], None)) of
        (_, found, Some e) \<Rightarrow> Some (Inl (Wrapped (''registering created directory /'' @ join_slash (fe_name event)) e),
          map (\<lambda>name. \<lparr>fe_name = name, fe_ops = [OpCreate]\<rparr>) found, inputs)
      | (_, found, None) \<Rightarrow> (let queued = map (\<lambda>name. \<lparr>fe_name = name, fe_ops = [OpCreate]\<rparr>) found in
          case observer_change (we_glob env) w event of
            Some change \<Rightarrow> Some (Inr change, queued, inputs)
          | None \<Rightarrow> observer_next env w queued inputs))"
  by pat_completeness auto
termination
  by (relation "measures [\<lambda>(_, _, _, inputs). length inputs, \<lambda>(_, _, queued, _). length queued]") auto

subsection \<open>The tree that is watched is the tree that can match\<close>

lemma match_descends: "matchComponents glob p (d @ rest) \<Longrightarrow> canDescend glob p d"
  by (induction glob p d rule: canDescend.induct) (auto split: if_splits)

text \<open>A pattern some path matches\<close>

definition satisfiable :: "(string \<Rightarrow> string \<Rightarrow> bool) \<Rightarrow> components \<Rightarrow> bool" where
  "satisfiable glob pattern \<longleftrightarrow> (\<forall>p \<in> set pattern. p = ''**'' \<or> (\<exists>n. component_match glob p n))"

lemma satisfiable_match: "satisfiable glob pattern \<Longrightarrow> \<exists>name. matchComponents glob pattern name"
proof (induction pattern)
  case Nil
  then show ?case by (intro exI [of _ "[]"]) simp
next
  case (Cons p ps)
  then obtain name where name: "matchComponents glob ps name" by (auto simp: satisfiable_def)
  show ?case
  proof (cases "p = ''**''")
    case True
    then show ?thesis using name by (cases name) (auto intro: exI [of _ name])
  next
    case False
    then obtain n where "component_match glob p n" using Cons.prems by (auto simp: satisfiable_def)
    then show ?thesis using name False by (intro exI [of _ "n # name"]) simp
  qed
qed

lemma descends_match: "canDescend glob pattern d \<Longrightarrow> satisfiable glob pattern \<Longrightarrow> \<exists>rest. matchComponents glob pattern (d @ rest)"
proof (induction glob pattern d rule: canDescend.induct)
  case (1 glob pattern)
  then show ?case using satisfiable_match by simp
next
  case (3 glob p ps d ds)
  have sat: "satisfiable glob ps" using 3(5) by (simp add: satisfiable_def)
  show ?case
  proof (cases "p = ''**''")
    case True
    then show ?thesis using 3 sat by auto
  next
    case False
    then show ?thesis using 3(3) [OF False] 3(4) sat by auto
  qed
qed simp

lemma ignored_prefix:
  assumes "ignored glob ignore name" shows "ignored glob ignore (name @ rest)"
proof -
  obtain depth where depth: "depth \<in> set [1 ..< Suc (length name)]"
      "list_ex (\<lambda>pattern. matchComponents glob pattern (take depth name)) ignore"
    using assms unfolding ignored_def list_ex_iff [of _ "[_ ..< _]"] by blast
  have "depth \<le> length name" using depth(1) unfolding set_upt atLeastLessThan_iff by linarith
  then have shorter: "take depth (name @ rest) = take depth name" by simp
  have "depth \<in> set [1 ..< Suc (length (name @ rest))]"
    using depth(1) unfolding set_upt atLeastLessThan_iff length_append by linarith
  then show ?thesis using depth(2) shorter unfolding ignored_def list_ex_iff [of _ "[_ ..< _]"] by metis
qed

lemma relative_below [simp]: "relativeComponents root (root @ name) = Some name"
  by (simp add: relativeComponents_def)

lemma matching_descendable:
  assumes "matchingPath glob root ps ignore (root @ name @ rest) \<noteq> None"
  shows "descendable glob ps ignore root (root @ name)"
  using assms match_descends ignored_prefix [of glob ignore name rest]
  by (fastforce simp: matchingPath_def descendable_def list_ex_iff split: if_splits)

fun entry_name :: "fs_entry \<Rightarrow> string" where
  "entry_name (FsFile n) = n"
| "entry_name (FsLink n) = n"
| "entry_name (FsDir n children) = n"

fun paths_below :: "components \<Rightarrow> fs_entry \<Rightarrow> components list" where
  "paths_below directory (FsDir n children) =
     concat (map (\<lambda>c. (directory @ [entry_name c]) # paths_below (directory @ [entry_name c]) c) children)"
| "paths_below directory _ = []"

lemma paths_below_prefix: "q \<in> set (paths_below directory entry) \<Longrightarrow> \<exists>n rest. q = directory @ n # rest"
  by (induction directory entry rule: paths_below.induct) fastforce+

text \<open>A file system that answers\<close>

definition answering :: "watch_env \<Rightarrow> bool" where
  "answering env \<longleftrightarrow> (\<forall>p. we_err env p = None \<and> we_add env p = AddOk)"

definition covers :: "watch_env \<Rightarrow> components list \<Rightarrow> components list \<Rightarrow> components \<Rightarrow> components list \<Rightarrow> walk_result \<Rightarrow> bool" where
  "covers env ps ignore root qs r \<longleftrightarrow> snd (snd r) = None \<and>
     (\<forall>q \<in> set qs. matchingPath (we_glob env) root ps ignore q \<noteq> None \<longrightarrow> butlast q \<in> set (fst r) \<and> q \<in> set (fst (snd r)))"

lemma entry_name_case: "(case entry of FsFile n \<Rightarrow> n | FsLink n \<Rightarrow> n | FsDir n _ \<Rightarrow> n) = entry_name entry"
  by (cases entry) simp_all

lemma add_covers:
  "answering env \<Longrightarrow> current = root @ name \<Longrightarrow>
     covers env ps ignore root (paths_below current entry) (add_entry env ps ignore root allowMissing start current entry) \<and>
     (start \<or> current \<in> set (fst (snd (add_entry env ps ignore root allowMissing start current entry))))"
  and adds_cover:
  "answering env \<Longrightarrow> directory = root @ name \<Longrightarrow> snd (snd (add_entries env ps ignore root allowMissing directory entries)) = None \<and>
     (\<forall>c \<in> set entries. directory @ [entry_name c] \<in> set (fst (snd (add_entries env ps ignore root allowMissing directory entries)))) \<and>
     covers env ps ignore root (concat (map (\<lambda>c. paths_below (directory @ [entry_name c]) c) entries))
       (add_entries env ps ignore root allowMissing directory entries)"
proof (induction env ps ignore root allowMissing start current entry and env ps ignore root allowMissing directory entries
    arbitrary: name and name rule: add_entry_add_entries.induct)
  case (1 env ps ignore root allowMissing start current entry)
  show ?case
  proof (cases entry)
    case (FsDir n children)
    let ?found = "if start then [] else [current]"
    have plain: "we_err env current = None" "we_add env current = AddOk" using 1(2) by (simp_all add: answering_def)
    show ?thesis
    proof (cases "descendable (we_glob env) ps ignore root current")
      case False
      then have "matchingPath (we_glob env) root ps ignore q = None" if "q \<in> set (paths_below current entry)" for q
        using matching_descendable [of "we_glob env" root ps ignore name] paths_below_prefix [OF that] 1(3) by fastforce
      then show ?thesis using False plain FsDir by (auto simp: covers_def)
    next
      case True
      obtain added found err where r: "add_entries env ps ignore root allowMissing current children = (added, found, err)"
        by (metis prod_cases3)
      have reachable: "\<not> \<not> descendable (we_glob env) ps ignore root current" using True by simp
      have below: "err = None \<and> (\<forall>c \<in> set children. current @ [entry_name c] \<in> set found) \<and>
          covers env ps ignore root (concat (map (\<lambda>c. paths_below (current @ [entry_name c]) c) children)) (added, found, err)"
        using 1(1) [OF plain(1) refl FsDir reachable plain(2) 1(2,3)] unfolding r fst_conv snd_conv .
      have "add_entry env ps ignore root allowMissing start current entry = (current # added, ?found @ found, err)"
        using True plain FsDir r by simp
      moreover have "covers env ps ignore root (paths_below current entry) (current # added, ?found @ found, err)"
        using below unfolding covers_def FsDir by fastforce
      ultimately show ?thesis by simp
    qed
  qed (use 1(2) in \<open>simp_all add: covers_def answering_def\<close>)
next
  case (2 env ps ignore root allowMissing directory)
  then show ?case by (simp add: covers_def)
next
  case (3 env ps ignore root allowMissing directory entry rest)
  let ?here = "directory @ [entry_name entry]"
  obtain added found err where r: "add_entry env ps ignore root allowMissing False ?here entry = (added, found, err)"
    by (metis prod_cases3)
  obtain added' found' err' where r': "add_entries env ps ignore root allowMissing directory rest = (added', found', err')"
    by (metis prod_cases3)
  have here: "covers env ps ignore root (paths_below ?here entry) (added, found, err) \<and> ?here \<in> set found"
    using 3(1) [OF refl 3(3), of "name @ [entry_name entry]"] 3(4) r
    by (simp add: entry_name_case del: add_entry.simps)
  then have "err = None" by (simp add: covers_def)
  then have there: "err' = None \<and> (\<forall>c \<in> set rest. directory @ [entry_name c] \<in> set found') \<and>
      covers env ps ignore root (concat (map (\<lambda>c. paths_below (directory @ [entry_name c]) c) rest)) (added', found', err')"
    using 3(2) [OF refl _ refl _ 3(3,4)] r r'
    by (fastforce simp: entry_name_case simp del: add_entry.simps)
  have "add_entries env ps ignore root allowMissing directory (entry # rest) = (added @ added', found @ found', err')"
    using r r' \<open>err = None\<close> by (simp add: entry_name_case del: add_entry.simps)
  then show ?case using here there unfolding covers_def by auto
qed

lemma add_descendable:
  "d \<in> set (fst (add_entry env ps ignore root allowMissing start current entry)) \<Longrightarrow> descendable (we_glob env) ps ignore root d"
  and adds_descendable:
  "d \<in> set (fst (add_entries env ps ignore root allowMissing directory entries)) \<Longrightarrow> descendable (we_glob env) ps ignore root d"
proof (induction env ps ignore root allowMissing start current entry and env ps ignore root allowMissing directory entries
    rule: add_entry_add_entries.induct)
  case (1 env ps ignore root allowMissing start current entry)
  then show ?case by (auto simp: Let_def split: option.splits fs_entry.splits add_result.splits if_splits prod.splits)
next
  case (3 env ps ignore root allowMissing directory entry rest)
  then show ?case by (fastforce simp del: add_entry.simps simp: Let_def split: option.splits prod.splits)
qed simp

lemma descendable_continues:
  assumes "descendable glob ps ignore root d" "\<forall>p \<in> set ps. satisfiable glob p" "d \<noteq> root"
  shows "\<exists>name rest. d = root @ name \<and> \<not> ignored glob ignore name \<and>
    (\<exists>p \<in> set ps. matchComponents glob p (name @ rest))"
proof -
  obtain name where name: "d = root @ name" "relativeComponents root d = Some name" "\<not> ignored glob ignore name"
    using assms(1) unfolding descendable_def relativeComponents_def
    by (auto split: if_splits option.splits) (metis append_take_drop_id)
  then obtain p where p: "p \<in> set ps" "canDescend glob p name"
    using assms(1,3) by (auto simp: descendable_def list_ex_iff)
  then obtain rest where "matchComponents glob p (name @ rest)" using descends_match assms(2) by blast
  then show ?thesis using name p by blast
qed

text \<open>C36: registering the tree of a watch from its root, in a file system that answers, ends without an
  error and misses nothing: every path below the root that the declaration matches has its directory among
  the watched ones and is among the entries found. It watches nothing in vain either: when every component of
  the patterns can match some name, every watched directory other than the root is one no ignore pattern
  reaches and some continuation of it matches a pattern.\<close>

theorem watch_covers:
  assumes "answering env"
  shows "snd (snd (addTree env ps ignore root root allowMissing tree)) = None \<and>
    (\<forall>q \<in> set (paths_below root tree). matchingPath (we_glob env) root ps ignore q \<noteq> None \<longrightarrow>
       butlast q \<in> set (fst (addTree env ps ignore root root allowMissing tree)) \<and>
       q \<in> set (fst (snd (addTree env ps ignore root root allowMissing tree)))) \<and>
    (\<forall>d \<in> set (fst (addTree env ps ignore root root allowMissing tree)).
       (\<forall>p \<in> set ps. satisfiable (we_glob env) p) \<longrightarrow> d = root \<or>
       (\<exists>name rest. d = root @ name \<and> \<not> ignored (we_glob env) ignore name \<and>
         (\<exists>p \<in> set ps. matchComponents (we_glob env) p (name @ rest))))"
  using add_covers [OF assms, of root root "[]" ps ignore tree allowMissing True] descendable_continues add_descendable
  unfolding addTree_def covers_def append_Nil2 by blast

text \<open>A tree with a source directory, an ignored one and one that nothing in it can match\<close>

definition demo_glob :: "string \<Rightarrow> string \<Rightarrow> bool" where
  "demo_glob pattern name \<longleftrightarrow> pattern = ''*'' \<or> pattern = name"

definition demo_watch_env :: watch_env where
  "demo_watch_env = \<lparr>we_glob = demo_glob, we_err = (\<lambda>p. None), we_add = (\<lambda>p. AddOk)\<rparr>"

definition demo_tree :: fs_entry where
  "demo_tree = FsDir ''r'' [FsDir ''src'' [FsFile ''a.go''], FsDir ''vendor'' [FsFile ''b.go''], FsDir ''doc'' [], FsFile ''c'']"

definition demo_patterns :: "components list" where
  "demo_patterns = [[''src'', ''*''], [''vendor'', ''**''], [''c'']]"

lemma watch_covers_witness:
  "addTree demo_watch_env demo_patterns [[''vendor'']] [''r''] [''r''] False demo_tree =
     ([[''r''], [''r'', ''src'']],
      [[''r'', ''src''], [''r'', ''src'', ''a.go''], [''r'', ''vendor''], [''r'', ''doc''], [''r'', ''c'']], None) \<and>
   [''r'', ''src'', ''a.go''] \<in> set (paths_below [''r''] demo_tree) \<and>
   matchingPath demo_glob [''r''] demo_patterns [[''vendor'']] [''r'', ''src'', ''a.go''] = Some ''src/a.go'' \<and>
   butlast [''r'', ''src'', ''a.go''] \<in> set (fst (addTree demo_watch_env demo_patterns [[''vendor'']] [''r''] [''r''] False demo_tree))"
proof -
  have walk: "addTree demo_watch_env demo_patterns [[''vendor'']] [''r''] [''r''] False demo_tree =
     ([[''r''], [''r'', ''src'']],
      [[''r'', ''src''], [''r'', ''src'', ''a.go''], [''r'', ''vendor''], [''r'', ''doc''], [''r'', ''c'']], None)"
    by code_simp
  have path: "[''r'', ''src'', ''a.go''] \<in> set (paths_below [''r''] demo_tree)" by code_simp
  have matches: "matchingPath demo_glob [''r''] demo_patterns [[''vendor'']] [''r'', ''src'', ''a.go''] = Some ''src/a.go''"
    by code_simp
  have hit: "matchingPath (we_glob demo_watch_env) [''r''] demo_patterns [[''vendor'']] [''r'', ''src'', ''a.go''] \<noteq> None"
    using matches by (simp add: demo_watch_env_def)
  have "answering demo_watch_env" by (simp add: answering_def demo_watch_env_def)
  from watch_covers [OF this, of demo_patterns "[[''vendor'']]" "[''r'']" False demo_tree]
  have "butlast [''r'', ''src'', ''a.go''] \<in> set (fst (addTree demo_watch_env demo_patterns [[''vendor'']] [''r''] [''r''] False demo_tree))"
    using path hit by blast
  then show ?thesis using walk path matches by blast
qed

end
