(* ===== verification/TransformValues.thy ===== *)
theory TransformValues
  imports Declarations Expansion
begin

text \<open>
  The values the transform step computes with (steps/transform/value.go): kinds, structural keys,
  the comparison and the reading of numbers, and the evaluation of the expressions of an operation.

  Values are those of \<open>val\<close>: of Go's integer types there is \<^verbatim>\<open>int\<close>, and a float is a finite \<^verbatim>\<open>float64\<close>;
  negative zero is zero. A structural key is what json.Marshal prints, for strings of valid UTF-8
  without U+2028 and U+2029; the text of a float and of another Go value come with \<open>json\<close>.
  \<open>ev_run\<close> is expr.Run on a compiled program, a function of the program and the local
  names; \<open>ev_ctx\<close> is the error of the context, the same during a step.
\<close>

subsection \<open>Results\<close>

definition ok_then :: "'e + 'a \<Rightarrow> ('a \<Rightarrow> 'e + 'b) \<Rightarrow> 'e + 'b" where
  "ok_then r k = (case r of Inl e \<Rightarrow> Inl e | Inr x \<Rightarrow> k x)"

lemma ok_then_simps [simp]: "ok_then (Inl e) k = Inl e" "ok_then (Inr x) k = k x"
  by (simp_all add: ok_then_def)

lemma ok_then_Inr: "ok_then r k = Inr y \<longleftrightarrow> (\<exists>x. r = Inr x \<and> k x = Inr y)"
  by (cases r) simp_all

lemma ok_then_cong [fundef_cong]: "r = r' \<Longrightarrow> (\<And>x. r' = Inr x \<Longrightarrow> k x = k' x) \<Longrightarrow> ok_then r k = ok_then r' k'"
  by (cases r') simp_all

definition label_error :: "string \<Rightarrow> goerr + 'a \<Rightarrow> goerr + 'a" where
  "label_error label r = map_sum (Wrapped label) id r"

lemma label_error_simps [simp]:
  "label_error l (Inr x) = Inr x" "label_error l (Inl e) = Inl (Wrapped l e)" "label_error l r = Inr y \<longleftrightarrow> r = Inr y"
  by (cases r; simp add: label_error_def)+

text \<open>The loops over a list that compute a result per item and end with the first error\<close>

fun traverse :: "(nat \<Rightarrow> 'a \<Rightarrow> 'e + 'b) \<Rightarrow> nat \<Rightarrow> 'a list \<Rightarrow> 'e + 'b list" where
  "traverse f i [] = Inr []"
| "traverse f i (x # xs) = ok_then (f i x) (\<lambda>y. ok_then (traverse f (Suc i) xs) (\<lambda>ys. Inr (y # ys)))"

lemma traverse_Inr: "traverse f i xs = Inr ys \<longleftrightarrow> length ys = length xs \<and> (\<forall>k < length xs. f (i + k) (xs ! k) = Inr (ys ! k))"
proof (induction xs arbitrary: i ys)
  case (Cons x xs)
  show ?case by (cases ys) (auto simp: ok_then_Inr Cons.IH less_Suc_eq_0_disj)
qed auto

lemma traverse_length: "traverse f i xs = Inr ys \<Longrightarrow> length ys = length xs"
  by (simp add: traverse_Inr)

subsection \<open>Kinds\<close>

datatype value_kind = KindUnknown | KindList | KindObject | KindScalar | KindRecord

fun toList :: "val \<Rightarrow> goerr + val list" where
  "toList (VList items) = Inr items"
| "toList VNil = Inl (Err ''expected list, got null'')"
| "toList v = Inl (Err (''expected list, got '' @ go_type v))"

fun toObject :: "val \<Rightarrow> goerr + vmap" where
  "toObject (VMap m) = Inr m"
| "toObject VNil = Inl (Err ''expected object, got null'')"
| "toObject v = Inl (Err (''expected object with string keys, got '' @ go_type v))"

definition kindOf :: "val \<Rightarrow> value_kind" where
  "kindOf v = (case toList v of Inr _ \<Rightarrow> KindList | Inl _ \<Rightarrow> (case toObject v of Inr _ \<Rightarrow> KindObject | Inl _ \<Rightarrow> KindScalar))"

lemma toList_Inr [simp]: "toList v = Inr xs \<longleftrightarrow> v = VList xs"
  by (cases v) auto

lemma toObject_Inr [simp]: "toObject v = Inr m \<longleftrightarrow> v = VMap m"
  by (cases v) auto

lemma kindOf_iff:
  "kindOf v = KindList \<longleftrightarrow> (\<exists>xs. v = VList xs)" "kindOf v = KindObject \<longleftrightarrow> (\<exists>m. v = VMap m)"
  "kindOf v \<noteq> KindUnknown" "kindOf v \<noteq> KindRecord"
  by (cases v; simp add: kindOf_def)+

lemma kindOf_simps [simp]: "kindOf (VList xs) = KindList" "kindOf (VMap m) = KindObject"
  by (simp_all add: kindOf_def)

subsection \<open>Structural keys\<close>

record json =
  js_float :: "rat \<Rightarrow> string"
  js_other :: "string \<Rightarrow> goerr + string"

definition unicode_escape :: "nat \<Rightarrow> string" where
  "unicode_escape n = CHR 0x5C # ''u00'' @ [hex_digit (n div 16), hex_digit (n mod 16)]"

definition json_char :: "char \<Rightarrow> string" where
  "json_char c = (let n = of_char c :: nat in
     if c = CHR 0x22 \<or> c = CHR 0x5C then [CHR 0x5C, c]
     else if n = 8 then [CHR 0x5C, CHR ''b'']
     else if n = 9 then [CHR 0x5C, CHR ''t'']
     else if n = 10 then [CHR 0x5C, CHR ''n'']
     else if n = 12 then [CHR 0x5C, CHR ''f'']
     else if n = 13 then [CHR 0x5C, CHR ''r'']
     else if n < 32 \<or> c \<in> set ''<>&'' then unicode_escape n
     else [c])"

definition json_string :: "string \<Rightarrow> string" where
  "json_string s = [CHR 0x22] @ concat (map json_char s) @ [CHR 0x22]"

fun comma_separated :: "string list \<Rightarrow> string" where
  "comma_separated [] = []"
| "comma_separated [t] = t"
| "comma_separated (t # ts) = t @ '','' @ comma_separated ts"

definition all_ok :: "('e + 'a) list \<Rightarrow> 'e + 'a list" where
  "all_ok rs = traverse (\<lambda>_ r. r) 0 rs"

primrec json_text :: "json \<Rightarrow> val \<Rightarrow> goerr + string" where
  "json_text j VNil = Inr ''null''"
| "json_text j (VBool b) = Inr (if b then ''true'' else ''false'')"
| "json_text j (VInt i) = Inr (int_text i)"
| "json_text j (VFloat q) = Inr (js_float j q)"
| "json_text j (VStr s) = Inr (json_string s)"
| "json_text j (VList items) =
     map_sum id (\<lambda>ts. ''['' @ comma_separated ts @ '']'') (all_ok (map (json_text j) items))"
| "json_text j (VMap m) =
     ok_then (all_ok (map (\<lambda>(key, r). map_sum id (\<lambda>t. json_string key @ '':'' @ t) r) (sorted_entries (fmmap (json_text j) m))))
       (\<lambda>ts. Inr (''{'' @ comma_separated ts @ ''}''))"
| "json_text j (VDuration d) = Inr (int_text d)"
| "json_text j (VOther s) = js_other j s"

definition structuralKey :: "json \<Rightarrow> val \<Rightarrow> goerr + string" where
  "structuralKey j v = label_error ''value is not JSON-compatible'' (json_text j v)"

text \<open>valueMatcher keeps the key of the fixed value.\<close>

definition matches_key :: "json \<Rightarrow> string \<Rightarrow> val \<Rightarrow> goerr + bool" where
  "matches_key j wanted candidate = ok_then (structuralKey j candidate) (\<lambda>key. Inr (key = wanted))"

definition item_label :: "nat \<Rightarrow> string" where
  "item_label index = ''item '' @ nat_text index"

definition structuralKeys :: "json \<Rightarrow> val list \<Rightarrow> goerr + string list" where
  "structuralKeys j vs = traverse (\<lambda>index v. label_error (item_label index) (structuralKey j v)) 0 vs"

definition newValueMatcherSet :: "json \<Rightarrow> val list \<Rightarrow> goerr + string fset" where
  "newValueMatcherSet j vs = map_sum id fset_of_list (structuralKeys j vs)"

definition equalValues :: "json \<Rightarrow> val \<Rightarrow> val \<Rightarrow> goerr + bool" where
  "equalValues j l r = ok_then (structuralKey j l) (\<lambda>lk. ok_then (structuralKey j r) (\<lambda>rk. Inr (lk = rk)))"

subsection \<open>Numbers\<close>

text \<open>Rounding to the nearest float64, ties to even: the exponent that leaves 53 bits, but not below
  that of the subnormal numbers.\<close>

function bit_length :: "int \<Rightarrow> int" where
  "bit_length n = (if n \<le> 0 then 0 else 1 + bit_length (n div 2))"
  by auto
termination by (relation "measure nat") auto

declare bit_length.simps [simp del]

definition two_to :: "int \<Rightarrow> rat" where
  "two_to e = (if e \<ge> 0 then 2 ^ nat e else 1 / 2 ^ nat (- e))"

definition float_exponent :: "rat \<Rightarrow> int" where
  "float_exponent q = (let (n, d) = quotient_of \<bar>q\<bar>; k = bit_length n - bit_length d
     in max (-1074) ((if \<bar>q\<bar> < two_to k then k - 1 else k) - 52))"

definition round_half_even :: "rat \<Rightarrow> int" where
  "round_half_even q = (let f = \<lfloor>q\<rfloor>; r = q - of_int f in
     if r < 1 / 2 \<or> r = 1 / 2 \<and> even f then f else f + 1)"

definition round64 :: "rat \<Rightarrow> go_float" where
  "round64 q = (if q = 0 then Finite 0
     else let e = float_exponent q; v = of_int (round_half_even (q / two_to e)) * two_to e in
       if \<bar>v\<bar> \<ge> 2 ^ 1024 then (if v > 0 then PosInf else NegInf) else Finite v)"

text \<open>The float64 of an \<^verbatim>\<open>int\<close>; 64 bits do not overflow.\<close>

definition float_of_int :: "int \<Rightarrow> rat" where
  "float_of_int i = (case round64 (of_int i) of Finite q \<Rightarrow> q | _ \<Rightarrow> 0)"

text \<open>numberValue: the float64 and whether the value is an integer\<close>

fun numberValue :: "val \<Rightarrow> (rat \<times> bool) option" where
  "numberValue (VInt i) = Some (float_of_int i, True)"
| "numberValue (VFloat q) = Some (q, False)"
| "numberValue _ = None"

fun integerValue :: "val \<Rightarrow> int option" where
  "integerValue (VInt i) = Some i"
| "integerValue _ = None"

definition toInt :: "val \<Rightarrow> string \<Rightarrow> goerr + int" where
  "toInt v label = (case integerValue v of Some i \<Rightarrow> Inr i | None \<Rightarrow> Inl (Err (label @ '' must be an integer'')))"

definition order_of :: "'a::linorder \<Rightarrow> 'a \<Rightarrow> int" where
  "order_of l r = (if l < r then -1 else if l > r then 1 else 0)"

text \<open>compareValues; bytes.Compare is the order of strings\<close>

definition compareValues :: "val \<Rightarrow> val \<Rightarrow> goerr + int" where
  "compareValues l r = (case (numberValue l, numberValue r) of
     (Some (lf, li), Some (rf, ri)) \<Rightarrow>
       (case (integerValue l, integerValue r) of
          (Some a, Some b) \<Rightarrow> Inr (order_of a b)
        | _ \<Rightarrow> Inr (order_of lf rf))
   | (None, None) \<Rightarrow> (case (l, r) of
       (VStr a, VStr b) \<Rightarrow> Inr (order_of a b)
     | _ \<Rightarrow> Inl (Err (''values of type '' @ go_type l @ '' and '' @ go_type r @ '' are not orderable'')))
   | _ \<Rightarrow> Inl (Err (''cannot compare '' @ go_type l @ '' and '' @ go_type r)))"

fun boolValue :: "val \<Rightarrow> string \<Rightarrow> goerr + bool" where
  "boolValue (VBool b) label = Inr b"
| "boolValue v label = Inl (Err (label @ '' must return a boolean, got '' @ go_type v))"

fun stringKey :: "val \<Rightarrow> string \<Rightarrow> goerr + string" where
  "stringKey (VStr s) label = Inr s"
| "stringKey v label = Inl (Err (label @ '' must return a string object key, got '' @ go_type v))"

fun zeroValue :: "val \<Rightarrow> bool" where
  "zeroValue VNil = True"
| "zeroValue (VBool b) = (\<not> b)"
| "zeroValue (VStr s) = (s = [])"
| "zeroValue (VInt i) = (i = 0)"
| "zeroValue (VFloat q) = (q = 0)"
| "zeroValue _ = False"

subsection \<open>Expressions and operands\<close>

text \<open>What was compiled: the source, the local names and whether it has to be a boolean\<close>

datatype program = Program string "string list" bool

record compiled_expression =
  ce_label :: string
  ce_source :: string
  ce_locals :: "string list"
  ce_program :: "program option"

datatype operand = Literal val | Expression compiled_expression

record evaluation =
  ev_ctx :: "goerr option"
  ev_run :: "program \<Rightarrow> vmap \<Rightarrow> goerr + val"
  ev_json :: json

definition checkContext :: "evaluation \<Rightarrow> goerr + unit" where
  "checkContext ev = (case ev_ctx ev of Some e \<Rightarrow> Inl e | None \<Rightarrow> Inr ())"

definition evaluate_compiled :: "evaluation \<Rightarrow> compiled_expression option \<Rightarrow> vmap \<Rightarrow> goerr + val" where
  "evaluate_compiled ev expression locals = (case expression of
     None \<Rightarrow> Inl (Err ''expression is missing'')
   | Some x \<Rightarrow> (case ce_program x of
       None \<Rightarrow> Inl (Err (ce_label x @ '' contains an unresolved template''))
     | Some p \<Rightarrow> label_error (''evaluating '' @ ce_label x) (ev_run ev p locals)))"

definition resolve_operand :: "evaluation \<Rightarrow> operand \<Rightarrow> goerr + val" where
  "resolve_operand ev operand = (case operand of
     Literal v \<Rightarrow> Inr v
   | Expression x \<Rightarrow> evaluate_compiled ev (Some x) fmempty)"

end
