(* ===== verification/TransformParse.thy ===== *)
theory TransformParse
  imports TransformValues
begin

text \<open>
  The operations of a transform step as they are declared and decoded: the table of operations, their
  kinds and the construction of a pipeline (steps/transform/config.go), and the grammar of every
  operation (steps/transform/parse.go). Compiling an expression is a parameter that answers an error
  or nothing; YAML decoding of the step comes before.
\<close>

subsection \<open>The table of operations\<close>

datatype accept = AcceptList | AcceptObject

record descriptor =
  de_accept :: "accept list"
  de_result :: value_kind

definition with_descriptor :: "accept \<Rightarrow> value_kind \<Rightarrow> string list \<Rightarrow> (string \<times> descriptor) list" where
  "with_descriptor accepts result names = map (\<lambda>name. (name, \<lparr>de_accept = [accepts], de_result = result\<rparr>)) names"

definition list_to_list :: "string list" where
  "list_to_list =
     [''filter'', ''map'', ''flat_map'', ''filter_map'', ''reject'', ''reject_map'',
      ''unique'', ''unique_by'', ''unique_map'', ''find_uniques'', ''find_uniques_by'', ''find_duplicates'', ''find_duplicates_by'',
      ''partition_by'', ''chunk'', ''flatten'', ''concat'', ''window'', ''sliding'', ''interleave'', ''fill'',
      ''drop'', ''drop_right'', ''drop_while'', ''drop_right_while'', ''drop_by_index'', ''take'', ''take_while'', ''take_filter'',
      ''subset'', ''slice'',
      ''replace'', ''replace_all'', ''clone'', ''compact'', ''splice'', ''trim'', ''trim_left'', ''trim_prefix'', ''trim_right'', ''trim_suffix'',
      ''union'', ''intersect'', ''intersect_by'', ''without'', ''without_by'', ''without_nth'', ''sort'', ''sort_by'', ''mode'',
      ''zip'', ''zip_with'', ''unzip'', ''unzip_with'', ''cross_join'', ''cross_join_with'']"

definition list_to_object :: "string list" where
  "list_to_object = [''group_by'', ''group_by_map'', ''key_by'', ''associate'', ''filter_to_map'', ''keyify'', ''count_values'',
     ''count_values_by'']"

definition list_to_scalar :: "string list" where
  "list_to_scalar =
     [''contains'', ''contains_by'', ''every'', ''every_by'', ''some'', ''some_by'', ''none'', ''none_by'', ''elements_match'', ''elements_match_by'',
      ''index_of'', ''last_index_of'', ''has_prefix'', ''has_suffix'', ''find_or_else'', ''first_or'', ''first_or_empty'', ''last_or'', ''last_or_empty'',
      ''nth'', ''nth_or'', ''nth_or_empty'', ''min'', ''min_by'', ''max'', ''max_by'', ''is_sorted'', ''is_sorted_by'',
      ''reduce'', ''reduce_right'', ''count'', ''count_by'', ''sum'', ''sum_by'', ''product'', ''product_by'', ''mean'', ''mean_by'']"

definition list_to_record :: "string list" where
  "list_to_record = [''filter_reject'', ''difference'', ''find'', ''find_index'', ''find_last_index'', ''first'', ''last'', ''min_index'',
     ''min_index_by'', ''max_index'', ''max_index_by'', ''cut'', ''cut_prefix'', ''cut_suffix'']"

definition object_to_list :: "string list" where
  "object_to_list = [''keys'', ''unique_keys'', ''values'', ''unique_values'', ''entries'', ''chunk_entries'', ''map_to_list'',
     ''filter_map_to_list'', ''filter_keys'', ''filter_values'']"

definition object_to_object :: "string list" where
  "object_to_object = [''pick'', ''pick_keys'', ''pick_values'', ''omit'', ''omit_keys'', ''omit_values'', ''invert'', ''assign'', ''map_keys'',
     ''map_values'', ''map_entries'']"

definition descriptors :: "(string \<times> descriptor) list" where
  "descriptors =
     with_descriptor AcceptList KindList list_to_list @
     with_descriptor AcceptList KindObject list_to_object @
     with_descriptor AcceptList KindScalar list_to_scalar @
     with_descriptor AcceptList KindRecord list_to_record @
     with_descriptor AcceptObject KindList object_to_list @
     with_descriptor AcceptObject KindObject object_to_object @
     with_descriptor AcceptObject KindScalar [''has_key'', ''value_or''] @
     with_descriptor AcceptObject KindRecord [''find_key'', ''find_key_by''] @
     with_descriptor AcceptList KindObject [''from_entries'']"

record operation =
  op_name :: string
  op_descriptor :: descriptor
  op_argument :: val
  op_expressions :: "compiled_expression gomap"
  op_operands :: "operand gomap"
  op_operand_list :: "operand list"

definition accepts_kind :: "operation \<Rightarrow> value_kind \<Rightarrow> bool" where
  "accepts_kind op kind = (case kind of
     KindList \<Rightarrow> AcceptList \<in> set (de_accept (op_descriptor op))
   | KindObject \<Rightarrow> AcceptObject \<in> set (de_accept (op_descriptor op))
   | _ \<Rightarrow> False)"

fun kind_name :: "value_kind \<Rightarrow> string" where
  "kind_name KindList = ''list''"
| "kind_name KindObject = ''object''"
| "kind_name KindScalar = ''scalar''"
| "kind_name KindRecord = ''record''"
| "kind_name KindUnknown = ''unknown value''"

subsection \<open>Arguments\<close>

text \<open>\<open>cp source names boolean\<close> is the error of compiling an expression.\<close>

type_synonym compiler = "string \<Rightarrow> string list \<Rightarrow> bool \<Rightarrow> goerr option"

text \<open>The names an expression may use, sorted\<close>

definition itemLocals :: "string list" where
  "itemLocals = [''index'', ''item'']"

definition objectLocals :: "string list" where
  "objectLocals = [''index'', ''key'', ''value'']"

definition compile_source :: "compiler \<Rightarrow> string \<Rightarrow> string list \<Rightarrow> bool \<Rightarrow> string \<Rightarrow> goerr + program option" where
  "compile_source cp source names boolean label =
     (if contains_open source then Inr None
      else case cp source names boolean of
          Some e \<Rightarrow> Inl (Wrapped (''compiling '' @ label) e)
        | None \<Rightarrow> Inr (Some (Program source names boolean)))"

definition addExpression :: "compiler \<Rightarrow> string \<Rightarrow> val \<Rightarrow> string list \<Rightarrow> bool \<Rightarrow> operation \<Rightarrow> goerr + operation" where
  "addExpression cp field raw names boolean op =
     (case (case raw of VStr source \<Rightarrow> if blank source then None else Some source | _ \<Rightarrow> None) of
        None \<Rightarrow> Inl (Err (field @ '' must be a non-empty expression string''))
      | Some source \<Rightarrow> ok_then (compile_source cp source names boolean field) (\<lambda>program.
          Inr (op\<lparr>op_expressions := fmupd field
            \<lparr>ce_label = field, ce_source = source, ce_locals = names, ce_program = program\<rparr> (op_expressions op)\<rparr>)))"

definition parseOperand :: "compiler \<Rightarrow> string \<Rightarrow> val \<Rightarrow> goerr + operand" where
  "parseOperand cp label raw = (case raw of
     VMap m \<Rightarrow>
       (if fcard (fmdom m) = 1 then
          (case fmlookup m ''expr'' of
             Some (VStr text) \<Rightarrow>
               if blank text then Inl (Err (label @ ''.expr must be a non-empty expression string''))
               else ok_then (compile_source cp text [] False (label @ ''.expr'')) (\<lambda>program.
                 Inr (Expression \<lparr>ce_label = label @ ''.expr'', ce_source = text, ce_locals = [], ce_program = program\<rparr>))
           | Some _ \<Rightarrow> Inl (Err (label @ ''.expr must be a non-empty expression string''))
           | None \<Rightarrow> (case fmlookup m ''literal'' of Some v \<Rightarrow> Inr (Literal v) | None \<Rightarrow> Inr (Literal raw)))
        else Inr (Literal raw))
   | _ \<Rightarrow> Inr (Literal raw))"

definition exactMapping :: "val \<Rightarrow> string list \<Rightarrow> string list \<Rightarrow> goerr + vmap" where
  "exactMapping raw allowed required = (case raw of
     VMap m \<Rightarrow>
       (case filter (\<lambda>name. name \<notin> set allowed) (sorted_keys m) of
          name # _ \<Rightarrow> Inl (Err (''unknown argument '' @ go_quote name))
        | [] \<Rightarrow> (case filter (\<lambda>name. fmlookup m name = None) required of
            name # _ \<Rightarrow> Inl (Err (name @ '' is required''))
          | [] \<Rightarrow> Inr m))
   | _ \<Rightarrow> Inl (Err ''arguments must be an object''))"

text \<open>A missing entry of a map of values reads as nil.\<close>

definition entry_of :: "vmap \<Rightarrow> string \<Rightarrow> val" where
  "entry_of m name = (case fmlookup m name of Some v \<Rightarrow> v | None \<Rightarrow> VNil)"

text \<open>An expression field: its name, its locals and whether it is a predicate\<close>

type_synonym expression_field = "string \<times> string list \<times> bool"

fun add_expressions :: "compiler \<Rightarrow> vmap \<Rightarrow> expression_field list \<Rightarrow> operation \<Rightarrow> goerr + operation" where
  "add_expressions cp m [] op = Inr op"
| "add_expressions cp m ((name, names, boolean) # rest) op =
     ok_then (addExpression cp name (entry_of m name) names boolean op) (add_expressions cp m rest)"

definition parseExpressionMap :: "compiler \<Rightarrow> val \<Rightarrow> expression_field list \<Rightarrow> operation \<Rightarrow> goerr + operation" where
  "parseExpressionMap cp raw declared op =
     ok_then (exactMapping raw (map fst declared) []) (\<lambda>m. add_expressions cp m declared op)"

definition set_operand :: "string \<Rightarrow> operand \<Rightarrow> operation \<Rightarrow> operation" where
  "set_operand name operand op = op\<lparr>op_operands := fmupd name operand (op_operands op)\<rparr>"

fun add_operands :: "compiler \<Rightarrow> vmap \<Rightarrow> string list \<Rightarrow> operation \<Rightarrow> goerr + operation" where
  "add_operands cp m [] op = Inr op"
| "add_operands cp m (name # names) op = (case fmlookup m name of
     None \<Rightarrow> add_operands cp m names op
   | Some v \<Rightarrow> ok_then (parseOperand cp name v) (\<lambda>operand. add_operands cp m names (set_operand name operand op)))"

text \<open>Every operand of a mixed map is required.\<close>

definition parseMixedMap :: "compiler \<Rightarrow> val \<Rightarrow> string list \<Rightarrow> expression_field list \<Rightarrow> operation \<Rightarrow> goerr + operation" where
  "parseMixedMap cp raw operands expressions op =
     (let names = operands @ map fst expressions in
      ok_then (exactMapping raw names names) (\<lambda>m.
      ok_then (add_operands cp m operands op) (\<lambda>op. add_expressions cp m expressions op)))"

definition parseNamedOperand :: "compiler \<Rightarrow> val \<Rightarrow> string \<Rightarrow> operation \<Rightarrow> goerr + operation" where
  "parseNamedOperand cp raw name op =
     ok_then (exactMapping raw [name] [name]) (\<lambda>m.
     ok_then (parseOperand cp name (entry_of m name)) (\<lambda>operand. Inr (set_operand name operand op)))"

definition parseNamedOrDirectOperand :: "compiler \<Rightarrow> val \<Rightarrow> string \<Rightarrow> operation \<Rightarrow> goerr + operation" where
  "parseNamedOrDirectOperand cp raw name op =
     (if (case raw of VMap m \<Rightarrow> fmlookup m name \<noteq> None | _ \<Rightarrow> False) then parseNamedOperand cp raw name op
      else ok_then (parseOperand cp name raw) (\<lambda>operand. Inr (set_operand name operand op)))"

definition parse_operand_list :: "compiler \<Rightarrow> vmap \<Rightarrow> operation \<Rightarrow> goerr + operation" where
  "parse_operand_list cp m op = (case entry_of m ''with'' of
     VList (v # vs) \<Rightarrow>
       ok_then (traverse (\<lambda>index. parseOperand cp (''with['' @ nat_text index @ '']'')) 0 (v # vs)) (\<lambda>operands.
         Inr (op\<lparr>op_operand_list := op_operand_list op @ operands\<rparr>))
   | _ \<Rightarrow> Inl (Err ''with must be a non-empty list of operands''))"

definition parseWith :: "compiler \<Rightarrow> val \<Rightarrow> bool \<Rightarrow> operation \<Rightarrow> goerr + operation" where
  "parseWith cp raw many op =
     ok_then (exactMapping raw [''with''] [''with'']) (\<lambda>m.
       if many then parse_operand_list cp m op
       else ok_then (parseOperand cp ''with'' (entry_of m ''with'')) (\<lambda>operand. Inr (set_operand ''with'' operand op)))"

definition parseWithExpression :: "compiler \<Rightarrow> val \<Rightarrow> string \<Rightarrow> string list \<Rightarrow> operation \<Rightarrow> goerr + operation" where
  "parseWithExpression cp raw field names op =
     ok_then (exactMapping raw [''with'', field] [''with'', field]) (\<lambda>m.
     ok_then (parse_operand_list cp m op) (addExpression cp field (entry_of m field) names False))"

definition parseSingleWithExpression :: "compiler \<Rightarrow> val \<Rightarrow> string \<Rightarrow> string list \<Rightarrow> operation \<Rightarrow> goerr + operation" where
  "parseSingleWithExpression cp raw field names op =
     ok_then (exactMapping raw [''with'', field] [''with'', field]) (\<lambda>m.
     ok_then (parseOperand cp ''with'' (entry_of m ''with'')) (\<lambda>operand.
       addExpression cp field (entry_of m field) names False (set_operand ''with'' operand op)))"

definition parseTupleWith :: "compiler \<Rightarrow> val \<Rightarrow> operation \<Rightarrow> goerr + operation" where
  "parseTupleWith cp raw op = parseWithExpression cp raw ''expr'' [''index'', ''items''] op"

definition sort_order :: "val \<Rightarrow> operation \<Rightarrow> goerr + operation" where
  "sort_order raw op = (if raw \<in> {VStr ''asc'', VStr ''desc''} then Inr (op\<lparr>op_argument := raw\<rparr>)
     else Inl (Err ''order must be asc or desc''))"

definition parseSort :: "val \<Rightarrow> operation \<Rightarrow> goerr + operation" where
  "parseSort raw op = (if raw = VNil then Inr (op\<lparr>op_argument := VStr ''asc''\<rparr>) else sort_order raw op)"

definition parseSortBy :: "compiler \<Rightarrow> val \<Rightarrow> operation \<Rightarrow> goerr + operation" where
  "parseSortBy cp raw op = (case raw of
     VStr source \<Rightarrow> addExpression cp ''expr'' raw itemLocals False (op\<lparr>op_argument := VStr ''asc''\<rparr>)
   | _ \<Rightarrow> ok_then (exactMapping raw [''expr'', ''order''] [''expr'']) (\<lambda>m.
       ok_then (case fmlookup m ''order'' of Some configured \<Rightarrow> sort_order configured op
                | None \<Rightarrow> Inr (op\<lparr>op_argument := VStr ''asc''\<rparr>))
         (addExpression cp ''expr'' (entry_of m ''expr'') itemLocals False)))"

subsection \<open>Operations\<close>

definition zeroArgumentOperations :: "string list" where
  "zeroArgumentOperations =
     [''unique'', ''find_uniques'', ''find_duplicates'', ''flatten'', ''clone'', ''compact'',
      ''first'', ''first_or_empty'', ''last'', ''last_or_empty'', ''min'', ''min_index'', ''max'', ''max_index'', ''is_sorted'',
      ''sum'', ''product'', ''mean'', ''mode'', ''keyify'', ''keys'', ''unique_keys'', ''values'', ''unique_values'',
      ''count_values'', ''entries'', ''from_entries'', ''invert'', ''unzip'']"

definition itemExpressionOperations :: "string list" where
  "itemExpressionOperations =
     [''map'', ''flat_map'', ''unique_by'', ''unique_map'', ''find_uniques_by'', ''find_duplicates_by'',
      ''group_by'', ''partition_by'', ''key_by'', ''count_values_by'', ''is_sorted_by'', ''sum_by'', ''product_by'', ''mean_by'',
      ''unzip_with'']"

definition itemPredicateOperations :: "string list" where
  "itemPredicateOperations =
     [''filter'', ''reject'', ''drop_while'', ''drop_right_while'', ''take_while'', ''contains_by'', ''every_by'', ''some_by'', ''none_by'',
      ''count_by'', ''find'', ''find_index'', ''find_last_index'']"

definition comparatorOperations :: "string list" where
  "comparatorOperations = [''min_by'', ''min_index_by'', ''max_by'', ''max_index_by'']"

definition objectPredicateOperations :: "string list" where
  "objectPredicateOperations = [''pick'', ''omit'', ''filter_keys'', ''filter_values'', ''find_key_by'']"

definition objectExpressionOperations :: "string list" where
  "objectExpressionOperations = [''map_values'', ''map_to_list'']"

definition operandOperations :: "string list" where
  "operandOperations =
     [''fill'', ''drop'', ''drop_right'', ''drop_by_index'', ''take'', ''chunk'', ''window'', ''contains'', ''every'', ''some'', ''none'',
      ''index_of'', ''last_index_of'', ''first_or'', ''last_or'', ''nth'', ''nth_or_empty'', ''count'', ''without_nth'', ''find_key'',
      ''has_key'', ''chunk_entries'', ''pick_keys'', ''pick_values'', ''omit_keys'', ''omit_values'']"

text \<open>The name and the argument of an operation\<close>

definition operationEntry :: "val \<Rightarrow> goerr + string \<times> val" where
  "operationEntry raw = (case raw of
     VStr name \<Rightarrow> if blank name then Inl (Err ''operation name must not be empty'') else Inr (trimSpace name, VNil)
   | VMap m \<Rightarrow> (case sorted_entries m of
       [(name, argument)] \<Rightarrow>
         if blank name then Inl (Err ''operation name must not be empty'') else Inr (name, argument)
     | _ \<Rightarrow> Inl (Err ''operation must be a name or an object containing exactly one operation''))
   | _ \<Rightarrow> Inl (Err ''operation must be a name or an object containing exactly one operation''))"

definition emptyArgument :: "val \<Rightarrow> bool" where
  "emptyArgument v \<longleftrightarrow> v = VNil \<or> v = VMap fmempty"

definition operation_label :: "nat \<Rightarrow> string \<Rightarrow> string" where
  "operation_label index name = ''operation '' @ nat_text (Suc index) @ '' ('' @ name @ '')''"

text \<open>The operations with a grammar of their own\<close>

definition parse_arguments :: "compiler \<Rightarrow> string \<Rightarrow> val \<Rightarrow> operation \<Rightarrow> goerr + operation" where
  "parse_arguments cp name argument op =
     (let value_item = (''value'', itemLocals, False); when_item = (''when'', itemLocals, True);
          key_item = (''key'', itemLocals, False) in
      if name \<in> {''filter_map'', ''reject_map''} then parseExpressionMap cp argument [value_item, when_item] op
      else if name \<in> {''group_by_map'', ''associate''} then parseExpressionMap cp argument [key_item, value_item] op
      else if name = ''filter_to_map'' then parseExpressionMap cp argument [key_item, value_item, when_item] op
      else if name = ''filter_reject'' then addExpression cp ''expr'' argument itemLocals True op
      else if name = ''take_filter'' then parseMixedMap cp argument [''count''] [when_item] op
      else if name = ''sliding'' then parseMixedMap cp argument [''size'', ''step''] [] op
      else if name = ''subset'' then parseMixedMap cp argument [''offset'', ''length''] [] op
      else if name = ''slice'' then parseMixedMap cp argument [''start'', ''end''] [] op
      else if name = ''replace'' then parseMixedMap cp argument [''old'', ''new'', ''count''] [] op
      else if name = ''replace_all'' then parseMixedMap cp argument [''old'', ''new''] [] op
      else if name = ''splice'' then parseMixedMap cp argument [''index'', ''elements''] [] op
      else if name \<in> {''trim'', ''trim_left'', ''trim_right''} then parseNamedOrDirectOperand cp argument ''cutset'' op
      else if name \<in> {''trim_prefix'', ''has_prefix'', ''cut_prefix''} then parseNamedOrDirectOperand cp argument ''prefix'' op
      else if name \<in> {''trim_suffix'', ''has_suffix'', ''cut_suffix''} then parseNamedOrDirectOperand cp argument ''suffix'' op
      else if name = ''cut'' then parseNamedOrDirectOperand cp argument ''separator'' op
      else if name \<in> {''concat'', ''interleave'', ''union'', ''intersect'', ''zip'', ''cross_join'', ''assign''}
        then parseWith cp argument True op
      else if name \<in> {''difference'', ''elements_match''} then parseWith cp argument False op
      else if name = ''intersect_by'' then parseWithExpression cp argument ''by'' itemLocals op
      else if name = ''elements_match_by'' then parseSingleWithExpression cp argument ''by'' itemLocals op
      else if name = ''without'' then parseNamedOrDirectOperand cp argument ''values'' op
      else if name = ''without_by'' then parseMixedMap cp argument [''values''] [(''by'', itemLocals, False)] op
      else if name = ''find_or_else'' then parseMixedMap cp argument [''fallback''] [when_item] op
      else if name = ''nth_or'' then parseMixedMap cp argument [''nth'', ''fallback''] [] op
      else if name = ''sort'' then parseSort argument op
      else if name = ''sort_by'' then parseSortBy cp argument op
      else if name \<in> {''reduce'', ''reduce_right''}
        then parseMixedMap cp argument [''initial''] [(''expr'', [''acc'', ''index'', ''item''], False)] op
      else if name = ''value_or'' then parseMixedMap cp argument [''key'', ''fallback''] [] op
      else if name = ''map_keys'' then addExpression cp ''expr'' argument objectLocals False op
      else if name = ''map_entries''
        then parseExpressionMap cp argument [(''key'', objectLocals, False), (''value'', objectLocals, False)] op
      else if name = ''filter_map_to_list''
        then parseExpressionMap cp argument [(''value'', objectLocals, False), (''when'', objectLocals, True)] op
      else if name \<in> {''zip_with'', ''cross_join_with''} then parseTupleWith cp argument op
      else Inl (Err ''operation parser is not implemented''))"

definition new_operation :: "string \<Rightarrow> descriptor \<Rightarrow> val \<Rightarrow> operation" where
  "new_operation name d argument = \<lparr>op_name = name, op_descriptor = d, op_argument = argument,
     op_expressions = fmempty, op_operands = fmempty, op_operand_list = []\<rparr>"

definition parseOperation :: "compiler \<Rightarrow> nat \<Rightarrow> val \<Rightarrow> goerr + operation" where
  "parseOperation cp index raw =
     (case operationEntry raw of
        Inl e \<Rightarrow> Inl (Wrapped (''operation '' @ nat_text (Suc index)) e)
      | Inr (name, argument) \<Rightarrow> (case map_of descriptors name of
          None \<Rightarrow> Inl (Err (''operation '' @ nat_text (Suc index) @ '': unknown operation '' @ go_quote name))
        | Some d \<Rightarrow> (let op = new_operation name d argument; label = label_error (operation_label index name) in
            if name \<in> {''keys'', ''unique_keys'', ''values'', ''unique_values''} \<and> \<not> emptyArgument argument
              then label (parseWith cp argument True op)
            else if name \<in> set zeroArgumentOperations then
              (if emptyArgument argument then Inr op
               else Inl (Err (operation_label index name @ '' does not accept arguments'')))
            else if name \<in> set itemExpressionOperations then label (addExpression cp ''expr'' argument itemLocals False op)
            else if name \<in> set itemPredicateOperations then label (addExpression cp ''expr'' argument itemLocals True op)
            else if name \<in> set comparatorOperations then label (addExpression cp ''expr'' argument [''left'', ''right''] True op)
            else if name \<in> set objectPredicateOperations then label (addExpression cp ''expr'' argument objectLocals True op)
            else if name \<in> set objectExpressionOperations then label (addExpression cp ''expr'' argument objectLocals False op)
            else if name \<in> set operandOperations then
              label (ok_then (parseOperand cp name argument) (\<lambda>operand. Inr (set_operand ''value'' operand op)))
            else label (parse_arguments cp name argument op))))"

subsection \<open>Pipelines\<close>

text \<open>New: the operations of a step, where each accepts what the one before yields. \<open>known\<close> is the kind of the
  value so far.\<close>

fun parse_operations :: "compiler \<Rightarrow> value_kind \<Rightarrow> nat \<Rightarrow> val list \<Rightarrow> goerr + operation list" where
  "parse_operations cp known index [] = Inr []"
| "parse_operations cp known index (raw # raws) =
     ok_then (parseOperation cp index raw) (\<lambda>op.
       if known \<in> {KindScalar, KindRecord}
         then Inl (Err (operation_label index (op_name op) @ '' follows terminal operation '' @ nat_text index))
       else if known \<noteq> KindUnknown \<and> \<not> accepts_kind op known
         then Inl (Err (operation_label index (op_name op) @ '' cannot consume '' @ kind_name known @ '' produced by the previous operation''))
       else ok_then (parse_operations cp (de_result (op_descriptor op)) (Suc index) raws) (\<lambda>ops. Inr (op # ops)))"

record transform_config =
  tc_path :: string
  tc_expr :: string
  tc_file :: string
  tc_operations :: "val list"
  tc_variable :: "string option"

text \<open>The checks of New; \<open>file_error\<close> and \<open>path_error\<close> are those of validateFile and step.ValidatePath.\<close>

definition new_pipeline :: "compiler \<Rightarrow> goerr option \<Rightarrow> goerr option \<Rightarrow> transform_config \<Rightarrow> goerr + program option \<times> operation list" where
  "new_pipeline cp file_error path_error cfg =
     (if tc_path cfg = [] \<and> tc_expr cfg = [] \<and> tc_file cfg = [] then Inl (Err ''from is required'')
      else case file_error of Some e \<Rightarrow> Inl e | None \<Rightarrow>
        (case (if tc_path cfg = [] then None else path_error) of
           Some e \<Rightarrow> Inl (Err (''from '' @ err_text e @ ''; to compute the value, write from: {expr: ...}''))
         | None \<Rightarrow>
            if tc_operations cfg = [] then Inl (Err ''operations must contain at least one operation'')
            else if (case tc_variable cfg of Some v \<Rightarrow> blank v | None \<Rightarrow> False) then Inl (Err ''variable must not be empty'')
            else ok_then (if tc_expr cfg = [] then Inr None else compile_source cp (tc_expr cfg) [] False ''from.expr'') (\<lambda>program.
              ok_then (parse_operations cp (if tc_file cfg = [] then KindUnknown else KindList) 0 (tc_operations cfg)) (\<lambda>ops.
                Inr (program, ops)))))"

end
