(* ===== verification/TransformLists.thy ===== *)
theory TransformLists
  imports TransformParse "HOL-Library.Signed_Division"
begin

text \<open>
  The list operations of a transform step (steps/transform/list_ops.go, list_structure.go,
  list_set.go, list_search.go, tuple_ops.go), one definition per family of the code, with every error.

  The three helpers of the library lo that filter, map and concatenate are \<open>lo\<close>; what they are
  documented to do is \<open>lo_documented\<close>. An \<^verbatim>\<open>int\<close> has 64 bits: where a sum can leave them, \<open>wrap64\<close>
  is written out. sort.SliceStable is insertion into the sorted part from the right, which is what it does
  for up to twenty items, and which for an order gives the only stable sorting.
\<close>

subsection \<open>Helpers\<close>

definition wrap64 :: "int \<Rightarrow> int" where
  "wrap64 i = (i + 2 ^ 63) mod 2 ^ 64 - 2 ^ 63"

lemma wrap64_id: "- (2 ^ 63) \<le> i \<Longrightarrow> i < 2 ^ 63 \<Longrightarrow> wrap64 i = i"
  by (simp add: wrap64_def)

lemma wrap64_below: "wrap64 i < 2 ^ 63"
  using pos_mod_bound [of "2 ^ 64 :: int" "i + 2 ^ 63"] by (simp add: wrap64_def)

record lo =
  lo_FilterErr :: "val list \<Rightarrow> (val \<Rightarrow> nat \<Rightarrow> goerr + bool) \<Rightarrow> goerr + val list"
  lo_MapErr :: "val list \<Rightarrow> (val \<Rightarrow> nat \<Rightarrow> goerr + val) \<Rightarrow> goerr + val list"
  lo_FlatMapErr :: "val list \<Rightarrow> (val \<Rightarrow> nat \<Rightarrow> goerr + val list) \<Rightarrow> goerr + val list"

text \<open>The loop that gathers what each item contributes\<close>

fun gather :: "(val \<Rightarrow> nat \<Rightarrow> goerr + val list) \<Rightarrow> nat \<Rightarrow> val list \<Rightarrow> goerr + val list" where
  "gather f i [] = Inr []"
| "gather f i (x # xs) = ok_then (f x i) (\<lambda>ys. ok_then (gather f (Suc i) xs) (\<lambda>zs. Inr (ys @ zs)))"

definition lo_documented :: "lo \<Rightarrow> bool" where
  "lo_documented l \<longleftrightarrow>
     (\<forall>xs p. lo_FilterErr l xs p = gather (\<lambda>x i. ok_then (p x i) (\<lambda>b. Inr (if b then [x] else []))) 0 xs) \<and>
     (\<forall>xs f. lo_MapErr l xs f = gather (\<lambda>x i. ok_then (f x i) (\<lambda>y. Inr [y])) 0 xs) \<and>
     (\<forall>xs f. lo_FlatMapErr l xs f = gather f 0 xs)"

type_synonym locals = "(string \<times> val) list"

definition item_locals :: "val \<Rightarrow> nat \<Rightarrow> vmap" where
  "item_locals item index = fmap_of_list [(''item'', item), (''index'', VInt (int index))]"

definition evaluateItem :: "evaluation \<Rightarrow> operation \<Rightarrow> string \<Rightarrow> val \<Rightarrow> nat \<Rightarrow> goerr + val" where
  "evaluateItem ev op field item index =
     ok_then (checkContext ev) (\<lambda>_. label_error (item_label index)
       (evaluate_compiled ev (fmlookup (op_expressions op) field) (item_locals item index)))"

definition evaluateItemBool :: "evaluation \<Rightarrow> operation \<Rightarrow> string \<Rightarrow> val \<Rightarrow> nat \<Rightarrow> goerr + bool" where
  "evaluateItemBool ev op field item index = ok_then (evaluateItem ev op field item index) (\<lambda>v. boolValue v field)"

definition resolveNamedOperand :: "evaluation \<Rightarrow> operation \<Rightarrow> string \<Rightarrow> goerr + val" where
  "resolveNamedOperand ev op name = (case fmlookup (op_operands op) name of
     None \<Rightarrow> Inl (Err (name @ '' is missing''))
   | Some operand \<Rightarrow> label_error (''resolving '' @ name) (resolve_operand ev operand))"

definition with_label :: "nat \<Rightarrow> string" where
  "with_label index = ''with['' @ nat_text index @ '']''"

definition resolveOperandList :: "evaluation \<Rightarrow> operation \<Rightarrow> goerr + val list" where
  "resolveOperandList ev op =
     traverse (\<lambda>index operand. label_error (''resolving '' @ with_label index) (resolve_operand ev operand)) 0 (op_operand_list op)"

definition resolveListOperands :: "evaluation \<Rightarrow> operation \<Rightarrow> goerr + val list list" where
  "resolveListOperands ev op = ok_then (resolveOperandList ev op)
     (traverse (\<lambda>index v. label_error (with_label index) (toList v)) 0)"

text \<open>An operand that is a list, and an operand that is a number of at least \<open>least\<close>\<close>

definition list_operand :: "evaluation \<Rightarrow> operation \<Rightarrow> string \<Rightarrow> goerr + val list" where
  "list_operand ev op name = ok_then (resolveNamedOperand ev op name) (\<lambda>v. label_error name (toList v))"

definition int_operand :: "evaluation \<Rightarrow> operation \<Rightarrow> string \<Rightarrow> string \<Rightarrow> goerr + int" where
  "int_operand ev op name label = ok_then (resolveNamedOperand ev op name) (\<lambda>v. toInt v label)"

definition nat_operand :: "evaluation \<Rightarrow> operation \<Rightarrow> string \<Rightarrow> int \<Rightarrow> string \<Rightarrow> goerr + nat" where
  "nat_operand ev op name least what = ok_then (resolveNamedOperand ev op name) (\<lambda>v.
     case toInt v name of
       Inr n \<Rightarrow> if n < least then Inl (Err what) else Inr (nat n)
     | Inl _ \<Rightarrow> Inl (Err what))"

definition integerList :: "val \<Rightarrow> string \<Rightarrow> goerr + int list" where
  "integerList v label = (case toList v of
     Inl _ \<Rightarrow> Inl (Err (label @ '' must be a list of integers''))
   | Inr vs \<Rightarrow> traverse (\<lambda>index v. toInt v (label @ ''['' @ nat_text index @ '']'')) 0 vs)"

text \<open>The loop with a running result\<close>

fun fold_items :: "('a \<Rightarrow> nat \<Rightarrow> 's \<Rightarrow> goerr + 's) \<Rightarrow> nat \<Rightarrow> 'a list \<Rightarrow> 's \<Rightarrow> goerr + 's" where
  "fold_items f i [] s = Inr s"
| "fold_items f i (x # xs) s = ok_then (f x i s) (fold_items f (Suc i) xs)"

text \<open>The loop that ends with the first item that answers\<close>

fun first_answer :: "('a \<Rightarrow> goerr + 'b option) \<Rightarrow> 'a list \<Rightarrow> goerr + 'b option" where
  "first_answer f [] = Inr None"
| "first_answer f (x # xs) = ok_then (f x) (\<lambda>r. case r of Some y \<Rightarrow> Inr (Some y) | None \<Rightarrow> first_answer f xs)"

subsection \<open>Filtering\<close>

definition filterMap :: "evaluation \<Rightarrow> val list \<Rightarrow> operation \<Rightarrow> goerr + val list" where
  "filterMap ev xs op = gather (\<lambda>item index.
     ok_then (evaluateItemBool ev op ''when'' item index) (\<lambda>matches.
       if (op_name op = ''filter_map'') \<noteq> matches then Inr []
       else ok_then (evaluateItem ev op ''value'' item index) (\<lambda>v. Inr [v]))) 0 xs"

definition filterReject :: "evaluation \<Rightarrow> val list \<Rightarrow> operation \<Rightarrow> goerr + vmap" where
  "filterReject ev xs op = ok_then (fold_items (\<lambda>item index (kept, rejected).
       ok_then (evaluateItemBool ev op ''expr'' item index) (\<lambda>matches.
         Inr (if matches then (kept @ [item], rejected) else (kept, rejected @ [item])))) 0 xs ([], []))
     (\<lambda>(kept, rejected). Inr (fmap_of_list [(''kept'', VList kept), (''rejected'', VList rejected)]))"

definition unique_entry :: "evaluation \<Rightarrow> operation \<Rightarrow> nat \<Rightarrow> val \<Rightarrow> goerr + string \<times> val" where
  "unique_entry ev op index item =
     ok_then (if op_name op \<in> {''unique_by'', ''find_uniques_by'', ''find_duplicates_by'', ''unique_map''}
              then evaluateItem ev op ''expr'' item index else Inr item) (\<lambda>key_value.
     ok_then (label_error (item_label index) (structuralKey (ev_json ev) key_value)) (\<lambda>key.
       Inr (key, if op_name op = ''unique_map'' then key_value else item)))"

fun keep_unique :: "string \<Rightarrow> string list \<Rightarrow> string fset \<Rightarrow> (string \<times> val) list \<Rightarrow> val list" where
  "keep_unique name keys seen [] = []"
| "keep_unique name keys seen ((key, v) # rest) =
     (let duplicate = key |\<in>| seen;
          kept = (if name \<in> {''find_uniques'', ''find_uniques_by''} then count_list keys key = 1
                  else if name \<in> {''find_duplicates'', ''find_duplicates_by''} then count_list keys key > 1 \<and> \<not> duplicate
                  else \<not> duplicate)
      in (if kept then [v] else []) @ keep_unique name keys (finsert key seen) rest)"

definition uniquenessOperation :: "evaluation \<Rightarrow> val list \<Rightarrow> operation \<Rightarrow> goerr + val list" where
  "uniquenessOperation ev xs op = ok_then (traverse (unique_entry ev op) 0 xs) (\<lambda>entries.
     Inr (keep_unique (op_name op) (map fst entries) {||} entries))"

definition uniqueValues :: "json \<Rightarrow> val list \<Rightarrow> goerr + val list" where
  "uniqueValues j vs = ok_then (structuralKeys j vs) (\<lambda>keys. Inr (keep_unique '''' keys {||} (zip keys vs)))"

subsection \<open>Grouping\<close>

text \<open>partition_by: the groups in the order of their first items\<close>

definition partition_item :: "evaluation \<Rightarrow> operation \<Rightarrow> val \<Rightarrow> nat \<Rightarrow> nat gomap \<times> val list list \<Rightarrow> goerr + nat gomap \<times> val list list" where
  "partition_item ev op item index st =
     ok_then (evaluateItem ev op ''expr'' item index) (\<lambda>key_value.
     ok_then (label_error (item_label index) (structuralKey (ev_json ev) key_value)) (\<lambda>key.
       case fmlookup (fst st) key of
         None \<Rightarrow> Inr (fmupd key (length (snd st)) (fst st), snd st @ [[item]])
       | Some g \<Rightarrow> Inr (fst st, (snd st)[g := snd st ! g @ [item]])))"

definition append_to :: "string \<Rightarrow> val \<Rightarrow> vmap \<Rightarrow> vmap" where
  "append_to key v result = fmupd key (VList ((case fmlookup result key of Some (VList items) \<Rightarrow> items | _ \<Rightarrow> []) @ [v])) result"

definition group_item :: "evaluation \<Rightarrow> operation \<Rightarrow> val \<Rightarrow> nat \<Rightarrow> vmap \<Rightarrow> goerr + vmap" where
  "group_item ev op item index result =
     ok_then (checkContext ev) (\<lambda>_.
       if op_name op = ''keyify'' then
         ok_then (stringKey item (item_label index)) (\<lambda>key. Inr (fmupd key (VMap fmempty) result))
       else if op_name op \<in> {''group_by'', ''key_by''} then
         ok_then (evaluateItem ev op ''expr'' item index) (\<lambda>key_value.
         ok_then (stringKey key_value (item_label index @ '' expression'')) (\<lambda>key.
           Inr (if op_name op = ''group_by'' then append_to key item result else fmupd key item result)))
       else if op_name op \<in> {''group_by_map'', ''associate'', ''filter_to_map''} then
         ok_then (if op_name op = ''filter_to_map'' then evaluateItemBool ev op ''when'' item index else Inr True) (\<lambda>matches.
           if \<not> matches then Inr result
           else ok_then (evaluateItem ev op ''key'' item index) (\<lambda>key_value.
             ok_then (stringKey key_value (item_label index @ '' key'')) (\<lambda>key.
             ok_then (evaluateItem ev op ''value'' item index) (\<lambda>v.
               Inr (if op_name op = ''group_by_map'' then append_to key v result else fmupd key v result)))))
       else Inr result)"

definition groupingOperation :: "evaluation \<Rightarrow> val list \<Rightarrow> operation \<Rightarrow> goerr + val" where
  "groupingOperation ev xs op =
     (if op_name op = ''partition_by''
      then ok_then (fold_items (partition_item ev op) 0 xs (fmempty, [])) (\<lambda>st. Inr (VList (map VList (snd st))))
      else ok_then (fold_items (group_item ev op) 0 xs fmempty) (\<lambda>m. Inr (VMap m)))"

subsection \<open>Segments\<close>

definition flatten_lists :: "val list \<Rightarrow> goerr + val list" where
  "flatten_lists = gather (\<lambda>item index. label_error (item_label index) (toList item)) 0"

definition appendLists :: "evaluation \<Rightarrow> val list \<Rightarrow> operation \<Rightarrow> bool \<Rightarrow> goerr + val list" where
  "appendLists ev first op unique = ok_then (resolveListOperands ev op) (\<lambda>others.
     let result = first @ concat others in if unique then uniqueValues (ev_json ev) result else Inr result)"

definition interleave :: "val list list \<Rightarrow> val list" where
  "interleave rows = concat (map (\<lambda>index. List.map_filter (\<lambda>items. if index < length items then Some (items ! index) else None) rows)
     [0 ..< fold max (map length rows) 0])"

function chunk_list :: "nat \<Rightarrow> val list \<Rightarrow> val list" where
  "chunk_list width xs = (if xs = [] \<or> width = 0 then [] else VList (take width xs) # chunk_list width (drop width xs))"
  by auto
termination by (relation "measure (\<lambda>(_, xs). length xs)") auto

declare chunk_list.simps [simp del]

text \<open>The windows from \<open>start\<close> on, for a size and a step of 64 bits. The next start and its end can leave the 64 bits;
  a slice with such bounds panics.\<close>

definition slice_panic :: goerr where
  "slice_panic = Err ''runtime error: slice bounds out of range''"

definition positive64 :: "int \<Rightarrow> bool" where
  "positive64 i \<longleftrightarrow> 0 < i \<and> i < 2 ^ 63"

lemma wrap64_sum:
  assumes "positive64 step" "0 \<le> start" "start < 2 ^ 63"
  shows "wrap64 (start + step) = start + step \<or> wrap64 (start + step) < 0"
proof (cases "start + step < 2 ^ 63")
  case True
  then show ?thesis using wrap64_id [of "start + step"] assms by (simp add: positive64_def)
next
  case False
  let ?x = "start + step + 2 ^ 63 - 2 ^ 64"
  have "0 \<le> ?x" "?x < 2 ^ 63" using False assms by (simp_all add: positive64_def)
  then have "?x mod 2 ^ 64 = ?x" by (intro mod_pos_pos_trivial) simp_all
  then have "(start + step + 2 ^ 63) mod 2 ^ 64 = ?x" by (metis minus_mod_self2)
  then show ?thesis using False assms by (simp add: wrap64_def positive64_def)
qed

function windows :: "int \<Rightarrow> int \<Rightarrow> val list \<Rightarrow> int \<Rightarrow> goerr + val list" where
  "windows width step xs start =
     (let end = wrap64 (start + width) in
      if \<not> (positive64 width \<and> positive64 step) \<or> end > int (length xs) then Inr []
      else if start < 0 \<or> end < start then Inl slice_panic
      else ok_then (windows width step xs (wrap64 (start + step))) (\<lambda>rest.
        Inr (VList (take (nat width) (drop (nat start) xs)) # rest)))"
  by auto
termination
proof (relation "measure (\<lambda>(width, step, xs, start). if start < 0 then 0 else Suc (nat (int (length xs) - start)))", goal_cases)
  case (2 width step xs start finish)
  then have "start < 2 ^ 63" using wrap64_below [of "start + width"] by linarith
  then show ?case using 2 wrap64_sum [of step start] wrap64_sum [of width start] by (auto simp: positive64_def)
qed simp

declare windows.simps [simp del]

definition segmentationOperation :: "evaluation \<Rightarrow> val list \<Rightarrow> operation \<Rightarrow> goerr + val list" where
  "segmentationOperation ev xs op =
     (let positive = (\<lambda>name. nat_operand ev op name 1 (name @ '' must be a positive integer'')) in
      if op_name op = ''flatten'' then flatten_lists xs
      else if op_name op = ''concat'' then appendLists ev xs op False
      else if op_name op = ''interleave'' then ok_then (resolveListOperands ev op) (\<lambda>others. Inr (interleave (xs # others)))
      else if op_name op = ''fill'' then ok_then (resolveNamedOperand ev op ''value'') (\<lambda>v. Inr (replicate (length xs) v))
      else if op_name op = ''sliding'' then
        ok_then (positive ''size'') (\<lambda>size. ok_then (positive ''step'') (\<lambda>step. windows (int size) (int step) xs 0))
      else ok_then (nat_operand ev op ''value'' 1 ''size must be a positive integer'') (\<lambda>size.
        if op_name op = ''chunk'' then Inr (chunk_list size xs) else windows (int size) 1 xs 0))"

subsection \<open>Selections\<close>

fun matching_prefix :: "(val \<Rightarrow> nat \<Rightarrow> goerr + bool) \<Rightarrow> nat \<Rightarrow> val list \<Rightarrow> goerr + nat" where
  "matching_prefix f i [] = Inr 0"
| "matching_prefix f i (x # xs) =
     ok_then (f x i) (\<lambda>matches. if matches then ok_then (matching_prefix f (Suc i) xs) (\<lambda>n. Inr (Suc n)) else Inr 0)"

fun take_matching :: "(val \<Rightarrow> nat \<Rightarrow> goerr + bool) \<Rightarrow> nat \<Rightarrow> nat \<Rightarrow> val list \<Rightarrow> goerr + val list" where
  "take_matching f count i [] = Inr []"
| "take_matching f count i (x # xs) =
     (if count = 0 then Inr []
      else ok_then (f x i) (\<lambda>matches.
        if matches then ok_then (take_matching f (count - 1) (Suc i) xs) (\<lambda>ys. Inr (x # ys))
        else take_matching f count (Suc i) xs))"

text \<open>The items at none of the indexes\<close>

definition without_indexes :: "int list \<Rightarrow> val list \<Rightarrow> val list" where
  "without_indexes removed xs = map snd (filter (\<lambda>(index, item). int index \<notin> set removed) (indexed xs))"

definition from_end :: "nat \<Rightarrow> int \<Rightarrow> int" where
  "from_end n index = (if index < 0 then index + int n else index)"

definition selectionOperation :: "evaluation \<Rightarrow> val list \<Rightarrow> operation \<Rightarrow> goerr + val list" where
  "selectionOperation ev xs op =
     (let matches = (\<lambda>item index. evaluateItemBool ev op ''expr'' item index); n = length xs; name = op_name op in
      if name = ''drop_while'' then ok_then (matching_prefix matches 0 xs) (\<lambda>k. Inr (drop k xs))
      else if name = ''take_while'' then ok_then (matching_prefix matches 0 xs) (\<lambda>k. Inr (take k xs))
      else if name = ''drop_right_while'' then
        ok_then (matching_prefix (\<lambda>item k. matches item (n - 1 - k)) 0 (rev xs)) (\<lambda>k. Inr (take (n - k) xs))
      else if name = ''take_filter'' then
        ok_then (nat_operand ev op ''count'' 0 ''count must be a non-negative integer'') (\<lambda>count.
          take_matching (\<lambda>item index. evaluateItemBool ev op ''when'' item index) count 0 xs)
      else if name = ''subset'' then
        ok_then (resolveNamedOperand ev op ''offset'') (\<lambda>offset_value.
        ok_then (resolveNamedOperand ev op ''length'') (\<lambda>length_value.
        ok_then (toInt offset_value ''offset'') (\<lambda>offset.
          case toInt length_value ''length'' of
            Inl _ \<Rightarrow> Inl (Err ''length must be a non-negative integer'')
          | Inr count \<Rightarrow>
              if count < 0 then Inl (Err ''length must be a non-negative integer'')
              else let offset = (if offset < 0 then max 0 (int n + offset) else offset) in
                if offset \<ge> int n then Inr []
                else Inr (drop (nat offset) (if count \<le> int n - offset then take (nat (offset + count)) xs else xs)))))
      else if name = ''slice'' then
        ok_then (resolveNamedOperand ev op ''start'') (\<lambda>start_value.
        ok_then (resolveNamedOperand ev op ''end'') (\<lambda>end_value.
        ok_then (toInt start_value ''start'') (\<lambda>start.
        ok_then (toInt end_value ''end'') (\<lambda>finish.
          let start = max 0 (min start (int n)); finish = max 0 (min finish (int n)) in
          if start \<ge> finish then Inr [] else Inr (drop (nat start) (take (nat finish) xs))))))
      else if name = ''drop_by_index'' then
        ok_then (resolveNamedOperand ev op ''value'') (\<lambda>v.
        ok_then (integerList v ''indexes'') (\<lambda>indexes. Inr (without_indexes (map (from_end n) indexes) xs)))
      else ok_then (nat_operand ev op ''value'' 0 (name @ '' must be a non-negative integer'')) (\<lambda>count.
        if name = ''take'' then Inr (take count xs)
        else if name = ''drop'' then Inr (drop count xs)
        else Inr (take (n - count) xs)))"

subsection \<open>Orderings\<close>

text \<open>A new item moves left past the greater ones; the sorted part is kept in reverse.\<close>

fun place :: "('a \<Rightarrow> 'a \<Rightarrow> bool) \<Rightarrow> 'a \<Rightarrow> 'a list \<Rightarrow> 'a list" where
  "place before x [] = [x]"
| "place before x (y # ys) = (if before x y then y # place before x ys else x # y # ys)"

definition SliceStable :: "('a \<Rightarrow> 'a \<Rightarrow> bool) \<Rightarrow> 'a list \<Rightarrow> 'a list" where
  "SliceStable before xs = rev (fold (place before) xs [])"

text \<open>A comparison whose error is dropped\<close>

definition compared :: "val \<Rightarrow> val \<Rightarrow> int" where
  "compared l r = (case compareValues l r of Inr c \<Rightarrow> c | Inl _ \<Rightarrow> 0)"

definition validateComparableValues :: "val list \<Rightarrow> goerr + unit" where
  "validateComparableValues vs = (case vs of
     [] \<Rightarrow> Inr ()
   | [v] \<Rightarrow> map_sum id (\<lambda>_. ()) (compareValues v v)
   | v # rest \<Rightarrow> map_sum id (\<lambda>_. ()) (traverse (\<lambda>index w. label_error (item_label index) (compareValues v w)) 1 rest))"

definition sort_keys :: "evaluation \<Rightarrow> val list \<Rightarrow> operation \<Rightarrow> string \<Rightarrow> goerr + val list" where
  "sort_keys ev xs op by_name =
     ok_then (if op_name op = by_name then traverse (\<lambda>index item. evaluateItem ev op ''expr'' item index) 0 xs else Inr xs) (\<lambda>keys.
     ok_then (validateComparableValues keys) (\<lambda>_. Inr keys))"

fun ascending :: "val list \<Rightarrow> bool" where
  "ascending (v # w # vs) = (compared v w \<le> 0 \<and> ascending (w # vs))"
| "ascending _ = True"

definition pick_extreme :: "evaluation \<Rightarrow> operation \<Rightarrow> val list \<Rightarrow> val \<Rightarrow> nat \<Rightarrow> nat \<Rightarrow> goerr + nat" where
  "pick_extreme ev op xs item index selected =
     (let by = op_name op \<in> {''min_by'', ''min_index_by'', ''max_by'', ''max_index_by''};
          maximum = op_name op \<in> {''max'', ''max_by'', ''max_index'', ''max_index_by''} in
      ok_then (if by then
          ok_then (label_error (item_label index) (evaluate_compiled ev (fmlookup (op_expressions op) ''expr'')
              (fmap_of_list [(''left'', item), (''right'', xs ! selected)])))
            (\<lambda>v. boolValue v ''expr'')
        else ok_then (label_error (item_label index) (compareValues item (xs ! selected))) (\<lambda>c.
            Inr (\<not> maximum \<and> c < 0 \<or> maximum \<and> c > 0))) (\<lambda>better.
      ok_then (checkContext ev) (\<lambda>_. Inr (if better then index else selected))))"

definition minMaxOperation :: "evaluation \<Rightarrow> val list \<Rightarrow> operation \<Rightarrow> goerr + val" where
  "minMaxOperation ev xs op =
     (let with_index = op_name op \<in> {''min_index'', ''min_index_by'', ''max_index'', ''max_index_by''};
          result = (\<lambda>v index. if with_index then vmap_of [(''value'', v), (''index'', VInt index)] else v) in
      if xs = [] then Inr (result VNil (-1))
      else ok_then (fold_items (pick_extreme ev op xs) 1 (tl xs) 0) (\<lambda>selected. Inr (result (xs ! selected) (int selected))))"

definition orderingOperation :: "evaluation \<Rightarrow> val list \<Rightarrow> operation \<Rightarrow> goerr + val" where
  "orderingOperation ev xs op =
     (if op_name op \<in> {''sort'', ''sort_by''} then
        ok_then (sort_keys ev xs op ''sort_by'') (\<lambda>keys.
          let before = (if op_argument op = VStr ''desc'' then (\<lambda>l r. compared (snd l) (snd r) > 0)
                      else (\<lambda>l r. compared (snd l) (snd r) < 0))
          in Inr (VList (map fst (SliceStable before (zip xs keys)))))
      else if op_name op \<in> {''is_sorted'', ''is_sorted_by''} then
        ok_then (sort_keys ev xs op ''is_sorted_by'') (\<lambda>keys. Inr (VBool (ascending keys)))
      else minMaxOperation ev xs op)"

subsection \<open>Aggregations\<close>

text \<open>Items from the last to the first, with their indexes\<close>

definition fold_right_items :: "('a \<Rightarrow> nat \<Rightarrow> 's \<Rightarrow> goerr + 's) \<Rightarrow> 'a list \<Rightarrow> 's \<Rightarrow> goerr + 's" where
  "fold_right_items f xs = fold_items (\<lambda>x k. f x (length xs - 1 - k)) 0 (rev xs)"

definition reduce_item :: "evaluation \<Rightarrow> operation \<Rightarrow> val \<Rightarrow> nat \<Rightarrow> val \<Rightarrow> goerr + val" where
  "reduce_item ev op item index acc = ok_then (checkContext ev) (\<lambda>_.
     label_error (item_label index) (evaluate_compiled ev (fmlookup (op_expressions op) ''expr'')
       (fmap_of_list [(''acc'', acc), (''item'', item), (''index'', VInt (int index))])))"

definition number_mode :: "val \<Rightarrow> nat \<Rightarrow> bool \<Rightarrow> goerr + bool" where
  "number_mode v index mode = (case numberValue v of
     None \<Rightarrow> Inl (Err (item_label index @ '' must be numeric, got '' @ go_type v))
   | Some (_, integer) \<Rightarrow>
       if index > 0 \<and> integer \<noteq> mode then Inl (Err (item_label index @ '' mixes integer and floating-point values''))
       else Inr integer)"

text \<open>A float result that is no longer finite stays so.\<close>

definition float_step :: "(rat \<Rightarrow> rat \<Rightarrow> rat) \<Rightarrow> rat \<Rightarrow> go_float \<Rightarrow> go_float" where
  "float_step f q acc = (case acc of Finite a \<Rightarrow> round64 (f a q) | other \<Rightarrow> other)"

definition float_value :: "val \<Rightarrow> rat" where
  "float_value v = (case numberValue v of Some (q, _) \<Rightarrow> q | None \<Rightarrow> 0)"

definition int_value :: "val \<Rightarrow> int" where
  "int_value v = (case integerValue v of Some i \<Rightarrow> i | None \<Rightarrow> 0)"

definition numericAggregate :: "evaluation \<Rightarrow> val list \<Rightarrow> operation \<Rightarrow> goerr + val" where
  "numericAggregate ev xs op =
     ok_then (if op_name op \<in> {''sum_by'', ''product_by'', ''mean_by''}
              then traverse (\<lambda>index item. evaluateItem ev op ''expr'' item index) 0 xs else Inr xs) (\<lambda>vs.
     ok_then (fold_items number_mode 0 vs True) (\<lambda>integer_mode.
       let product = op_name op \<in> {''product'', ''product_by''};
           mean = op_name op \<in> {''mean'', ''mean_by''} \<and> vs \<noteq> [] in
       if integer_mode then
         (let result = fold (\<lambda>v acc. wrap64 (if product then acc * int_value v else acc + int_value v)) vs (if product then 1 else 0)
          in Inr (VInt (if mean then result sdiv int (length vs) else result)))
       else
         (let result = fold (\<lambda>v. float_step (if product then (*) else (+)) (float_value v)) vs (Finite (if product then 1 else 0));
              result = (if mean then float_step (/) (float_of_int (int (length vs))) result else result)
          in case result of Finite q \<Rightarrow> Inr (VFloat q) | _ \<Rightarrow> Inl (Err ''numeric result is not finite''))))"

text \<open>numericMode: the counts, the largest of them and the items that reached it\<close>

definition mode_item :: "json \<Rightarrow> val \<Rightarrow> nat \<Rightarrow> (nat gomap \<times> nat \<times> val list) \<times> bool \<Rightarrow> goerr + (nat gomap \<times> nat \<times> val list) \<times> bool" where
  "mode_item j item index st = (case st of ((counts, maximum, result), mode) \<Rightarrow>
     ok_then (number_mode item index mode) (\<lambda>mode.
       let key = (case structuralKey j item of Inr key \<Rightarrow> key | Inl _ \<Rightarrow> []);
           n = Suc (case fmlookup counts key of Some n \<Rightarrow> n | None \<Rightarrow> 0)
       in Inr ((fmupd key n counts,
            (if n > maximum then (n, [item]) else (maximum, if n = maximum then result @ [item] else result))), mode)))"

definition numericMode :: "json \<Rightarrow> val list \<Rightarrow> goerr + val list" where
  "numericMode j xs = ok_then (fold_items (mode_item j) 0 xs ((fmempty, 0, []), True)) (\<lambda>((_, _, result), _). Inr result)"

definition count_value :: "evaluation \<Rightarrow> operation \<Rightarrow> val \<Rightarrow> nat \<Rightarrow> vmap \<Rightarrow> goerr + vmap" where
  "count_value ev op item index counts =
     ok_then (if op_name op = ''count_values_by'' then evaluateItem ev op ''expr'' item index else Inr item) (\<lambda>key_value.
     ok_then (stringKey key_value (item_label index)) (\<lambda>key.
       Inr (fmupd key (VInt ((case fmlookup counts key of Some (VInt n) \<Rightarrow> n | _ \<Rightarrow> 0) + 1)) counts)))"

definition aggregationOperation :: "evaluation \<Rightarrow> val list \<Rightarrow> operation \<Rightarrow> goerr + val" where
  "aggregationOperation ev xs op =
     (if op_name op = ''reduce'' then
        ok_then (resolveNamedOperand ev op ''initial'') (fold_items (reduce_item ev op) 0 xs)
      else if op_name op = ''reduce_right'' then
        ok_then (resolveNamedOperand ev op ''initial'') (fold_right_items (reduce_item ev op) xs)
      else if op_name op = ''count'' then
        ok_then (resolveNamedOperand ev op ''value'') (\<lambda>wanted.
        ok_then (structuralKey (ev_json ev) wanted) (\<lambda>key.
        ok_then (traverse (\<lambda>_. matches_key (ev_json ev) key) 0 xs) (\<lambda>bs. Inr (VInt (int (length (filter id bs)))))))
      else if op_name op = ''count_by'' then
        ok_then (traverse (\<lambda>index item. evaluateItemBool ev op ''expr'' item index) 0 xs) (\<lambda>bs.
          Inr (VInt (int (length (filter id bs)))))
      else if op_name op \<in> {''count_values'', ''count_values_by''} then
        ok_then (fold_items (count_value ev op) 0 xs fmempty) (\<lambda>m. Inr (VMap m))
      else if op_name op = ''mode'' then ok_then (numericMode (ev_json ev) xs) (\<lambda>vs. Inr (VList vs))
      else numericAggregate ev xs op)"

end
