(* ===== verification/TransformObjects.thy ===== *)
theory TransformObjects
  imports TransformLists
begin

text \<open>
  The rest of the operations of a transform step: structure, sets, search and tuples over lists
  (list_structure.go, list_set.go, list_search.go, tuple_ops.go), the operations on objects
  (object_ops.go), and the dispatch of an operation (runListOperation, runOperation).
\<close>

subsection \<open>Structure\<close>

fun replace_items :: "json \<Rightarrow> string \<Rightarrow> val \<Rightarrow> int \<Rightarrow> nat \<Rightarrow> val list \<Rightarrow> goerr + val list" where
  "replace_items j old new remaining i [] = Inr []"
| "replace_items j old new remaining i (x # xs) =
     (if remaining = 0 then Inr (x # xs)
      else ok_then (label_error (item_label i) (matches_key j old x)) (\<lambda>equal.
        ok_then (replace_items j old new (if equal then remaining - 1 else remaining) (Suc i) xs) (\<lambda>ys.
          Inr ((if equal then new else x) # ys))))"

fun equal_lists :: "json \<Rightarrow> val list \<Rightarrow> val list \<Rightarrow> goerr + bool" where
  "equal_lists j (x # xs) (y # ys) = ok_then (equalValues j x y) (\<lambda>equal. if equal then equal_lists j xs ys else Inr False)"
| "equal_lists j _ _ = Inr True"

definition listPrefixSuffix :: "json \<Rightarrow> val list \<Rightarrow> val list \<Rightarrow> bool \<Rightarrow> goerr + bool" where
  "listPrefixSuffix j xs part suffix =
     (if length part > length xs then Inr False
      else equal_lists j (drop (if suffix then length xs - length part else 0) xs) part)"

text \<open>The list without the part at one end\<close>

definition cut_part :: "bool \<Rightarrow> val list \<Rightarrow> val list \<Rightarrow> val list" where
  "cut_part suffix part xs = (if suffix then take (length xs - length part) xs else drop (length part) xs)"

function trim_parts :: "json \<Rightarrow> bool \<Rightarrow> val list \<Rightarrow> val list \<Rightarrow> goerr + val list" where
  "trim_parts j suffix part xs =
     (if part = [] then Inr xs
      else case listPrefixSuffix j xs part suffix of
          Inl e \<Rightarrow> Inl e
        | Inr matches \<Rightarrow> if matches \<and> length part \<le> length xs then trim_parts j suffix part (cut_part suffix part xs) else Inr xs)"
  by auto
termination
  by (relation "measure (\<lambda>(_, _, _, xs). length xs)") (auto simp: cut_part_def simp flip: length_greater_0_conv)

declare trim_parts.simps [simp del]

definition trimCutset :: "json \<Rightarrow> val list \<Rightarrow> val list \<Rightarrow> string \<Rightarrow> goerr + val list" where
  "trimCutset j xs cutset name = ok_then (label_error ''cutset'' (newValueMatcherSet j cutset)) (\<lambda>keys.
     let inside = (\<lambda>item _. ok_then (structuralKey j item) (\<lambda>key. Inr (key |\<in>| keys))) in
     ok_then (if name \<noteq> ''trim_right'' then ok_then (matching_prefix inside 0 xs) (\<lambda>k. Inr (drop k xs)) else Inr xs) (\<lambda>xs.
       if name \<noteq> ''trim_left'' then ok_then (matching_prefix inside 0 (rev xs)) (\<lambda>k. Inr (take (length xs - k) xs)) else Inr xs))"

fun part_position :: "string list \<Rightarrow> string list \<Rightarrow> nat option" where
  "part_position sep keys =
     (if length sep > length keys then None
      else if take (length sep) keys = sep then Some 0
      else case keys of [] \<Rightarrow> None | _ # rest \<Rightarrow> map_option Suc (part_position sep rest))"

declare part_position.simps [simp del]

definition cut_result :: "val list \<Rightarrow> val list \<Rightarrow> bool \<Rightarrow> val" where
  "cut_result front back found = vmap_of [(''before'', VList front), (''after'', VList back), (''found'', VBool found)]"

definition cutList :: "json \<Rightarrow> val list \<Rightarrow> val list \<Rightarrow> goerr + val" where
  "cutList j xs separator =
     (if separator = [] then Inr (cut_result [] xs True)
      else ok_then (structuralKeys j xs) (\<lambda>keys.
        ok_then (label_error ''separator'' (structuralKeys j separator)) (\<lambda>separator_keys.
          Inr (case part_position separator_keys keys of
              Some start \<Rightarrow> cut_result (take start xs) (drop (start + length separator) xs) True
            | None \<Rightarrow> cut_result xs [] False))))"

definition structureOperation :: "evaluation \<Rightarrow> val list \<Rightarrow> operation \<Rightarrow> goerr + val" where
  "structureOperation ev xs op =
     (let name = op_name op; j = ev_json ev in
      if name = ''clone'' then Inr (VList xs)
      else if name = ''compact'' then Inr (VList (filter (\<lambda>item. \<not> zeroValue item) xs))
      else if name \<in> {''replace'', ''replace_all''} then
        ok_then (resolveNamedOperand ev op ''old'') (\<lambda>old.
        ok_then (resolveNamedOperand ev op ''new'') (\<lambda>new.
        ok_then (if name = ''replace'' then int_operand ev op ''count'' ''count'' else Inr (-1)) (\<lambda>remaining.
        ok_then (structuralKey j old) (\<lambda>key.
        ok_then (replace_items j key new remaining 0 xs) (\<lambda>ys. Inr (VList ys))))))
      else if name = ''splice'' then
        ok_then (int_operand ev op ''index'' ''index'') (\<lambda>index.
        ok_then (list_operand ev op ''elements'') (\<lambda>elements.
          let at = nat (max 0 (min (from_end (length xs) index) (int (length xs)))) in
          Inr (VList (take at xs @ elements @ drop at xs))))
      else if name \<in> {''trim'', ''trim_left'', ''trim_right''} then
        ok_then (list_operand ev op ''cutset'') (\<lambda>cutset. ok_then (trimCutset j xs cutset name) (\<lambda>ys. Inr (VList ys)))
      else if name \<in> {''trim_prefix'', ''trim_suffix''} then
        ok_then (list_operand ev op (if name = ''trim_suffix'' then ''suffix'' else ''prefix'')) (\<lambda>part.
        ok_then (trim_parts j (name = ''trim_suffix'') part xs) (\<lambda>ys. Inr (VList ys)))
      else if name = ''cut'' then ok_then (list_operand ev op ''separator'') (cutList j xs)
      else if name \<in> {''cut_prefix'', ''cut_suffix''} then
        (let suffix = (name = ''cut_suffix'') in
         ok_then (list_operand ev op (if suffix then ''suffix'' else ''prefix'')) (\<lambda>part.
         ok_then (listPrefixSuffix j xs part suffix) (\<lambda>matches.
           Inr (vmap_of [(''value'', VList (if matches then cut_part suffix part xs else xs)), (''found'', VBool matches)]))))
      else Inl (Err ''structure operation is not implemented''))"

subsection \<open>Sets\<close>

definition key_set :: "json \<Rightarrow> val list \<Rightarrow> goerr + string fset" where
  "key_set j vs = ok_then (traverse (\<lambda>_. structuralKey j) 0 vs) (\<lambda>keys. Inr (fset_of_list keys))"

text \<open>The value an operation compares an item by\<close>

definition compared_by :: "evaluation \<Rightarrow> operation \<Rightarrow> string \<Rightarrow> nat \<Rightarrow> val \<Rightarrow> goerr + val" where
  "compared_by ev op by_name index item = (if op_name op = by_name then evaluateItem ev op ''by'' item index else Inr item)"

definition intersect_item :: "evaluation \<Rightarrow> operation \<Rightarrow> string fset list \<Rightarrow> val \<Rightarrow> nat \<Rightarrow> string fset \<times> val list \<Rightarrow> goerr + string fset \<times> val list" where
  "intersect_item ev op key_lists item index st =
     ok_then (compared_by ev op ''intersect_by'' index item) (\<lambda>key_value.
     ok_then (structuralKey (ev_json ev) key_value) (\<lambda>key.
       Inr (if key |\<in>| fst st \<or> \<not> list_all (\<lambda>keys. key |\<in>| keys) key_lists then st
            else (finsert key (fst st), snd st @ [item]))))"

definition intersectLists :: "evaluation \<Rightarrow> val list \<Rightarrow> operation \<Rightarrow> goerr + val list" where
  "intersectLists ev first op = ok_then (resolveListOperands ev op) (\<lambda>others.
     ok_then (traverse (\<lambda>list_index items.
         ok_then (traverse (\<lambda>index item.
             ok_then (if op_name op = ''intersect_by''
                then label_error (''with list '' @ nat_text (Suc list_index)) (evaluateItem ev op ''by'' item index) else Inr item)
               (structuralKey (ev_json ev))) 0 items)
           (\<lambda>keys. Inr (fset_of_list keys))) 0 others) (\<lambda>key_lists.
     ok_then (fold_items (intersect_item ev op key_lists) 0 first ({||}, [])) (\<lambda>st. Inr (snd st))))"

fun listDifference :: "json \<Rightarrow> string fset \<Rightarrow> val list \<Rightarrow> goerr + val list" where
  "listDifference j excluded [] = Inr []"
| "listDifference j excluded (x # xs) = ok_then (structuralKey j x) (\<lambda>key.
     ok_then (listDifference j excluded xs) (\<lambda>ys. Inr (if key |\<in>| excluded then ys else x # ys)))"

definition withoutValues :: "evaluation \<Rightarrow> val list \<Rightarrow> val list \<Rightarrow> operation \<Rightarrow> goerr + val list" where
  "withoutValues ev xs excluded op = ok_then (key_set (ev_json ev) excluded) (\<lambda>keys.
     gather (\<lambda>item index.
       ok_then (compared_by ev op ''without_by'' index item) (\<lambda>key_value.
       ok_then (structuralKey (ev_json ev) key_value) (\<lambda>key. Inr (if key |\<in>| keys then [] else [item])))) 0 xs)"

definition listContains :: "json \<Rightarrow> val list \<Rightarrow> val \<Rightarrow> goerr + bool" where
  "listContains j xs wanted = ok_then (structuralKey j wanted) (\<lambda>key.
     ok_then (first_answer (\<lambda>item. ok_then (matches_key j key item) (\<lambda>equal. Inr (if equal then Some True else None))) xs) (\<lambda>r.
       Inr (r = Some True)))"

text \<open>What an item settles of the question, and the answer when none does\<close>

definition quantifier_answer :: "evaluation \<Rightarrow> operation \<Rightarrow> nat \<times> val \<Rightarrow> goerr + bool option" where
  "quantifier_answer ev op entry = ok_then (evaluateItemBool ev op ''expr'' (snd entry) (fst entry)) (\<lambda>matches.
     Inr (if matches then
            (if op_name op \<in> {''contains_by'', ''some_by''} then Some True
             else if op_name op = ''none_by'' then Some False else None)
          else if op_name op = ''every_by'' then Some False else None))"

definition predicateQuantifier :: "evaluation \<Rightarrow> val list \<Rightarrow> operation \<Rightarrow> goerr + bool" where
  "predicateQuantifier ev xs op = ok_then (first_answer (quantifier_answer ev op) (indexed xs)) (\<lambda>r.
     Inr (case r of Some b \<Rightarrow> b | None \<Rightarrow> op_name op \<in> {''every_by'', ''none_by''}))"

definition count_keys :: "evaluation \<Rightarrow> operation \<Rightarrow> val list \<Rightarrow> goerr + string list" where
  "count_keys ev op xs = traverse (\<lambda>index item.
     ok_then (compared_by ev op ''elements_match_by'' index item) (structuralKey (ev_json ev))) 0 xs"

text \<open>The counts of the keys of the two lists agree.\<close>

definition elementsMatch :: "evaluation \<Rightarrow> val list \<Rightarrow> val list \<Rightarrow> operation \<Rightarrow> goerr + bool" where
  "elementsMatch ev left right op =
     (if length left \<noteq> length right then Inr False
      else ok_then (count_keys ev op left) (\<lambda>ls. ok_then (count_keys ev op right) (\<lambda>rs.
        Inr (list_all (\<lambda>key. count_list ls key = count_list rs key) (ls @ rs)))))"

definition setOperation :: "evaluation \<Rightarrow> val list \<Rightarrow> operation \<Rightarrow> goerr + val" where
  "setOperation ev xs op =
     (let name = op_name op; j = ev_json ev in
      if name = ''union'' then ok_then (appendLists ev xs op True) (\<lambda>ys. Inr (VList ys))
      else if name \<in> {''intersect'', ''intersect_by''} then ok_then (intersectLists ev xs op) (\<lambda>ys. Inr (VList ys))
      else if name = ''difference'' then
        ok_then (list_operand ev op ''with'') (\<lambda>other.
        ok_then (ok_then (key_set j other) (\<lambda>keys. listDifference j keys xs)) (\<lambda>left.
        ok_then (ok_then (key_set j xs) (\<lambda>keys. listDifference j keys other)) (\<lambda>right.
          Inr (vmap_of [(''left'', VList left), (''right'', VList right)]))))
      else if name \<in> {''without'', ''without_by''} then
        ok_then (list_operand ev op ''values'') (\<lambda>excluded. ok_then (withoutValues ev xs excluded op) (\<lambda>ys. Inr (VList ys)))
      else if name = ''without_nth'' then
        ok_then (resolveNamedOperand ev op ''value'') (\<lambda>v.
        ok_then (integerList v ''indexes'') (\<lambda>indexes. Inr (VList (without_indexes indexes xs))))
      else if name = ''contains'' then
        ok_then (resolveNamedOperand ev op ''value'') (\<lambda>wanted. ok_then (listContains j xs wanted) (\<lambda>b. Inr (VBool b)))
      else if name \<in> {''contains_by'', ''every_by'', ''some_by'', ''none_by''} then
        ok_then (predicateQuantifier ev xs op) (\<lambda>b. Inr (VBool b))
      else if name \<in> {''every'', ''some'', ''none''} then
        ok_then (resolveNamedOperand ev op ''value'') (\<lambda>v.
        ok_then (label_error (name @ '' operand'') (toList v)) (\<lambda>subset.
        ok_then (newValueMatcherSet j xs) (\<lambda>list_keys.
        ok_then (traverse (\<lambda>index candidate. label_error (name @ '' operand item '' @ nat_text index) (structuralKey j candidate)) 0 subset) (\<lambda>keys.
          let matches = length (filter (\<lambda>key. key |\<in>| list_keys) keys) in
          Inr (VBool (if name = ''every'' then matches = length subset else if name = ''some'' then matches > 0 else matches = 0))))))
      else if name \<in> {''elements_match'', ''elements_match_by''} then
        ok_then (list_operand ev op ''with'') (\<lambda>other. ok_then (elementsMatch ev xs other op) (\<lambda>b. Inr (VBool b)))
      else Inl (Err ''set operation is not implemented''))"

subsection \<open>Search\<close>

definition found_record :: "bool \<Rightarrow> val \<Rightarrow> int \<Rightarrow> bool \<Rightarrow> val" where
  "found_record with_index v index found =
     vmap_of ([(''value'', v), (''found'', VBool found)] @ (if with_index then [(''index'', VInt index)] else []))"

text \<open>The first index of an item that satisfies the test, in the order given\<close>

definition search_items :: "(val \<Rightarrow> nat \<Rightarrow> goerr + bool) \<Rightarrow> (nat \<times> val) list \<Rightarrow> goerr + (nat \<times> val) option" where
  "search_items f = first_answer (\<lambda>(index, item). ok_then (f item index) (\<lambda>b. Inr (if b then Some (index, item) else None)))"

definition first_or_last :: "string list \<Rightarrow> operation \<Rightarrow> val list \<Rightarrow> val" where
  "first_or_last from_last op xs = (if op_name op \<in> set from_last then last xs else hd xs)"

definition searchOperation :: "evaluation \<Rightarrow> val list \<Rightarrow> operation \<Rightarrow> goerr + val" where
  "searchOperation ev xs op =
     (let name = op_name op; j = ev_json ev in
      if name \<in> {''index_of'', ''last_index_of''} then
        ok_then (resolveNamedOperand ev op ''value'') (\<lambda>wanted.
        ok_then (structuralKey j wanted) (\<lambda>key.
        ok_then (search_items (\<lambda>item _. matches_key j key item)
            (if name = ''last_index_of'' then rev (indexed xs) else indexed xs)) (\<lambda>r.
          Inr (VInt (case r of Some (index, _) \<Rightarrow> int index | None \<Rightarrow> -1)))))
      else if name \<in> {''has_prefix'', ''has_suffix''} then
        ok_then (list_operand ev op (if name = ''has_suffix'' then ''suffix'' else ''prefix'')) (\<lambda>part.
        ok_then (listPrefixSuffix j xs part (name = ''has_suffix'')) (\<lambda>b. Inr (VBool b)))
      else if name \<in> {''find'', ''find_index'', ''find_last_index''} then
        ok_then (search_items (\<lambda>item index. evaluateItemBool ev op ''expr'' item index)
            (if name = ''find_last_index'' then rev (indexed xs) else indexed xs)) (\<lambda>r.
          Inr (case r of Some (index, item) \<Rightarrow> found_record (name \<noteq> ''find'') item (int index) True
             | None \<Rightarrow> found_record (name \<noteq> ''find'') VNil (-1) False))
      else if name = ''find_or_else'' then
        ok_then (search_items (\<lambda>item index. evaluateItemBool ev op ''when'' item index) (indexed xs)) (\<lambda>r.
          case r of Some (_, item) \<Rightarrow> Inr item | None \<Rightarrow> resolveNamedOperand ev op ''fallback'')
      else if name \<in> {''first'', ''last''} then
        Inr (if xs = [] then found_record False VNil 0 False else found_record False (first_or_last [''last''] op xs) 0 True)
      else if name \<in> {''first_or_empty'', ''last_or_empty''} then
        Inr (if xs = [] then VNil else first_or_last [''last_or_empty''] op xs)
      else if name \<in> {''first_or'', ''last_or''} then
        (if xs = [] then resolveNamedOperand ev op ''value'' else Inr (first_or_last [''last_or''] op xs))
      else if name \<in> {''nth'', ''nth_or'', ''nth_or_empty''} then
        ok_then (int_operand ev op (if name = ''nth_or'' then ''nth'' else ''value'') ''nth'') (\<lambda>index.
          let index = from_end (length xs) index in
          if 0 \<le> index \<and> index < int (length xs) then Inr (xs ! nat index)
          else if name = ''nth_or'' then resolveNamedOperand ev op ''fallback''
          else if name = ''nth_or_empty'' then Inr VNil
          else Inl (Err ''nth index is out of bounds''))
      else Inl (Err ''search operation is not implemented''))"

subsection \<open>Tuples\<close>

definition zipLists :: "val list list \<Rightarrow> val list list" where
  "zipLists rows = map (\<lambda>index. map (\<lambda>items. if index < length items then items ! index else VNil) rows)
     [0 ..< fold max (map length rows) 0]"

text \<open>The rows built so far, with the check that their number does not leave 64 bits\<close>

fun join_rows :: "evaluation \<Rightarrow> val list list \<Rightarrow> val list list \<Rightarrow> goerr + val list list" where
  "join_rows ev result [] = Inr result"
| "join_rows ev result (items # rest) =
     (let total = wrap64 (int (length result) * int (length items)) in
      if total sdiv int (length items) \<noteq> int (length result) then Inl (Err ''cross join result is too large'')
      else ok_then (checkContext ev) (\<lambda>_.
        join_rows ev (concat (map (\<lambda>prefix. map (\<lambda>item. prefix @ [item]) items) result)) rest))"

definition crossJoinLists :: "evaluation \<Rightarrow> val list list \<Rightarrow> goerr + val list list" where
  "crossJoinLists ev rows = (if [] \<in> set rows then Inr [] else join_rows ev [[]] rows)"

definition tuple_arity :: goerr where
  "tuple_arity = Err ''tuple arity must be between 2 and 9''"

definition unzipRows :: "val list list \<Rightarrow> goerr + val list" where
  "unzipRows rows = (case rows of
     [] \<Rightarrow> Inr []
   | row # _ \<Rightarrow>
       (let width = length row in
        if width < 2 \<or> width > 9 then Inl tuple_arity
        else ok_then (traverse (\<lambda>index r.
            if length r = width then Inr ()
            else Inl (Err (item_label index @ '' has tuple width '' @ nat_text (length r) @ ''; expected '' @ nat_text width))) 0 rows)
          (\<lambda>_. Inr (map (\<lambda>column. VList (map (\<lambda>r. r ! column) rows)) [0 ..< width]))))"

definition tupleOperation :: "evaluation \<Rightarrow> val list \<Rightarrow> operation \<Rightarrow> goerr + val list" where
  "tupleOperation ev xs op =
     (let name = op_name op in
      if name \<in> {''unzip'', ''unzip_with''} then
        ok_then (traverse (\<lambda>index item.
            ok_then (if name = ''unzip_with'' then evaluateItem ev op ''expr'' item index else Inr item) (\<lambda>v.
              label_error (item_label index @ '' must be a tuple list'') (toList v))) 0 xs) unzipRows
      else ok_then (resolveListOperands ev op) (\<lambda>others.
        let rows = xs # others in
        if length rows < 2 \<or> length rows > 9 then Inl tuple_arity
        else ok_then (if name \<in> {''zip'', ''zip_with''} then Inr (zipLists rows) else crossJoinLists ev rows) (\<lambda>rows.
          if name \<in> {''zip'', ''cross_join''} then Inr (map VList rows)
          else traverse (\<lambda>index row. ok_then (checkContext ev) (\<lambda>_.
              label_error (''tuple '' @ nat_text index) (evaluate_compiled ev (fmlookup (op_expressions op) ''expr'')
                (fmap_of_list [(''items'', VList row), (''index'', VInt (int index))])))) 0 rows)))"

subsection \<open>Objects\<close>

definition fromEntries :: "val list \<Rightarrow> goerr + vmap" where
  "fromEntries xs = fold_items (\<lambda>item index result.
     ok_then (label_error (item_label index @ '': expected {key, value}'') (toObject item)) (\<lambda>entry.
       if fcard (fmdom entry) \<noteq> 2 then Inl (Err (item_label index @ '' must contain exactly key and value''))
       else ok_then (stringKey (entry_of entry ''key'') (item_label index @ '' key'')) (\<lambda>key.
         case fmlookup entry ''value'' of
           None \<Rightarrow> Inl (Err (item_label index @ '' is missing value''))
         | Some v \<Rightarrow> Inr (fmupd key v result)))) 0 xs fmempty"

definition evaluateObject :: "evaluation \<Rightarrow> operation \<Rightarrow> string \<Rightarrow> string \<Rightarrow> val \<Rightarrow> nat \<Rightarrow> goerr + val" where
  "evaluateObject ev op field key v index = ok_then (checkContext ev) (\<lambda>_.
     label_error (''key '' @ go_quote key @ '' at index '' @ nat_text index)
       (evaluate_compiled ev (fmlookup (op_expressions op) field)
         (fmap_of_list [(''key'', VStr key), (''value'', v), (''index'', VInt (int index))])))"

definition evaluateObjectBool :: "evaluation \<Rightarrow> operation \<Rightarrow> string \<Rightarrow> string \<Rightarrow> val \<Rightarrow> nat \<Rightarrow> goerr + bool" where
  "evaluateObjectBool ev op field key v index = ok_then (evaluateObject ev op field key v index) (\<lambda>r. boolValue r field)"

definition objectOperands :: "evaluation \<Rightarrow> vmap \<Rightarrow> operation \<Rightarrow> goerr + vmap list" where
  "objectOperands ev first op = (if op_operand_list op = [] then Inr [first]
     else ok_then (resolveOperandList ev op) (\<lambda>vs.
       ok_then (traverse (\<lambda>index v. label_error (with_label index) (toObject v)) 0 vs) (\<lambda>others. Inr (first # others))))"

definition stringList :: "val \<Rightarrow> string \<Rightarrow> goerr + string list" where
  "stringList v label = (case toList v of
     Inl _ \<Rightarrow> Inl (Err (label @ '' must be a list of strings''))
   | Inr vs \<Rightarrow> traverse (\<lambda>index v. stringKey v (label @ ''['' @ nat_text index @ '']'')) 0 vs)"

text \<open>The entries whose key and value pass a test, in the order of the keys\<close>

definition select_entries :: "(string \<Rightarrow> val \<Rightarrow> nat \<Rightarrow> goerr + bool) \<Rightarrow> vmap \<Rightarrow> goerr + vmap" where
  "select_entries f object = fold_items (\<lambda>(key, v) index result.
     ok_then (f key v index) (\<lambda>b. Inr (if b then fmupd key v result else result))) 0 (sorted_entries object) fmempty"

definition transform_entry :: "evaluation \<Rightarrow> operation \<Rightarrow> string \<times> val \<Rightarrow> nat \<Rightarrow> vmap \<Rightarrow> goerr + vmap" where
  "transform_entry ev op entry index result = (case entry of (key, v) \<Rightarrow>
     ok_then (if op_name op \<in> {''map_keys'', ''map_entries''} then
         ok_then (evaluateObject ev op (if op_name op = ''map_entries'' then ''key'' else ''expr'') key v index)
           (\<lambda>r. stringKey r (''key '' @ go_quote key @ '' expression''))
       else Inr key) (\<lambda>new_key.
     ok_then (if op_name op \<in> {''map_values'', ''map_entries''} then
         evaluateObject ev op (if op_name op = ''map_entries'' then ''value'' else ''expr'') key v index
       else Inr v) (\<lambda>new_value. Inr (fmupd new_key new_value result))))"

definition list_entry :: "evaluation \<Rightarrow> operation \<Rightarrow> string \<times> val \<Rightarrow> nat \<Rightarrow> val list \<Rightarrow> goerr + val list" where
  "list_entry ev op entry index result = (case entry of (key, v) \<Rightarrow>
     if op_name op = ''map_to_list'' then
       ok_then (evaluateObject ev op ''expr'' key v index) (\<lambda>mapped. Inr (result @ [mapped]))
     else if op_name op = ''filter_map_to_list'' then
       ok_then (evaluateObjectBool ev op ''when'' key v index) (\<lambda>matches.
         if \<not> matches then Inr result
         else ok_then (evaluateObject ev op ''value'' key v index) (\<lambda>mapped. Inr (result @ [mapped])))
     else ok_then (evaluateObjectBool ev op ''expr'' key v index) (\<lambda>matches.
       Inr (if matches then result @ [if op_name op = ''filter_keys'' then VStr key else v] else result)))"

function chunk_entries :: "nat \<Rightarrow> (string \<times> val) list \<Rightarrow> val list" where
  "chunk_entries width es = (if es = [] \<or> width = 0 then []
     else VMap (fmap_of_list (take width es)) # chunk_entries width (drop width es))"
  by auto
termination by (relation "measure (\<lambda>(_, es). length es)") auto

declare chunk_entries.simps [simp del]

definition entry_record :: "string \<times> val \<Rightarrow> val" where
  "entry_record entry = vmap_of [(''key'', VStr (fst entry)), (''value'', snd entry)]"

definition key_record :: "string option \<Rightarrow> val" where
  "key_record r = (case r of Some key \<Rightarrow> vmap_of [(''key'', VStr key), (''found'', VBool True)]
     | None \<Rightarrow> vmap_of [(''key'', VStr []), (''found'', VBool False)])"

definition runObjectOperation :: "evaluation \<Rightarrow> vmap \<Rightarrow> operation \<Rightarrow> goerr + val" where
  "runObjectOperation ev object op =
     (let name = op_name op; j = ev_json ev; entries = sorted_entries object;
          test = (\<lambda>key v index. evaluateObjectBool ev op ''expr'' key v index) in
      if name \<in> {''keys'', ''unique_keys''} then
        ok_then (objectOperands ev object op) (\<lambda>objects.
          let keys = concat (map sorted_keys objects) in
          Inr (VList (map VStr (if name = ''unique_keys'' then rev (remdups (rev keys)) else keys))))
      else if name \<in> {''values'', ''unique_values''} then
        ok_then (objectOperands ev object op) (\<lambda>objects.
          let vs = concat (map (\<lambda>m. map snd (sorted_entries m)) objects) in
          if name = ''unique_values'' then ok_then (uniqueValues j vs) (\<lambda>ys. Inr (VList ys)) else Inr (VList vs))
      else if name = ''has_key'' then
        ok_then (resolveNamedOperand ev op ''value'') (\<lambda>v. ok_then (stringKey v ''key'') (\<lambda>key. Inr (VBool (key |\<in>| fmdom object))))
      else if name = ''value_or'' then
        ok_then (resolveNamedOperand ev op ''key'') (\<lambda>v. ok_then (stringKey v ''key'') (\<lambda>key.
          case fmlookup object key of Some v \<Rightarrow> Inr v | None \<Rightarrow> resolveNamedOperand ev op ''fallback''))
      else if name = ''find_key'' then
        ok_then (resolveNamedOperand ev op ''value'') (\<lambda>wanted.
        ok_then (structuralKey j wanted) (\<lambda>wanted_key.
        ok_then (first_answer (\<lambda>(key, v). ok_then (matches_key j wanted_key v) (\<lambda>b. Inr (if b then Some key else None))) entries) (\<lambda>r.
          Inr (key_record r))))
      else if name = ''find_key_by'' then
        ok_then (first_answer (\<lambda>(index, key, v). ok_then (test key v index) (\<lambda>b. Inr (if b then Some key else None))) (indexed entries)) (\<lambda>r.
          Inr (key_record r))
      else if name \<in> {''pick'', ''omit''} then
        ok_then (select_entries (\<lambda>key v index. ok_then (test key v index) (\<lambda>b. Inr (b = (name = ''pick'')))) object) (\<lambda>m. Inr (VMap m))
      else if name \<in> {''pick_keys'', ''omit_keys''} then
        ok_then (resolveNamedOperand ev op ''value'') (\<lambda>v. ok_then (stringList v ''keys'') (\<lambda>selected.
        ok_then (select_entries (\<lambda>key _ _. Inr ((key \<in> set selected) = (name = ''pick_keys''))) object) (\<lambda>m. Inr (VMap m))))
      else if name \<in> {''pick_values'', ''omit_values''} then
        ok_then (resolveNamedOperand ev op ''value'') (\<lambda>v. ok_then (label_error ''values'' (toList v)) (\<lambda>selected.
        ok_then (label_error ''values'' (newValueMatcherSet j selected)) (\<lambda>keys.
        ok_then (select_entries (\<lambda>_ v _. ok_then (structuralKey j v) (\<lambda>key. Inr ((key |\<in>| keys) = (name = ''pick_values'')))) object)
          (\<lambda>m. Inr (VMap m)))))
      else if name = ''entries'' then Inr (VList (map entry_record entries))
      else if name = ''invert'' then
        ok_then (fold_items (\<lambda>(key, v) _ result.
          ok_then (stringKey v (''value for key '' @ go_quote key)) (\<lambda>inverted. Inr (fmupd inverted (VStr key) result))) 0 entries fmempty)
          (\<lambda>m. Inr (VMap m))
      else if name = ''assign'' then
        ok_then (resolveOperandList ev op) (\<lambda>vs.
        ok_then (traverse (\<lambda>index v. label_error (with_label index) (toObject v)) 0 vs) (\<lambda>others.
          Inr (VMap (fold (\<lambda>other result. result ++\<^sub>f other) others object))))
      else if name = ''chunk_entries'' then
        ok_then (nat_operand ev op ''value'' 1 ''size must be a positive integer'') (\<lambda>width. Inr (VList (chunk_entries width entries)))
      else if name \<in> {''map_keys'', ''map_values'', ''map_entries''} then
        ok_then (fold_items (transform_entry ev op) 0 entries fmempty) (\<lambda>m. Inr (VMap m))
      else if name \<in> {''map_to_list'', ''filter_map_to_list'', ''filter_keys'', ''filter_values''} then
        ok_then (fold_items (list_entry ev op) 0 entries []) (\<lambda>ys. Inr (VList ys))
      else Inl (Err ''object operation is not implemented''))"

subsection \<open>Dispatch\<close>

definition list_result :: "goerr + val list \<Rightarrow> goerr + val" where
  "list_result r = map_sum id VList r"

lemma list_result_Inr [simp]: "list_result r = Inr v \<longleftrightarrow> (\<exists>xs. r = Inr xs \<and> v = VList xs)"
  by (cases r) (auto simp: list_result_def)

definition runListOperation :: "lo \<Rightarrow> evaluation \<Rightarrow> val list \<Rightarrow> operation \<Rightarrow> goerr + val" where
  "runListOperation l ev xs op =
     (let name = op_name op in
      if name \<in> {''filter'', ''reject''} then
        list_result (lo_FilterErr l xs (\<lambda>item index. ok_then (evaluateItemBool ev op ''expr'' item index) (\<lambda>matches.
          Inr (if name = ''reject'' then \<not> matches else matches))))
      else if name = ''map'' then list_result (lo_MapErr l xs (\<lambda>item index. evaluateItem ev op ''expr'' item index))
      else if name = ''flat_map'' then
        list_result (lo_FlatMapErr l xs (\<lambda>item index. ok_then (evaluateItem ev op ''expr'' item index) (\<lambda>v.
          label_error (item_label index @ '': expression must return a list'') (toList v))))
      else if name \<in> {''filter_map'', ''reject_map''} then list_result (filterMap ev xs op)
      else if name = ''filter_reject'' then ok_then (filterReject ev xs op) (\<lambda>m. Inr (VMap m))
      else if name \<in> {''unique'', ''unique_by'', ''unique_map'', ''find_uniques'', ''find_uniques_by'', ''find_duplicates'', ''find_duplicates_by''}
        then list_result (uniquenessOperation ev xs op)
      else if name \<in> {''group_by'', ''group_by_map'', ''partition_by'', ''key_by'', ''associate'', ''filter_to_map'', ''keyify''}
        then groupingOperation ev xs op
      else if name \<in> {''chunk'', ''window'', ''sliding'', ''flatten'', ''concat'', ''interleave'', ''fill''}
        then list_result (segmentationOperation ev xs op)
      else if name \<in> {''drop'', ''drop_right'', ''drop_while'', ''drop_right_while'', ''drop_by_index'', ''take'', ''take_while'',
          ''take_filter'', ''subset'', ''slice''}
        then list_result (selectionOperation ev xs op)
      else if name \<in> {''replace'', ''replace_all'', ''clone'', ''compact'', ''splice'', ''trim'', ''trim_left'', ''trim_prefix'', ''trim_right'',
          ''trim_suffix'', ''cut'', ''cut_prefix'', ''cut_suffix''}
        then structureOperation ev xs op
      else if name \<in> {''union'', ''intersect'', ''intersect_by'', ''difference'', ''without'', ''without_by'', ''without_nth'', ''contains'',
          ''contains_by'', ''every'', ''every_by'', ''some'', ''some_by'', ''none'', ''none_by'', ''elements_match'', ''elements_match_by''}
        then setOperation ev xs op
      else if name \<in> {''index_of'', ''last_index_of'', ''has_prefix'', ''has_suffix'', ''find'', ''find_index'', ''find_last_index'', ''find_or_else'',
          ''first'', ''first_or'', ''first_or_empty'', ''last'', ''last_or'', ''last_or_empty'', ''nth'', ''nth_or'', ''nth_or_empty''}
        then searchOperation ev xs op
      else if name \<in> {''min'', ''min_by'', ''min_index'', ''min_index_by'', ''max'', ''max_by'', ''max_index'', ''max_index_by'', ''is_sorted'',
          ''is_sorted_by'', ''sort'', ''sort_by''}
        then orderingOperation ev xs op
      else if name \<in> {''reduce'', ''reduce_right'', ''count'', ''count_by'', ''count_values'', ''count_values_by'', ''sum'', ''sum_by'', ''product'',
          ''product_by'', ''mean'', ''mean_by'', ''mode''}
        then aggregationOperation ev xs op
      else if name \<in> {''zip'', ''zip_with'', ''unzip'', ''unzip_with'', ''cross_join'', ''cross_join_with''}
        then list_result (tupleOperation ev xs op)
      else if name = ''from_entries'' then ok_then (fromEntries xs) (\<lambda>m. Inr (VMap m))
      else Inl (Err ''operation is not implemented''))"

definition runOperation :: "lo \<Rightarrow> evaluation \<Rightarrow> val \<Rightarrow> operation \<Rightarrow> goerr + val" where
  "runOperation l ev current op =
     (if AcceptList \<in> set (de_accept (op_descriptor op)) \<and> kindOf current = KindList
        then ok_then (toList current) (\<lambda>xs. runListOperation l ev xs op)
      else if AcceptObject \<in> set (de_accept (op_descriptor op)) \<and> kindOf current = KindObject
        then ok_then (toObject current) (\<lambda>m. runObjectOperation ev m op)
      else Inl (Err (''expected compatible list or object, got '' @ go_type current)))"

end
