(* ===== verification/TransformStream.thy ===== *)
theory TransformStream
  imports TransformObjects
begin

text \<open>
  The pipeline of a transform step (steps/transform/stream.go, stream_ops.go): while the value between
  operations is a list, operations that work item by item are chained lazily.

  A stream is what its consumer sees when it pulls: items, then the end or an error. Evaluating
  an item has no effect, so what a consumer that stops early never pulls makes no difference but
  for its errors. An error that a stage has labelled with its operation is \<open>Labelled\<close>.

  \<open>eager_pipeline\<close> is the reference: every operation runs on the whole list. The property says that
  whatever it answers, the lazy pipeline answers too.
\<close>

subsection \<open>Streams\<close>

datatype stage_error = Plain goerr | Labelled goerr

datatype item_stream = Finished | Failing stage_error | Yield val item_stream

definition yielding :: "val list \<Rightarrow> item_stream \<Rightarrow> item_stream" where
  "yielding xs s = foldr Yield xs s"

lemma yields_simps [simp]: "yielding [] s = s" "yielding (x # xs) s = Yield x (yielding xs s)"
  by (simp_all add: yielding_def)

lemma yields_append [simp]: "yielding (xs @ ys) s = yielding xs (yielding ys s)"
  by (simp add: yielding_def)

fun labelStageError :: "nat \<Rightarrow> operation \<Rightarrow> stage_error \<Rightarrow> stage_error" where
  "labelStageError position op (Labelled e) = Labelled e"
| "labelStageError position op (Plain e) = Labelled (Wrapped (operation_label position (op_name op)) e)"

fun unlabelStageError :: "stage_error \<Rightarrow> goerr" where
  "unlabelStageError (Labelled e) = e"
| "unlabelStageError (Plain e) = e"

fun listStream :: "evaluation \<Rightarrow> val list \<Rightarrow> item_stream" where
  "listStream ev [] = Finished"
| "listStream ev (x # xs) = (case checkContext ev of Inl e \<Rightarrow> Failing (Plain e) | Inr _ \<Rightarrow> Yield x (listStream ev xs))"

text \<open>collectAtMost with a limit, and collect\<close>

fun collect_at_most :: "nat \<Rightarrow> item_stream \<Rightarrow> stage_error + val list" where
  "collect_at_most 0 s = Inr []"
| "collect_at_most (Suc limit) Finished = Inr []"
| "collect_at_most (Suc limit) (Failing e) = Inl e"
| "collect_at_most (Suc limit) (Yield x s) = ok_then (collect_at_most limit s) (\<lambda>xs. Inr (x # xs))"

fun collect_stream :: "item_stream \<Rightarrow> stage_error + val list" where
  "collect_stream Finished = Inr []"
| "collect_stream (Failing e) = Inl e"
| "collect_stream (Yield x s) = ok_then (collect_stream s) (\<lambda>xs. Inr (x # xs))"

fun labelStream :: "nat \<Rightarrow> operation \<Rightarrow> item_stream \<Rightarrow> item_stream" where
  "labelStream position op Finished = Finished"
| "labelStream position op (Failing e) = Failing (labelStageError position op e)"
| "labelStream position op (Yield x s) = Yield x (labelStream position op s)"

subsection \<open>Stages\<close>

fun indexed_stream :: "(val \<Rightarrow> nat \<Rightarrow> goerr + val list) \<Rightarrow> nat \<Rightarrow> item_stream \<Rightarrow> item_stream" where
  "indexed_stream each i Finished = Finished"
| "indexed_stream each i (Failing e) = Failing e"
| "indexed_stream each i (Yield x s) = (case each x i of
     Inl e \<Rightarrow> Failing (Plain e)
   | Inr ys \<Rightarrow> yielding ys (indexed_stream each (Suc i) s))"

definition filterStage :: "evaluation \<Rightarrow> operation \<Rightarrow> item_stream \<Rightarrow> item_stream" where
  "filterStage ev op = indexed_stream (\<lambda>item index.
     ok_then (evaluateItemBool ev op ''expr'' item index) (\<lambda>matches.
       let matches = (if op_name op = ''reject'' then \<not> matches else matches) in Inr (if matches then [item] else []))) 0"

definition mapStage :: "evaluation \<Rightarrow> operation \<Rightarrow> item_stream \<Rightarrow> item_stream" where
  "mapStage ev op = indexed_stream (\<lambda>item index. ok_then (evaluateItem ev op ''expr'' item index) (\<lambda>v. Inr [v])) 0"

definition flatMapStage :: "evaluation \<Rightarrow> operation \<Rightarrow> item_stream \<Rightarrow> item_stream" where
  "flatMapStage ev op = indexed_stream (\<lambda>item index.
     ok_then (evaluateItem ev op ''expr'' item index) (\<lambda>v.
       label_error (item_label index @ '': expression must return a list'') (toList v))) 0"

definition filterMapStage :: "evaluation \<Rightarrow> operation \<Rightarrow> item_stream \<Rightarrow> item_stream" where
  "filterMapStage ev op = indexed_stream (\<lambda>item index.
     ok_then (evaluateItemBool ev op ''when'' item index) (\<lambda>matches.
       if (op_name op = ''filter_map'') \<noteq> matches then Inr []
       else ok_then (evaluateItem ev op ''value'' item index) (\<lambda>v. Inr [v]))) 0"

definition flattenStage :: "item_stream \<Rightarrow> item_stream" where
  "flattenStage = indexed_stream (\<lambda>item index. label_error (item_label index) (toList item)) 0"

definition compactStage :: "item_stream \<Rightarrow> item_stream" where
  "compactStage = indexed_stream (\<lambda>item _. Inr (if zeroValue item then [] else [item])) 0"

fun take_stream :: "nat \<Rightarrow> item_stream \<Rightarrow> item_stream" where
  "take_stream 0 s = Finished"
| "take_stream (Suc n) Finished = Finished"
| "take_stream (Suc n) (Failing e) = Failing e"
| "take_stream (Suc n) (Yield x s) = Yield x (take_stream n s)"

definition takeDropStage :: "evaluation \<Rightarrow> operation \<Rightarrow> item_stream \<Rightarrow> goerr + item_stream" where
  "takeDropStage ev op s =
     ok_then (nat_operand ev op ''value'' 0 (op_name op @ '' must be a non-negative integer'')) (\<lambda>count.
       Inr (if op_name op = ''take'' then take_stream count s
            else indexed_stream (\<lambda>item index. Inr (if index < count then [] else [item])) 0 s))"

text \<open>whileStage; once an item does not match, nothing is evaluated.\<close>

fun while_stream :: "(val \<Rightarrow> nat \<Rightarrow> goerr + bool) \<Rightarrow> bool \<Rightarrow> bool \<Rightarrow> nat \<Rightarrow> item_stream \<Rightarrow> item_stream" where
  "while_stream f takes matching i Finished = Finished"
| "while_stream f takes matching i (Failing e) = Failing e"
| "while_stream f takes matching i (Yield x s) =
     (case (if matching then f x i else Inr False) of
        Inl e \<Rightarrow> Failing (Plain e)
      | Inr matching \<Rightarrow>
          if takes \<and> \<not> matching then Finished
          else if takes = matching then Yield x (while_stream f takes matching (Suc i) s)
          else while_stream f takes matching (Suc i) s)"

definition whileStage :: "evaluation \<Rightarrow> operation \<Rightarrow> item_stream \<Rightarrow> item_stream" where
  "whileStage ev op = while_stream (\<lambda>item index. evaluateItemBool ev op ''expr'' item index) (op_name op = ''take_while'') True 0"

fun take_filter_stream :: "(val \<Rightarrow> nat \<Rightarrow> goerr + bool) \<Rightarrow> nat \<Rightarrow> nat \<Rightarrow> item_stream \<Rightarrow> item_stream" where
  "take_filter_stream f count i Finished = Finished"
| "take_filter_stream f count i (Failing e) = (if count = 0 then Finished else Failing e)"
| "take_filter_stream f count i (Yield x s) =
     (if count = 0 then Finished
      else case f x i of
          Inl e \<Rightarrow> Failing (Plain e)
        | Inr matches \<Rightarrow> if matches then Yield x (take_filter_stream f (count - 1) (Suc i) s)
            else take_filter_stream f count (Suc i) s)"

definition takeFilterStage :: "evaluation \<Rightarrow> operation \<Rightarrow> item_stream \<Rightarrow> goerr + item_stream" where
  "takeFilterStage ev op s =
     ok_then (nat_operand ev op ''count'' 0 ''count must be a non-negative integer'') (\<lambda>count.
       Inr (take_filter_stream (\<lambda>item index. evaluateItemBool ev op ''when'' item index) count 0 s))"

text \<open>The items from \<open>start\<close> on; the stream ends when the index reaches \<open>finish\<close>.\<close>

fun slice_stream :: "nat \<Rightarrow> nat \<Rightarrow> nat \<Rightarrow> item_stream \<Rightarrow> item_stream" where
  "slice_stream start finish i Finished = Finished"
| "slice_stream start finish i (Failing e) = Failing e"
| "slice_stream start finish i (Yield x s) =
     (let rest = (if Suc i = finish then Finished else slice_stream start finish (Suc i) s) in
      if i \<ge> start then Yield x rest else rest)"

definition sliceStage :: "evaluation \<Rightarrow> operation \<Rightarrow> item_stream \<Rightarrow> goerr + item_stream" where
  "sliceStage ev op s =
     ok_then (resolveNamedOperand ev op ''start'') (\<lambda>start_value.
     ok_then (resolveNamedOperand ev op ''end'') (\<lambda>end_value.
     ok_then (toInt start_value ''start'') (\<lambda>start.
     ok_then (toInt end_value ''end'') (\<lambda>finish.
       let start = max 0 start; finish = max 0 finish in
       Inr (if start \<ge> finish then Finished else slice_stream (nat start) (nat finish) 0 s)))))"

fun unique_stream :: "evaluation \<Rightarrow> operation \<Rightarrow> string fset \<Rightarrow> nat \<Rightarrow> item_stream \<Rightarrow> item_stream" where
  "unique_stream ev op seen i Finished = Finished"
| "unique_stream ev op seen i (Failing e) = Failing e"
| "unique_stream ev op seen i (Yield x s) =
     (case (if op_name op \<noteq> ''unique'' then evaluateItem ev op ''expr'' x i else Inr x) of
        Inl e \<Rightarrow> Failing (Plain e)
      | Inr v \<Rightarrow> (case structuralKey (ev_json ev) v of
          Inl e \<Rightarrow> Failing (Plain (Wrapped (item_label i) e))
        | Inr key \<Rightarrow>
            if key |\<in>| seen then unique_stream ev op seen (Suc i) s
            else Yield (if op_name op \<noteq> ''unique_map'' then x else v) (unique_stream ev op (finsert key seen) (Suc i) s)))"

definition withoutStage :: "evaluation \<Rightarrow> operation \<Rightarrow> item_stream \<Rightarrow> goerr + item_stream" where
  "withoutStage ev op s =
     ok_then (list_operand ev op ''values'') (\<lambda>excluded.
     ok_then (key_set (ev_json ev) excluded) (\<lambda>keys.
       Inr (indexed_stream (\<lambda>item index.
         ok_then (if op_name op = ''without_by'' then evaluateItem ev op ''by'' item index else Inr item) (\<lambda>key_value.
         ok_then (structuralKey (ev_json ev) key_value) (\<lambda>key. Inr (if key |\<in>| keys then [] else [item])))) 0 s)))"

fun then_stream :: "item_stream \<Rightarrow> item_stream \<Rightarrow> item_stream" where
  "then_stream Finished t = t"
| "then_stream (Failing e) t = Failing e"
| "then_stream (Yield x s) t = Yield x (then_stream s t)"

definition concatStage :: "evaluation \<Rightarrow> operation \<Rightarrow> item_stream \<Rightarrow> goerr + item_stream" where
  "concatStage ev op s = ok_then (resolveListOperands ev op) (\<lambda>others. Inr (then_stream s (yielding (concat others) Finished)))"

text \<open>streamStages\<close>

definition stream_stage :: "evaluation \<Rightarrow> operation \<Rightarrow> item_stream \<Rightarrow> (goerr + item_stream) option" where
  "stream_stage ev op s =
     (let name = op_name op in
      if name \<in> {''filter'', ''reject''} then Some (Inr (filterStage ev op s))
      else if name = ''map'' then Some (Inr (mapStage ev op s))
      else if name = ''flat_map'' then Some (Inr (flatMapStage ev op s))
      else if name \<in> {''filter_map'', ''reject_map''} then Some (Inr (filterMapStage ev op s))
      else if name = ''flatten'' then Some (Inr (flattenStage s))
      else if name = ''compact'' then Some (Inr (compactStage s))
      else if name = ''clone'' then Some (Inr s)
      else if name \<in> {''take'', ''drop''} then Some (takeDropStage ev op s)
      else if name \<in> {''take_while'', ''drop_while''} then Some (Inr (whileStage ev op s))
      else if name = ''take_filter'' then Some (takeFilterStage ev op s)
      else if name = ''slice'' then Some (sliceStage ev op s)
      else if name \<in> {''unique'', ''unique_by'', ''unique_map''} then Some (Inr (unique_stream ev op {||} 0 s))
      else if name \<in> {''without'', ''without_by''} then Some (withoutStage ev op s)
      else if name = ''concat'' then Some (concatStage ev op s)
      else None)"

subsection \<open>Sinks\<close>

definition plainly :: "goerr + 'a \<Rightarrow> stage_error + 'a" where
  "plainly r = map_sum Plain id r"

lemma plainly_simps [simp]: "plainly (Inl e) = Inl (Plain e)" "plainly (Inr x) = Inr x"
  by (simp_all add: plainly_def)

definition prefixSink :: "nat \<Rightarrow> lo \<Rightarrow> evaluation \<Rightarrow> operation \<Rightarrow> item_stream \<Rightarrow> stage_error + val" where
  "prefixSink limit l ev op s = ok_then (collect_at_most limit s) (\<lambda>xs. plainly (runListOperation l ev xs op))"

fun find_stream :: "(val \<Rightarrow> nat \<Rightarrow> goerr + bool) \<Rightarrow> nat \<Rightarrow> item_stream \<Rightarrow> stage_error + (nat \<times> val) option" where
  "find_stream f i Finished = Inr None"
| "find_stream f i (Failing e) = Inl e"
| "find_stream f i (Yield x s) =
     ok_then (plainly (f x i)) (\<lambda>matches. if matches then Inr (Some (i, x)) else find_stream f (Suc i) s)"

definition findSink :: "evaluation \<Rightarrow> operation \<Rightarrow> item_stream \<Rightarrow> stage_error + val" where
  "findSink ev op s = ok_then (find_stream (\<lambda>item index. evaluateItemBool ev op ''expr'' item index) 0 s) (\<lambda>r.
     Inr (case r of Some (index, item) \<Rightarrow> found_record (op_name op = ''find_index'') item (int index) True
        | None \<Rightarrow> found_record (op_name op = ''find_index'') VNil (-1) False))"

fun quantifier_stream :: "evaluation \<Rightarrow> operation \<Rightarrow> bool \<Rightarrow> nat \<Rightarrow> item_stream \<Rightarrow> stage_error + bool" where
  "quantifier_stream ev op matched i Finished =
     Inr (if op_name op \<in> {''every_by'', ''none_by''} then True else matched)"
| "quantifier_stream ev op matched i (Failing e) = Inl e"
| "quantifier_stream ev op matched i (Yield x s) =
     ok_then (plainly (evaluateItemBool ev op ''expr'' x i)) (\<lambda>match.
       if match \<and> op_name op \<in> {''contains_by'', ''some_by''} then Inr True
       else if match \<and> op_name op = ''none_by'' then Inr False
       else if \<not> match \<and> op_name op = ''every_by'' then Inr False
       else quantifier_stream ev op (matched \<or> match) (Suc i) s)"

text \<open>matchSink and countBySink: the numbers of equal items so far and of items\<close>

fun match_stream :: "evaluation \<Rightarrow> operation \<Rightarrow> string \<Rightarrow> nat \<Rightarrow> nat \<Rightarrow> item_stream \<Rightarrow> stage_error + val" where
  "match_stream ev op wanted n i Finished =
     Inr (if op_name op = ''contains'' then VBool False else if op_name op = ''index_of'' then VInt (-1) else VInt (int n))"
| "match_stream ev op wanted n i (Failing e) = Inl e"
| "match_stream ev op wanted n i (Yield x s) =
     ok_then (plainly (matches_key (ev_json ev) wanted x)) (\<lambda>equal.
       if equal \<and> op_name op = ''contains'' then Inr (VBool True)
       else if equal \<and> op_name op = ''index_of'' then Inr (VInt (int i))
       else match_stream ev op wanted (if equal then Suc n else n) (Suc i) s)"

definition matchSink :: "evaluation \<Rightarrow> operation \<Rightarrow> item_stream \<Rightarrow> stage_error + val" where
  "matchSink ev op s = ok_then (plainly (resolveNamedOperand ev op ''value'')) (\<lambda>wanted.
     ok_then (plainly (structuralKey (ev_json ev) wanted)) (\<lambda>key. match_stream ev op key 0 0 s))"

fun countBySink :: "evaluation \<Rightarrow> operation \<Rightarrow> nat \<Rightarrow> nat \<Rightarrow> item_stream \<Rightarrow> stage_error + val" where
  "countBySink ev op n i Finished = Inr (VInt (int n))"
| "countBySink ev op n i (Failing e) = Inl e"
| "countBySink ev op n i (Yield x s) =
     ok_then (plainly (evaluateItemBool ev op ''expr'' x i)) (\<lambda>matches. countBySink ev op (if matches then Suc n else n) (Suc i) s)"

text \<open>streamSinks\<close>

definition stream_sink :: "lo \<Rightarrow> evaluation \<Rightarrow> operation \<Rightarrow> item_stream \<Rightarrow> (stage_error + val) option" where
  "stream_sink l ev op s =
     (let name = op_name op in
      if name \<in> {''first'', ''first_or'', ''first_or_empty''} then Some (prefixSink 1 l ev op s)
      else if name \<in> {''find'', ''find_index''} then Some (findSink ev op s)
      else if name \<in> {''contains_by'', ''some_by'', ''none_by'', ''every_by''}
        then Some (ok_then (quantifier_stream ev op False 0 s) (\<lambda>b. Inr (VBool b)))
      else if name \<in> {''contains'', ''index_of'', ''count''} then Some (matchSink ev op s)
      else if name = ''count_by'' then Some (countBySink ev op 0 0 s)
      else None)"

subsection \<open>Pipelines\<close>

text \<open>What flows between operations: a value, or a stream of the items of a list\<close>

datatype pipeline_value = Value val | Items item_stream

definition cannot_consume :: "nat \<Rightarrow> operation \<Rightarrow> value_kind \<Rightarrow> goerr" where
  "cannot_consume position op kind = Err (operation_label position (op_name op) @ '': cannot consume '' @ kind_name kind)"

definition enter_operation :: "evaluation \<Rightarrow> nat \<Rightarrow> operation \<Rightarrow> pipeline_value \<Rightarrow> goerr + pipeline_value" where
  "enter_operation ev position op flow = (case flow of
     Value v \<Rightarrow>
       if \<not> accepts_kind op (kindOf v) then Inl (cannot_consume position op (kindOf v))
       else if kindOf v = KindList then ok_then (toList v) (\<lambda>xs. Inr (Items (listStream ev xs)))
       else Inr flow
   | Items s \<Rightarrow> if \<not> accepts_kind op KindList then Inl (cannot_consume position op KindList) else Inr flow)"

definition collected_items :: "item_stream \<Rightarrow> goerr + val list" where
  "collected_items s = map_sum unlabelStageError id (collect_stream s)"

definition run_labelled :: "lo \<Rightarrow> evaluation \<Rightarrow> nat \<Rightarrow> operation \<Rightarrow> val \<Rightarrow> goerr + val" where
  "run_labelled l ev position op v = label_error (operation_label position (op_name op)) (runOperation l ev v op)"

text \<open>One operation\<close>

definition pipeline_step :: "lo \<Rightarrow> evaluation \<Rightarrow> nat \<Rightarrow> operation \<Rightarrow> pipeline_value \<Rightarrow> goerr + pipeline_value" where
  "pipeline_step l ev position op flow =
     ok_then (checkContext ev) (\<lambda>_. ok_then (enter_operation ev position op flow) (\<lambda>flow. case flow of
       Value v \<Rightarrow> ok_then (run_labelled l ev position op v) (\<lambda>v. Inr (Value v))
     | Items s \<Rightarrow> (case stream_stage ev op s of
         Some (Inl e) \<Rightarrow> Inl (unlabelStageError (labelStageError position op (Plain e)))
       | Some (Inr next) \<Rightarrow> Inr (Items (labelStream position op next))
       | None \<Rightarrow> (case stream_sink l ev op s of
           Some r \<Rightarrow> map_sum (\<lambda>e. unlabelStageError (labelStageError position op e)) Value r
         | None \<Rightarrow> ok_then (collected_items s) (\<lambda>xs.
             ok_then (run_labelled l ev position op (VList xs)) (\<lambda>v. Inr (Value v)))))))"

fun runPipeline :: "lo \<Rightarrow> evaluation \<Rightarrow> nat \<Rightarrow> operation list \<Rightarrow> pipeline_value \<Rightarrow> goerr + val" where
  "runPipeline l ev position [] flow = (case flow of
     Value v \<Rightarrow> Inr v
   | Items s \<Rightarrow> ok_then (collected_items s) (\<lambda>xs. Inr (VList xs)))"
| "runPipeline l ev position (op # ops) flow =
     ok_then (pipeline_step l ev position op flow) (runPipeline l ev (Suc position) ops)"

text \<open>The reference: every operation runs on the value before it.\<close>

definition eager_step :: "lo \<Rightarrow> evaluation \<Rightarrow> nat \<Rightarrow> operation \<Rightarrow> val \<Rightarrow> goerr + val" where
  "eager_step l ev position op v =
     ok_then (checkContext ev) (\<lambda>_.
       if \<not> accepts_kind op (kindOf v) then Inl (cannot_consume position op (kindOf v)) else run_labelled l ev position op v)"

fun eager_pipeline :: "lo \<Rightarrow> evaluation \<Rightarrow> nat \<Rightarrow> operation list \<Rightarrow> val \<Rightarrow> goerr + val" where
  "eager_pipeline l ev position [] v = Inr v"
| "eager_pipeline l ev position (op # ops) v =
     ok_then (eager_step l ev position op v) (eager_pipeline l ev (Suc position) ops)"

end
