(* ===== verification/TransformSort.thy ===== *)
theory TransformSort
  imports TransformObjects "HOL-Library.Multiset"
begin

text \<open>
  The sort operations of a transform step: insertion by a comparison that orders items up to ties gives
  the stable sorting, and keys of one type are compared by such an order.
\<close>

subsection \<open>Insertion\<close>

text \<open>Insertion by a comparison that orders the items up to ties sorts them and keeps ties in place.\<close>

definition orders :: "('a \<Rightarrow> 'a \<Rightarrow> bool) \<Rightarrow> bool" where
  "orders before \<longleftrightarrow> (\<forall>x y. before x y \<longrightarrow> \<not> before y x) \<and> (\<forall>x y z. \<not> before x y \<and> \<not> before y z \<longrightarrow> \<not> before x z)"

definition tied :: "('a \<Rightarrow> 'a \<Rightarrow> bool) \<Rightarrow> 'a \<Rightarrow> 'a \<Rightarrow> bool" where
  "tied before x y \<longleftrightarrow> \<not> before x y \<and> \<not> before y x"

lemma mset_place [simp]: "mset (place before x ys) = add_mset x (mset ys)"
  by (induction ys) auto

lemma set_place [simp]: "set (place before x ys) = insert x (set ys)"
  by (induction ys) auto

lemma ordersD:
  assumes "orders before"
  shows "before x y \<Longrightarrow> \<not> before y x" "\<not> before x y \<Longrightarrow> \<not> before y z \<Longrightarrow> \<not> before x z"
  using assms unfolding orders_def by blast+

lemma sorted_place:
  assumes "orders before"
  shows "sorted_wrt (\<lambda>a b. \<not> before a b) ys \<Longrightarrow> sorted_wrt (\<lambda>a b. \<not> before a b) (place before x ys)"
proof (induction ys)
  case (Cons y ys)
  show ?case
  proof (cases "before x y")
    case True
    then show ?thesis using Cons ordersD(1) [OF assms True] by auto
  next
    case False
    then have "\<not> before x z" if "z \<in> set ys" for z using ordersD(2) [OF assms False] Cons.prems that by auto
    then show ?thesis using Cons False by auto
  qed
qed simp

lemma tied_not_before: "orders before \<Longrightarrow> tied before k x \<Longrightarrow> tied before k y \<Longrightarrow> \<not> before x y"
  unfolding tied_def using ordersD(2) [of before x k y] by blast

lemma filter_place:
  assumes "orders before"
  shows "filter (tied before k) (place before x ys) = (if tied before k x then x # filter (tied before k) ys else filter (tied before k) ys)"
  using tied_not_before [OF assms, of k x] by (induction ys) auto

lemma fold_place:
  assumes "orders before"
  shows "sorted_wrt (\<lambda>a b. \<not> before a b) ys \<Longrightarrow> sorted_wrt (\<lambda>a b. \<not> before a b) (fold (place before) xs ys)"
    and "mset (fold (place before) xs ys) = mset xs + mset ys"
    and "filter (tied before k) (fold (place before) xs ys) = rev (filter (tied before k) xs) @ filter (tied before k) ys"
  using assms by (induction xs arbitrary: ys) (simp_all add: sorted_place filter_place)

lemma SliceStable_sorts:
  assumes "orders before"
  shows "mset (SliceStable before xs) = mset xs" "sorted_wrt (\<lambda>a b. \<not> before b a) (SliceStable before xs)"
    "filter (tied before k) (SliceStable before xs) = filter (tied before k) xs"
  using fold_place [OF assms, where ys = "[]" and xs = xs] by (simp_all add: SliceStable_def sorted_wrt_rev rev_filter [symmetric])

lemma place_cong: "(\<forall>y \<in> set ys. before x y = before' x y) \<Longrightarrow> place before x ys = place before' x ys"
  by (induction ys) auto

lemma SliceStable_cong:
  assumes "\<forall>x \<in> set xs. \<forall>y \<in> set xs. before x y = before' x y"
  shows "SliceStable before xs = SliceStable before' xs"
proof -
  have "set zs \<subseteq> set xs \<Longrightarrow> set ys \<subseteq> set xs \<Longrightarrow> fold (place before) zs ys = fold (place before') zs ys" for zs ys
  proof (induction zs arbitrary: ys)
    case (Cons z zs)
    then have "place before z ys = place before' z ys" using assms by (intro place_cong) auto
    then show ?case using Cons by simp
  qed simp
  then show ?thesis by (simp add: SliceStable_def)
qed

lemma orders_key: "orders (\<lambda>l r. f l < (f r :: 'b::linorder))" "orders (\<lambda>l r. f r < (f l :: 'b::linorder))"
  by (auto simp: orders_def)

text \<open>Keys of one type: integers, floats or strings\<close>

definition one_type :: "val list \<Rightarrow> bool" where
  "one_type keys \<longleftrightarrow> (\<forall>k \<in> set keys. \<exists>i. k = VInt i) \<or> (\<forall>k \<in> set keys. \<exists>q. k = VFloat q) \<or> (\<forall>k \<in> set keys. \<exists>s. k = VStr s)"

lemma order_of_iff [simp]: "order_of a b < 0 \<longleftrightarrow> a < b" "order_of a b > 0 \<longleftrightarrow> b < a" "order_of a b \<le> 0 \<longleftrightarrow> a \<le> b"
  by (auto simp: order_of_def)

lemma compare_ints: "compareValues (VInt a) (VInt b) = Inr (order_of a b)"
  by (simp add: compareValues_def)

lemma compared_simps [simp]:
  "compared (VInt a) (VInt b) = order_of a b" "compared (VFloat p) (VFloat q) = order_of p q"
  "compared (VStr s) (VStr t) = order_of s t"
  by (simp_all add: compared_def compareValues_def)

definition string_value :: "val \<Rightarrow> string" where
  "string_value v = (case v of VStr s \<Rightarrow> s | _ \<Rightarrow> [])"

text \<open>Keys of one type are compared like what they hold.\<close>

definition stable_sorting :: "bool \<Rightarrow> (val \<times> val) list \<Rightarrow> (val \<times> val) list \<Rightarrow> bool" where
  "stable_sorting descending xs ys \<longleftrightarrow> mset ys = mset xs \<and>
     sorted_wrt (\<lambda>l r. if descending then compared (snd l) (snd r) \<ge> 0 else compared (snd l) (snd r) \<le> 0) ys \<and>
     (\<forall>k. filter (\<lambda>e. snd e = k) ys = filter (\<lambda>e. snd e = k) xs)"

definition key_before :: "bool \<Rightarrow> val \<times> val \<Rightarrow> val \<times> val \<Rightarrow> bool" where
  "key_before descending = (if descending then (\<lambda>l r. compared (snd l) (snd r) > 0) else (\<lambda>l r. compared (snd l) (snd r) < 0))"

lemma sort_by_key:
  fixes f :: "val \<Rightarrow> 'b::linorder"
  assumes agrees: "\<forall>k \<in> set keys. \<forall>k' \<in> set keys. compared k k' = order_of (f k) (f k') \<and> (f k = f k' \<longrightarrow> k = k')"
    and length: "length keys = length xs"
  shows "stable_sorting descending (zip xs keys) (SliceStable (key_before descending) (zip xs keys))"
proof -
  let ?before = "\<lambda>l r. if descending then f (snd r) < f (snd l) else f (snd l) < f (snd r)"
  let ?ys = "SliceStable ?before (zip xs keys)"
  have before: "orders ?before" by (cases descending) (simp_all add: orders_key)
  have members: "snd e \<in> set keys" if "e \<in> set (zip xs keys)" for e using that by (metis set_zip_rightD prod.collapse)
  then have same: "SliceStable (key_before descending) (zip xs keys) = ?ys"
    using agrees by (intro SliceStable_cong) (auto simp: key_before_def)
  note sorts = SliceStable_sorts [OF before, where xs = "zip xs keys"]
  have ys: "snd e \<in> set keys" if "e \<in> set ?ys" for e
    using that members [of e] mset_eq_setD [OF sorts(1)] by simp
  have "sorted_wrt (\<lambda>l r. if descending then compared (snd l) (snd r) \<ge> 0 else compared (snd l) (snd r) \<le> 0) ?ys"
  proof (rule sorted_wrt_mono_rel [OF _ sorts(2)])
    fix l r
    assume "l \<in> set ?ys" "r \<in> set ?ys" and order: "\<not> ?before r l"
    then have "compared (snd l) (snd r) = order_of (f (snd l)) (f (snd r))" using agrees ys by blast
    then show "if descending then compared (snd l) (snd r) \<ge> 0 else compared (snd l) (snd r) \<le> 0"
      using order by (cases descending) (auto simp: order_of_def)
  qed
  moreover have "filter (\<lambda>e. snd e = k) ?ys = filter (\<lambda>e. snd e = k) (zip xs keys)" for k
  proof (cases "k \<in> set keys")
    case True
    have tie: "tied ?before (VNil, k) e \<longleftrightarrow> snd e = k" if "snd e \<in> set keys" for e
      using that True agrees by (auto simp: tied_def not_less order.antisym)
    have "filter (\<lambda>e. snd e = k) zs = filter (tied ?before (VNil, k)) zs" if "\<forall>e \<in> set zs. snd e \<in> set keys" for zs
      by (rule filter_cong [OF refl]) (use that tie in simp)
    note both = this [of ?ys] this [of "zip xs keys"]
    show ?thesis using both ys members sorts(3) [where k = "(VNil, k)"] by simp
  next
    case False
    then have "filter (\<lambda>e. snd e = k) zs = []" if "\<forall>e \<in> set zs. snd e \<in> set keys" for zs :: "(val \<times> val) list"
      using that by (auto simp: filter_empty_conv)
    note both = this [of ?ys] this [of "zip xs keys"]
    show ?thesis using both ys members by simp
  qed
  ultimately show ?thesis using sorts(1) unfolding stable_sorting_def same by blast
qed

lemma sort_one_type:
  assumes "one_type keys" "length keys = length xs"
  shows "stable_sorting descending (zip xs keys) (SliceStable (key_before descending) (zip xs keys))"
proof -
  consider "\<forall>k \<in> set keys. \<exists>i. k = VInt i" | "\<forall>k \<in> set keys. \<exists>q. k = VFloat q" | "\<forall>k \<in> set keys. \<exists>s. k = VStr s"
    using assms(1) unfolding one_type_def by blast
  then show ?thesis
  proof cases
    case 1
    have "compared k k' = order_of (int_value k) (int_value k') \<and> (int_value k = int_value k' \<longrightarrow> k = k')"
      if k: "k \<in> set keys" "k' \<in> set keys" for k k'
    proof -
      obtain a b where "k = VInt a" "k' = VInt b" using bspec [OF 1 k(1)] bspec [OF 1 k(2)] by blast
      then show ?thesis by (simp add: int_value_def)
    qed
    then show ?thesis by (intro sort_by_key [where f = int_value] ballI assms(2))
  next
    case 2
    have "compared k k' = order_of (float_value k) (float_value k') \<and> (float_value k = float_value k' \<longrightarrow> k = k')"
      if k: "k \<in> set keys" "k' \<in> set keys" for k k'
    proof -
      obtain a b where "k = VFloat a" "k' = VFloat b" using bspec [OF 2 k(1)] bspec [OF 2 k(2)] by blast
      then show ?thesis by (simp add: float_value_def)
    qed
    then show ?thesis by (intro sort_by_key [where f = float_value] ballI assms(2))
  next
    case 3
    have "compared k k' = order_of (string_value k) (string_value k') \<and> (string_value k = string_value k' \<longrightarrow> k = k')"
      if k: "k \<in> set keys" "k' \<in> set keys" for k k'
    proof -
      obtain a b where "k = VStr a" "k' = VStr b" using bspec [OF 3 k(1)] bspec [OF 3 k(2)] by blast
      then show ?thesis by (simp add: string_value_def)
    qed
    then show ?thesis by (intro sort_by_key [where f = string_value] ballI assms(2))
  qed
qed

subsection \<open>Properties\<close>


definition demo_sort :: operation where
  "demo_sort = (new_operation ''sort'' \<lparr>de_accept = [AcceptList], de_result = KindList\<rparr> VNil)\<lparr>op_argument := VStr ''desc''\<rparr>"

definition demo_numbers :: "val list" where
  "demo_numbers = [VInt 1, VInt 3, VInt 2, VInt 3]"

definition demo_json :: json where
  "demo_json = \<lparr>js_float = (\<lambda>_. ''0''), js_other = (\<lambda>_. Inl (Err ''unsupported type''))\<rparr>"

definition demo_evaluation :: evaluation where
  "demo_evaluation = \<lparr>ev_ctx = None, ev_run = (\<lambda>p locals. Inl (Err ''unknown program'')), ev_json = demo_json\<rparr>"

definition gather_lo :: lo where
  "gather_lo = \<lparr>lo_FilterErr = (\<lambda>xs p. gather (\<lambda>x i. ok_then (p x i) (\<lambda>b. Inr (if b then [x] else []))) 0 xs),
     lo_MapErr = (\<lambda>xs f. gather (\<lambda>x i. ok_then (f x i) (\<lambda>y. Inr [y])) 0 xs),
     lo_FlatMapErr = (\<lambda>xs f. gather f 0 xs)\<rparr>"


text \<open>Sliding windows with the largest step: the start after the first window is so large that its end leaves the 64
  bits, and slicing panics instead of ending the loop.\<close>

lemma sliding_overflows: "windows 1 (2 ^ 63 - 1) [VInt 1] 0 = Inl slice_panic"
  by (simp add: windows.simps [of 1 _ _ 0] windows.simps [of 1 _ _ 9223372036854775807] wrap64_def positive64_def)

end
