(* ===== verification/TransformProperties.thy ===== *)
theory TransformProperties
  imports TransformStream TransformSort
begin

text \<open>
  What makes a transform step correct: the lazy pipeline answers what the operations answer one by one, a pipeline
  that is accepted only ever meets values its operations consume, sorting is stable, and the entries of an
  object give the object back.
\<close>

subsection \<open>Stages and sinks on the whole list\<close>

lemma ok_then_assoc: "ok_then (ok_then r f) g = ok_then r (\<lambda>x. ok_then (f x) g)"
  by (cases r) simp_all

lemma yields_gather: "gather f i xs = Inr ys \<Longrightarrow> indexed_stream f i (yielding xs Finished) = yielding ys Finished"
  by (induction f i xs arbitrary: ys rule: gather.induct) (auto simp: ok_then_Inr)

lemma collect_yields [simp]: "collect_stream (yielding xs Finished) = Inr xs"
  by (induction xs) simp_all

lemma label_yields [simp]: "labelStream position op (yielding xs Finished) = yielding xs Finished"
  by (induction xs) simp_all

lemma then_yields [simp]: "then_stream (yielding xs Finished) t = yielding xs t"
  by (induction xs) simp_all

lemma take_yields [simp]: "take_stream n (yielding xs Finished) = yielding (take n xs) Finished"
proof (induction n arbitrary: xs)
  case (Suc n)
  then show ?case by (cases xs) simp_all
qed simp

lemma at_most_yields [simp]: "collect_at_most n (yielding xs Finished) = Inr (take n xs)"
proof (induction n arbitrary: xs)
  case (Suc n)
  then show ?case by (cases xs) simp_all
qed simp

lemma drop_yields [simp]:
  "indexed_stream (\<lambda>item index. Inr (if index < n then [] else [item])) i (yielding xs Finished) = yielding (drop (n - i) xs) Finished"
proof (induction xs arbitrary: i)
  case (Cons x xs)
  show ?case
  proof (cases "i < n")
    case True
    then have "n - i = Suc (n - Suc i)" by simp
    then show ?thesis using True Cons by simp
  qed (use Cons in simp)
qed simp

lemma filter_yields: "indexed_stream (\<lambda>item _. Inr (if zeroValue item then [] else [item])) i (yielding xs Finished)
    = yielding (filter (\<lambda>item. \<not> zeroValue item) xs) Finished"
  by (induction xs arbitrary: i) simp_all

lemma while_off [simp]: "while_stream f False False i (yielding xs Finished) = yielding xs Finished"
  by (induction xs arbitrary: i) simp_all

lemma while_yields: "matching_prefix f i xs = Inr k \<Longrightarrow>
    while_stream f True True i (yielding xs Finished) = yielding (take k xs) Finished \<and>
    while_stream f False True i (yielding xs Finished) = yielding (drop k xs) Finished"
proof (induction f i xs arbitrary: k rule: matching_prefix.induct)
  case (2 f i x xs)
  then obtain matches where "f x i = Inr matches" by (auto simp: ok_then_Inr)
  then show ?case using 2 by (cases matches) (auto simp: ok_then_Inr)
qed simp

lemma take_filter_yields: "take_matching f n i xs = Inr ys \<Longrightarrow>
    take_filter_stream f n i (yielding xs Finished) = yielding ys Finished"
  by (induction f n i xs arbitrary: ys rule: take_matching.induct) (auto simp: ok_then_Inr split: if_splits)

lemma slice_yields: "i < finish \<Longrightarrow>
    slice_stream start finish i (yielding xs Finished) = yielding (drop (start - i) (take (finish - i) xs)) Finished"
proof (induction xs arbitrary: i)
  case (Cons x xs)
  obtain k where k: "finish - i = Suc k" "finish - Suc i = k" using Cons.prems by (metis Suc_diff_Suc)
  show ?case
  proof (cases "i \<ge> start")
    case True
    then show ?thesis using Cons k by (cases "Suc i = finish") (auto simp: Let_def)
  next
    case False
    then have "start - i = Suc (start - Suc i)" by simp
    then show ?thesis using Cons k False by (cases "Suc i = finish") (auto simp: Let_def)
  qed
qed simp

lemma unique_yields:
  assumes "op_name op \<in> {''unique'', ''unique_by'', ''unique_map''}"
  shows "traverse (unique_entry ev op) i xs = Inr es \<Longrightarrow>
    unique_stream ev op seen i (yielding xs Finished) = yielding (keep_unique (op_name op) keys seen es) Finished"
proof (induction xs arbitrary: i es seen)
  case (Cons x xs)
  then obtain e es' where es: "unique_entry ev op i x = Inr e" "traverse (unique_entry ev op) (Suc i) xs = Inr es'" "es = e # es'"
    by (auto simp: ok_then_Inr)
  have "(if op_name op \<noteq> ''unique'' then evaluateItem ev op ''expr'' x i else Inr x)
      = (if op_name op \<in> {''unique_by'', ''find_uniques_by'', ''find_duplicates_by'', ''unique_map''}
         then evaluateItem ev op ''expr'' x i else Inr x)"
    using assms by auto
  then obtain v key where v: "(if op_name op \<noteq> ''unique'' then evaluateItem ev op ''expr'' x i else Inr x) = Inr v"
      "structuralKey (ev_json ev) v = Inr key" "e = (key, if op_name op = ''unique_map'' then v else x)"
    using es(1) by (auto simp: unique_entry_def ok_then_Inr)
  then show ?case using Cons.IH [OF es(2)] es(3) assms finsert_absorb [of key seen] by (auto simp: Let_def)
qed simp

lemma zip_upt_Cons: "zip [i ..< i + length (x # xs)] (x # xs) = (i, x) # zip [Suc i ..< Suc i + length xs] xs"
  by (simp add: upt_conv_Cons del: upt_Suc)

lemma plainly_ok_then: "plainly (ok_then r f) = ok_then (plainly r) (\<lambda>x. plainly (f x))"
  by (cases r) simp_all

lemma find_yields: "find_stream f i (yielding xs Finished) = plainly (search_items f (zip [i ..< i + length xs] xs))"
proof (induction xs arbitrary: i)
  case (Cons x xs)
  show ?case unfolding zip_upt_Cons
    by (cases "f x i") (simp_all add: search_items_def Cons.IH [unfolded search_items_def])
qed (simp add: search_items_def)

lemma quantifier_stream_yields:
  assumes "op_name op \<in> {''contains_by'', ''every_by'', ''some_by'', ''none_by''}"
    and "first_answer (quantifier_answer ev op) (zip [i ..< i + length xs] xs) = Inr r"
    and "matched \<longrightarrow> op_name op = ''every_by''"
  shows "quantifier_stream ev op matched i (yielding xs Finished) =
    Inr (case r of Some b \<Rightarrow> b | None \<Rightarrow> op_name op \<in> {''every_by'', ''none_by''})"
  using assms(2,3)
proof (induction xs arbitrary: i matched)
  case (Cons x xs)
  from Cons.prems(1) obtain matches where m: "evaluateItemBool ev op ''expr'' x i = Inr matches"
    unfolding zip_upt_Cons by (auto simp: ok_then_Inr quantifier_answer_def)
  show ?case using Cons.prems assms(1) m unfolding zip_upt_Cons
    by (cases matches) (auto simp: Cons.IH quantifier_answer_def)
qed (use assms(1) in auto)

lemma contains_yields:
  assumes "op_name op = ''contains''"
    and "first_answer (\<lambda>item. ok_then (matches_key (ev_json ev) key item) (\<lambda>equal. Inr (if equal then Some True else None))) xs = Inr r"
  shows "match_stream ev op key n i (yielding xs Finished) = Inr (VBool (r = Some True))"
  using assms(2)
proof (induction xs arbitrary: n i)
  case (Cons x xs)
  then obtain equal where "matches_key (ev_json ev) key x = Inr equal" by (auto simp: ok_then_Inr)
  then show ?case using Cons assms(1) by (cases equal) auto
qed (use assms(1) in auto)

lemma index_yields:
  assumes "op_name op = ''index_of''"
    and "search_items (\<lambda>item _. matches_key (ev_json ev) key item) (zip [i ..< i + length xs] xs) = Inr r"
  shows "match_stream ev op key n i (yielding xs Finished) = Inr (VInt (case r of Some (index, _) \<Rightarrow> int index | None \<Rightarrow> -1))"
  using assms(2)
proof (induction xs arbitrary: n i)
  case (Cons x xs)
  from Cons.prems obtain equal where "matches_key (ev_json ev) key x = Inr equal"
    unfolding zip_upt_Cons search_items_def by (auto simp: ok_then_Inr)
  then show ?case using Cons.prems Cons.IH [of "Suc i", unfolded search_items_def] assms(1)
    unfolding zip_upt_Cons search_items_def by (cases equal) auto
qed (use assms(1) in \<open>simp add: search_items_def\<close>)

lemma count_yields:
  assumes "op_name op = ''count''" and "traverse (\<lambda>_. matches_key (ev_json ev) key) i xs = Inr bs"
  shows "match_stream ev op key n i (yielding xs Finished) = Inr (VInt (int (n + length (filter id bs))))"
  using assms(2)
proof (induction xs arbitrary: n i bs)
  case (Cons x xs)
  then show ?case using assms(1) by (auto simp: ok_then_Inr)
qed (use assms(1) in simp)

lemma count_by_yields:
  "traverse (\<lambda>index item. evaluateItemBool ev op ''expr'' item index) i xs = Inr bs \<Longrightarrow>
   countBySink ev op n i (yielding xs Finished) = Inr (VInt (int (n + length (filter id bs))))"
  by (induction xs arbitrary: n i bs) (auto simp: ok_then_Inr)

lemma indexed_from: "indexed xs = zip [0 ..< 0 + length xs] xs"
  by (simp add: indexed_def)

subsection \<open>One operation, lazily\<close>

text \<open>Each stage yields the list its operation computes, and each sink the value.\<close>

lemma stage_filter:
  assumes "lo_documented l" "op_name op \<in> {''filter'', ''reject''}" "runListOperation l ev xs op = Inr w"
  shows "\<exists>ys. w = VList ys \<and> filterStage ev op (yielding xs Finished) = yielding ys Finished"
proof -
  obtain ys where ys: "w = VList ys" "gather (\<lambda>x i. ok_then (ok_then (evaluateItemBool ev op ''expr'' x i) (\<lambda>matches.
      Inr (if op_name op = ''reject'' then \<not> matches else matches))) (\<lambda>b. Inr (if b then [x] else []))) 0 xs = Inr ys"
    using assms by (auto simp: runListOperation_def lo_documented_def)
  then show ?thesis using yields_gather [OF ys(2)] by (simp add: filterStage_def ok_then_assoc Let_def)
qed

lemma stage_map:
  assumes "lo_documented l" "op_name op = ''map''" "runListOperation l ev xs op = Inr w"
  shows "\<exists>ys. w = VList ys \<and> mapStage ev op (yielding xs Finished) = yielding ys Finished"
  using assms by (auto simp: runListOperation_def lo_documented_def mapStage_def intro!: yields_gather)

lemma stage_flat_map:
  assumes "lo_documented l" "op_name op = ''flat_map''" "runListOperation l ev xs op = Inr w"
  shows "\<exists>ys. w = VList ys \<and> flatMapStage ev op (yielding xs Finished) = yielding ys Finished"
  using assms by (auto simp: runListOperation_def lo_documented_def flatMapStage_def intro!: yields_gather)

lemma stage_filter_map:
  assumes "op_name op \<in> {''filter_map'', ''reject_map''}" "runListOperation l ev xs op = Inr w"
  shows "\<exists>ys. w = VList ys \<and> filterMapStage ev op (yielding xs Finished) = yielding ys Finished"
  using assms by (auto simp: runListOperation_def filterMap_def filterMapStage_def intro!: yields_gather)

lemma stage_flatten:
  assumes "op_name op = ''flatten''" "runListOperation l ev xs op = Inr w"
  shows "\<exists>ys. w = VList ys \<and> flattenStage (yielding xs Finished) = yielding ys Finished"
  using assms by (auto simp: runListOperation_def segmentationOperation_def flatten_lists_def flattenStage_def intro!: yields_gather)

lemma stage_compact:
  assumes "op_name op = ''compact''" "runListOperation l ev xs op = Inr w"
  shows "\<exists>ys. w = VList ys \<and> compactStage (yielding xs Finished) = yielding ys Finished"
  using assms by (auto simp: runListOperation_def structureOperation_def compactStage_def filter_yields)

lemma stage_take_drop:
  assumes "op_name op \<in> {''take'', ''drop''}" "runListOperation l ev xs op = Inr w"
  shows "\<exists>ys. w = VList ys \<and> takeDropStage ev op (yielding xs Finished) = Inr (yielding ys Finished)"
  using assms by (auto simp: runListOperation_def selectionOperation_def takeDropStage_def Let_def ok_then_Inr)

lemma stage_while:
  assumes "op_name op \<in> {''take_while'', ''drop_while''}" "runListOperation l ev xs op = Inr w"
  shows "\<exists>ys. w = VList ys \<and> whileStage ev op (yielding xs Finished) = yielding ys Finished"
  using assms by (auto simp: runListOperation_def selectionOperation_def whileStage_def Let_def ok_then_Inr dest!: while_yields)

lemma stage_take_filter:
  assumes "op_name op = ''take_filter''" "runListOperation l ev xs op = Inr w"
  shows "\<exists>ys. w = VList ys \<and> takeFilterStage ev op (yielding xs Finished) = Inr (yielding ys Finished)"
  using assms by (auto simp: runListOperation_def selectionOperation_def takeFilterStage_def Let_def ok_then_Inr dest!: take_filter_yields)

lemma stage_slice:
  assumes "op_name op = ''slice''" "runListOperation l ev xs op = Inr w"
  shows "\<exists>ys. w = VList ys \<and> sliceStage ev op (yielding xs Finished) = Inr (yielding ys Finished)"
proof -
  obtain a b start finish where ab: "resolveNamedOperand ev op ''start'' = Inr a" "resolveNamedOperand ev op ''end'' = Inr b"
      "toInt a ''start'' = Inr start" "toInt b ''end'' = Inr finish"
    and w: "w = VList (if max 0 (min start (int (length xs))) \<ge> max 0 (min finish (int (length xs))) then []
      else drop (nat (max 0 (min start (int (length xs))))) (take (nat (max 0 (min finish (int (length xs))))) xs))"
    using assms by (auto simp: runListOperation_def selectionOperation_def Let_def ok_then_Inr split: if_splits)
  show ?thesis
  proof (cases "max 0 start \<ge> max 0 finish")
    case True
    then show ?thesis using w ab by (auto simp: sliceStage_def)
  next
    case False
    then have "sliceStage ev op (yielding xs Finished) = Inr (yielding (drop (nat (max 0 start)) (take (nat (max 0 finish)) xs)) Finished)"
      using ab slice_yields [of 0 "nat (max 0 finish)" "nat (max 0 start)" xs] by (simp add: sliceStage_def)
    moreover have "drop (nat (max 0 start)) (take (nat (max 0 finish)) xs) =
        (if max 0 (min start (int (length xs))) \<ge> max 0 (min finish (int (length xs))) then []
         else drop (nat (max 0 (min start (int (length xs))))) (take (nat (max 0 (min finish (int (length xs))))) xs))"
      using False by (cases "start \<le> int (length xs)"; cases "finish \<le> int (length xs)") (auto simp: min_def max_def)
    ultimately show ?thesis using w by simp
  qed
qed

lemma stage_unique:
  assumes "op_name op \<in> {''unique'', ''unique_by'', ''unique_map''}" "runListOperation l ev xs op = Inr w"
  shows "\<exists>ys. w = VList ys \<and> unique_stream ev op {||} 0 (yielding xs Finished) = yielding ys Finished"
  using assms by (auto simp: runListOperation_def uniquenessOperation_def ok_then_Inr dest!: unique_yields [OF assms(1)])

lemma stage_without:
  assumes "op_name op \<in> {''without'', ''without_by''}" "runListOperation l ev xs op = Inr w"
  shows "\<exists>ys. w = VList ys \<and> withoutStage ev op (yielding xs Finished) = Inr (yielding ys Finished)"
  using assms by (auto simp: runListOperation_def setOperation_def withoutStage_def withoutValues_def compared_by_def Let_def ok_then_Inr
      intro!: yields_gather)

lemma stage_concat:
  assumes "op_name op = ''concat''" "runListOperation l ev xs op = Inr w"
  shows "\<exists>ys. w = VList ys \<and> concatStage ev op (yielding xs Finished) = Inr (yielding ys Finished)"
  using assms by (auto simp: runListOperation_def segmentationOperation_def appendLists_def concatStage_def Let_def ok_then_Inr)

lemma stage_yields:
  assumes "lo_documented l" "stream_stage ev op (yielding xs Finished) = Some r" "runListOperation l ev xs op = Inr w"
  shows "\<exists>ys. w = VList ys \<and> r = Inr (yielding ys Finished)"
proof -
  consider (filter) "op_name op \<in> {''filter'', ''reject''}" | (map) "op_name op = ''map''" | (flat_map) "op_name op = ''flat_map''"
    | (filter_map) "op_name op \<in> {''filter_map'', ''reject_map''}" | (flatten) "op_name op = ''flatten''"
    | (compact) "op_name op = ''compact''" | (clone) "op_name op = ''clone''" | (take) "op_name op \<in> {''take'', ''drop''}"
    | (while) "op_name op \<in> {''take_while'', ''drop_while''}" | (take_filter) "op_name op = ''take_filter''" | (slice) "op_name op = ''slice''"
    | (unique) "op_name op \<in> {''unique'', ''unique_by'', ''unique_map''}" | (without) "op_name op \<in> {''without'', ''without_by''}"
    | (concat) "op_name op = ''concat''"
    using assms(2) unfolding stream_stage_def Let_def by (metis option.distinct(1))
  then show ?thesis
  proof cases
    case filter
    then show ?thesis using stage_filter [OF assms(1) filter assms(3)] assms(2) by (auto simp: stream_stage_def)
  next
    case map
    then show ?thesis using stage_map [OF assms(1) map assms(3)] assms(2) by (simp add: stream_stage_def) metis
  next
    case flat_map
    then show ?thesis using stage_flat_map [OF assms(1) flat_map assms(3)] assms(2) by (simp add: stream_stage_def) metis
  next
    case filter_map
    then show ?thesis using stage_filter_map [OF filter_map assms(3)] assms(2) by (auto simp: stream_stage_def)
  next
    case flatten
    then show ?thesis using stage_flatten [OF flatten assms(3)] assms(2) by (simp add: stream_stage_def) metis
  next
    case compact
    then show ?thesis using stage_compact [OF compact assms(3)] assms(2) by (simp add: stream_stage_def) metis
  next
    case clone
    then show ?thesis using assms(2,3) by (auto simp: stream_stage_def runListOperation_def structureOperation_def)
  next
    case take
    then show ?thesis using stage_take_drop [OF take assms(3)] assms(2) by (auto simp: stream_stage_def)
  next
    case while
    then show ?thesis using stage_while [OF while assms(3)] assms(2) by (auto simp: stream_stage_def)
  next
    case take_filter
    then show ?thesis using stage_take_filter [OF take_filter assms(3)] assms(2) by (auto simp: stream_stage_def)
  next
    case slice
    then show ?thesis using stage_slice [OF slice assms(3)] assms(2) by (auto simp: stream_stage_def)
  next
    case unique
    then show ?thesis using stage_unique [OF unique assms(3)] assms(2) by (auto simp: stream_stage_def)
  next
    case without
    then show ?thesis using stage_without [OF without assms(3)] assms(2) by (auto simp: stream_stage_def)
  next
    case concat
    then show ?thesis using stage_concat [OF concat assms(3)] assms(2) by (auto simp: stream_stage_def)
  qed
qed

lemma sink_prefix:
  assumes "op_name op \<in> {''first'', ''first_or'', ''first_or_empty''}"
  shows "runListOperation l ev (take 1 xs) op = runListOperation l ev xs op"
  using assms by (cases xs) (auto simp: runListOperation_def searchOperation_def first_or_last_def)

lemma sink_find:
  assumes "op_name op \<in> {''find'', ''find_index''}" "runListOperation l ev xs op = Inr w"
  shows "findSink ev op (yielding xs Finished) = Inr w"
proof -
  have "searchOperation ev xs op = Inr w" using assms by (auto simp: runListOperation_def)
  then obtain r where r: "search_items (\<lambda>item index. evaluateItemBool ev op ''expr'' item index) (indexed xs) = Inr r"
      "w = (case r of Some (index, item) \<Rightarrow> found_record (op_name op \<noteq> ''find'') item (int index) True
         | None \<Rightarrow> found_record (op_name op \<noteq> ''find'') VNil (-1) False)"
    using assms(1) by (auto simp: searchOperation_def Let_def ok_then_Inr)
  have same: "(op_name op = ''find_index'') = (op_name op \<noteq> ''find'')" using assms(1) by auto
  show ?thesis using r(1) unfolding r(2) findSink_def same by (simp add: find_yields indexed_from)
qed

lemma sink_quantifier:
  assumes "op_name op \<in> {''contains_by'', ''every_by'', ''some_by'', ''none_by''}" "runListOperation l ev xs op = Inr w"
  shows "ok_then (quantifier_stream ev op False 0 (yielding xs Finished)) (\<lambda>b. Inr (VBool b)) = Inr w"
proof -
  have "ok_then (predicateQuantifier ev xs op) (\<lambda>b. Inr (VBool b)) = Inr w"
    using assms by (auto simp: runListOperation_def setOperation_def)
  then show ?thesis using quantifier_stream_yields [OF assms(1), of ev 0 xs]
    by (auto simp: predicateQuantifier_def ok_then_Inr indexed_from)
qed

lemma sink_match:
  assumes "op_name op \<in> {''contains'', ''index_of'', ''count''}" "runListOperation l ev xs op = Inr w"
  shows "matchSink ev op (yielding xs Finished) = Inr w"
proof -
  consider (contains) "op_name op = ''contains''" | (index_of) "op_name op = ''index_of''" | (counting) "op_name op = ''count''"
    using assms(1) by auto
  then show ?thesis
  proof cases
    case contains
    then have "setOperation ev xs op = Inr w" using assms(2) by (simp add: runListOperation_def)
    then show ?thesis using contains contains_yields [OF contains]
      by (auto simp: setOperation_def listContains_def matchSink_def Let_def ok_then_Inr)
  next
    case index_of
    then have "searchOperation ev xs op = Inr w" using assms(2) by (simp add: runListOperation_def)
    then show ?thesis using index_of index_yields [OF index_of, of ev _ 0 xs]
      by (auto simp: searchOperation_def matchSink_def Let_def ok_then_Inr indexed_from)
  next
    case counting
    then have "aggregationOperation ev xs op = Inr w" using assms(2) by (simp add: runListOperation_def)
    then show ?thesis using counting count_yields [OF counting]
      by (auto simp: aggregationOperation_def matchSink_def Let_def ok_then_Inr)
  qed
qed

lemma sink_count_by:
  assumes "op_name op = ''count_by''" "runListOperation l ev xs op = Inr w"
  shows "countBySink ev op 0 0 (yielding xs Finished) = Inr w"
proof -
  have "aggregationOperation ev xs op = Inr w" using assms by (simp add: runListOperation_def)
  then show ?thesis using assms(1) by (auto simp: aggregationOperation_def ok_then_Inr dest!: count_by_yields [where n = 0])
qed

lemma sink_yields:
  assumes "stream_sink l ev op (yielding xs Finished) = Some r" "runListOperation l ev xs op = Inr w"
  shows "r = Inr w"
proof -
  consider (first) "op_name op \<in> {''first'', ''first_or'', ''first_or_empty''}" | (find) "op_name op \<in> {''find'', ''find_index''}"
    | (quantifier) "op_name op \<in> {''contains_by'', ''some_by'', ''none_by'', ''every_by''}"
    | (match) "op_name op \<in> {''contains'', ''index_of'', ''count''}" | (count_by) "op_name op = ''count_by''"
    using assms(1) unfolding stream_sink_def Let_def by (metis option.distinct(1))
  then show ?thesis
  proof cases
    case first
    then show ?thesis using sink_prefix [OF first, of l ev xs] assms by (auto simp: stream_sink_def prefixSink_def)
  next
    case find
    then show ?thesis using sink_find [OF find assms(2)] assms(1) by (auto simp: stream_sink_def)
  next
    case quantifier
    then have "op_name op \<in> {''contains_by'', ''every_by'', ''some_by'', ''none_by''}" by auto
    from sink_quantifier [OF this assms(2)] show ?thesis using quantifier assms(1) by (auto simp: stream_sink_def)
  next
    case match
    then show ?thesis using sink_match [OF match assms(2)] assms(1) by (auto simp: stream_sink_def)
  next
    case count_by
    then show ?thesis using sink_count_by [OF count_by assms(2)] assms(1) by (simp add: stream_sink_def)
  qed
qed

subsection \<open>Pipelines\<close>

text \<open>A flow that stands for a value\<close>

definition stands_for :: "pipeline_value \<Rightarrow> val \<Rightarrow> bool" where
  "stands_for flow v \<longleftrightarrow> flow = Value v \<or> (\<exists>xs. v = VList xs \<and> flow = Items (yielding xs Finished))"

lemma listStream_yields: "ev_ctx ev = None \<Longrightarrow> listStream ev xs = yielding xs Finished"
  by (induction xs) (simp_all add: checkContext_def)

lemma enter_flow:
  assumes "stands_for flow v" "accepts_kind op (kindOf v)" "ev_ctx ev = None"
  shows "enter_operation ev position op flow =
    Inr (case v of VList xs \<Rightarrow> Items (yielding xs Finished) | _ \<Rightarrow> Value v)"
  using assms unfolding stands_for_def enter_operation_def
  by (auto simp: listStream_yields kindOf_iff split: val.splits)

lemma step_streams:
  assumes "lo_documented l" "stands_for flow v" "eager_step l ev position op v = Inr w"
  shows "\<exists>flow'. pipeline_step l ev position op flow = Inr flow' \<and> stands_for flow' w"
proof -
  have live: "ev_ctx ev = None" "checkContext ev = Inr ()" and accepted: "accepts_kind op (kindOf v)"
    and ran: "runOperation l ev v op = Inr w"
    using assms(3) by (auto simp: eager_step_def ok_then_Inr checkContext_def run_labelled_def split: option.splits if_splits)
  note enter = enter_flow [OF assms(2) accepted live(1), of position]
  show ?thesis
  proof (cases "\<exists>xs. v = VList xs")
    case False
    then have "enter_operation ev position op flow = Inr (Value v)" using enter by (auto split: val.splits)
    then show ?thesis using live ran by (simp add: pipeline_step_def run_labelled_def stands_for_def)
  next
    case True
    then obtain xs where xs: "v = VList xs" by blast
    then have run: "runListOperation l ev xs op = Inr w"
      using ran accepted by (auto simp: runOperation_def accepts_kind_def)
    have items: "enter_operation ev position op flow = Inr (Items (yielding xs Finished))" using enter xs by simp
    show ?thesis
    proof (cases "stream_stage ev op (yielding xs Finished)")
      case (Some r)
      then obtain ys where "w = VList ys" "r = Inr (yielding ys Finished)" using stage_yields [OF assms(1) Some run] by blast
      then show ?thesis using live items Some by (simp add: pipeline_step_def stands_for_def)
    next
      case None
      then show ?thesis
      proof (cases "stream_sink l ev op (yielding xs Finished)")
        case (Some r)
        then show ?thesis using sink_yields [OF Some run] live items None by (simp add: pipeline_step_def stands_for_def)
      next
        case no_sink: None
        then show ?thesis using live items None ran xs by (simp add: pipeline_step_def stands_for_def run_labelled_def collected_items_def)
      qed
    qed
  qed
qed

lemma pipeline_streams_facts:
  "lo_documented l \<Longrightarrow> eager_pipeline l ev position ops v = Inr w \<Longrightarrow> stands_for flow v \<Longrightarrow> runPipeline l ev position ops flow = Inr w"
proof (induction ops arbitrary: position v flow)
  case Nil
  then show ?case by (auto simp: stands_for_def collected_items_def)
next
  case (Cons op ops)
  then obtain u where u: "eager_step l ev position op v = Inr u" "eager_pipeline l ev (Suc position) ops u = Inr w"
    by (auto simp: ok_then_Inr)
  then obtain flow' where "pipeline_step l ev position op flow = Inr flow'" "stands_for flow' u"
    using step_streams [OF Cons.prems(1,3)] by blast
  then show ?case using Cons.IH [OF Cons.prems(1) u(2)] by simp
qed

subsection \<open>Kinds\<close>

text \<open>Parsing keeps the name and the descriptor of an operation.\<close>

definition same_operation :: "operation \<Rightarrow> operation \<Rightarrow> bool" where
  "same_operation op op' \<longleftrightarrow> op_name op' = op_name op \<and> op_descriptor op' = op_descriptor op"

lemma same_trans: "same_operation a b \<Longrightarrow> same_operation b c \<Longrightarrow> same_operation a c"
  by (simp add: same_operation_def)

lemma same_refl: "same_operation op op"
  by (simp add: same_operation_def)

lemma same_addExpression: "addExpression cp field raw names boolean op = Inr op' \<Longrightarrow> same_operation op op'"
  by (auto simp: addExpression_def same_operation_def ok_then_Inr split: option.splits val.splits if_splits)

lemma same_set_operand [simp]: "same_operation op (set_operand name operand op)"
  by (simp add: same_operation_def set_operand_def)

lemma same_add_expressions: "add_expressions cp m rest op = Inr op' \<Longrightarrow> same_operation op op'"
proof (induction cp m rest op rule: add_expressions.induct)
  case (2 cp m name names boolean rest op)
  then obtain op1 where "addExpression cp name (entry_of m name) names boolean op = Inr op1" "add_expressions cp m rest op1 = Inr op'"
    by (auto simp: ok_then_Inr)
  then show ?case using same_addExpression 2(1) same_trans by blast
qed (simp add: same_operation_def)

lemma same_add_operands: "add_operands cp m names op = Inr op' \<Longrightarrow> same_operation op op'"
proof (induction cp m names op rule: add_operands.induct)
  case (2 cp m name names op)
  show ?case
  proof (cases "fmlookup m name")
    case None
    then show ?thesis using 2 by simp
  next
    case (Some v)
    then obtain operand where operand: "parseOperand cp name v = Inr operand" "add_operands cp m names (set_operand name operand op) = Inr op'"
      using 2(3) by (auto simp: ok_then_Inr)
    show ?thesis using same_trans [OF same_set_operand 2(2) [OF Some operand]] .
  qed
qed (simp add: same_operation_def)

lemma same_parse_with: "parse_operand_list cp m op = Inr op' \<Longrightarrow> same_operation op op'"
  by (auto simp: parse_operand_list_def same_operation_def ok_then_Inr split: val.splits list.splits)

lemma same_sort_order: "sort_order raw op = Inr op' \<Longrightarrow> same_operation op op'"
  by (auto simp: sort_order_def same_operation_def split: if_splits)

lemmas same_parts = same_addExpression same_add_expressions same_add_operands same_parse_with same_sort_order

lemma same_parse_arguments:
  "parseExpressionMap cp raw declared op = Inr op' \<Longrightarrow> same_operation op op'"
  "parseMixedMap cp raw operands declared op = Inr op' \<Longrightarrow> same_operation op op'"
  "parseNamedOperand cp raw name op = Inr op' \<Longrightarrow> same_operation op op'"
  "parseNamedOrDirectOperand cp raw name op = Inr op' \<Longrightarrow> same_operation op op'"
  "parseWith cp raw many op = Inr op' \<Longrightarrow> same_operation op op'"
  "parseWithExpression cp raw field names op = Inr op' \<Longrightarrow> same_operation op op'"
  "parseSingleWithExpression cp raw field names op = Inr op' \<Longrightarrow> same_operation op op'"
  "parseTupleWith cp raw op = Inr op' \<Longrightarrow> same_operation op op'"
  "parseSort raw op = Inr op' \<Longrightarrow> same_operation op op'"
proof -
  show mixed: "parseExpressionMap cp raw declared op = Inr op' \<Longrightarrow> same_operation op op'"
    by (auto simp: parseExpressionMap_def ok_then_Inr dest: same_parts)
  show "parseMixedMap cp raw operands declared op = Inr op' \<Longrightarrow> same_operation op op'"
    by (auto simp: parseMixedMap_def Let_def ok_then_Inr dest!: same_parts intro: same_trans)
  show named: "parseNamedOperand cp raw name op = Inr op' \<Longrightarrow> same_operation op op'"
    by (auto simp: parseNamedOperand_def ok_then_Inr)
  show "parseNamedOrDirectOperand cp raw name op = Inr op' \<Longrightarrow> same_operation op op'"
    using named by (auto simp: parseNamedOrDirectOperand_def ok_then_Inr split: if_splits)
  show "parseWith cp raw many op = Inr op' \<Longrightarrow> same_operation op op'"
    by (auto simp: parseWith_def ok_then_Inr dest: same_parts split: if_splits)
  show listed: "parseWithExpression cp raw field names op = Inr op' \<Longrightarrow> same_operation op op'" for field names
    by (auto simp: parseWithExpression_def ok_then_Inr dest!: same_parts intro: same_trans)
  show "parseSingleWithExpression cp raw field names op = Inr op' \<Longrightarrow> same_operation op op'"
    by (auto simp: parseSingleWithExpression_def ok_then_Inr dest!: same_parts intro: same_trans [OF same_set_operand])
  show "parseTupleWith cp raw op = Inr op' \<Longrightarrow> same_operation op op'"
    using listed by (simp add: parseTupleWith_def)
  show "parseSort raw op = Inr op' \<Longrightarrow> same_operation op op'"
    by (auto simp: parseSort_def same_operation_def dest: same_sort_order split: if_splits)
qed

lemma same_parseSortBy: "parseSortBy cp raw op = Inr op' \<Longrightarrow> same_operation op op'"
proof (cases "\<exists>s. raw = VStr s")
  case True
  moreover assume "parseSortBy cp raw op = Inr op'"
  ultimately show ?thesis by (auto simp: parseSortBy_def same_operation_def dest!: same_addExpression)
next
  case False
  moreover assume "parseSortBy cp raw op = Inr op'"
  moreover from False have "parseSortBy cp raw op = ok_then (exactMapping raw [''expr'', ''order''] [''expr'']) (\<lambda>m.
       ok_then (case fmlookup m ''order'' of Some configured \<Rightarrow> sort_order configured op
                | None \<Rightarrow> Inr (op\<lparr>op_argument := VStr ''asc''\<rparr>))
         (addExpression cp ''expr'' (entry_of m ''expr'') itemLocals False))"
    by (cases raw) (simp_all add: parseSortBy_def)
  ultimately obtain m op1 where op1: "addExpression cp ''expr'' (entry_of m ''expr'') itemLocals False op1 = Inr op'"
      "(case fmlookup m ''order'' of Some configured \<Rightarrow> sort_order configured op
        | None \<Rightarrow> Inr (op\<lparr>op_argument := VStr ''asc''\<rparr>)) = Inr op1"
    by (auto simp: ok_then_Inr)
  then have "same_operation op op1"
    by (cases "fmlookup m ''order''") (auto simp: same_operation_def dest!: same_sort_order)
  then show ?thesis using same_addExpression [OF op1(1)] same_trans by blast
qed

lemma if_branches: "(if c then a else b) = r \<Longrightarrow> (a = r \<Longrightarrow> P) \<Longrightarrow> (b = r \<Longrightarrow> P) \<Longrightarrow> P"
  by (cases c) simp_all

lemma same_parse: "parse_arguments cp name argument op = Inr op' \<Longrightarrow> same_operation op op'"
  unfolding parse_arguments_def Let_def
  by (elim if_branches; (erule same_parse_arguments | erule same_parseSortBy | erule same_addExpression | simp))

lemma parsed_descriptor:
  assumes "parseOperation cp index raw = Inr op"
  shows "(op_name op, op_descriptor op) \<in> set descriptors"
proof -
  obtain name argument where entry: "operationEntry raw = Inr (name, argument)"
    using assms by (auto simp: parseOperation_def split: sum.splits)
  then obtain d where d: "map_of descriptors name = Some d"
    using assms by (auto simp: parseOperation_def split: option.splits)
  have "same_operation (new_operation name d argument) op"
    using assms entry d
    by (auto simp: parseOperation_def Let_def ok_then_Inr same_refl dest: same_parse same_parse_arguments same_addExpression split: if_splits)
  then have "op_name op = name" "op_descriptor op = d" by (auto simp: same_operation_def new_operation_def)
  then show ?thesis using map_of_SomeD [OF d] by simp
qed

text \<open>What an operation yields is of the kind its descriptor names.\<close>

lemma structure_list:
  "op_name op \<in> {''replace'', ''replace_all'', ''clone'', ''compact'', ''splice'', ''trim'', ''trim_left'', ''trim_prefix'', ''trim_right'', ''trim_suffix''} \<Longrightarrow>
   structureOperation ev xs op = Inr w \<Longrightarrow> \<exists>ys. w = VList ys"
  by (auto simp: structureOperation_def Let_def ok_then_Inr)

lemma set_list:
  "op_name op \<in> {''union'', ''intersect'', ''intersect_by'', ''without'', ''without_by'', ''without_nth''} \<Longrightarrow>
   setOperation ev xs op = Inr w \<Longrightarrow> \<exists>ys. w = VList ys"
  by (auto simp: setOperation_def Let_def ok_then_Inr)

lemma ordering_list: "op_name op \<in> {''sort'', ''sort_by''} \<Longrightarrow> orderingOperation ev xs op = Inr w \<Longrightarrow> \<exists>ys. w = VList ys"
  by (auto simp: orderingOperation_def Let_def ok_then_Inr)

lemma grouping_kind:
  "groupingOperation ev xs op = Inr w \<Longrightarrow> if op_name op = ''partition_by'' then \<exists>ys. w = VList ys else \<exists>m. w = VMap m"
  by (auto simp: groupingOperation_def ok_then_Inr)

lemma aggregation_kind:
  "aggregationOperation ev xs op = Inr w \<Longrightarrow>
   (op_name op = ''mode'' \<longrightarrow> (\<exists>ys. w = VList ys)) \<and> (op_name op \<in> {''count_values'', ''count_values_by''} \<longrightarrow> (\<exists>m. w = VMap m))"
  by (auto simp: aggregationOperation_def ok_then_Inr)

lemma dispatch_list:
  "op_name op \<in> set [''filter'', ''map'', ''flat_map'', ''filter_map'', ''reject'', ''reject_map'',
      ''unique'', ''unique_by'', ''unique_map'', ''find_uniques'', ''find_uniques_by'', ''find_duplicates'', ''find_duplicates_by'',
      ''chunk'', ''flatten'', ''concat'', ''window'', ''sliding'', ''interleave'', ''fill'',
      ''drop'', ''drop_right'', ''drop_while'', ''drop_right_while'', ''drop_by_index'', ''take'', ''take_while'', ''take_filter'',
      ''subset'', ''slice'', ''zip'', ''zip_with'', ''unzip'', ''unzip_with'', ''cross_join'', ''cross_join_with''] \<Longrightarrow>
    runListOperation l ev xs op = Inr w \<Longrightarrow> \<exists>ys. w = VList ys"
  by (auto simp: runListOperation_def Let_def)

lemma dispatch_families:
  "op_name op \<in> {''group_by'', ''group_by_map'', ''partition_by'', ''key_by'', ''associate'', ''filter_to_map'', ''keyify''} \<Longrightarrow>
     runListOperation l ev xs op = groupingOperation ev xs op"
  "op_name op \<in> {''replace'', ''replace_all'', ''clone'', ''compact'', ''splice'', ''trim'', ''trim_left'', ''trim_prefix'', ''trim_right'', ''trim_suffix''} \<Longrightarrow>
     runListOperation l ev xs op = structureOperation ev xs op"
  "op_name op \<in> {''union'', ''intersect'', ''intersect_by'', ''without'', ''without_by'', ''without_nth''} \<Longrightarrow>
     runListOperation l ev xs op = setOperation ev xs op"
  "op_name op \<in> {''sort'', ''sort_by''} \<Longrightarrow> runListOperation l ev xs op = orderingOperation ev xs op"
  "op_name op \<in> {''mode'', ''count_values'', ''count_values_by''} \<Longrightarrow> runListOperation l ev xs op = aggregationOperation ev xs op"
  "op_name op = ''from_entries'' \<Longrightarrow> runListOperation l ev xs op = ok_then (fromEntries xs) (\<lambda>m. Inr (VMap m))"
  by ((elim insertE emptyE)?; simp add: runListOperation_def Let_def)+

lemma list_results:
  assumes "op_name op \<in> set list_to_list" "runListOperation l ev xs op = Inr w"
  shows "\<exists>ys. w = VList ys"
proof -
  consider (listed) "op_name op \<in> set [''filter'', ''map'', ''flat_map'', ''filter_map'', ''reject'', ''reject_map'',
      ''unique'', ''unique_by'', ''unique_map'', ''find_uniques'', ''find_uniques_by'', ''find_duplicates'', ''find_duplicates_by'',
      ''chunk'', ''flatten'', ''concat'', ''window'', ''sliding'', ''interleave'', ''fill'',
      ''drop'', ''drop_right'', ''drop_while'', ''drop_right_while'', ''drop_by_index'', ''take'', ''take_while'', ''take_filter'',
      ''subset'', ''slice'', ''zip'', ''zip_with'', ''unzip'', ''unzip_with'', ''cross_join'', ''cross_join_with'']"
    | (structured) "op_name op \<in> {''replace'', ''replace_all'', ''clone'', ''compact'', ''splice'', ''trim'', ''trim_left'', ''trim_prefix'',
        ''trim_right'', ''trim_suffix''}"
    | (sets) "op_name op \<in> {''union'', ''intersect'', ''intersect_by'', ''without'', ''without_by'', ''without_nth''}"
    | (ordering) "op_name op \<in> {''sort'', ''sort_by''}"
    | (grouping) "op_name op = ''partition_by''" | (counting) "op_name op = ''mode''"
    using assms(1) unfolding list_to_list_def set_simps by blast
  then show ?thesis
  proof cases
    case listed
    then show ?thesis using assms(2) by (rule dispatch_list)
  next
    case structured
    then show ?thesis using assms(2) structure_list dispatch_families(2) by metis
  next
    case sets
    then show ?thesis using assms(2) set_list dispatch_families(3) by metis
  next
    case ordering
    then show ?thesis using assms(2) ordering_list dispatch_families(4) by metis
  next
    case grouping
    then show ?thesis using assms(2) grouping_kind [of ev xs op w] dispatch_families(1) [of op l ev xs] by simp
  next
    case counting
    then show ?thesis using assms(2) aggregation_kind [of ev xs op w] dispatch_families(5) [of op l ev xs] by simp
  qed
qed

lemma object_results:
  assumes "op_name op \<in> set list_to_object \<or> op_name op = ''from_entries''" "runListOperation l ev xs op = Inr w"
  shows "\<exists>m. w = VMap m"
proof -
  consider (grouping) "op_name op \<in> {''group_by'', ''group_by_map'', ''key_by'', ''associate'', ''filter_to_map'', ''keyify''}"
    | (counting) "op_name op \<in> {''count_values'', ''count_values_by''}" | (entries) "op_name op = ''from_entries''"
    using assms(1) unfolding list_to_object_def set_simps by blast
  then show ?thesis
  proof cases
    case grouping
    then show ?thesis using assms(2) grouping_kind [of ev xs op w] dispatch_families(1) [of op l ev xs] by auto
  next
    case counting
    then show ?thesis using assms(2) aggregation_kind [of ev xs op w] dispatch_families(5) [of op l ev xs] by auto
  next
    case entries
    then show ?thesis using assms(2) dispatch_families(6) [of op l ev xs] by (auto simp: ok_then_Inr)
  qed
qed

lemma object_list_results: "op_name op \<in> set object_to_list \<Longrightarrow> runObjectOperation ev m op = Inr w \<Longrightarrow> \<exists>ys. w = VList ys"
  by (auto simp: object_to_list_def runObjectOperation_def Let_def ok_then_Inr)

lemma object_object_results: "op_name op \<in> set object_to_object \<Longrightarrow> runObjectOperation ev m op = Inr w \<Longrightarrow> \<exists>m'. w = VMap m'"
  by (auto simp: object_to_object_def runObjectOperation_def Let_def ok_then_Inr)

lemma descriptor_members:
  assumes "(name, d) \<in> set descriptors"
  shows "de_result d = KindList \<Longrightarrow> de_accept d = [AcceptList] \<and> name \<in> set list_to_list \<or> de_accept d = [AcceptObject] \<and> name \<in> set object_to_list"
    and "de_result d = KindObject \<Longrightarrow> de_accept d = [AcceptList] \<and> (name \<in> set list_to_object \<or> name = ''from_entries'') \<or>
      de_accept d = [AcceptObject] \<and> name \<in> set object_to_object"
  using assms by (auto simp: descriptors_def with_descriptor_def)

lemma result_kind:
  assumes "(op_name op, op_descriptor op) \<in> set descriptors" "runOperation l ev v op = Inr w"
    and "de_result (op_descriptor op) \<in> {KindList, KindObject}"
  shows "kindOf w = de_result (op_descriptor op)"
proof -
  note members = descriptor_members [OF assms(1)]
  have ran: "(AcceptList \<in> set (de_accept (op_descriptor op)) \<and> (\<exists>xs. runListOperation l ev xs op = Inr w)) \<or>
      (AcceptObject \<in> set (de_accept (op_descriptor op)) \<and> (\<exists>m. runObjectOperation ev m op = Inr w))"
    using assms(2) by (auto simp: runOperation_def ok_then_Inr split: if_splits)
  show ?thesis
  proof (cases "de_result (op_descriptor op) = KindList")
    case True
    then show ?thesis using members(1) ran list_results object_list_results by fastforce
  next
    case False
    then have "de_result (op_descriptor op) = KindObject" using assms(3) by simp
    then show ?thesis using members(2) ran object_results object_object_results by fastforce
  qed
qed

lemma descriptor_kinds: "(name, d) \<in> set descriptors \<Longrightarrow> de_result d \<noteq> KindUnknown"
  by (auto simp: descriptors_def with_descriptor_def)

lemma accepted_operations:
  "parse_operations cp known index raws = Inr ops \<Longrightarrow> k < length ops \<Longrightarrow>
   (op_name (ops ! k), op_descriptor (ops ! k)) \<in> set descriptors \<and>
   (known \<noteq> KindUnknown \<longrightarrow> known \<in> {KindList, KindObject} \<and> accepts_kind (ops ! 0) known) \<and>
   (0 < k \<longrightarrow> de_result (op_descriptor (ops ! (k - 1))) \<in> {KindList, KindObject} \<and>
     accepts_kind (ops ! k) (de_result (op_descriptor (ops ! (k - 1)))))"
proof (induction cp known index raws arbitrary: ops k rule: parse_operations.induct)
  case (2 cp known index raw raws)
  from 2(2) obtain op rest where op: "parseOperation cp index raw = Inr op" and ops: "ops = op # rest"
    and known: "known \<notin> {KindScalar, KindRecord}" "known \<noteq> KindUnknown \<longrightarrow> accepts_kind op known"
    and rest: "parse_operations cp (de_result (op_descriptor op)) (Suc index) raws = Inr rest"
    by (auto simp: ok_then_Inr split: if_splits)
  have entry: "(op_name op, op_descriptor op) \<in> set descriptors" using parsed_descriptor [OF op] .
  have first: "known \<noteq> KindUnknown \<longrightarrow> known \<in> {KindList, KindObject} \<and> accepts_kind (ops ! 0) known"
    using known ops by (cases known) auto
  show ?case
  proof (cases k)
    case 0
    then show ?thesis using entry first ops by simp
  next
    case (Suc j)
    have "(op_name (rest ! j), op_descriptor (rest ! j)) \<in> set descriptors \<and>
        (de_result (op_descriptor op) \<noteq> KindUnknown \<longrightarrow>
           de_result (op_descriptor op) \<in> {KindList, KindObject} \<and> accepts_kind (rest ! 0) (de_result (op_descriptor op))) \<and>
        (0 < j \<longrightarrow> de_result (op_descriptor (rest ! (j - 1))) \<in> {KindList, KindObject} \<and>
           accepts_kind (rest ! j) (de_result (op_descriptor (rest ! (j - 1)))))"
      by (rule 2(1) [OF op known(1) _ rest]) (use known 2(3) Suc ops in auto)
    then show ?thesis using first ops Suc descriptor_kinds [OF entry] by (cases j) auto
  qed
qed simp

lemma eager_snoc:
  "eager_pipeline l ev position (ops @ [op]) v = ok_then (eager_pipeline l ev position ops v) (eager_step l ev (position + length ops) op)"
  by (induction ops arbitrary: position v) (simp_all add: ok_then_assoc ok_then_def split: sum.split)

text \<open>C38: A transform step that is accepted is well-kinded. Only its last operation can yield a scalar or a record, and
  whatever the operations before it computed, every operation but the first is handed a value it consumes: a list where it
  works on lists, an object where it works on objects.\<close>

theorem pipeline_kinds:
  assumes "new_pipeline cp file_error path_error cfg = Inr (program, ops)" "0 < k" "k < length ops"
    and "eager_pipeline l ev 0 (take k ops) v = Inr w"
  shows "kindOf w = de_result (op_descriptor (ops ! (k - 1))) \<and> kindOf w \<in> {KindList, KindObject} \<and> accepts_kind (ops ! k) (kindOf w)"
proof -
  obtain known where parsed: "parse_operations cp known 0 (tc_operations cfg) = Inr ops"
    using assms(1) by (auto simp: new_pipeline_def ok_then_Inr split: if_splits option.splits)
  let ?op = "ops ! (k - 1)"
  have here: "de_result (op_descriptor ?op) \<in> {KindList, KindObject}" "accepts_kind (ops ! k) (de_result (op_descriptor ?op))"
    using accepted_operations [OF parsed assms(3)] assms(2) by auto
  have entry: "(op_name ?op, op_descriptor ?op) \<in> set descriptors"
    using accepted_operations [OF parsed, of "k - 1"] assms(3) by simp
  obtain j where j: "k = Suc j" using assms(2) by (cases k) simp
  then have "take k ops = take (k - 1) ops @ [?op]" using assms(3) take_Suc_conv_app_nth [of j ops] by simp
  then obtain u where "eager_step l ev (k - 1) ?op u = Inr w"
    using assms(3,4) by (auto simp: eager_snoc ok_then_Inr)
  then have "runOperation l ev u ?op = Inr w" by (auto simp: eager_step_def run_labelled_def ok_then_Inr split: if_splits)
  then have "kindOf w = de_result (op_descriptor ?op)" using result_kind [OF entry] here(1) by blast
  then show ?thesis using here by simp
qed

subsection \<open>Entries\<close>

lemma fold_entry_records:
  "fold_items (\<lambda>item index result.
     ok_then (label_error (item_label index @ '': expected {key, value}'') (toObject item)) (\<lambda>entry.
       if fcard (fmdom entry) \<noteq> 2 then Inl (Err (item_label index @ '' must contain exactly key and value''))
       else ok_then (stringKey (entry_of entry ''key'') (item_label index @ '' key'')) (\<lambda>key.
         case fmlookup entry ''value'' of
           None \<Rightarrow> Inl (Err (item_label index @ '' is missing value''))
         | Some v \<Rightarrow> Inr (fmupd key v result)))) i (map entry_record es) m
   = Inr (fold (\<lambda>(k, v). fmupd k v) es m)"
proof (induction es arbitrary: i m)
  case (Cons e es)
  have "fcard (fmdom (fmap_of_list [(''key'', VStr (fst e)), (''value'', snd e)])) = 2" by (simp add: fcard_finsert)
  then show ?case using Cons by (cases e) (simp add: entry_record_def vmap_of_def entry_of_def)
qed simp

lemma fromEntries_entries: "fromEntries (map entry_record (sorted_entries m)) = Inr m"
  unfolding fromEntries_def fold_entry_records fold_sorted_entries by (rule refl)

subsection \<open>Properties\<close>

text \<open>C37: The lazy pipeline answers whatever running every operation on the whole list before it answers, for every
  pipeline and every source, a list in memory, a stream of the items of a list or an object. So chaining the stages, pulling
  just the items a take or find needs and never building the lists in between change no result.\<close>

theorem pipeline_streams:
  assumes "lo_documented l" "eager_pipeline l ev 0 ops v = Inr w" "stands_for flow v"
  shows "runPipeline l ev 0 ops flow = Inr w"
  using assms by (rule pipeline_streams_facts)

lemma gather_lo_documented: "lo_documented gather_lo"
  by (simp add: lo_documented_def gather_lo_def)

definition list_operation :: "string \<Rightarrow> value_kind \<Rightarrow> operation" where
  "list_operation name kind = new_operation name \<lparr>de_accept = [AcceptList], de_result = kind\<rparr> VNil"

definition demo_filter :: operation where
  "demo_filter = (list_operation ''filter'' KindList)\<lparr>op_expressions := fmap_of_list
     [(''expr'', \<lparr>ce_label = ''expr'', ce_source = ''item != 1'', ce_locals = itemLocals,
       ce_program = Some (Program ''item != 1'' itemLocals True)\<rparr>)]\<rparr>"

definition demo_unequal :: evaluation where
  "demo_unequal = demo_evaluation\<lparr>ev_run := (\<lambda>p locals. Inr (VBool (fmlookup locals ''item'' \<noteq> Some (VInt 1))))\<rparr>"

theorem pipeline_streams_witness:
  "eager_pipeline gather_lo demo_unequal 0 [demo_filter, list_operation ''first_or_empty'' KindScalar] (VList [VInt 1, VInt 2, VInt 3])
     = Inr (VInt 2) \<and>
   runPipeline gather_lo demo_unequal 0 [demo_filter, list_operation ''first_or_empty'' KindScalar]
     (Items (yielding [VInt 1, VInt 2, VInt 3] Finished)) = Inr (VInt 2)"
proof -
  have eager: "eager_pipeline gather_lo demo_unequal 0 [demo_filter, list_operation ''first_or_empty'' KindScalar]
      (VList [VInt 1, VInt 2, VInt 3]) = Inr (VInt 2)"
    by (simp add: eager_step_def run_labelled_def runOperation_def runListOperation_def accepts_kind_def demo_filter_def
        list_operation_def new_operation_def checkContext_def demo_unequal_def demo_evaluation_def gather_lo_def evaluateItemBool_def
        evaluateItem_def evaluate_compiled_def item_locals_def list_result_def searchOperation_def first_or_last_def Let_def)
  have "stands_for (Items (yielding [VInt 1, VInt 2, VInt 3] Finished)) (VList [VInt 1, VInt 2, VInt 3])"
    by (simp only: stands_for_def) blast
  from pipeline_streams [OF gather_lo_documented eager this] show ?thesis using eager by blast
qed

lemma parsed_names:
  "operationEntry (VStr ''entries'') = Inr (''entries'', VNil)" "operationEntry (VStr ''from_entries'') = Inr (''from_entries'', VNil)"
  "map_of descriptors ''entries'' = Some \<lparr>de_accept = [AcceptObject], de_result = KindList\<rparr>"
  "map_of descriptors ''from_entries'' = Some \<lparr>de_accept = [AcceptList], de_result = KindObject\<rparr>"
  by code_simp+

lemma parse_entries:
  "parse_operations cp KindUnknown 0 [VStr ''entries'', VStr ''from_entries''] =
     Inr [new_operation ''entries'' \<lparr>de_accept = [AcceptObject], de_result = KindList\<rparr> VNil,
          new_operation ''from_entries'' \<lparr>de_accept = [AcceptList], de_result = KindObject\<rparr> VNil]"
  by (simp add: parseOperation_def parsed_names zeroArgumentOperations_def emptyArgument_def accepts_kind_def new_operation_def Let_def)

text \<open>C40: The entries of an object give the object back: the step with the operations entries and from_entries is
  accepted, and on an object it answers that object.\<close>

theorem entries_roundtrip:
  assumes "ev_ctx ev = None"
  shows "\<exists>ops. parse_operations cp KindUnknown 0 [VStr ''entries'', VStr ''from_entries''] = Inr ops \<and>
    runPipeline l ev 0 ops (Value (VMap m)) = Inr (VMap m)"
  using assms unfolding parse_entries
  by (simp add: pipeline_step_def enter_operation_def run_labelled_def runOperation_def runObjectOperation_def runListOperation_def
      accepts_kind_def checkContext_def new_operation_def stream_stage_def stream_sink_def collected_items_def listStream_yields
      fromEntries_entries Let_def)

theorem entries_roundtrip_witness:
  "ev_ctx demo_evaluation = None \<and>
   (\<exists>ops. parse_operations (\<lambda>_ _ _. None) KindUnknown 0 [VStr ''entries'', VStr ''from_entries''] = Inr ops \<and>
     runPipeline gather_lo demo_evaluation 0 ops (Value (vmap_of [(''a'', VInt 1)])) = Inr (vmap_of [(''a'', VInt 1)]))"
proof -
  have live: "ev_ctx demo_evaluation = None" by (simp add: demo_evaluation_def)
  show ?thesis using live entries_roundtrip [OF live] unfolding vmap_of_def by blast
qed

definition demo_transform :: transform_config where
  "demo_transform = \<lparr>tc_path = ''vars.o'', tc_expr = [], tc_file = [], tc_operations = [VStr ''entries'', VStr ''from_entries''],
     tc_variable = None\<rparr>"

text \<open>Between entries and from_entries of an empty object there is an empty list.\<close>

theorem pipeline_kinds_witness:
  "\<exists>ops. new_pipeline (\<lambda>_ _ _. None) None None demo_transform = Inr (None, ops) \<and> accepts_kind (ops ! 1) (kindOf (VList []))"
proof -
  obtain ops where ops: "new_pipeline (\<lambda>_ _ _. None) None None demo_transform = Inr (None, ops)" "length ops = 2"
      "take 1 ops = [new_operation ''entries'' \<lparr>de_accept = [AcceptObject], de_result = KindList\<rparr> VNil]"
    by (simp add: new_pipeline_def demo_transform_def parse_entries del: parse_operations.simps)
  have "eager_pipeline gather_lo demo_evaluation 0 (take 1 ops) (VMap fmempty) = Inr (VList [])"
    unfolding ops(3)
    by (simp add: eager_step_def run_labelled_def runOperation_def runObjectOperation_def accepts_kind_def checkContext_def new_operation_def
        demo_evaluation_def sorted_entries_def sorted_list_of_fset.rep_eq List.map_filter_def Let_def)
  from pipeline_kinds [OF ops(1) _ _ this] show ?thesis using ops by auto
qed

end
